(* ===== verification/Prelude.thy ===== *)
theory Prelude
  imports Main
begin

text \<open>
  Shared ground of the development: the ways a run of procenv can stop before its end
  (\<open>cerror\<close>), the result type and its sequencing, machine-integer helpers, C memory
  blocks as lists of cells with bounds-checked access, and the generic lemmas on them.

  Every routine of the program that can stop is a function into \<open>cerror + 'a\<close>:
  \<^item> \<open>Die\<close> is the \<^verbatim>\<open>die\<close> macro (\<^verbatim>\<open>output.h\<close>): a message and
    \<^verbatim>\<open>exit (EXIT_FAILURE)\<close>;
  \<^item> \<open>Bug\<close> and \<open>ExitFailure\<close> are the \<^verbatim>\<open>bug\<close> macro and the direct
    \<^verbatim>\<open>exit (EXIT_FAILURE)\<close> of \<^verbatim>\<open>_show_output\<close>;
  \<^item> \<open>AssertFail\<close> is a failing \<^verbatim>\<open>assert\<close>;
  \<^item> \<open>NotReached\<close> is \<^verbatim>\<open>assert_not_reached\<close>;
  \<^item> \<open>OutOfBounds\<close>, \<open>NullDeref\<close>, \<open>UseAfterFree\<close> and \<open>SignedOverflow\<close> are
    undefined behaviour of C;
  \<^item> \<open>Diverges\<close> is a loop that never ends.
\<close>

section \<open>Results\<close>

datatype cerror =
    Die string
  | Bug string
  | ExitFailure string
  | AssertFail
  | NotReached
  | OutOfBounds
  | NullDeref
  | UseAfterFree
  | SignedOverflow
  | Diverges

type_synonym 'a res = "cerror + 'a"

definition bindE :: "'a res \<Rightarrow> ('a \<Rightarrow> 'b res) \<Rightarrow> 'b res" where
  "bindE m f = (case m of Inl e \<Rightarrow> Inl e | Inr x \<Rightarrow> f x)"

text \<open>\<open>guardE b e m\<close> stops with \<open>e\<close> unless \<open>b\<close> holds.\<close>

definition guardE :: "bool \<Rightarrow> cerror \<Rightarrow> 'a res \<Rightarrow> 'a res" where
  "guardE b e m = (if b then m else Inl e)"

text \<open>A statement sequence: each statement takes the state and returns the next one.\<close>

type_synonym 's stmt = "'s \<Rightarrow> 's res"

primrec do_all :: "'s stmt list \<Rightarrow> 's stmt" where
  "do_all [] s = Inr s"
| "do_all (a # as) s = bindE (a s) (do_all as)"

text \<open>A loop that computes one value per element and stops at the first error.\<close>

primrec map_res :: "('a \<Rightarrow> 'b res) \<Rightarrow> 'a list \<Rightarrow> 'b list res" where
  "map_res f [] = Inr []"
| "map_res f (x # xs) = bindE (f x) (\<lambda>y. bindE (map_res f xs) (\<lambda>ys. Inr (y # ys)))"

definition is_ok :: "'a res \<Rightarrow> bool" where
  "is_ok r = (case r of Inl _ \<Rightarrow> False | Inr _ \<Rightarrow> True)"

lemma bindE_simps [simp]:
  "bindE (Inl e) f = Inl e"
  "bindE (Inr x) f = f x"
  by (simp_all add: bindE_def)

lemma bindE_Inr_iff:
  "bindE m f = Inr y \<longleftrightarrow> (\<exists>x. m = Inr x \<and> f x = Inr y)"
  by (cases m) auto

lemma guardE_simps [simp]:
  "guardE True e m = m"
  "guardE False e m = Inl e"
  by (simp_all add: guardE_def)

lemma guardE_Inr_iff: "guardE b e m = Inr y \<longleftrightarrow> b \<and> m = Inr y"
  by (simp add: guardE_def)

lemma bindE_assoc [simp]: "bindE (bindE m f) g = bindE m (\<lambda>x. bindE (f x) g)"
  by (cases m) auto

lemma bindE_cong [fundef_cong]:
  "m = m' \<Longrightarrow> (\<And>x. m' = Inr x \<Longrightarrow> f x = g x) \<Longrightarrow> bindE m f = bindE m' g"
  by (cases m') auto

lemma do_all_append [simp]: "do_all (as @ bs) s = bindE (do_all as s) (do_all bs)"
proof (induction as arbitrary: s)
  case Nil
  show ?case by simp
next
  case (Cons a as)
  then show ?case by (cases "a s") auto
qed

lemma map_res_Inr: "(\<And>x. x \<in> set xs \<Longrightarrow> f x = Inr (g x)) \<Longrightarrow> map_res f xs = Inr (map g xs)"
  by (induction xs) simp_all

lemma is_ok_simps [simp]: "\<not> is_ok (Inl e)" "is_ok (Inr x)"
  by (simp_all add: is_ok_def)

lemma is_ok_iff: "is_ok r \<longleftrightarrow> (\<exists>x. r = Inr x)"
  by (cases r) auto

section \<open>Machine integers\<close>

text \<open>\<^verbatim>\<open>int\<close>: 32 bits; an addition that leaves the range is undefined in C.\<close>

definition int_range :: "int \<Rightarrow> bool" where
  "int_range x \<longleftrightarrow> - (2 ^ 31) \<le> x \<and> x < 2 ^ 31"

definition add_int :: "int \<Rightarrow> int \<Rightarrow> int res" where
  "add_int a b = (if int_range (a + b) then Inr (a + b) else Inl SignedOverflow)"

text \<open>\<^verbatim>\<open>size_t\<close> subtraction on 64 bits: it wraps around below zero.\<close>

definition size_sub :: "nat \<Rightarrow> nat \<Rightarrow> nat" where
  "size_sub a b = (if b \<le> a then a - b else 2 ^ 64 + a - b)"

lemma size_sub_le [simp]: "b \<le> a \<Longrightarrow> size_sub a b = a - b"
  by (simp add: size_sub_def)

section \<open>Memory blocks\<close>

text \<open>
  A block of memory is the list of its cells; its length is the allocated size in
  elements. \<open>rd\<close> and \<open>wr\<close> are an access through a pointer into the block.
\<close>

definition rd :: "'a list \<Rightarrow> nat \<Rightarrow> 'a res" where
  "rd b i = (if i < length b then Inr (b ! i) else Inl OutOfBounds)"

definition wr :: "'a list \<Rightarrow> nat \<Rightarrow> 'a \<Rightarrow> 'a list res" where
  "wr b i v = (if i < length b then Inr (b[i := v]) else Inl OutOfBounds)"

text \<open>Write consecutive cells from index \<open>i\<close>.\<close>

fun wr_list :: "'a list \<Rightarrow> nat \<Rightarrow> 'a list \<Rightarrow> 'a list res" where
  "wr_list b i [] = Inr b"
| "wr_list b i (v # vs) = bindE (wr b i v) (\<lambda>b'. wr_list b' (Suc i) vs)"

text \<open>
  \<open>str_end z b i\<close> walks from index \<open>i\<close> to the first terminator \<open>z\<close>, as
  \<^verbatim>\<open>strlen\<close>, \<^verbatim>\<open>wcslen\<close> and the \<^verbatim>\<open>cat\<close> functions do.
\<close>

function str_end :: "'a \<Rightarrow> 'a list \<Rightarrow> nat \<Rightarrow> nat res" where
  "str_end z b i =
     (if i < length b then (if b ! i = z then Inr i else str_end z b (Suc i))
      else Inl OutOfBounds)"
  by pat_completeness auto
termination
  by (relation "measure (\<lambda>(z, b, i). length b - i)") auto

declare str_end.simps [simp del]

text \<open>The string that starts at index \<open>i\<close> of a block, without its terminator.\<close>

definition str_at :: "'a \<Rightarrow> 'a list \<Rightarrow> nat \<Rightarrow> 'a list res" where
  "str_at z b i = bindE (str_end z b i) (\<lambda>e. Inr (take (e - i) (drop i b)))"

text \<open>
  \<^verbatim>\<open>strncat\<close> and \<^verbatim>\<open>wcsncat\<close> at index \<open>i\<close>: find the terminator, write at most
  \<open>n\<close> elements of the source string \<open>src\<close> (given without its terminator) and a terminator.
\<close>

definition ncat_at :: "'a \<Rightarrow> 'a list \<Rightarrow> nat \<Rightarrow> 'a list \<Rightarrow> nat \<Rightarrow> 'a list res" where
  "ncat_at z b i src n = bindE (str_end z b i) (\<lambda>e. wr_list b e (take n src @ [z]))"

text \<open>
  \<^verbatim>\<open>realloc\<close> to \<open>n\<close> cells: the common prefix is kept, new cells hold an arbitrary value.
\<close>

definition realloc_cells :: "'a \<Rightarrow> 'a list \<Rightarrow> nat \<Rightarrow> 'a list" where
  "realloc_cells junk b n = take n b @ replicate (n - length b) junk"

named_theorems mem_simps

lemma rd_in [mem_simps]: "i < length b \<Longrightarrow> rd b i = Inr (b ! i)"
  by (simp add: rd_def)

lemma rd_out [mem_simps]: "length b \<le> i \<Longrightarrow> rd b i = Inl OutOfBounds"
  by (simp add: rd_def)

lemma wr_in [mem_simps]: "i < length b \<Longrightarrow> wr b i v = Inr (b[i := v])"
  by (simp add: wr_def)

lemma rd_append [mem_simps]: "rd (xs @ y # ys) (length xs) = Inr y"
  by (simp add: rd_def)

lemma wr_append [mem_simps]: "wr (xs @ y # ys) (length xs) v = Inr (xs @ v # ys)"
  by (simp add: wr_def)

lemma wr_list_append [mem_simps]:
  "length vs \<le> length ys \<Longrightarrow>
   wr_list (xs @ ys) (length xs) vs = Inr (xs @ vs @ drop (length vs) ys)"
proof (induction vs arbitrary: xs ys)
  case Nil
  then show ?case by simp
next
  case (Cons v vs)
  then obtain y ys' where ys: "ys = y # ys'" by (cases ys) auto
  with Cons.prems have "length vs \<le> length ys'" by simp
  then have "wr_list ((xs @ [v]) @ ys') (length (xs @ [v])) vs =
      Inr ((xs @ [v]) @ vs @ drop (length vs) ys')"
    by (rule Cons.IH)
  then show ?case by (simp add: ys wr_append)
qed

lemma str_end_append [mem_simps]:
  "z \<notin> set s \<Longrightarrow> str_end z (xs @ s @ z # ys) (length xs) = Inr (length xs + length s)"
proof (induction s arbitrary: xs)
  case Nil
  then show ?case by (simp add: str_end.simps [of z "xs @ z # ys"])
next
  case (Cons a s)
  then have "str_end z ((xs @ [a]) @ s @ z # ys) (length (xs @ [a])) =
      Inr (length (xs @ [a]) + length s)"
    by (intro Cons.IH) simp
  with Cons.prems show ?case
    by (auto simp: str_end.simps [of z "xs @ a # s @ z # ys" "length xs"])
qed

lemma str_end_0 [mem_simps]:
  "z \<notin> set s \<Longrightarrow> str_end z (s @ z # ys) 0 = Inr (length s)"
  using str_end_append [of z s "[]" ys] by simp

lemma str_at_append [mem_simps]:
  "z \<notin> set s \<Longrightarrow> str_at z (xs @ s @ z # ys) (length xs) = Inr s"
  by (simp add: str_at_def str_end_append)

lemma str_at_0 [mem_simps]: "z \<notin> set s \<Longrightarrow> str_at z (s @ z # ys) 0 = Inr s"
  using str_at_append [of z s "[]" ys] by simp

lemma ncat_at_append [mem_simps]:
  "length (take n src) \<le> length ys \<Longrightarrow>
   ncat_at z (xs @ z # ys) (length xs) src n =
     Inr (xs @ take n src @ z # drop (length (take n src)) ys)"
proof -
  assume l: "length (take n src) \<le> length ys"
  have e: "str_end z (xs @ z # ys) (length xs) = Inr (length xs)"
    using str_end_append [of z "[]" xs ys] by simp
  have "wr_list (xs @ z # ys) (length xs) (take n src @ [z]) =
      Inr (xs @ (take n src @ [z]) @ drop (length (take n src @ [z])) (z # ys))"
    using l by (intro wr_list_append) simp
  then show ?thesis by (simp add: ncat_at_def e)
qed

lemma str_end_Inr:
  "str_end z b i = Inr e \<Longrightarrow>
   i \<le> e \<and> e < length b \<and> b ! e = z \<and> (\<forall>j. i \<le> j \<and> j < e \<longrightarrow> b ! j \<noteq> z)"
proof (induction z b i rule: str_end.induct)
  case (1 z b i)
  from "1.prems" have l: "i < length b" by (subst (asm) str_end.simps) (auto split: if_splits)
  show ?case
  proof (cases "b ! i = z")
    case True
    with "1.prems" l show ?thesis by (subst (asm) str_end.simps) auto
  next
    case False
    with "1.prems" l have "str_end z b (Suc i) = Inr e" by (subst (asm) str_end.simps) auto
    with "1.IH" l False have ih: "Suc i \<le> e \<and> e < length b \<and> b ! e = z \<and>
        (\<forall>j. Suc i \<le> j \<and> j < e \<longrightarrow> b ! j \<noteq> z)" by blast
    have "b ! j \<noteq> z" if "i \<le> j" "j < e" for j
      using that ih False by (cases "j = i") auto
    with ih show ?thesis by auto
  qed
qed

lemma rd_InrD: "rd b i = Inr v \<Longrightarrow> i < length b \<and> b ! i = v"
  by (simp add: rd_def split: if_splits)

lemma wr_InrD: "wr b i v = Inr b' \<Longrightarrow> i < length b \<and> b' = b[i := v]"
  by (simp add: wr_def split: if_splits)

lemma realloc_cells_length [simp]: "length (realloc_cells junk b n) = n"
  by (simp add: realloc_cells_def)

lemma realloc_cells_grow:
  "length b \<le> n \<Longrightarrow> realloc_cells junk b n = b @ replicate (n - length b) junk"
  by (simp add: realloc_cells_def)

end
