(* ===== verification/CPrintf.thy ===== *)
theory CPrintf
  imports Prelude
begin

text \<open>
  The part of the C library the program prints through: the environment a run depends on
  (memory, the locale's multibyte conversions and \<^verbatim>\<open>iswprint\<close>), and the
  \<^verbatim>\<open>printf\<close> family. Characters are code values (\<open>nat\<close>): wide characters in the wide
  functions, bytes in the narrow ones. A format is parsed into literal characters and
  conversions, which are then expanded with the arguments; \<open>None\<close> is the failure of the
  library call (it returns -1): a string that is not valid in the locale, or arguments that
  do not fit the format.
\<close>

section \<open>The environment\<close>

type_synonym wchar = nat

text \<open>
  \<open>mem_limit\<close>: an allocation of \<open>n\<close> bytes succeeds iff \<open>n \<le> mem_limit\<close>. \<open>junk\<close>: the
  contents of uninitialised memory. \<open>mbs\<close>: \<^verbatim>\<open>mbsrtowcs\<close> on a whole string, \<open>None\<close> for
  \<^verbatim>\<open>EILSEQ\<close>. \<open>wcs\<close>: \<^verbatim>\<open>wcstombs\<close> on a whole wide string. \<open>wprint\<close>: \<^verbatim>\<open>iswprint\<close>.
\<close>

record cenv =
  mem_limit :: nat
  junk :: wchar
  mbs :: "string \<Rightarrow> wchar list option"
  wcs :: "wchar list \<Rightarrow> string option"
  wprint :: "wchar \<Rightarrow> bool"

definition alloc_ok :: "cenv \<Rightarrow> nat \<Rightarrow> bool" where
  "alloc_ok env n \<longleftrightarrow> n \<le> mem_limit env"

definition sizeof_wchar :: nat where
  "sizeof_wchar = 4"

text \<open>A wide string literal \<^verbatim>\<open>L"..."\<close>, without its terminator.\<close>

definition L :: "string \<Rightarrow> wchar list" where
  "L s = map of_char s"

abbreviation NL :: wchar where
  "NL \<equiv> 10"

text \<open>The \<^verbatim>\<open>C\<close> locale: ASCII only.\<close>

definition ascii_mbs :: "string \<Rightarrow> wchar list option" where
  "ascii_mbs s = (if \<forall>c \<in> set s. (of_char c :: nat) < 128 then Some (map of_char s) else None)"

definition ascii_wcs :: "wchar list \<Rightarrow> string option" where
  "ascii_wcs w = (if \<forall>c \<in> set w. c < 128 then Some (map char_of w) else None)"

definition ascii_env :: cenv where
  "ascii_env = \<lparr>mem_limit = 1000000, junk = 120, mbs = ascii_mbs, wcs = ascii_wcs,
     wprint = (\<lambda>c. 32 \<le> c \<and> c < 127)\<rparr>"

section \<open>Formats\<close>

text \<open>\<open>PFlt s\<close> is a floating-point argument, given by the text the library prints for it under
  the conversion it is used with.\<close>

datatype parg =
    PInt int
  | PStr string
  | PWStr "wchar list"
  | PWChr wchar
  | PFlt string

datatype warg = WNone | WNum nat | WStar

text \<open>\<open>Conv zero width prec long conv\<close> is a conversion specification.\<close>

datatype fitem =
    Lit nat
  | Conv bool warg warg nat nat

record fspec =
  zflag :: bool
  width :: warg
  prec :: warg
  longs :: nat
  inprec :: bool

definition fspec0 :: fspec where
  "fspec0 = \<lparr>zflag = False, width = WNone, prec = WNone, longs = 0, inprec = False\<rparr>"

definition warg_digit :: "warg \<Rightarrow> nat \<Rightarrow> warg" where
  "warg_digit w d = (case w of WNum n \<Rightarrow> WNum (10 * n + d) | _ \<Rightarrow> WNum d)"

fun parse_fmt :: "fspec option \<Rightarrow> nat list \<Rightarrow> fitem list option" where
  "parse_fmt None [] = Some []"
| "parse_fmt None (c # cs) =
     (if c = 37 then parse_fmt (Some fspec0) cs
      else map_option ((#) (Lit c)) (parse_fmt None cs))"
| "parse_fmt (Some sp) [] = None"
| "parse_fmt (Some sp) (c # cs) =
     (if c = 37 then map_option ((#) (Lit 37)) (parse_fmt None cs)
      else if c = 48 \<and> width sp = WNone \<and> \<not> inprec sp then parse_fmt (Some (sp\<lparr>zflag := True\<rparr>)) cs
      else if 48 \<le> c \<and> c \<le> 57 then
        parse_fmt (Some (if inprec sp then sp\<lparr>prec := warg_digit (prec sp) (c - 48)\<rparr>
                         else sp\<lparr>width := warg_digit (width sp) (c - 48)\<rparr>)) cs
      else if c = 42 then
        parse_fmt (Some (if inprec sp then sp\<lparr>prec := WStar\<rparr> else sp\<lparr>width := WStar\<rparr>)) cs
      else if c = 46 then parse_fmt (Some (sp\<lparr>inprec := True, prec := WNum 0\<rparr>)) cs
      else if c = 108 \<or> c = 76 then parse_fmt (Some (sp\<lparr>longs := Suc (longs sp)\<rparr>)) cs
      else map_option ((#) (Conv (zflag sp) (width sp) (prec sp) (longs sp) c)) (parse_fmt None cs))"

section \<open>Expansion\<close>

definition digit_char :: "nat \<Rightarrow> nat" where
  "digit_char d = (if d < 10 then 48 + d else 87 + d)"

fun nat_digits :: "nat \<Rightarrow> nat \<Rightarrow> nat list" where
  "nat_digits b n =
     (if b < 2 \<or> n < b then [digit_char n] else nat_digits b (n div b) @ [digit_char (n mod b)])"

declare nat_digits.simps [simp del]

definition zero_pad :: "nat \<Rightarrow> nat list \<Rightarrow> nat list" where
  "zero_pad n ds = replicate (n - length ds) 48 @ ds"

text \<open>Pad with spaces to the field width: on the left, or on the right for a negative width.\<close>

definition pad_field :: "int \<Rightarrow> nat list \<Rightarrow> nat list" where
  "pad_field w xs =
     (if w < 0 then xs @ replicate (nat (- w) - length xs) 32
      else replicate (nat w - length xs) 32 @ xs)"

text \<open>An integer conversion: precision gives the least number of digits; the zero flag
  pads to the field width when there is no precision.\<close>

definition int_field :: "bool \<Rightarrow> int \<Rightarrow> int option \<Rightarrow> bool \<Rightarrow> nat list \<Rightarrow> nat list" where
  "int_field zero w p neg ds =
     (let sign = (if neg then [45] else []) in
      case p of
        Some n \<Rightarrow> pad_field w (sign @ zero_pad (nat n) ds)
      | None \<Rightarrow> if zero \<and> 0 \<le> w then sign @ zero_pad (nat w - length sign) ds
                else pad_field w (sign @ ds))"

definition unsigned_of :: "nat \<Rightarrow> int \<Rightarrow> nat" where
  "unsigned_of lng v = nat (v mod (if lng = 0 then 2 ^ 32 else 2 ^ 64))"

definition conv_field ::
  "(string \<Rightarrow> nat list option) \<Rightarrow> bool \<Rightarrow> int \<Rightarrow> int option \<Rightarrow> nat \<Rightarrow> nat \<Rightarrow> parg \<Rightarrow> nat list option"
where
  "conv_field rs zero w p lng c a =
     (let trunc = (\<lambda>xs. case p of None \<Rightarrow> xs | Some n \<Rightarrow> take (nat n) xs) in
      case a of
        PInt v \<Rightarrow>
          if c = 100 then Some (int_field zero w p (v < 0) (nat_digits 10 (nat \<bar>v\<bar>)))
          else if c = 117 then Some (int_field zero w p False (nat_digits 10 (unsigned_of lng v)))
          else if c = 120 then Some (int_field zero w p False (nat_digits 16 (unsigned_of lng v)))
          else if c = 111 then Some (int_field zero w p False (nat_digits 8 (unsigned_of lng v)))
          else if c = 99 then Some (pad_field w [nat (v mod 256)])
          else if c = 112 then
            Some (pad_field w (if v = 0 then L ''(nil)'' else L ''0x'' @ nat_digits 16 (unsigned_of 1 v)))
          else None
      | PStr s \<Rightarrow>
          if c = 115 \<and> lng = 0 then map_option (\<lambda>xs. pad_field w (trunc xs)) (rs s) else None
      | PWStr xs \<Rightarrow> if c = 115 \<and> lng = 1 then Some (pad_field w (trunc xs)) else None
      | PWChr x \<Rightarrow> if c = 99 \<and> lng = 1 then Some (pad_field w [x]) else None
      | PFlt s \<Rightarrow> if c = 101 \<or> c = 102 then Some (pad_field w (L s)) else None)"

definition warg_value :: "warg \<Rightarrow> parg list \<Rightarrow> (int option \<times> parg list) option" where
  "warg_value w args =
     (case w of
        WNone \<Rightarrow> Some (None, args)
      | WNum n \<Rightarrow> Some (Some (int n), args)
      | WStar \<Rightarrow> (case args of PInt v # as \<Rightarrow> Some (Some v, as) | _ \<Rightarrow> None))"

fun expand :: "(string \<Rightarrow> nat list option) \<Rightarrow> fitem list \<Rightarrow> parg list \<Rightarrow> nat list option" where
  "expand rs [] args = Some []"
| "expand rs (Lit c # items) args = map_option ((#) c) (expand rs items args)"
| "expand rs (Conv zero wd pr lng c # items) args =
     (case warg_value wd args of
        None \<Rightarrow> None
      | Some (w, args1) \<Rightarrow>
          (case warg_value pr args1 of
             None \<Rightarrow> None
           | Some (p, args2) \<Rightarrow>
               (case args2 of
                  [] \<Rightarrow> None
                | a # args3 \<Rightarrow>
                    (case conv_field rs zero (case w of None \<Rightarrow> 0 | Some v \<Rightarrow> v)
                            (case p of Some n \<Rightarrow> (if n < 0 then None else Some n) | None \<Rightarrow> None)
                            lng c a of
                       None \<Rightarrow> None
                     | Some xs \<Rightarrow> map_option ((@) xs) (expand rs items args3)))))"

definition vformat :: "(string \<Rightarrow> nat list option) \<Rightarrow> nat list \<Rightarrow> parg list \<Rightarrow> nat list option" where
  "vformat rs fmt args =
     (case parse_fmt None fmt of None \<Rightarrow> None | Some items \<Rightarrow> expand rs items args)"

text \<open>The text a wide format expands to: \<^verbatim>\<open>%s\<close> arguments are converted by the locale.\<close>

definition wformat :: "cenv \<Rightarrow> wchar list \<Rightarrow> parg list \<Rightarrow> wchar list option" where
  "wformat env fmt args = vformat (mbs env) fmt args"

text \<open>The text a narrow format expands to.\<close>

definition format :: "string \<Rightarrow> parg list \<Rightarrow> string option" where
  "format fmt args =
     map_option (map char_of) (vformat (\<lambda>s. Some (map of_char s)) (map of_char fmt) args)"

text \<open>
  A \<^verbatim>\<open>long\<close> or an unsigned number (a user or group id) passed for \<^verbatim>\<open>%d\<close>: its low 32 bits are read as a
  signed number.
\<close>

definition as_int :: "int \<Rightarrow> parg" where
  "as_int v = PInt (signed_take_bit 31 v)"

text \<open>
  \<^verbatim>\<open>vswprintf (new, n, ...)\<close> fails when the text and its terminator do not fit in \<open>n\<close>
  wide characters; \<^verbatim>\<open>vsnprintf\<close> returns the length the whole text would have.
\<close>

definition vswprintf_ret :: "wchar list option \<Rightarrow> nat \<Rightarrow> int" where
  "vswprintf_ret out n = (case out of Some w \<Rightarrow> (if length w < n then int (length w) else -1) | None \<Rightarrow> -1)"

definition vsnprintf_ret :: "string option \<Rightarrow> int" where
  "vsnprintf_ret out = (case out of Some s \<Rightarrow> int (length s) | None \<Rightarrow> -1)"

lemmas fmt_eval = vformat_def fspec0_def warg_digit_def warg_value_def conv_field_def pad_field_def
  int_field_def zero_pad_def L_def

end
