(* ===== verification/PString.thy ===== *)
theory PString
  imports CPrintf
begin

text \<open>
  The wide strings of \<^verbatim>\<open>pstring.c\<close>: conversion between multibyte and wide strings,
  creation, and the two clean-up passes over the finished document, \<open>pstring_chomp\<close> and
  \<open>pstring_compress\<close>.

  A \<open>pstring\<close> keeps its buffer as the list of its allocated cells, so that every index
  the code computes is checked against the allocation. The code uses the field \<open>len\<close> in
  two ways: \<open>pstring_create\<close> counts the terminator, the append functions that build the
  document do not. \<open>compress_list\<close> is the in-place loop of \<open>pstring_compress\<close> as a
  function on lists; the lemmas relate the two, bound what the loop counts by what it
  removes, and derive the string it leaves.
\<close>

section \<open>The structure and its constructors\<close>

record pstring =
  buf :: "wchar list option"
  len :: nat
  bsize :: nat

definition sizeof_pstring :: nat where
  "sizeof_pstring = 24"

text \<open>\<^verbatim>\<open>char_to_wchar\<close>: the new buffer, or null. The empty string converts to length 0,
  for which the code returns null as well.\<close>

definition char_to_wchar :: "cenv \<Rightarrow> string \<Rightarrow> wchar list option" where
  "char_to_wchar env str =
     (case mbs env str of
        None \<Rightarrow> None
      | Some w \<Rightarrow>
          if length w = 0 then None
          else if \<not> alloc_ok env ((1 + length w) * sizeof_wchar) then None
          else Some (w @ [0]))"

text \<open>
  \<^verbatim>\<open>wchar_to_char\<close>: the new multibyte string, or null. When \<^verbatim>\<open>wcstombs\<close> fails, its
  result \<open>(size_t)-1\<close> makes the allocation size wrap to 0 and the second conversion writes
  past that block.
\<close>

definition wchar_to_char :: "cenv \<Rightarrow> wchar list \<Rightarrow> string option res" where
  "wchar_to_char env wstr =
     bindE (str_at 0 wstr 0) (\<lambda>w.
       case wcs env w of
         None \<Rightarrow> if alloc_ok env 0 then Inl OutOfBounds else Inr None
       | Some s \<Rightarrow>
           if length s = 0 then Inr None
           else if \<not> alloc_ok env (length s + 1) then Inr None
           else Inr (Some s))"

definition pstring_new :: "cenv \<Rightarrow> pstring option" where
  "pstring_new env =
     (if alloc_ok env sizeof_pstring then Some \<lparr>buf = None, len = 0, bsize = 0\<rparr> else None)"

definition pstring_create :: "cenv \<Rightarrow> wchar list \<Rightarrow> pstring option res" where
  "pstring_create env str =
     (case pstring_new env of
        None \<Rightarrow> Inr None
      | Some pstr \<Rightarrow>
          bindE (str_at 0 str 0) (\<lambda>w.
            if \<not> alloc_ok env ((length w + 1) * sizeof_wchar) then Inr None
            else Inr (Some (pstr\<lparr>buf := Some (w @ [0]), len := 1 + length w,
                                 bsize := (1 + length w) * sizeof_wchar\<rparr>))))"

definition char_to_pstring :: "cenv \<Rightarrow> string \<Rightarrow> pstring option res" where
  "char_to_pstring env str =
     (case char_to_wchar env str of
        None \<Rightarrow> Inr None
      | Some s \<Rightarrow> pstring_create env s)"

definition pstring_to_char :: "cenv \<Rightarrow> pstring \<Rightarrow> string option res" where
  "pstring_to_char env str =
     (case buf str of
        None \<Rightarrow> Inl AssertFail
      | Some b \<Rightarrow> wchar_to_char env b)"

section \<open>pstring_chomp\<close>

text \<open>
  The backward loop: \<open>chomp_scan b ind i r\<close> looks at index \<open>i - 1\<close>; at \<open>i = 0\<close> the
  pointer has left the buffer.
\<close>

fun chomp_scan :: "wchar list \<Rightarrow> wchar \<Rightarrow> nat \<Rightarrow> nat \<Rightarrow> nat res" where
  "chomp_scan b ind 0 removable = Inl OutOfBounds"
| "chomp_scan b ind (Suc i) removable =
     bindE (rd b i) (\<lambda>c.
       if c = NL \<or> c = ind then chomp_scan b ind i (Suc removable) else Inr removable)"

definition pstring_chomp :: "wchar \<Rightarrow> pstring \<Rightarrow> pstring res" where
  "pstring_chomp ind str =
     (if len str < 2 then Inr str
      else case buf str of
        None \<Rightarrow> Inl NullDeref
      | Some b \<Rightarrow>
          bindE (chomp_scan b ind (len str) 0) (\<lambda>removable.
            if removable > 1 then
              (let l = size_sub (len str) (removable - 1)
               in bindE (wr b (size_sub l 1) NL) (\<lambda>b1.
                  bindE (wr b1 l 0) (\<lambda>b2.
                  Inr (str\<lparr>buf := Some b2, len := l\<rparr>))))
            else Inr str))"

section \<open>pstring_compress\<close>

text \<open>The three inner loops.\<close>

function skip_blank :: "wchar list \<Rightarrow> nat \<Rightarrow> nat \<Rightarrow> (nat \<times> nat) res" where
  "skip_blank b to blanks =
     bindE (rd b to) (\<lambda>c.
       if c = NL then
         bindE (rd b (Suc to)) (\<lambda>d.
           if d = NL then skip_blank b (Suc to) (Suc blanks) else Inr (to, blanks))
       else Inr (to, blanks))"
  by pat_completeness auto
termination
  by (relation "measure (\<lambda>(b, to, _). length b - to)") (auto dest!: rd_InrD)

function skip_run :: "wchar list \<Rightarrow> wchar \<Rightarrow> nat \<Rightarrow> nat \<Rightarrow> (nat \<times> nat) res" where
  "skip_run b rc to count =
     bindE (rd b to) (\<lambda>c. if c = rc then skip_run b rc (Suc to) (Suc count) else Inr (to, count))"
  by pat_completeness auto
termination
  by (relation "measure (\<lambda>(b, rc, to, _). length b - to)") (auto dest!: rd_InrD)

function consume_nl :: "wchar list \<Rightarrow> nat \<Rightarrow> nat res" where
  "consume_nl b to = bindE (rd b to) (\<lambda>c. if c = NL then consume_nl b (Suc to) else Inr to)"
  by pat_completeness auto
termination
  by (relation "measure (\<lambda>(b, to). length b - to)") (auto dest!: rd_InrD)

declare skip_blank.simps [simp del] skip_run.simps [simp del] consume_nl.simps [simp del]

lemma skip_blank_ge: "skip_blank b to blanks = Inr (t, bl) \<Longrightarrow> to \<le> t"
proof (induction b to blanks arbitrary: t bl rule: skip_blank.induct)
  case (1 b to blanks)
  from "1.prems" show ?case
    by (subst (asm) skip_blank.simps)
      (auto simp: bindE_Inr_iff split: if_splits dest: "1.IH" Suc_leD)
qed

lemma skip_run_ge: "skip_run b rc to count = Inr (t, n) \<Longrightarrow> to \<le> t"
proof (induction b rc to count arbitrary: t n rule: skip_run.induct)
  case (1 b rc to count)
  from "1.prems" show ?case
    by (subst (asm) skip_run.simps)
      (auto simp: bindE_Inr_iff split: if_splits dest: "1.IH" Suc_leD)
qed

lemma consume_nl_ge: "consume_nl b to = Inr t \<Longrightarrow> to \<le> t"
proof (induction b to arbitrary: t rule: consume_nl.induct)
  case (1 b to)
  from "1.prems" show ?case
    by (subst (asm) consume_nl.simps)
      (auto simp: bindE_Inr_iff split: if_splits dest: "1.IH" Suc_leD)
qed

text \<open>
  The body of the outer loop from the label \<^verbatim>\<open>again\<close> up to the copy: the index to copy
  from and the two counters. Backtracking sets \<open>count\<close> to 0.
\<close>

function scan_line :: "wchar list \<Rightarrow> wchar \<Rightarrow> nat \<Rightarrow> nat \<Rightarrow> nat \<Rightarrow> (nat \<times> nat \<times> nat) res" where
  "scan_line b rc to count blanks =
     bindE (skip_blank b to blanks) (\<lambda>(start, blanks1).
     bindE (skip_run b rc start count) (\<lambda>(to1, count1).
       if to1 \<noteq> start then
         bindE (rd b to1) (\<lambda>c.
           if c = NL \<and> to1 \<noteq> start + 1 then
             bindE (consume_nl b to1) (\<lambda>to2.
             bindE (rd b to2) (\<lambda>d.
               if d = rc then scan_line b rc to2 count1 blanks1
               else Inr (to2, count1, blanks1 + 1)))
           else Inr (start, 0, blanks1))
       else Inr (start, count1, blanks1)))"
  by pat_completeness auto
termination
proof (relation "measure (\<lambda>(b, rc, to, _). length b - to)", goal_cases)
  case (2 b rc to count blanks x start blanks1 y to1 count1 c to2 d)
  then have "to \<le> start" "start \<le> to1" "to1 \<le> to2" "to2 < length b"
    by (auto dest!: skip_blank_ge skip_run_ge consume_nl_ge rd_InrD)
  with 2 show ?case by auto
qed auto

declare scan_line.simps [simp del]

lemma scan_line_ge: "scan_line b rc to count blanks = Inr (t, n, bl) \<Longrightarrow> to \<le> t"
proof (induction b rc to count blanks arbitrary: t n bl rule: scan_line.induct)
  case (1 b rc to count blanks)
  from "1.prems" obtain start bl1 where a: "skip_blank b to blanks = Inr (start, bl1)"
    by (subst (asm) scan_line.simps) (auto simp: bindE_Inr_iff)
  from "1.prems" a obtain to1 c1 where b: "skip_run b rc start count = Inr (to1, c1)"
    by (subst (asm) scan_line.simps) (auto simp: bindE_Inr_iff)
  note le = skip_blank_ge [OF a] skip_run_ge [OF b]
  note eq = "1.prems" [unfolded scan_line.simps [of b rc to], unfolded a b bindE_simps prod.case]
  show ?case
  proof (cases "to1 \<noteq> start \<and> rd b to1 = Inr NL \<and> to1 \<noteq> start + 1")
    case True
    with eq obtain to2 d where c: "consume_nl b to1 = Inr to2" "rd b to2 = Inr d"
      by (auto simp: bindE_Inr_iff)
    note le2 = consume_nl_ge [OF c(1)]
    show ?thesis
    proof (cases "d = rc")
      case d: True
      with True eq c have "scan_line b rc to2 c1 bl1 = Inr (t, n, bl)" by simp
      with "1.IH" [OF a refl b refl _ _ _ c(1) c(2) d] True have "to2 \<le> t" by auto
      with le le2 show ?thesis by simp
    next
      case False
      with True eq c le le2 show ?thesis by auto
    qed
  next
    case False
    with eq le show ?thesis by (auto simp: bindE_Inr_iff split: if_splits)
  qed
qed

function compress_loop ::
  "wchar list \<Rightarrow> wchar \<Rightarrow> nat \<Rightarrow> nat \<Rightarrow> nat \<Rightarrow> nat \<Rightarrow> (wchar list \<times> nat \<times> nat \<times> nat) res"
where
  "compress_loop b rc from to count blanks =
     bindE (rd b to) (\<lambda>c.
       if c = 0 then Inr (b, from, count, blanks)
       else bindE (scan_line b rc to count blanks) (\<lambda>(to', count', blanks').
            bindE (rd b to') (\<lambda>v.
            bindE (wr b from v) (\<lambda>b'.
              compress_loop b' rc (Suc from) (Suc to') count' blanks'))))"
  by pat_completeness auto
termination
  by (relation "measure (\<lambda>(b, rc, from, to, _). length b - to)")
    (auto dest!: rd_InrD wr_InrD scan_line_ge)

declare compress_loop.simps [simp del]

definition pstring_compress :: "cenv \<Rightarrow> wchar \<Rightarrow> pstring \<Rightarrow> pstring res" where
  "pstring_compress env remove_char str =
     (case buf str of
        None \<Rightarrow> Inl AssertFail
      | Some b0 \<Rightarrow>
          bindE (compress_loop b0 remove_char 0 0 0 0) (\<lambda>(b1, from, count, blanks).
          bindE (wr b1 from 0) (\<lambda>b2.
            if blanks \<noteq> 0 \<or> count \<noteq> 0 then
              (let new_len = size_sub (len str) (blanks + count);
                   bytes = new_len * sizeof_wchar
               in guardE (alloc_ok env bytes) AssertFail
                  (bindE (wr (realloc_cells (junk env) b2 new_len) (size_sub new_len 1) 0) (\<lambda>b3.
                   Inr (str\<lparr>buf := Some b3, len := new_len, bsize := bytes\<rparr>))))
            else Inr (str\<lparr>buf := Some b2\<rparr>))))"

section \<open>The loop on lists\<close>

text \<open>
  \<open>lscan\<close> and \<open>lcompress\<close> are the scan and the loop on the part of the string that is
  still to be read. \<open>lcompress\<close> returns what is kept and the two counters.
\<close>

fun lblank :: "wchar list \<Rightarrow> nat \<Rightarrow> wchar list \<times> nat" where
  "lblank (c # d # w) n = (if c = NL \<and> d = NL then lblank (d # w) (Suc n) else (c # d # w, n))"
| "lblank [] n = ([], n)"
| "lblank [c] n = ([c], n)"

lemma lblank_suffix: "lblank w n = (s, n') \<Longrightarrow> \<exists>k. w = replicate k NL @ s \<and> n' = n + k"
proof (induction w n rule: lblank.induct)
  case (1 c d w n)
  show ?case
  proof (cases "c = NL \<and> d = NL")
    case True
    with 1 obtain k where "d # w = replicate k NL @ s" "n' = Suc n + k" by auto
    with True show ?thesis by (intro exI [of _ "Suc k"]) simp
  next
    case False
    with "1.prems" have "s = c # d # w \<and> n' = n" by auto
    then show ?thesis by (intro exI [of _ 0]) simp
  qed
qed (auto intro: exI [of _ "0 :: nat"])

lemma lblank_nonempty: "lblank w n = (s, n') \<Longrightarrow> w \<noteq> [] \<Longrightarrow> s \<noteq> []"
  by (induction w n rule: lblank.induct) (auto split: if_splits)

function lscan :: "wchar \<Rightarrow> wchar list \<Rightarrow> nat \<Rightarrow> nat \<Rightarrow> wchar list \<times> nat \<times> nat" where
  "lscan rc w count blanks =
     (let s = fst (lblank w blanks); bl = snd (lblank w blanks);
          run = takeWhile (\<lambda>c. c = rc) s; r = dropWhile (\<lambda>c. c = rc) s;
          r' = dropWhile (\<lambda>c. c = NL) r
      in if run = [] then (s, count, bl)
         else if 1 < length run \<and> r \<noteq> [] \<and> hd r = NL then
           if r' \<noteq> [] \<and> hd r' = rc then lscan rc r' (count + length run) bl
           else (r', count + length run, bl + 1)
         else (s, 0, bl))"
  by pat_completeness auto
termination
proof (relation "measure (\<lambda>(rc, w, _). length w)", goal_cases)
  case (2 rc w count blanks s bl run r r')
  obtain k where "w = replicate k NL @ s"
    using lblank_suffix [of w blanks s bl] 2 by auto
  then have "length s \<le> length w" by simp
  moreover have "s = run @ r" using 2 by simp
  moreover have "length r' \<le> length r" using 2 by (simp add: length_dropWhile_le)
  moreover have "run \<noteq> []" using 2 by blast
  ultimately have "length r' < length w" by (cases run) auto
  then show ?case by simp
qed auto

declare lscan.simps [simp del]

function lcompress ::
  "wchar \<Rightarrow> wchar list \<Rightarrow> nat \<Rightarrow> nat \<Rightarrow> wchar list \<times> nat \<times> nat" where
  "lcompress rc w count blanks =
     (if w = [] then ([], count, blanks)
      else case lscan rc w count blanks of
        ([], c, bl) \<Rightarrow> ([], c, bl)
      | (x # s, c, bl) \<Rightarrow>
          (if length s < length w then
             (case lcompress rc s c bl of (out, c', bl') \<Rightarrow> (x # out, c', bl'))
           else ([], c, bl)))"
  by pat_completeness auto
termination
  by (relation "measure (\<lambda>(rc, w, _). length w)") auto

declare lcompress.simps [simp del]

lemma takeWhile_replicate: "takeWhile (\<lambda>c. c = x) s = replicate (length (takeWhile (\<lambda>c. c = x) s)) x"
  by (rule replicate_eqI [symmetric, THEN sym]) (auto dest: set_takeWhileD)

lemma dropWhile_hd: "dropWhile P s = [] \<or> \<not> P (hd (dropWhile P s))"
  using hd_dropWhile by blast

lemma lscan_cases:
  obtains
    (plain) k s where "w = replicate k NL @ s" "lblank w blanks = (s, blanks + k)"
      "s = [] \<or> hd s \<noteq> rc" "lscan rc w count blanks = (s, count, blanks + k)"
  | (partial) k n r where "w = replicate k NL @ replicate (Suc n) rc @ r"
      "lblank w blanks = (replicate (Suc n) rc @ r, blanks + k)"
      "r = [] \<or> hd r \<noteq> rc" "n = 0 \<or> r = [] \<or> hd r \<noteq> NL"
      "lscan rc w count blanks = (replicate (Suc n) rc @ r, 0, blanks + k)"
  | (line) k n m r where "w = replicate k NL @ replicate (n + 2) rc @ replicate (Suc m) NL @ r"
      "lblank w blanks = (replicate (n + 2) rc @ replicate (Suc m) NL @ r, blanks + k)"
      "rc \<noteq> NL" "r = [] \<or> hd r \<noteq> NL"
      "lscan rc w count blanks =
        (if r \<noteq> [] \<and> hd r = rc then lscan rc r (count + (n + 2)) (blanks + k)
         else (r, count + (n + 2), blanks + k + 1))"
proof -
  obtain s k where s: "lblank w blanks = (s, blanks + k)" "w = replicate k NL @ s"
    using lblank_suffix by (metis surj_pair)
  define run r r' where d: "run = takeWhile (\<lambda>c. c = rc) s" "r = dropWhile (\<lambda>c. c = rc) s"
    "r' = dropWhile (\<lambda>c. c = NL) r"
  have run: "s = replicate (length run) rc @ r"
    using takeWhile_replicate [of rc s] d by (metis takeWhile_dropWhile_id)
  have nrc: "r = [] \<or> hd r \<noteq> rc" unfolding d by (rule dropWhile_hd)
  have eq: "lscan rc w count blanks =
     (if run = [] then (s, count, blanks + k)
         else if 1 < length run \<and> r \<noteq> [] \<and> hd r = NL then
           if r' \<noteq> [] \<and> hd r' = rc then lscan rc r' (count + length run) (blanks + k)
           else (r', count + length run, blanks + k + 1)
         else (s, 0, blanks + k))"
    by (subst lscan.simps) (simp only: s(1) d Let_def fst_conv snd_conv)
  show thesis
  proof (cases "run = []")
    case True
    with run nrc have "s = [] \<or> hd s \<noteq> rc" by simp
    with True eq s plain show thesis by simp
  next
    case False
    then obtain n where n: "length run = Suc n" by (cases run) auto
    show thesis
    proof (cases "1 < length run \<and> r \<noteq> [] \<and> hd r = NL")
      case True
      define m where "m = length (takeWhile (\<lambda>c. c = NL) r) - 1"
      have "takeWhile (\<lambda>c. c = NL) r \<noteq> []" using True by (cases r) auto
      then have m: "r = replicate (Suc m) NL @ r'"
        using takeWhile_replicate [of NL r] d m_def
        by (metis Suc_pred' length_greater_0_conv takeWhile_dropWhile_id)
      have "r' = [] \<or> hd r' \<noteq> NL" unfolding d by (rule dropWhile_hd)
      moreover obtain n' where n': "length run = n' + 2" using True
        by (metis add.commute add_2_eq_Suc less_natE plus_1_eq_Suc)
      moreover have "rc \<noteq> NL" using nrc True by auto
      ultimately show thesis
        using line [of k n' m r'] False True eq s run m by simp
    next
      case b: False
      with n have "n = 0 \<or> r = [] \<or> hd r \<noteq> NL" by auto
      with False b eq s run n nrc partial [of k n r] show thesis by auto
    qed
  qed
qed

lemma lscan_length:
  "lscan rc w count blanks = (s, c, bl) \<Longrightarrow> length s \<le> length w"
proof (induction "length w" arbitrary: w count blanks rule: less_induct)
  case less
  show ?case
  proof (cases rule: lscan_cases [of w blanks rc count])
    case (line k n m r)
    have "length s \<le> length r" if "r \<noteq> [] \<and> hd r = rc"
      using less.hyps [of r "count + (n + 2)" "blanks + k"] line less.prems that by simp
    with line less.prems show ?thesis by (auto split: if_splits)
  qed (use less.prems in auto)
qed

section \<open>Refinement: the loop on memory computes the loop on lists\<close>

text \<open>\<open>rest_is b K s\<close>: in the buffer \<open>b\<close>, the string \<open>s\<close> ends at the terminator at index \<open>K\<close>.\<close>

definition rest_is :: "wchar list \<Rightarrow> nat \<Rightarrow> wchar list \<Rightarrow> bool" where
  "rest_is b K s \<longleftrightarrow> (\<exists>pre post. b = pre @ s @ 0 # post \<and> K = length (pre @ s))"

lemma rest_is_Nil: "rest_is b K [] \<Longrightarrow> rd b K = Inr 0"
  by (auto simp: rest_is_def mem_simps)

lemma rest_is_Cons: "rest_is b K (x # s) \<Longrightarrow> rd b (K - Suc (length s)) = Inr x"
  by (auto simp: rest_is_def mem_simps)

lemma rest_is_suffix: "rest_is b K (a @ s) \<Longrightarrow> rest_is b K s"
  unfolding rest_is_def by (metis append.assoc)

lemma rest_is_tl: "rest_is b K (x # s) \<Longrightarrow> rest_is b K s"
  using rest_is_suffix [of b K "[x]" s] by simp

lemma rest_is_le: "rest_is b K s \<Longrightarrow> length s \<le> K \<and> K < length b"
  by (auto simp: rest_is_def)

lemma rest_is_wr:
  assumes "rest_is b K s" "f + length s < K"
  shows "\<exists>b'. wr b f v = Inr b' \<and> b' = b[f := v] \<and> rest_is b' K s"
proof -
  from assms obtain pre post where b: "b = pre @ s @ 0 # post" "K = length (pre @ s)"
    by (auto simp: rest_is_def)
  with assms(2) have "f < length pre" by simp
  with b have "b[f := v] = pre[f := v] @ s @ 0 # post" "K = length (pre[f := v] @ s)"
    by (simp_all add: list_update_append)
  then have "rest_is (b[f := v]) K s" unfolding rest_is_def by blast
  with b \<open>f < length pre\<close> show ?thesis by (simp add: wr_def)
qed

lemma skip_blank_refine:
  assumes "rest_is b K s" "lblank s n = (s', n')"
  shows "skip_blank b (K - length s) n = Inr (K - length s', n')"
  using assms
proof (induction s n rule: lblank.induct)
  case (1 c d w n)
  note le = rest_is_le [OF "1.prems"(1)]
  have rd: "rd b (K - length (c # d # w)) = Inr c" "rd b (Suc (K - length (c # d # w))) = Inr d"
    using rest_is_Cons [OF "1.prems"(1)] rest_is_Cons [OF rest_is_tl [OF "1.prems"(1)]] le
    by (simp_all add: Suc_diff_Suc)
  show ?case
  proof (cases "c = NL \<and> d = NL")
    case True
    with 1 have "skip_blank b (K - length (d # w)) (Suc n) = Inr (K - length s', n')"
      by (auto dest: rest_is_tl)
    with True rd le show ?thesis
      by (subst skip_blank.simps) (simp add: Suc_diff_Suc)
  next
    case False
    with "1.prems" rd show ?thesis by (subst skip_blank.simps) auto
  qed
next
  case (2 n)
  then show ?case by (subst skip_blank.simps) (auto dest: rest_is_Nil)
next
  case (3 v n)
  have "rd b (Suc (K - Suc 0)) = Inr 0"
    using rest_is_Nil [OF rest_is_tl [OF 3(1)]] rest_is_le [OF 3(1)] by simp
  with 3 rest_is_Cons [OF 3(1)] show ?case by (subst skip_blank.simps) auto
qed

lemma skip_run_refine:
  assumes "rest_is b K (replicate n rc @ r)" "r = [] \<or> hd r \<noteq> rc" "rc \<noteq> 0"
  shows "skip_run b rc (K - length (replicate n rc @ r)) count = Inr (K - length r, count + n)"
  using assms(1)
proof (induction n arbitrary: count)
  case 0
  with assms rest_is_Nil [of b K] rest_is_Cons [of b K "hd r" "tl r"] show ?case
    by (subst skip_run.simps) (cases r; auto)
next
  case (Suc n)
  then have r: "rest_is b K (rc # (replicate n rc @ r))" by simp
  note le = rest_is_le [OF r]
  have "skip_run b rc (K - length (replicate n rc @ r)) (Suc count) = Inr (K - length r, Suc count + n)"
    by (rule Suc.IH) (rule rest_is_tl [OF r])
  with rest_is_Cons [OF r] le show ?case
    by (subst skip_run.simps) (simp add: Suc_diff_Suc)
qed

lemma consume_nl_refine:
  assumes "rest_is b K (replicate n NL @ r)" "r = [] \<or> hd r \<noteq> NL"
  shows "consume_nl b (K - length (replicate n NL @ r)) = Inr (K - length r)"
  using assms(1)
proof (induction n)
  case 0
  with assms rest_is_Nil [of b K] rest_is_Cons [of b K "hd r" "tl r"] show ?case
    by (subst consume_nl.simps) (cases r; auto)
next
  case (Suc n)
  then have r: "rest_is b K (NL # (replicate n NL @ r))" by simp
  have "consume_nl b (K - length (replicate n NL @ r)) = Inr (K - length r)"
    by (rule Suc.IH) (rule rest_is_tl [OF r])
  with rest_is_Cons [OF r] rest_is_le [OF r] show ?case
    by (subst consume_nl.simps) (simp add: Suc_diff_Suc)
qed

lemma scan_line_refine:
  assumes "rest_is b K w" "rc \<noteq> 0" "lscan rc w count blanks = (s, c, bl)"
  shows "scan_line b rc (K - length w) count blanks = Inr (K - length s, c, bl)"
  using assms(1,3)
proof (induction "length w" arbitrary: w count blanks rule: less_induct)
  case less
  note le = rest_is_le [OF less.prems(1)]
  show ?case
  proof (cases rule: lscan_cases [of w blanks rc count])
    case (plain k t)
    have "rest_is b K t" using less.prems(1) plain(1) rest_is_suffix by blast
    with skip_run_refine [of b K 0 rc t count] plain(3) assms(2)
    have "skip_run b rc (K - length t) count = Inr (K - length t, count)" by simp
    with skip_blank_refine [OF less.prems(1) plain(2)] plain(4) less.prems(2) show ?thesis
      by (subst scan_line.simps) simp
  next
    case (partial k n r)
    let ?t = "replicate (Suc n) rc @ r"
    have t: "rest_is b K ?t" using less.prems(1) partial(1) rest_is_suffix by blast
    note lt = rest_is_le [OF t]
    have r: "rest_is b K r" using t rest_is_suffix by blast
    have "skip_run b rc (K - length ?t) count = Inr (K - length r, count + Suc n)"
      by (rule skip_run_refine [OF t partial(3) assms(2)])
    moreover have "\<exists>x. rd b (K - length r) = Inr x \<and> (x = NL \<longrightarrow> n = 0)"
      using partial(4) r rest_is_Nil [of b K] rest_is_Cons [of b K "hd r" "tl r"] by (cases r) auto
    ultimately show ?thesis
      using skip_blank_refine [OF less.prems(1) partial(2)] partial(5) less.prems(2) lt
      by (subst scan_line.simps) auto
  next
    case (line k n m r)
    let ?u = "replicate (Suc m) NL @ r" and ?t = "replicate (n + 2) rc @ replicate (Suc m) NL @ r"
    have t: "rest_is b K ?t" using less.prems(1) line(1) rest_is_suffix by blast
    note lt = rest_is_le [OF t]
    have u: "rest_is b K ?u" using t rest_is_suffix by blast
    have r: "rest_is b K r" using u rest_is_suffix by blast
    have run: "skip_run b rc (K - length ?t) count = Inr (K - length ?u, count + (n + 2))"
      using skip_run_refine [OF t _ assms(2)] line(3) by simp
    have nl: "consume_nl b (K - length ?u) = Inr (K - length r)"
      by (rule consume_nl_refine [OF u line(4)])
    have c: "rd b (K - length ?u) = Inr NL"
      using rest_is_Cons [of b K NL "replicate m NL @ r"] u by simp
    have ne: "K - length ?u \<noteq> K - length ?t" "K - length ?u \<noteq> K - length ?t + 1"
      using lt by auto
    have d: "\<exists>x. rd b (K - length r) = Inr x \<and> (x = rc \<longleftrightarrow> r \<noteq> [] \<and> hd r = rc)"
      using r assms(2) rest_is_Nil [of b K] rest_is_Cons [of b K "hd r" "tl r"] by (cases r) auto
    have again: "scan_line b rc (K - length r) (count + (n + 2)) (blanks + k) = Inr (K - length s, c, bl)"
      if "r \<noteq> [] \<and> hd r = rc"
      using less.hyps [of r "count + (n + 2)" "blanks + k"] line less.prems r that by simp
    show ?thesis
      by (subst scan_line.simps)
        (use skip_blank_refine [OF less.prems(1) line(2)] run nl c ne d again line(5) less.prems(2)
         in \<open>auto split: if_splits\<close>)
  qed
qed

text \<open>
  After \<open>pstring_chomp\<close> at most one removable character is left at the end, so the scan
  always stops before the terminator.
\<close>

definition tail_ok :: "wchar \<Rightarrow> wchar list \<Rightarrow> bool" where
  "tail_ok rc w \<longleftrightarrow> length (takeWhile (\<lambda>c. c = NL \<or> c = rc) (rev w)) \<le> 1"

lemma tail_ok_suffix: "tail_ok rc (a @ s) \<Longrightarrow> tail_ok rc s"
proof -
  have "length (takeWhile P s) \<le> length (takeWhile P (s @ a))" for P :: "wchar \<Rightarrow> bool" and s a
    by (cases "\<forall>x \<in> set s. P x") (auto simp: takeWhile_append takeWhile_eq_all_conv [THEN iffD2])
  then show "tail_ok rc (a @ s) \<Longrightarrow> tail_ok rc s"
    unfolding tail_ok_def rev_append using le_trans by blast
qed

lemma lscan_tail_ok:
  assumes "w \<noteq> []" "tail_ok rc w" "lscan rc w count blanks = (s, c, bl)"
  shows "s \<noteq> [] \<and> (\<exists>a. w = a @ s)"
  using assms
proof (induction "length w" arbitrary: w count blanks rule: less_induct)
  case less
  show ?case
  proof (cases rule: lscan_cases [of w blanks rc count])
    case (plain k t)
    have "t \<noteq> []" using lblank_nonempty [OF plain(2) less.prems(1)] .
    with plain less.prems show ?thesis by auto
  next
    case (partial k n r)
    with less.prems show ?thesis by auto
  next
    case (line k n m r)
    have "r \<noteq> []"
    proof
      assume "r = []"
      with line(1) less.prems(2) have "tail_ok rc (replicate (n + 2) rc @ replicate (Suc m) NL)"
        using tail_ok_suffix [of rc "replicate k NL"] by simp
      moreover have "takeWhile (\<lambda>c. c = NL \<or> c = rc) (rev (replicate (n + 2) rc @ replicate (Suc m) NL))
          = rev (replicate (n + 2) rc @ replicate (Suc m) NL)"
        by (auto simp: takeWhile_eq_all_conv)
      ultimately have "length (rev (replicate (n + 2) rc @ replicate (Suc m) NL)) \<le> 1"
        unfolding tail_ok_def by (simp only:)
      then show False by simp
    qed
    moreover have "tail_ok rc r"
      using less.prems(2) line(1) tail_ok_suffix
        [of rc "replicate k NL @ replicate (n + 2) rc @ replicate (Suc m) NL" r] by simp
    ultimately have "s \<noteq> [] \<and> (\<exists>a. r = a @ s)" if "hd r = rc"
      using less.hyps [of r "count + (n + 2)" "blanks + k"] line less.prems that by simp
    with \<open>r \<noteq> []\<close> line less.prems show ?thesis
      by (auto split: if_splits)
  qed
qed

lemma lcompress_step:
  assumes "w \<noteq> []" "tail_ok rc w" "lcompress rc w count blanks = (out, c, bl)"
  obtains a x s out' c1 bl1 where "w = a @ x # s" "lscan rc w count blanks = (x # s, c1, bl1)"
    "out = x # out'" "lcompress rc s c1 bl1 = (out', c, bl)" "tail_ok rc s"
proof -
  obtain s c1 bl1 where sc: "lscan rc w count blanks = (s, c1, bl1)" by (metis prod_cases3)
  obtain a x s' where s: "w = a @ x # s'" "s = x # s'"
    using lscan_tail_ok [OF assms(1,2) sc] by (metis neq_Nil_conv)
  have len: "length s' < length w" using s by simp
  obtain o' c' bl' where r: "lcompress rc s' c1 bl1 = (o', c', bl')" by (metis prod_cases3)
  have "lcompress rc w count blanks = (x # o', c', bl')"
    by (simp only: lcompress.simps [of rc w] sc s(2) len r assms(1) if_True if_False prod.case list.case)
  with assms(3) have "out = x # o'" "lcompress rc s' c1 bl1 = (o', c, bl)" using r by simp_all
  moreover have "tail_ok rc s'" using assms(2) s tail_ok_suffix [of rc "a @ [x]" s'] by simp
  ultimately show thesis using that s sc by blast
qed

lemma compress_loop_refine:
  assumes "rest_is b K w" "rc \<noteq> 0" "0 \<notin> set w" "tail_ok rc w" "f \<le> K - length w"
    "lcompress rc w count blanks = (out, c, bl)"
  shows "f + length out \<le> K \<and> compress_loop b rc f (K - length w) count blanks =
    Inr (take f b @ out @ drop (f + length out) b, f + length out, c, bl)"
  using assms(1,3-)
proof (induction "length w" arbitrary: b w f count blanks out rule: less_induct)
  case less
  note le = rest_is_le [OF less.prems(1)]
  show ?case
  proof (cases w)
    case Nil
    with less.prems rest_is_Nil [of b K] show ?thesis
      by (subst compress_loop.simps) (auto simp: lcompress.simps)
  next
    case (Cons y w')
    have w: "rd b (K - length w) = Inr y" "y \<noteq> 0"
      using rest_is_Cons [of b K y w'] less.prems Cons by auto
    have ne: "w \<noteq> []" using Cons by simp
    obtain a x s' out' c1 bl1 where s: "w = a @ x # s'" and sc: "lscan rc w count blanks = (x # s', c1, bl1)"
      and out: "out = x # out'" "lcompress rc s' c1 bl1 = (out', c, bl)" and t: "tail_ok rc s'"
      by (rule lcompress_step [OF ne less.prems(3) less.prems(5)])
    have xs: "rest_is b K (x # s')" using less.prems(1) s rest_is_suffix by blast
    have lt: "f + length s' < K" "f < K" using less.prems(4) s rest_is_le [OF less.prems(1)] by auto
    obtain b' where b': "wr b f x = Inr b'" "b' = b[f := x]" "rest_is b' K s'"
      using rest_is_wr [OF rest_is_tl [OF xs] lt(1)] by blast
    from t have ih: "Suc f + length out' \<le> K \<and> compress_loop b' rc (Suc f) (K - length s') c1 bl1 =
        Inr (take (Suc f) b' @ out' @ drop (Suc f + length out') b', Suc f + length out', c, bl)"
      using less.prems s out lt by (intro less.hyps [OF _ b'(3)]) auto
    have "take (Suc f) b' = take f b @ [x]" "drop (Suc f + length out') b' = drop (Suc f + length out') b"
      using b'(2) le lt by (simp_all add: take_Suc_conv_app_nth)
    with ih have "compress_loop b' rc (Suc f) (K - length s') c1 bl1 =
        Inr (take f b @ out @ drop (f + length out) b, f + length out, c, bl)" using out by simp
    moreover have "Suc (K - Suc (length s')) = K - length s'"
      using rest_is_le [OF xs] by (simp add: Suc_diff_Suc)
    ultimately have "compress_loop b rc f (K - length w) count blanks =
        Inr (take f b @ out @ drop (f + length out) b, f + length out, c, bl)"
      using w scan_line_refine [OF less.prems(1) assms(2) sc] rest_is_Cons [OF xs] b'(1) s
      by (subst compress_loop.simps) simp
    with ih out show ?thesis by simp
  qed
qed

section \<open>What is counted and what is kept\<close>

lemma lscan_counts:
  assumes "lscan rc w count blanks = (s, c, bl)"
  shows "c + bl + length s \<le> count + blanks + length w"
  using assms
proof (induction "length w" arbitrary: w count blanks rule: less_induct)
  case less
  show ?case
  proof (cases rule: lscan_cases [of w blanks rc count])
    case (line k n m r)
    have "c + bl + length s \<le> count + (n + 2) + (blanks + k) + length r" if "r \<noteq> [] \<and> hd r = rc"
      using less.hyps [of r "count + (n + 2)" "blanks + k"] line less.prems that by simp
    with line less.prems show ?thesis by (auto split: if_splits)
  qed (use less.prems in auto)
qed

lemma lcompress_counts:
  assumes "lcompress rc w count blanks = (out, c, bl)" "tail_ok rc w"
  shows "c + bl + length out \<le> count + blanks + length w"
  using assms
proof (induction "length w" arbitrary: w count blanks out rule: less_induct)
  case less
  show ?case
  proof (cases w)
    case Nil
    with less.prems show ?thesis by (simp add: lcompress.simps)
  next
    case (Cons y w')
    have ne: "w \<noteq> []" using Cons by simp
    obtain a x s' out' c1 bl1 where s: "w = a @ x # s'" and sc: "lscan rc w count blanks = (x # s', c1, bl1)"
      and out: "out = x # out'" "lcompress rc s' c1 bl1 = (out', c, bl)" and t: "tail_ok rc s'"
      by (rule lcompress_step [OF ne less.prems(2) less.prems(1)])
    with less.hyps [OF _ out(2)] s have "c + bl + length out' \<le> c1 + bl1 + length s'" by simp
    with lscan_counts [OF sc] out s show ?thesis by simp
  qed
qed

text \<open>
  \<open>squeezed\<close>: no empty line, and no line end behind two characters to remove. It is what
  the loop produces, and the loop changes nothing in a string that has it.
\<close>

fun squeezed :: "wchar \<Rightarrow> wchar list \<Rightarrow> bool" where
  "squeezed rc (x # y # w) \<longleftrightarrow>
     \<not> (x = NL \<and> y = NL) \<and> \<not> (x = rc \<and> y = rc \<and> w \<noteq> [] \<and> hd w = NL) \<and> squeezed rc (y # w)"
| "squeezed rc w \<longleftrightarrow> True"

lemma lblank_NL: "lblank w n = (NL # s, n') \<Longrightarrow> s = [] \<or> hd s \<noteq> NL"
  by (induction w n rule: lblank.induct) (auto split: if_splits)

lemma lblank_hd: "lblank w n = (s, n') \<Longrightarrow> w \<noteq> [] \<Longrightarrow> hd s = hd w"
  by (induction w n rule: lblank.induct) (auto split: if_splits)

lemma lscan_NL:
  assumes "lscan rc w count blanks = (NL # s, c, bl)" "rc \<noteq> NL"
  shows "s = [] \<or> hd s \<noteq> NL"
  using assms(1)
proof (induction "length w" arbitrary: w count blanks rule: less_induct)
  case less
  show ?case
  proof (cases rule: lscan_cases [of w blanks rc count])
    case (plain k t)
    with less.prems lblank_NL show ?thesis by auto
  next
    case (partial k n r)
    with less.prems assms(2) show ?thesis by auto
  next
    case (line k n m r)
    with less.hyps [of r "count + (n + 2)" "blanks + k"] less.prems show ?thesis
      by (auto split: if_splits)
  qed
qed

lemma lscan_hd_ne_NL:
  assumes "lscan rc w count blanks = (s, c, bl)" "rc \<noteq> NL" "w \<noteq> []" "hd w \<noteq> NL"
  shows "s = [] \<or> hd s \<noteq> NL"
  using assms(1,3,4)
proof (induction "length w" arbitrary: w count blanks rule: less_induct)
  case less
  show ?case
  proof (cases rule: lscan_cases [of w blanks rc count])
    case (plain k t)
    with less.prems lblank_hd [OF plain(2)] show ?thesis by auto
  next
    case (partial k n r)
    with less.prems assms(2) show ?thesis by auto
  next
    case (line k n m r)
    with less.hyps [of r "count + (n + 2)" "blanks + k"] less.prems show ?thesis
      by (auto split: if_splits)
  qed
qed

lemma lscan_rc:
  assumes "lscan rc w count blanks = (s, c, bl)" "s \<noteq> []" "hd s = rc"
  shows "\<exists>n r. s = replicate (Suc n) rc @ r \<and> (r = [] \<or> hd r \<noteq> rc) \<and> (n = 0 \<or> r = [] \<or> hd r \<noteq> NL)"
  using assms
proof (induction "length w" arbitrary: w count blanks rule: less_induct)
  case less
  show ?case
  proof (cases rule: lscan_cases [of w blanks rc count])
    case (plain k t)
    with less.prems show ?thesis by auto
  next
    case (partial k n r)
    from less.prems(1) partial(5) have "s = replicate (Suc n) rc @ r" by simp
    with partial(3,4) show ?thesis by blast
  next
    case (line k n m r)
    with less.hyps [of r "count + (n + 2)" "blanks + k"] less.prems show ?thesis
      by (auto split: if_splits)
  qed
qed

lemma lscan_plainI:
  assumes "lblank w blanks = (s, bl)" "takeWhile (\<lambda>c. c = rc) s = []"
  shows "lscan rc w count blanks = (s, count, bl)"
  by (subst lscan.simps) (simp only: Let_def assms fst_conv snd_conv if_True simp_thms)

lemma lscan_partialI:
  assumes "lblank w blanks = (w, blanks)" "takeWhile (\<lambda>c. c = rc) w = run"
    "dropWhile (\<lambda>c. c = rc) w = r" "run \<noteq> []" "length run = 1 \<or> r = [] \<or> hd r \<noteq> NL"
  shows "lscan rc w count blanks = (w, 0, blanks)"
proof -
  have neg: "\<not> (1 < length run \<and> r \<noteq> [] \<and> hd r = NL)" using assms(5) by auto
  show ?thesis
    by (subst lscan.simps)
      (simp only: Let_def assms(1-3) neg assms(4) fst_conv snd_conv if_False if_True simp_thms)
qed

lemma lscan_run:
  assumes "r = [] \<or> hd r \<noteq> rc" "n = 0 \<or> r = [] \<or> hd r \<noteq> NL" "rc \<noteq> NL"
  shows "lscan rc (replicate (Suc n) rc @ r) count blanks = (replicate (Suc n) rc @ r, 0, blanks)"
proof (rule lscan_partialI)
  show "lblank (replicate (Suc n) rc @ r) blanks = (replicate (Suc n) rc @ r, blanks)"
    using assms(3) by (cases "replicate n rc @ r") auto
  have "takeWhile (\<lambda>c. c = rc) (replicate k rc @ r) = replicate k rc" for k
    using assms(1) by (induction k) (cases r; auto)+
  then show "takeWhile (\<lambda>c. c = rc) (replicate (Suc n) rc @ r) = replicate (Suc n) rc" .
  have "dropWhile (\<lambda>c. c = rc) (replicate k rc @ r) = r" for k
    using assms(1) by (induction k) (cases r; auto)+
  then show "dropWhile (\<lambda>c. c = rc) (replicate (Suc n) rc @ r) = r" .
qed (use assms(2) in auto)

lemma lscan_other:
  assumes "x \<noteq> rc" "x = NL \<Longrightarrow> w = [] \<or> hd w \<noteq> NL"
  shows "lscan rc (x # w) count blanks = (x # w, count, blanks)"
  using assms by (intro lscan_plainI) (cases w; auto)+

text \<open>One step of \<open>lcompress\<close>, without the counters.\<close>

lemma lcompress_Cons:
  assumes "lscan rc w count blanks = (x # s, c1, bl1)" "w \<noteq> []" "length s < length w"
  shows "fst (lcompress rc w count blanks) = x # fst (lcompress rc s c1 bl1)"
  by (simp only: lcompress.simps [of rc w] assms if_True if_False prod.case list.case)
    (simp split: prod.split)

lemma lcompress_hd:
  assumes "hd w \<noteq> rc" "w \<noteq> []"
  shows "\<exists>o'. fst (lcompress rc w count blanks) = hd w # o'"
proof -
  obtain s bl where l: "lblank w blanks = (s, bl)" by (metis surj_pair)
  from lblank_nonempty [OF l assms(2)] lblank_hd [OF l assms(2)] assms(1)
  obtain s' where s: "s = hd w # s'" by (metis list.collapse)
  obtain k where "w = replicate k NL @ s" using lblank_suffix [OF l] by blast
  then have "length s' < length w" using s by (metis length_Cons length_append less_add_same_cancel2 not_less_eq trans_le_add2 le_refl not_le)
  moreover have "takeWhile (\<lambda>c. c = rc) s = []" using s assms(1) by simp
  then have "lscan rc w count blanks = (hd w # s', count, bl)"
    using lscan_plainI [OF l] s by simp
  ultimately show ?thesis using lcompress_Cons assms(2) by blast
qed

lemma lcompress_run:
  assumes "r = [] \<or> hd r \<noteq> rc" "n \<le> 1 \<or> r = [] \<or> hd r \<noteq> NL" "rc \<noteq> NL"
  shows "\<exists>c bl. fst (lcompress rc (replicate n rc @ r) count blanks) =
    replicate n rc @ fst (lcompress rc r c bl)"
  using assms(2)
proof (induction n arbitrary: count blanks)
  case 0
  then show ?case by auto
next
  case (Suc n)
  then have "n = 0 \<or> r = [] \<or> hd r \<noteq> NL" by auto
  from lscan_run [OF assms(1) this assms(3)]
  have "fst (lcompress rc (replicate (Suc n) rc @ r) count blanks) =
      rc # fst (lcompress rc (replicate n rc @ r) 0 blanks)"
    by (intro lcompress_Cons) auto
  moreover from Suc.prems have "n \<le> 1 \<or> r = [] \<or> hd r \<noteq> NL" by auto
  from Suc.IH [OF this] obtain c bl where
    "fst (lcompress rc (replicate n rc @ r) 0 blanks) = replicate n rc @ fst (lcompress rc r c bl)"
    by blast
  ultimately show ?case by auto
qed

lemma squeezed_run:
  assumes "squeezed rc v" "v = [] \<or> hd v \<noteq> rc" "n \<le> 1 \<or> v = [] \<or> hd v \<noteq> NL" "rc \<noteq> NL"
  shows "squeezed rc (replicate n rc @ v)"
  using assms(3)
proof (induction n)
  case 0
  with assms(1) show ?case by simp
next
  case (Suc n)
  then have "squeezed rc (replicate n rc @ v)" by auto
  then show ?case using assms Suc.prems
    by (cases n; cases v; cases "n - 1"; auto)
qed

lemma lcompress_squeezed:
  assumes "rc \<noteq> NL" "tail_ok rc w"
  shows "squeezed rc (fst (lcompress rc w count blanks))"
  using assms(2)
proof (induction "length w" arbitrary: w count blanks rule: less_induct)
  case less
  show ?case
  proof (cases "w = []")
    case True
    then show ?thesis by (simp add: lcompress.simps)
  next
    case False
    obtain out c bl where o: "lcompress rc w count blanks = (out, c, bl)" by (metis prod_cases3)
    obtain a x s out' c1 bl1 where st: "w = a @ x # s" "lscan rc w count blanks = (x # s, c1, bl1)"
      "out = x # out'" "lcompress rc s c1 bl1 = (out', c, bl)" "tail_ok rc s"
      by (rule lcompress_step [OF False less.prems o])
    show ?thesis
    proof (cases "x = rc")
      case True
      then obtain n r where s: "x # s = replicate (Suc n) rc @ r" and r: "r = [] \<or> hd r \<noteq> rc"
        "n = 0 \<or> r = [] \<or> hd r \<noteq> NL"
        using lscan_rc [OF st(2)] by auto
      then have s': "s = replicate n rc @ r" and n: "n \<le> 1 \<or> r = [] \<or> hd r \<noteq> NL" by auto
      obtain c2 bl2 where out: "out' = replicate n rc @ fst (lcompress rc r c2 bl2)"
        using lcompress_run [OF r(1) n assms(1), of c1 bl1] st(4) s' by auto
      have t: "tail_ok rc r" using st(5) s' tail_ok_suffix by blast
      have "length r < length w" using st(1) s' by simp
      from less.hyps [OF this t] have sq: "squeezed rc (fst (lcompress rc r c2 bl2))" .
      have "r = [] \<or> (\<exists>o'. fst (lcompress rc r c2 bl2) = hd r # o')"
        using lcompress_hd r(1) by blast
      moreover have "fst (lcompress rc [] c2 bl2) = []" by (simp add: lcompress.simps)
      ultimately have "squeezed rc (replicate (Suc n) rc @ fst (lcompress rc r c2 bl2))"
        using sq r assms(1) by (intro squeezed_run) auto
      with o st(3) out True show ?thesis by simp
    next
      case x: False
      have sq: "squeezed rc out'" using less.hyps [of s c1 bl1] st by simp
      have "out' = [] \<or> hd out' \<noteq> NL" if "x = NL"
      proof (cases "s = []")
        case True
        with st(4) show ?thesis by (simp add: lcompress.simps)
      next
        case s: False
        with lscan_NL [OF _ assms(1)] st(2) that have h: "hd s \<noteq> NL" by blast
        obtain y s2 c2 bl2 out2 where "lscan rc s c1 bl1 = (y # s2, c2, bl2)" "out' = y # out2"
          by (rule lcompress_step [OF s st(5,4)])
        with lscan_hd_ne_NL [OF _ assms(1) s h] show ?thesis by fastforce
      qed
      with sq x o st(3) show ?thesis by (cases out') auto
    qed
  qed
qed

lemma squeezed_suffix: "squeezed rc (a @ s) \<Longrightarrow> squeezed rc s"
proof (induction a)
  case (Cons x a)
  then show ?case by (cases "a @ s") auto
qed simp

lemma lscan_squeezed:
  assumes "squeezed rc (x # w)" "rc \<noteq> NL"
  shows "\<exists>c. lscan rc (x # w) count blanks = (x # w, c, blanks) \<and> (c = count \<or> c = 0)"
proof (cases "x = rc")
  case False
  with assms have "x = NL \<Longrightarrow> w = [] \<or> hd w \<noteq> NL" by (cases w) auto
  with lscan_other [OF False] show ?thesis by blast
next
  case True
  define n r where d: "n = length (takeWhile (\<lambda>c. c = rc) w)" "r = dropWhile (\<lambda>c. c = rc) w"
  have w: "x # w = replicate (Suc n) rc @ r"
    using takeWhile_replicate [of rc w] d True by (metis append_Cons replicate_Suc takeWhile_dropWhile_id)
  have r: "r = [] \<or> hd r \<noteq> rc" unfolding d by (rule dropWhile_hd)
  have "n = 0 \<or> r = [] \<or> hd r \<noteq> NL"
  proof (cases n)
    case (Suc m)
    have "squeezed rc (replicate m rc @ rc # rc # r)"
      using assms(1) unfolding w Suc by (simp add: replicate_app_Cons_same)
    then have "squeezed rc (rc # rc # r)" by (rule squeezed_suffix)
    then show ?thesis by auto
  qed simp
  from lscan_run [OF r this assms(2)] w show ?thesis by auto
qed

lemma lcompress_id:
  assumes "squeezed rc w" "rc \<noteq> NL"
  shows "\<exists>c. lcompress rc w count blanks = (w, c, blanks) \<and> (c = count \<or> c = 0)"
  using assms(1)
proof (induction w arbitrary: count)
  case Nil
  then show ?case by (simp add: lcompress.simps)
next
  case (Cons x w)
  obtain c where c: "lscan rc (x # w) count blanks = (x # w, c, blanks)" "c = count \<or> c = 0"
    using lscan_squeezed [OF Cons.prems assms(2)] by blast
  have "squeezed rc w" using Cons.prems squeezed_suffix [of rc "[x]" w] by simp
  from Cons.IH [OF this, of c] obtain c' where
    c': "lcompress rc w c blanks = (w, c', blanks)" "c' = c \<or> c' = 0" by blast
  have "lcompress rc (x # w) count blanks = (x # w, c', blanks)"
    by (subst lcompress.simps) (simp add: c c')
  with c c' show ?case by auto
qed

section \<open>The clean-up passes on whole strings\<close>

text \<open>
  \<open>holds p w\<close>: the string of the document is \<open>w\<close>, and \<open>len\<close> does not count the terminator.
\<close>

definition holds :: "pstring \<Rightarrow> wchar list \<Rightarrow> bool" where
  "holds p w \<longleftrightarrow> (\<exists>post. buf p = Some (w @ 0 # post)) \<and> len p = length w \<and> 0 \<notin> set w"

definition text_of :: "pstring \<Rightarrow> wchar list res" where
  "text_of p = (case buf p of None \<Rightarrow> Inl NullDeref | Some b \<Rightarrow> str_at 0 b 0)"

definition chomp_list :: "wchar \<Rightarrow> wchar list \<Rightarrow> wchar list" where
  "chomp_list ind w =
     (let t = rev (dropWhile (\<lambda>c. c = NL \<or> c = ind) (rev w))
      in if length t + 1 < length w then t @ [NL] else w)"

definition compress_list :: "wchar \<Rightarrow> wchar list \<Rightarrow> wchar list" where
  "compress_list rc w =
     (case lcompress rc w 0 0 of (out, count, blanks) \<Rightarrow>
        if 0 < blanks + count \<and> length w = length out + (blanks + count) then butlast out else out)"

lemma holds_text: "holds p w \<Longrightarrow> text_of p = Inr w"
  by (auto simp: holds_def text_of_def mem_simps)

lemma chomp_scan_run:
  assumes "t \<noteq> []" "last t \<noteq> NL" "last t \<noteq> ind" "\<forall>c \<in> set r. c = NL \<or> c = ind"
  shows "chomp_scan (t @ r @ post) ind (length t + length r) n = Inr (n + length r)"
  using assms(4)
proof (induction r arbitrary: n post rule: rev_induct)
  case Nil
  from assms(1) obtain i where "length t = Suc i" by (cases t) auto
  with assms(1-3) show ?case by (simp add: rd_def nth_append last_conv_nth)
next
  case (snoc x r)
  have "rd (t @ r @ x # post) (length t + length r) = Inr x"
    using rd_append [of "t @ r" x post] by simp
  with snoc.prems snoc.IH [of "x # post" "Suc n"] show ?case by auto
qed

lemma chomp_split:
  assumes "\<exists>c \<in> set w. c \<noteq> NL \<and> c \<noteq> ind"
  obtains t r where "w = t @ r" "t \<noteq> []" "last t \<noteq> NL" "last t \<noteq> ind"
    "\<forall>c \<in> set r. c = NL \<or> c = ind" "chomp_list ind w = (if 1 < length r then t @ [NL] else w)"
proof -
  let ?P = "\<lambda>c. c = NL \<or> c = ind"
  let ?t = "rev (dropWhile ?P (rev w))" and ?r = "rev (takeWhile ?P (rev w))"
  have ne: "dropWhile ?P (rev w) \<noteq> []" using assms by auto
  have w: "w = ?t @ ?r"
    by (metis rev_append rev_rev_ident takeWhile_dropWhile_id)
  have "length ?t + 1 < length w \<longleftrightarrow> 1 < length ?r"
    using arg_cong [OF w, of length] by simp
  then have c: "chomp_list ind w = (if 1 < length ?r then ?t @ [NL] else w)"
    unfolding chomp_list_def Let_def by simp
  have l: "\<not> ?P (last ?t)"
    using hd_dropWhile [OF ne] ne by (simp add: last_rev)
  have "\<forall>c \<in> set ?r. ?P c" by (auto dest: set_takeWhileD)
  with that [of ?t ?r, OF w] ne l c show thesis by blast
qed

lemma pstring_chomp_holds:
  assumes "holds p w" "\<exists>c \<in> set w. c \<noteq> NL \<and> c \<noteq> ind"
  shows "\<exists>p'. pstring_chomp ind p = Inr p' \<and> holds p' (chomp_list ind w) \<and> tail_ok ind (chomp_list ind w)"
proof -
  obtain post where b: "buf p = Some (w @ 0 # post)" and l: "len p = length w" "0 \<notin> set w"
    using assms(1) by (auto simp: holds_def)
  obtain t r where w: "w = t @ r" "t \<noteq> []" "last t \<noteq> NL" "last t \<noteq> ind"
      "\<forall>c \<in> set r. c = NL \<or> c = ind" and c: "chomp_list ind w = (if 1 < length r then t @ [NL] else w)"
    by (rule chomp_split [OF assms(2)])
  have tk: "takeWhile (\<lambda>c. c = NL \<or> c = ind) (rev t) = []"
    using w(2-4) by (cases t rule: rev_cases) auto
  have tk': "length (takeWhile (\<lambda>c. c = NL \<or> c = ind) (rev w)) = length r"
    using w(1,5) tk by (simp add: takeWhile_append)
  have scan: "chomp_scan (w @ 0 # post) ind (len p) 0 = Inr (length r)"
    using chomp_scan_run [OF w(2-5), of "0 # post" 0] w(1) l by simp
  show ?thesis
  proof (cases "length r \<le> 1")
    case True
    then have "chomp_list ind w = w" "tail_ok ind w"
      using c tk' by (simp_all add: tail_ok_def)
    moreover have "pstring_chomp ind p = Inr p"
      using scan True b by (auto simp: pstring_chomp_def)
    ultimately show ?thesis using assms(1) by auto
  next
    case False
    then obtain x y r' where r: "r = x # y # r'" by (cases r; cases "tl r") auto
    have tl: "tail_ok ind (t @ [NL])" using tk by (simp add: tail_ok_def)
    have "size_sub (len p) (length r - 1) = Suc (length t)" using l w(1) r by simp
    moreover have "wr (w @ 0 # post) (size_sub (Suc (length t)) 1) NL = Inr (t @ NL # y # r' @ 0 # post)"
      using wr_append [of t x "y # r' @ 0 # post" NL] w(1) r by simp
    moreover have "wr (t @ NL # y # r' @ 0 # post) (Suc (length t)) 0 = Inr (t @ NL # 0 # r' @ 0 # post)"
      using wr_append [of "t @ [NL]" y "r' @ 0 # post" 0] by simp
    moreover have "\<not> len p < 2" "length r > 1" using l w(1) r by simp_all
    ultimately have "pstring_chomp ind p = Inr (p\<lparr>buf := Some (t @ NL # 0 # r' @ 0 # post), len := Suc (length t)\<rparr>)"
      using scan b by (simp only: pstring_chomp_def Let_def if_True if_False option.case bindE_simps)
    moreover have "0 \<notin> set t" using l w(1) by simp
    ultimately show ?thesis using c r tl by (auto simp: holds_def)
  qed
qed

lemma lcompress_out_nonempty:
  assumes "w \<noteq> []" "tail_ok rc w" "lcompress rc w count blanks = (out, c, bl)"
  shows "out \<noteq> []"
  using assms by (metis lcompress_step list.distinct(1))

lemma lscan_set: "lscan rc w count blanks = (s, c, bl) \<Longrightarrow> set s \<subseteq> set w"
proof (induction "length w" arbitrary: w count blanks rule: less_induct)
  case less
  show ?case
  proof (cases rule: lscan_cases [of w blanks rc count])
    case (line k n m r)
    with less.hyps [of r "count + (n + 2)" "blanks + k"] less.prems show ?thesis
      by (auto split: if_splits)
  qed (use less.prems in auto)
qed

lemma lcompress_set: "set (fst (lcompress rc w count blanks)) \<subseteq> set w"
proof (induction rc w count blanks rule: lcompress.induct)
  case (1 rc w count blanks)
  obtain s c bl where s: "lscan rc w count blanks = (s, c, bl)" by (metis prod_cases3)
  show ?case
  proof (cases "w = [] \<or> s = [] \<or> \<not> length (tl s) < length w")
    case True
    with s show ?thesis by (subst lcompress.simps) (auto split: list.split)
  next
    case False
    then obtain x s' where x: "s = x # s'" by (cases s) auto
    with False "1.IH" [OF _ s [symmetric] x refl] have
      "set (fst (lcompress rc s' c bl)) \<subseteq> set s'" by auto
    with lcompress_Cons [of rc w count blanks x s'] False x s lscan_set [OF s] show ?thesis by auto
  qed
qed

lemma squeezed_take: "squeezed rc w \<Longrightarrow> squeezed rc (take n w)"
proof (induction rc w arbitrary: n rule: squeezed.induct)
  case (1 rc x y w)
  show ?case
  proof (cases n)
    case (Suc m)
    with 1 have "squeezed rc (take m (y # w))" by simp
    with 1 Suc show ?thesis by (cases m; cases w) (auto simp: take_Cons' split: if_splits)
  qed simp
qed (auto simp: take_Cons' split: if_splits)

lemma compress_list_squeezed:
  "rc \<noteq> NL \<Longrightarrow> tail_ok rc w \<Longrightarrow> squeezed rc (compress_list rc w)"
  using lcompress_squeezed [of rc w 0 0] squeezed_take
  by (auto simp: compress_list_def butlast_conv_take split: prod.split)

lemma realloc_take: "n \<le> length b \<Longrightarrow> realloc_cells j b n = take n b"
  by (simp add: realloc_cells_def)

lemma pstring_compress_holds:
  assumes "holds p w" "rc \<noteq> 0" "tail_ok rc w" "alloc_ok env (len p * sizeof_wchar)"
  shows "\<exists>p'. pstring_compress env rc p = Inr p' \<and> text_of p' = Inr (compress_list rc w)"
proof -
  obtain post where b: "buf p = Some (w @ 0 # post)" and l: "len p = length w" "0 \<notin> set w"
    using assms(1) by (auto simp: holds_def)
  obtain out c bl where lc: "lcompress rc w 0 0 = (out, c, bl)" by (metis prod_cases3)
  let ?B = "w @ 0 # post"
  have "rest_is ?B (length w) w" by (auto simp: rest_is_def intro: exI [of _ "[]"])
  from compress_loop_refine [OF this assms(2) l(2) assms(3) _ lc, of 0]
  have le: "length out \<le> length w"
    and run: "compress_loop ?B rc 0 0 0 0 = Inr (out @ drop (length out) ?B, length out, c, bl)" by auto
  define rest where "rest = drop (Suc (length out)) ?B"
  have "drop (length out) ?B \<noteq> []" using le by simp
  then have "wr (out @ drop (length out) ?B) (length out) 0 = Inr (out @ 0 # rest)"
    using wr_append [of out "hd (drop (length out) ?B)" _ 0]
    by (metis drop_Suc hd_Cons_tl rest_def tl_drop)
  note run2 = run this
  have o0: "0 \<notin> set out" using lcompress_set [of rc w 0 0] lc l(2) by auto
  have cnt: "c + bl + length out \<le> length w" using lcompress_counts [OF lc assms(3)] by simp
  have lr: "length (out @ 0 # rest) = Suc (length w + length post)" using le by (simp add: rest_def)
  show ?thesis
  proof (cases "c + bl = 0")
    case True
    then have "pstring_compress env rc p = Inr (p\<lparr>buf := Some (out @ 0 # rest)\<rparr>)"
      using run2 b by (simp add: pstring_compress_def)
    then show ?thesis using lc o0 True by (simp add: text_of_def mem_simps compress_list_def)
  next
    case False
    define n where "n = length w - (bl + c)"
    have "w \<noteq> []" using False cnt by auto
    then have n: "0 < n" "length out \<le> n" "n \<le> length w"
      using lcompress_out_nonempty [OF _ assms(3) lc] cnt
      by (simp_all add: n_def length_greater_0_conv [symmetric] del: length_greater_0_conv)
    let ?b3 = "(take n (out @ 0 # rest))[n - 1 := 0]"
    have "wr (realloc_cells (junk env) (out @ 0 # rest) n) (size_sub n 1) 0 = Inr ?b3"
      using n lr by (simp add: realloc_take wr_in)
    moreover have "alloc_ok env (n * sizeof_wchar)"
      using assms(4) l n by (auto simp: alloc_ok_def sizeof_wchar_def)
    ultimately have ok: "pstring_compress env rc p = Inr (p\<lparr>buf := Some ?b3, len := n, bsize := n * sizeof_wchar\<rparr>)"
      using run2 b l False cnt by (auto simp: pstring_compress_def Let_def n_def)
    have "str_at 0 ?b3 0 = Inr (compress_list rc w)"
    proof (cases "n = length out")
      case True
      then have "?b3 = butlast out @ [0]" using n by (simp add: butlast_conv_take list_update_append list_update_beyond upd_conv_take_nth_drop)
      moreover have "0 \<notin> set (butlast out)" using o0 in_set_butlastD by fast
      moreover have "compress_list rc w = butlast out"
        using lc True False cnt by (auto simp: compress_list_def n_def)
      ultimately show ?thesis
        using str_at_0 [of 0 "butlast out" "[]"] by (simp only: simp_thms)
    next
      case ne: False
      with n obtain k where k: "n = length out + Suc k" by (metis add_Suc_right le_neq_implies_less less_iff_Suc_add)
      then have "?b3 = out @ (0 # take k rest)[k := 0]" by (simp add: list_update_append)
      also have "\<dots> = out @ 0 # (take k rest)[k - 1 := (if k = 0 then (take k rest) ! (k - 1) else 0)]"
        by (cases k) auto
      finally have e: "str_at 0 ?b3 0 = Inr out" using str_at_0 [OF o0] by (simp only:)
      have "compress_list rc w = out" using lc ne cnt by (auto simp: compress_list_def n_def)
      with e show ?thesis by (simp only:)
    qed
    with ok show ?thesis by (simp add: text_of_def)
  qed
qed

section \<open>Conversion, and both passes on a document\<close>

lemma ascii_mbs_L: "\<forall>c \<in> set s. (of_char c :: nat) < 128 \<Longrightarrow> ascii_mbs s = Some (L s)"
  by (simp add: ascii_mbs_def L_def)

lemma ascii_roundtrip: "ascii_mbs s = Some w \<Longrightarrow> ascii_wcs w = Some s"
  by (auto simp: ascii_mbs_def ascii_wcs_def o_def split: if_splits)

lemma compress_after_chomp:
  assumes "holds p w" "\<exists>c \<in> set w. c \<noteq> NL \<and> c \<noteq> ind" "ind \<noteq> 0" "ind \<noteq> NL"
    "alloc_ok env (length w * sizeof_wchar)"
  shows "\<exists>p1 p2. pstring_chomp ind p = Inr p1 \<and> pstring_compress env ind p1 = Inr p2 \<and>
    text_of p2 = Inr (compress_list ind (chomp_list ind w)) \<and>
    squeezed ind (compress_list ind (chomp_list ind w))"
proof -
  obtain p1 where p1: "pstring_chomp ind p = Inr p1" "holds p1 (chomp_list ind w)"
    "tail_ok ind (chomp_list ind w)"
    using pstring_chomp_holds [OF assms(1,2)] by blast
  have "length (chomp_list ind w) \<le> length w" by (simp add: chomp_list_def Let_def)
  with assms(5) p1(2) have "alloc_ok env (len p1 * sizeof_wchar)"
    by (auto simp: holds_def alloc_ok_def sizeof_wchar_def)
  from pstring_compress_holds [OF p1(2) assms(3) p1(3) this]
  show ?thesis using p1 compress_list_squeezed [OF assms(4) p1(3)] by blast
qed

section \<open>Lines\<close>

text \<open>
  A document as a list of lines. A line is blank when it holds nothing but the character to remove. The lines
  on which \<open>pstring_compress\<close> does what its comment says are those of \<open>doc_lines\<close>: no line is that single
  character, which the code keeps for the sake of entries without a value, and no line with text ends in two of
  them, which would join it with the next.
\<close>

definition lines_text :: "wchar list list \<Rightarrow> wchar list" where
  "lines_text ls = concat (map (\<lambda>l. l @ [NL]) ls)"

definition blank_line :: "wchar \<Rightarrow> wchar list \<Rightarrow> bool" where
  "blank_line rc l \<longleftrightarrow> set l \<subseteq> {rc}"

definition run_end :: "wchar \<Rightarrow> wchar list \<Rightarrow> bool" where
  "run_end rc l \<longleftrightarrow> take 2 (rev l) = [rc, rc]"

definition doc_lines :: "wchar \<Rightarrow> wchar list list \<Rightarrow> bool" where
  "doc_lines rc ls \<longleftrightarrow> (\<forall>l \<in> set ls. NL \<notin> set l \<and> l \<noteq> [rc] \<and> (blank_line rc l \<or> \<not> run_end rc l))"

lemma lines_text_simps [simp]: "lines_text [] = []" "lines_text (l # ls) = l @ NL # lines_text ls"
  "lines_text (ks @ ls) = lines_text ks @ lines_text ls"
  by (simp_all add: lines_text_def)

lemma run_end_tl: "\<not> run_end rc (c # t) \<Longrightarrow> \<not> run_end rc t"
  by (auto simp: run_end_def)

lemma skip_empty:
  obtains k where "NL # lines_text ls = replicate (Suc k) NL @ lines_text (dropWhile (\<lambda>l. l = []) ls)"
proof (induction ls arbitrary: thesis)
  case (Cons l ls)
  show ?case
  proof (cases "l = []")
    case True
    from Cons.IH obtain k where "NL # lines_text ls = replicate (Suc k) NL @ lines_text (dropWhile (\<lambda>l. l = []) ls)" .
    with True Cons.prems [of "Suc k"] show ?thesis by simp
  qed (use Cons.prems [of 0] in simp)
qed simp

lemma lines_start:
  assumes "doc_lines rc ls"
  shows "dropWhile (\<lambda>l. l = []) ls = [] \<or>
    (\<exists>c l ls'. dropWhile (\<lambda>l. l = []) ls = (c # l) # ls' \<and> c \<noteq> NL)"
  using assms by (induction ls) (auto simp: doc_lines_def neq_Nil_conv)

lemma drop_empty: "dropWhile (blank_line rc) (dropWhile (\<lambda>l. l = []) ls) = dropWhile (blank_line rc) ls"
  by (induction ls) (auto simp: blank_line_def)

lemma lines_hd: "doc_lines rc ls \<Longrightarrow> lines_text (dropWhile (\<lambda>l. l = []) ls) = [] \<or> hd (lines_text (dropWhile (\<lambda>l. l = []) ls)) \<noteq> NL"
  by (induction ls) (auto simp: doc_lines_def neq_Nil_conv)

lemma lblank_run: "v = [] \<or> hd v \<noteq> NL \<Longrightarrow> lblank (replicate (Suc k) NL @ v) b = (NL # v, b + k)"
proof (induction k arbitrary: b)
  case 0
  then show ?case by (cases v) auto
qed auto

lemma lscan_text:
  assumes "NL \<notin> set (c # t)" "\<not> run_end rc (c # t)" "rc \<noteq> NL"
  shows "\<exists>n'. lscan rc (c # t @ NL # r) n b = (c # t @ NL # r, n', b)"
proof (cases "c = rc")
  case True
  define u where "u = dropWhile (\<lambda>x. x = rc) t"
  define k where "k = length (takeWhile (\<lambda>x. x = rc) t)"
  have t: "t = replicate k rc @ u"
    using takeWhile_replicate [of rc t] unfolding u_def k_def by (metis takeWhile_dropWhile_id)
  have u: "u = [] \<or> hd u \<noteq> rc" unfolding u_def by (rule dropWhile_hd)
  have "k = 0" if "u = []"
  proof (rule ccontr)
    assume "k \<noteq> 0"
    then obtain j where "k = Suc j" by (cases k) auto
    moreover have "rc # rc # replicate j rc = replicate j rc @ [rc, rc]" by (induction j) auto
    ultimately have "c # t = replicate j rc @ [rc, rc]" using t that True by simp
    with assms(2) show False by (simp add: run_end_def)
  qed
  then have "lscan rc (replicate (Suc k) rc @ u @ NL # r) n b = (replicate (Suc k) rc @ u @ NL # r, 0, b)"
    using u assms(1,3) t by (intro lscan_run) (cases u; auto)+
  then show ?thesis using True t by auto
next
  case False
  then show ?thesis using assms(1) by (intro exI) (rule lscan_other, auto)
qed

lemma lscan_lines:
  assumes "doc_lines rc ls" "ls \<noteq> []" "hd ls \<noteq> []" "dropWhile (blank_line rc) ls \<noteq> []" "rc \<noteq> NL"
  shows "\<exists>n' b'. lscan rc (lines_text ls) n b = (lines_text (dropWhile (blank_line rc) ls), n', b')"
  using assms(1-4)
proof (induction "length ls" arbitrary: ls n b rule: less_induct)
  case less
  obtain l ls' where ls: "ls = l # ls'" using less.prems(2) by (cases ls) auto
  then obtain c t where l: "l = c # t" using less.prems(3) by (cases l) auto
  show ?case
  proof (cases "blank_line rc l")
    case False
    then have "NL \<notin> set l" "\<not> run_end rc l" using less.prems(1) ls by (auto simp: doc_lines_def)
    then show ?thesis using lscan_text [of c t rc "lines_text ls'" n b] assms(5) ls l False by auto
  next
    case True
    then have rp: "l = replicate (length l) rc" by (auto simp: blank_line_def intro: replicate_eqI)
    have "l \<noteq> [rc]" using less.prems(1) ls by (auto simp: doc_lines_def)
    with rp l have "2 \<le> length l" by (cases t) auto
    with rp obtain m where m: "l = replicate (m + 2) rc" by (metis le_add_diff_inverse2)
    let ?ls = "dropWhile (\<lambda>l. l = []) ls'"
    obtain k where k: "NL # lines_text ls' = replicate (Suc k) NL @ lines_text ?ls" using skip_empty .
    have d: "doc_lines rc ls'" using less.prems(1) ls by (simp add: doc_lines_def)
    have e: "dropWhile (blank_line rc) ls = dropWhile (blank_line rc) ?ls" using True ls by (simp add: drop_empty)
    then have "?ls \<noteq> []" using less.prems(4) by (metis dropWhile.simps(1))
    then obtain x l2 ls2 where s: "?ls = (x # l2) # ls2" "x \<noteq> NL" using lines_start [OF d] by blast
    let ?r = "NL # lines_text ls'"
    have r': "dropWhile (\<lambda>c. c = NL) ?r = lines_text ?ls" unfolding k using s by (induction k) auto
    have w: "lines_text ls = replicate (m + 2) rc @ ?r" using ls m by simp
    have lb: "lblank (replicate (m + 2) rc @ ?r) b = (replicate (m + 2) rc @ ?r, b)" using assms(5) by simp
    have tw: "takeWhile (\<lambda>c. c = rc) (replicate j rc @ ?r) = replicate j rc"
      "dropWhile (\<lambda>c. c = rc) (replicate j rc @ ?r) = ?r" for j
      using assms(5) by (induction j) auto
    have sc: "lscan rc (lines_text ls) n b =
        (if x = rc then lscan rc (lines_text ?ls) (n + (m + 2)) b else (lines_text ?ls, n + (m + 2), b + 1))"
      unfolding w by (subst lscan.simps) (simp only: lb Let_def fst_conv snd_conv tw r', simp add: s)
    show ?thesis
    proof (cases "x = rc")
      case True
      have "doc_lines rc ?ls" using d by (auto simp: doc_lines_def dest: set_dropWhileD)
      moreover have "length ?ls < length ls" using ls by (simp add: length_dropWhile_le less_Suc_eq_le)
      ultimately show ?thesis using less.hyps [of ?ls] less.prems(4) sc True s e by auto
    next
      case False
      then have "dropWhile (blank_line rc) ?ls = ?ls" using s by (simp add: blank_line_def)
      then show ?thesis using sc False e by auto
    qed
  qed
qed

lemma lcompress_text:
  assumes "\<And>n b. fst (lcompress rc (NL # r) n b) = NL # R" "NL \<notin> set t" "\<not> run_end rc t" "rc \<noteq> NL"
  shows "fst (lcompress rc (t @ NL # r) n b) = t @ NL # R"
  using assms(2,3)
proof (induction t arbitrary: n b)
  case (Cons c t)
  obtain n' where "lscan rc (c # t @ NL # r) n b = (c # t @ NL # r, n', b)" using lscan_text Cons.prems assms(4) by blast
  then have "fst (lcompress rc (c # t @ NL # r) n b) = c # fst (lcompress rc (t @ NL # r) n' b)"
    by (rule lcompress_Cons) simp_all
  then show ?case using Cons.IH Cons.prems run_end_tl by simp
qed (simp add: assms(1))

lemma lcompress_lines:
  assumes "doc_lines rc ls" "ls \<noteq> [] \<longrightarrow> \<not> blank_line rc (last ls)" "rc \<noteq> NL"
  shows "fst (lcompress rc (NL # lines_text ls) n b) = NL # lines_text (filter (\<lambda>l. \<not> blank_line rc l) ls)"
  using assms(1,2)
proof (induction "length ls" arbitrary: ls n b rule: less_induct)
  case less
  let ?ls = "dropWhile (\<lambda>l. l = []) ls" and ?f = "filter (\<lambda>l. \<not> blank_line rc l)"
  obtain k where k: "NL # lines_text ls = replicate (Suc k) NL @ lines_text ?ls" using skip_empty .
  have f: "?f ?ls = ?f ls" by (induction ls) (auto simp: blank_line_def)
  have s: "lines_text ?ls = [] \<or> hd (lines_text ?ls) \<noteq> NL" by (rule lines_hd [OF less.prems(1)])
  have "lscan rc (NL # lines_text ls) n b = (NL # lines_text ?ls, n, b + k)"
    unfolding k by (rule lscan_plainI [OF lblank_run [OF s]]) (use assms(3) in simp)
  then have 1: "fst (lcompress rc (NL # lines_text ls) n b) = NL # fst (lcompress rc (lines_text ?ls) n (b + k))"
    by (rule lcompress_Cons) (use arg_cong [OF k, of length] in simp_all)
  show ?case
  proof (cases "?ls = []")
    case True
    have "fst (lcompress rc [] n (b + k)) = []" by (simp add: lcompress.simps [of rc "[]"])
    moreover have "?f ls = []" using f unfolding True by simp
    ultimately show ?thesis using 1 unfolding True by simp
  next
    case False
    have ne: "ls \<noteq> []" using False by auto
    have la: "last ls \<in> set ls" "\<not> blank_line rc (last ls)" using less.prems(2) ne by auto
    have d: "doc_lines rc ?ls" using less.prems(1) by (auto simp: doc_lines_def dest: set_dropWhileD)
    note drop_empty [of rc ls]
    moreover have "dropWhile (blank_line rc) ls \<noteq> []" using la by auto
    moreover have "hd ?ls \<noteq> []" using False by (metis (mono_tags, lifting) hd_dropWhile)
    ultimately obtain n' b' where sc: "lscan rc (lines_text ?ls) n (b + k) = (lines_text (dropWhile (blank_line rc) ls), n', b')"
      using lscan_lines [OF d False _ _ assms(3), of n "b + k"] by auto
    obtain l ls3 where l: "dropWhile (blank_line rc) ls = l # ls3" "\<not> blank_line rc l"
      using la(1,2) by (metis dropWhile_eq_Nil_conv hd_dropWhile list.collapse)
    obtain c t where ct: "l = c # t" using l(2) by (cases l) (auto simp: blank_line_def)
    have in_ls: "l \<in> set ls" "set ls3 \<subseteq> set ls" using l(1) by (metis list.set_intros set_dropWhileD subsetI)+
    have suf: "ls = takeWhile (blank_line rc) ls @ l # ls3" using l(1) by (metis takeWhile_dropWhile_id)
    have len: "length ls3 < length ls" using arg_cong [OF suf, of length] by simp
    have d3: "doc_lines rc ls3" using less.prems(1) in_ls(2) by (auto simp: doc_lines_def)
    have l3: "ls3 \<noteq> [] \<longrightarrow> \<not> blank_line rc (last ls3)" using la(2) arg_cong [OF suf, of last] by auto
    have nl: "NL \<notin> set t" "\<not> run_end rc t"
      using less.prems(1) in_ls(1) l(2) run_end_tl [of rc c t] unfolding ct by (auto simp: doc_lines_def)
    have "lines_text ?ls \<noteq> []" "length (t @ NL # lines_text ls3) < length (lines_text ?ls)"
    proof -
      have "length (lines_text (dropWhile P xs)) \<le> length (lines_text xs)" for P xs by (induction xs) auto
      from this [of "blank_line rc" ?ls] drop_empty [of rc ls] l(1) ct
      show "length (t @ NL # lines_text ls3) < length (lines_text ?ls)" "lines_text ?ls \<noteq> []" by auto
    qed
    then have "fst (lcompress rc (lines_text ?ls) n (b + k)) = c # fst (lcompress rc (t @ NL # lines_text ls3) n' b')"
      using lcompress_Cons [OF _ _ , of rc "lines_text ?ls" n "b + k" c "t @ NL # lines_text ls3" n' b'] sc l(1) ct by simp
    also have "\<dots> = c # t @ NL # lines_text (?f ls3)"
      using lcompress_text [OF less.hyps [OF len d3 l3] nl assms(3)] by simp
    also have "\<dots> = lines_text (?f ls)"
    proof -
      have "?f (takeWhile (blank_line rc) ls) = []" by (auto simp: filter_empty_conv dest: set_takeWhileD)
      then have "?f ls = l # ?f ls3" using l(2) by (subst suf) simp
      then show ?thesis using ct by simp
    qed
    finally show ?thesis using 1 by simp
  qed
qed

lemma chomp_lines:
  assumes "l \<noteq> []" "NL \<notin> set l" "last l \<noteq> ind" "\<forall>b \<in> set bs. blank_line ind b"
  shows "chomp_list ind (lines_text (ks @ l # bs)) = lines_text (ks @ [l])"
proof -
  let ?P = "\<lambda>c. c = NL \<or> c = ind" and ?u = "lines_text ks @ l"
  have b: "\<forall>c \<in> set (rev (lines_text bs) @ [NL]). ?P c" using assms(4) by (induction bs) (auto simp: blank_line_def)
  obtain v c where l: "l = v @ [c]" "c \<noteq> NL" "c \<noteq> ind" using assms(1-3) by (cases l rule: rev_cases) auto
  have "rev (lines_text (ks @ l # bs)) = (rev (lines_text bs) @ [NL]) @ rev ?u" by simp
  moreover have "dropWhile ?P ((rev (lines_text bs) @ [NL]) @ rev ?u) = dropWhile ?P (rev ?u)"
    using b by (rule dropWhile_append2 [OF bspec])
  moreover have "dropWhile ?P (rev ?u) = rev ?u" using l by simp
  ultimately have "chomp_list ind (lines_text (ks @ l # bs)) =
      (if length ?u + 1 < length (lines_text (ks @ l # bs)) then ?u @ [NL] else lines_text (ks @ l # bs))"
    by (simp only: chomp_list_def Let_def rev_rev_ident)
  moreover have "lines_text bs = []" if "\<not> length ?u + 1 < length (lines_text (ks @ l # bs))" using that by simp
  ultimately show ?thesis by (simp split: if_splits)
qed

lemma compress_lines:
  assumes "doc_lines rc ls" "ls \<noteq> []" "\<not> blank_line rc (hd ls)" "\<not> blank_line rc (last ls)" "rc \<noteq> NL"
  shows "\<exists>u. compress_list rc (lines_text ls) = u \<and>
    (u = lines_text (filter (\<lambda>l. \<not> blank_line rc l) ls) \<or> u @ [NL] = lines_text (filter (\<lambda>l. \<not> blank_line rc l) ls))"
proof -
  obtain l ls' where ls: "ls = l # ls'" using assms(2) by (cases ls) auto
  let ?T = "lines_text (filter (\<lambda>l. \<not> blank_line rc l) ls)"
  have "doc_lines rc ls'" "ls' \<noteq> [] \<longrightarrow> \<not> blank_line rc (last ls')" using assms(1,4) ls by (auto simp: doc_lines_def)
  note n = lcompress_lines [OF this assms(5)]
  have "NL \<notin> set l" "\<not> run_end rc l" using assms(1,3) ls by (auto simp: doc_lines_def)
  from lcompress_text [OF n this assms(5)] have f: "fst (lcompress rc (lines_text ls) 0 0) = ?T" using ls assms(3) by simp
  then obtain c b where o: "lcompress rc (lines_text ls) 0 0 = (?T, c, b)" by (metis fst_conv prod.exhaust)
  have "last (lines_text ks) = NL" if "ks \<noteq> []" for ks using that by (induction ks) (auto simp: lines_text_def)
  moreover have "filter (\<lambda>l. \<not> blank_line rc l) ls \<noteq> []" using ls assms(3) by simp
  ultimately have "last ?T = NL" by blast
  moreover have "?T \<noteq> []" using ls assms(3) by simp
  ultimately have "butlast ?T @ [NL] = ?T" by (metis append_butlast_last_id)
  then show ?thesis by (auto simp: compress_list_def o)
qed

section \<open>Properties\<close>

text \<open>
  C13: \<open>pstring_chomp\<close> followed by \<open>pstring_compress\<close>, the clean-up of a text document, stays inside the
  buffer, ends, and removes exactly the blank lines, those that are empty or consist of indent characters, but
  for the very last line end, which may go as well. The document starts with a line of text, whose lines of text
  do not end in two indent characters, the last one not in any, and no line is a single indent character.
\<close>

theorem chomp_then_compress:
  assumes "holds p (lines_text ls)" "doc_lines ind ls" "ls \<noteq> []" "\<not> blank_line ind (hd ls)"
    "last (last (filter (\<lambda>l. \<not> blank_line ind l) ls)) \<noteq> ind" "ind \<noteq> 0" "ind \<noteq> NL"
    "alloc_ok env (length (lines_text ls) * sizeof_wchar)"
  shows "\<exists>p1 p2 u. pstring_chomp ind p = Inr p1 \<and> pstring_compress env ind p1 = Inr p2 \<and> text_of p2 = Inr u \<and>
    (u = lines_text (filter (\<lambda>l. \<not> blank_line ind l) ls) \<or> u @ [NL] = lines_text (filter (\<lambda>l. \<not> blank_line ind l) ls))"
proof -
  let ?f = "filter (\<lambda>l. \<not> blank_line ind l)"
  define bs where "bs = takeWhile (blank_line ind) (rev ls)"
  obtain l ks where r: "dropWhile (blank_line ind) (rev ls) = l # rev ks" "\<not> blank_line ind l"
  proof -
    have "hd ls \<in> set (rev ls)" using assms(3) by simp
    then have "dropWhile (blank_line ind) (rev ls) \<noteq> []" using assms(4) by auto
    then show ?thesis using that hd_dropWhile [of "blank_line ind" "rev ls"] by (metis list.collapse rev_rev_ident)
  qed
  have ls: "ls = ks @ l # rev bs"
    using takeWhile_dropWhile_id [of "blank_line ind" "rev ls"] r(1) unfolding bs_def
    by (metis append.assoc append_Cons append_Nil rev.simps(2) rev_append rev_rev_ident)
  have b: "\<forall>b \<in> set (rev bs). blank_line ind b" by (auto simp: bs_def dest: set_takeWhileD)
  then have "?f (rev bs) = []" by (simp add: filter_empty_conv)
  then have f: "?f ls = ?f (ks @ [l])" "last (?f ls) = l" using ls r(2) by simp_all
  have l: "l \<noteq> []" "NL \<notin> set l" "last l \<noteq> ind"
    using r(2) assms(2,5) f(2) ls by (auto simp: blank_line_def doc_lines_def)
  have ch: "chomp_list ind (lines_text ls) = lines_text (ks @ [l])" unfolding ls by (rule chomp_lines [OF l b])
  have "last l \<in> set (lines_text ls)" "last l \<noteq> NL" using l(1,2) ls last_in_set [OF l(1)] by (auto dest: sym)
  then obtain p1 p2 where p: "pstring_chomp ind p = Inr p1" "pstring_compress env ind p1 = Inr p2"
    "text_of p2 = Inr (compress_list ind (lines_text (ks @ [l])))"
    using compress_after_chomp [OF assms(1) _ assms(6-8)] l(3) ch by auto
  have "doc_lines ind (ks @ [l])" "\<not> blank_line ind (hd (ks @ [l]))"
    using assms(2,4) ls by (auto simp: doc_lines_def hd_append split: if_splits)
  from compress_lines [OF this(1) _ this(2)] show ?thesis using p r(2) assms(7) f(1) by auto
qed

theorem chomp_then_compress_witness:
  "\<exists>p1 p2 u. pstring_chomp 32 \<lparr>buf = Some (L ''a '' @ [NL, 32, 32, NL, 32, 32] @ L ''b'' @ [NL, NL, 0]), len = 11, bsize = 48\<rparr> = Inr p1 \<and>
     pstring_compress ascii_env 32 p1 = Inr p2 \<and> text_of p2 = Inr u \<and>
     (u = L ''a '' @ [NL] @ L ''  b'' @ [NL] \<or> u @ [NL] = L ''a '' @ [NL] @ L ''  b'' @ [NL])"
proof -
  have h: "holds \<lparr>buf = Some (L ''a '' @ [NL, 32, 32, NL, 32, 32] @ L ''b'' @ [NL, NL, 0]), len = 11, bsize = 48\<rparr>
      (lines_text [L ''a '', [32, 32], L ''  b'', []])"
    by (simp add: holds_def L_def)
  show ?thesis
    using chomp_then_compress [OF h, of 32 ascii_env]
    by (simp add: L_def doc_lines_def blank_line_def run_end_def alloc_ok_def ascii_env_def sizeof_wchar_def)
qed

text \<open>A string that has no empty line and no line end behind a run is left as it is.\<close>

lemma compress_keeps_squeezed:
  assumes "buf p = Some (w @ 0 # post)" "0 \<notin> set w" "squeezed rc w" "tail_ok rc w" "rc \<noteq> 0" "rc \<noteq> NL"
  shows "pstring_compress env rc p = Inr p"
proof -
  obtain lc: "lcompress rc w 0 0 = (w, 0, 0)" using lcompress_id [OF assms(3,6), of 0 0] by auto
  let ?B = "w @ 0 # post"
  have "rest_is ?B (length w) w" by (auto simp: rest_is_def intro: exI [of _ "[]"])
  from compress_loop_refine [OF this assms(5,2,4) _ lc, of 0]
  have "compress_loop ?B rc 0 0 0 0 = Inr (?B, length w, 0, 0)" by simp
  then show ?thesis using assms(1) by (simp add: pstring_compress_def wr_append)
qed

text \<open>
  A multibyte string that the locale can convert both ways comes back unchanged from
  \<open>char_to_pstring\<close> and \<open>pstring_to_char\<close>; the length of the pstring counts the terminator.
\<close>

lemma pstring_char_roundtrip:
  assumes "mbs env s = Some w" "wcs env w = Some s" "w \<noteq> []" "s \<noteq> []" "0 \<notin> set w"
    "alloc_ok env sizeof_pstring" "alloc_ok env ((1 + length w) * sizeof_wchar)" "alloc_ok env (length s + 1)"
  shows "\<exists>p. char_to_pstring env s = Inr (Some p) \<and> pstring_to_char env p = Inr (Some s) \<and>
    len p = length w + 1 \<and> bsize p = len p * sizeof_wchar"
proof -
  have "char_to_wchar env s = Some (w @ [0])" using assms by (simp add: char_to_wchar_def)
  moreover have "str_at 0 (w @ [0]) 0 = Inr w" using str_at_0 [OF assms(5), of "[]"] by simp
  ultimately show ?thesis using assms
    by (simp add: char_to_pstring_def pstring_create_def pstring_new_def pstring_to_char_def
        wchar_to_char_def add.commute)
qed

lemma pstring_char_roundtrip_witness:
  "\<exists>p. char_to_pstring ascii_env ''proc'' = Inr (Some p) \<and> pstring_to_char ascii_env p = Inr (Some ''proc'') \<and>
    len p = length (L ''proc'') + 1 \<and> bsize p = len p * sizeof_wchar"
proof (rule pstring_char_roundtrip)
  show m: "mbs ascii_env ''proc'' = Some (L ''proc'')" by (simp add: ascii_env_def ascii_mbs_def L_def)
  then show "wcs ascii_env (L ''proc'') = Some ''proc''" using ascii_roundtrip by (simp add: ascii_env_def)
qed (simp_all add: L_def alloc_ok_def ascii_env_def sizeof_wchar_def sizeof_pstring_def)

text \<open>
  A run of two or more characters to remove at the end of a line takes the line end with it,
  also when the line holds text: two lines become one.
\<close>

lemma compress_joins_lines:
  "compress_list 32 (L ''ab'' @ [32, 32, NL] @ L ''c d'' @ [NL]) = L ''abc d'' @ [NL]"
  by (simp add: compress_list_def lcompress.simps lscan.simps Let_def L_def)

text \<open>
  Where the counters account for everything removed, the last character, the line end, is
  cut as well: the length of the document does not count the terminator.
\<close>

lemma compress_cuts_last:
  "compress_list 32 (L ''a'' @ [NL, NL] @ L ''b'' @ [NL]) = L ''a'' @ [NL] @ L ''b''"
  by (simp add: compress_list_def lcompress.simps lscan.simps Let_def L_def)

text \<open>Without the preceding \<open>pstring_chomp\<close> a blank last line makes the loop step over the
  terminator and out of the buffer.\<close>

lemma compress_overruns:
  "pstring_compress ascii_env 32 \<lparr>buf = Some (L ''a'' @ [NL, 32, 32, NL, 0]), len = 5, bsize = 24\<rparr> =
     Inl OutOfBounds"
  by (simp add: pstring_compress_def compress_loop.simps scan_line.simps skip_blank.simps
      skip_run.simps consume_nl.simps L_def rd_def wr_def)

end
