(* ===== verification/PrList.thy ===== *)
theory PrList
  imports Prelude "HOL-Library.List_Lexorder" "HOL-Library.Char_ord" "HOL-Library.Option_ord"
begin

text \<open>
  The doubly-linked circular lists of \<^verbatim>\<open>pr_list.c\<close> on an explicit heap.

  A node is a record at a non-zero address; the heap is a partial map from addresses to
  nodes with a bump allocator (\<open>brk\<close> is the next address, an allocation fails once
  \<open>lim\<close> is reached). Every dereference checks that the node is allocated. The abstraction
  \<open>cdll h l as\<close> says that the nodes \<open>l # as\<close> form one ring in the order of their
  \<open>nxt\<close> pointers. Each operation is shown to act on \<open>as\<close> as its comment promises, the two
  sorted insertions to keep the list sorted, and the visitors to reach every node once.
\<close>

section \<open>Nodes and the heap\<close>

type_synonym addr = nat

record 'd plnode =
  ldata :: 'd
  nxt :: addr
  prv :: addr

record 'd pheap =
  cells :: "addr \<rightharpoonup> 'd plnode"
  brk :: addr
  lim :: addr

definition get_node :: "'d pheap \<Rightarrow> addr \<Rightarrow> 'd plnode res" where
  "get_node h p =
     (case cells h p of
        Some n \<Rightarrow> Inr n
      | None \<Rightarrow> Inl (if p = 0 then NullDeref else UseAfterFree))"

definition set_nxt :: "'d pheap \<Rightarrow> addr \<Rightarrow> addr \<Rightarrow> 'd pheap res" where
  "set_nxt h p v =
     bindE (get_node h p) (\<lambda>n. Inr (h\<lparr>cells := (cells h)(p \<mapsto> n\<lparr>nxt := v\<rparr>)\<rparr>))"

definition set_prv :: "'d pheap \<Rightarrow> addr \<Rightarrow> addr \<Rightarrow> 'd pheap res" where
  "set_prv h p v =
     bindE (get_node h p) (\<lambda>n. Inr (h\<lparr>cells := (cells h)(p \<mapsto> n\<lparr>prv := v\<rparr>)\<rparr>))"

text \<open>\<^verbatim>\<open>free (p)\<close>: freeing a null pointer does nothing, freeing twice is undefined.\<close>

definition free_node :: "addr \<Rightarrow> 'd pheap \<Rightarrow> 'd pheap res" where
  "free_node p h =
     (if p = 0 then Inr h
      else bindE (get_node h p) (\<lambda>n. Inr (h\<lparr>cells := (cells h)(p := None)\<rparr>)))"

section \<open>The operations\<close>

definition pr_list_new :: "'d \<Rightarrow> 'd pheap \<Rightarrow> addr \<times> 'd pheap" where
  "pr_list_new d h =
     (if brk h < lim h
      then (brk h, h\<lparr>cells := (cells h)(brk h \<mapsto> \<lparr>ldata = d, nxt = brk h, prv = brk h\<rparr>),
                     brk := Suc (brk h)\<rparr>)
      else (0, h))"

definition pr_list_empty :: "addr \<Rightarrow> 'd pheap \<Rightarrow> bool res" where
  "pr_list_empty list h =
     guardE (list \<noteq> 0) AssertFail
       (bindE (get_node h list) (\<lambda>n. Inr (nxt n = list \<and> prv n = list)))"

definition pr_list_append :: "addr \<Rightarrow> addr \<Rightarrow> 'd pheap \<Rightarrow> (addr \<times> 'd pheap) res" where
  "pr_list_append list entry h =
     guardE (list \<noteq> 0) AssertFail
      (guardE (entry \<noteq> 0) AssertFail
       (bindE (get_node h list) (\<lambda>n.
        bindE (set_nxt h entry (nxt n)) (\<lambda>h.
        bindE (set_prv h entry list) (\<lambda>h.
        bindE (get_node h list) (\<lambda>n.
        bindE (set_prv h (nxt n) entry) (\<lambda>h.
        bindE (set_nxt h list entry) (\<lambda>h.
        Inr (entry, h)))))))))"

definition pr_list_prepend :: "addr \<Rightarrow> addr \<Rightarrow> 'd pheap \<Rightarrow> (addr \<times> 'd pheap) res" where
  "pr_list_prepend list entry h =
     guardE (list \<noteq> 0) AssertFail
      (guardE (entry \<noteq> 0) AssertFail
       (bindE (set_nxt h entry list) (\<lambda>h.
        bindE (get_node h list) (\<lambda>n.
        bindE (set_prv h entry (prv n)) (\<lambda>h.
        bindE (get_node h list) (\<lambda>n.
        bindE (set_nxt h (prv n) entry) (\<lambda>h.
        bindE (set_prv h list entry) (\<lambda>h.
        Inr (entry, h)))))))))"

definition pr_list_remove :: "addr \<Rightarrow> 'd pheap \<Rightarrow> (addr \<times> 'd pheap) res" where
  "pr_list_remove entry h =
     guardE (entry \<noteq> 0) AssertFail
       (bindE (get_node h entry) (\<lambda>n.
        bindE (set_nxt h (prv n) (nxt n)) (\<lambda>h.
        bindE (get_node h entry) (\<lambda>n.
        bindE (set_prv h (nxt n) (prv n)) (\<lambda>h.
        bindE (set_prv h entry entry) (\<lambda>h.
        bindE (set_nxt h entry entry) (\<lambda>h.
        Inr (entry, h))))))))"

text \<open>
  The string variants store a copy made by \<^verbatim>\<open>strndup (str, 1+len)\<close>: at most
  \<open>1 + len\<close> characters of \<open>str\<close>, or null once the memory is exhausted.
\<close>

type_synonym sheap = "string option pheap"

definition strndup :: "string \<Rightarrow> nat \<Rightarrow> sheap \<Rightarrow> string option" where
  "strndup str n h = (if brk h < lim h then Some (take n str) else None)"

definition pr_list_appendn_str :: "addr \<Rightarrow> string \<Rightarrow> nat \<Rightarrow> sheap \<Rightarrow> (addr \<times> sheap) res" where
  "pr_list_appendn_str list str len h =
     guardE (list \<noteq> 0) AssertFail
       (case strndup str (1 + len) h of
          None \<Rightarrow> Inl AssertFail
        | Some s \<Rightarrow>
            (let (entry, h1) = pr_list_new (Some s) h
             in guardE (entry \<noteq> 0) AssertFail
                  (bindE (pr_list_append list entry h1) (\<lambda>(_, h2). Inr (entry, h2)))))"

definition pr_list_append_str :: "addr \<Rightarrow> string \<Rightarrow> sheap \<Rightarrow> (addr \<times> sheap) res" where
  "pr_list_append_str list str h =
     guardE (list \<noteq> 0) AssertFail (pr_list_appendn_str list str (length str) h)"

definition pr_list_prependn_str :: "addr \<Rightarrow> string \<Rightarrow> nat \<Rightarrow> sheap \<Rightarrow> (addr \<times> sheap) res" where
  "pr_list_prependn_str list str len h =
     guardE (list \<noteq> 0) AssertFail
       (case strndup str (1 + len) h of
          None \<Rightarrow> Inl AssertFail
        | Some s \<Rightarrow>
            (let (entry, h1) = pr_list_new (Some s) h
             in guardE (entry \<noteq> 0) AssertFail
                  (bindE (pr_list_prepend list entry h1) (\<lambda>(_, h2). Inr (entry, h2)))))"

definition pr_list_prepend_str :: "addr \<Rightarrow> string \<Rightarrow> sheap \<Rightarrow> (addr \<times> sheap) res" where
  "pr_list_prepend_str list str h =
     guardE (list \<noteq> 0) AssertFail (pr_list_prependn_str list str (length str) h)"

text \<open>\<^verbatim>\<open>strcmp\<close>: the difference of the first bytes that differ, the terminator being 0.\<close>

fun strcmp :: "string \<Rightarrow> string \<Rightarrow> int" where
  "strcmp [] [] = 0"
| "strcmp [] (b # bs) = - int (of_char b)"
| "strcmp (a # as) [] = int (of_char a)"
| "strcmp (a # as) (b # bs) =
     (if a = b then strcmp as bs else int (of_char a) - int (of_char b))"

definition pr_list_cmp_str :: "addr \<Rightarrow> addr \<Rightarrow> sheap \<Rightarrow> int res" where
  "pr_list_cmp_str la lb h =
     guardE (la \<noteq> 0) AssertFail
      (guardE (lb \<noteq> 0) AssertFail
       (bindE (get_node h la) (\<lambda>na.
        bindE (get_node h lb) (\<lambda>nb.
          Inr (case (ldata na, ldata nb) of
                 (None, None) \<Rightarrow> 0
               | (None, Some b) \<Rightarrow> -1
               | (Some a, None) \<Rightarrow> 1
               | (Some a, Some b) \<Rightarrow> strcmp a b)))))"

text \<open>
  The search loop of \<^verbatim>\<open>pr_list_add_sorted_internal\<close>. The loop only reads, so a run that
  takes more steps than there are addresses has visited a node twice and never ends; the
  number of addresses is therefore the exact bound after which the result is \<open>Diverges\<close>.
\<close>

fun sorted_pos ::
  "nat \<Rightarrow> (addr \<Rightarrow> addr \<Rightarrow> 'd pheap \<Rightarrow> int res) \<Rightarrow> bool \<Rightarrow> addr \<Rightarrow> addr \<Rightarrow> 'd pheap \<Rightarrow> addr \<Rightarrow> addr res"
where
  "sorted_pos 0 cmp fwd list entry h p = Inl Diverges"
| "sorted_pos (Suc f) cmp fwd list entry h p =
     (if p = list then Inr list
      else bindE (cmp entry p h) (\<lambda>r.
           if r < 0 then Inr p
           else bindE (get_node h p) (\<lambda>n.
                sorted_pos f cmp fwd list entry h (if fwd then nxt n else prv n))))"

definition pr_list_add_sorted_internal ::
  "addr \<Rightarrow> addr \<Rightarrow> (addr \<Rightarrow> addr \<Rightarrow> 'd pheap \<Rightarrow> int res) \<Rightarrow> bool \<Rightarrow> 'd pheap \<Rightarrow> (addr \<times> 'd pheap) res"
where
  "pr_list_add_sorted_internal list entry cmp prepend h =
     guardE (list \<noteq> 0) AssertFail
      (guardE (entry \<noteq> 0) AssertFail
       (let handler = (if prepend then pr_list_prepend else pr_list_append);
            forward = prepend
        in bindE (get_node h list) (\<lambda>n.
           bindE (sorted_pos (brk h) cmp forward list entry h
                    (if forward then nxt n else prv n)) (\<lambda>p.
           handler p entry h))))"

definition pr_list_prepend_sorted ::
  "addr \<Rightarrow> addr \<Rightarrow> (addr \<Rightarrow> addr \<Rightarrow> 'd pheap \<Rightarrow> int res) \<Rightarrow> 'd pheap \<Rightarrow> (addr \<times> 'd pheap) res"
where
  "pr_list_prepend_sorted list entry cmp h = pr_list_add_sorted_internal list entry cmp True h"

definition pr_list_append_sorted ::
  "addr \<Rightarrow> addr \<Rightarrow> (addr \<Rightarrow> addr \<Rightarrow> 'd pheap \<Rightarrow> int res) \<Rightarrow> 'd pheap \<Rightarrow> (addr \<times> 'd pheap) res"
where
  "pr_list_append_sorted list entry cmp h = pr_list_add_sorted_internal list entry cmp False h"

definition pr_list_prepend_str_sorted :: "addr \<Rightarrow> addr \<Rightarrow> sheap \<Rightarrow> (addr \<times> sheap) res" where
  "pr_list_prepend_str_sorted list entry h = pr_list_prepend_sorted list entry pr_list_cmp_str h"

definition pr_list_append_str_sorted :: "addr \<Rightarrow> addr \<Rightarrow> sheap \<Rightarrow> (addr \<times> sheap) res" where
  "pr_list_append_str_sorted list entry h = pr_list_append_sorted list entry pr_list_cmp_str h"

text \<open>
  The visitors: \<open>visitor\<close> is the callback, given the node's address and the heap and
  threading a result of its own (it does not change the list). A null callback is \<open>None\<close>.
  The loop is a do-while: its test comes after the step.
\<close>

fun visit_from ::
  "nat \<Rightarrow> (addr \<Rightarrow> 'd pheap \<Rightarrow> 'r \<Rightarrow> 'r) option \<Rightarrow> bool \<Rightarrow> addr \<Rightarrow> 'd pheap \<Rightarrow> addr \<Rightarrow> 'r \<Rightarrow> 'r res"
where
  "visit_from 0 visitor fwd stop h p r = Inl Diverges"
| "visit_from (Suc f) visitor fwd stop h p r =
     (let r' = (case visitor of None \<Rightarrow> r | Some v \<Rightarrow> v p h r)
      in bindE (get_node h p) (\<lambda>n.
         let q = (if fwd then nxt n else prv n)
         in if q \<noteq> stop then visit_from f visitor fwd stop h q r' else Inr r'))"

definition pr_list_foreach_visit ::
  "addr \<Rightarrow> (addr \<Rightarrow> 'd pheap \<Rightarrow> 'r \<Rightarrow> 'r) option \<Rightarrow> 'd pheap \<Rightarrow> 'r \<Rightarrow> 'r res"
where
  "pr_list_foreach_visit list visitor h r =
     guardE (list \<noteq> 0) AssertFail (visit_from (brk h) visitor True list h list r)"

definition pr_list_foreach_rev_visit ::
  "addr \<Rightarrow> (addr \<Rightarrow> 'd pheap \<Rightarrow> 'r \<Rightarrow> 'r) option \<Rightarrow> 'd pheap \<Rightarrow> 'r \<Rightarrow> 'r res"
where
  "pr_list_foreach_rev_visit list visitor h r =
     guardE (list \<noteq> 0) AssertFail
       (bindE (get_node h list) (\<lambda>n.
          visit_from (brk h) visitor False (prv n) h (prv n) r))"

text \<open>
  The macro \<^verbatim>\<open>PR_LIST_FOREACH\<close>: the addresses the loop variable takes, from
  \<open>list->next\<close> until it is \<open>list\<close> again.
\<close>

fun foreach_from :: "nat \<Rightarrow> addr \<Rightarrow> 'd pheap \<Rightarrow> addr \<Rightarrow> addr list res" where
  "foreach_from 0 list h iter = Inl Diverges"
| "foreach_from (Suc f) list h iter =
     (if iter = list then Inr []
      else bindE (get_node h iter) (\<lambda>n.
           bindE (foreach_from f list h (nxt n)) (\<lambda>as. Inr (iter # as))))"

definition PR_LIST_FOREACH :: "addr \<Rightarrow> 'd pheap \<Rightarrow> addr list res" where
  "PR_LIST_FOREACH list h =
     bindE (get_node h list) (\<lambda>n. foreach_from (brk h) list h (nxt n))"


section \<open>Rings\<close>

text \<open>
  \<open>nx\<close> and \<open>pv\<close> read one pointer of a node; \<open>chain c x as y\<close> says that following
  \<open>nxt\<close> from \<open>x\<close> passes through exactly \<open>as\<close> and arrives at \<open>y\<close>, with every
  \<open>prv\<close> pointing back. A ring is a chain from its head to itself.
\<close>

definition nx :: "(addr \<rightharpoonup> 'd plnode) \<Rightarrow> addr \<Rightarrow> addr option" where
  "nx c p = map_option nxt (c p)"

definition pv :: "(addr \<rightharpoonup> 'd plnode) \<Rightarrow> addr \<Rightarrow> addr option" where
  "pv c p = map_option prv (c p)"

definition dat :: "(addr \<rightharpoonup> 'd plnode) \<Rightarrow> addr \<Rightarrow> 'd option" where
  "dat c p = map_option ldata (c p)"

fun chain :: "(addr \<rightharpoonup> 'd plnode) \<Rightarrow> addr \<Rightarrow> addr list \<Rightarrow> addr \<Rightarrow> bool" where
  "chain c x [] y \<longleftrightarrow> nx c x = Some y \<and> pv c y = Some x"
| "chain c x (a # as) y \<longleftrightarrow> nx c x = Some a \<and> pv c a = Some x \<and> chain c a as y"

definition cdll :: "'d pheap \<Rightarrow> addr \<Rightarrow> addr list \<Rightarrow> bool" where
  "cdll h l as \<longleftrightarrow> distinct (l # as) \<and> 0 \<notin> set (l # as) \<and> chain (cells h) l as l"

definition wf_heap :: "'d pheap \<Rightarrow> bool" where
  "wf_heap h \<longleftrightarrow> (\<forall>p \<in> dom (cells h). 0 < p \<and> p < brk h) \<and> 0 < brk h"

text \<open>The values of a ring, its head apart, in list order.\<close>

definition items :: "'d pheap \<Rightarrow> addr list \<Rightarrow> 'd list" where
  "items h as = map (\<lambda>p. ldata (the (cells h p))) as"

named_theorems ring_simps

lemma nx_upd [ring_simps]: "nx (c(p \<mapsto> n)) q = (if q = p then Some (nxt n) else nx c q)"
  by (simp add: nx_def)

lemma pv_upd [ring_simps]: "pv (c(p \<mapsto> n)) q = (if q = p then Some (prv n) else pv c q)"
  by (simp add: pv_def)

lemma dat_upd [ring_simps]: "dat (c(p \<mapsto> n)) q = (if q = p then Some (ldata n) else dat c q)"
  by (simp add: dat_def)

lemma chain_append [simp]:
  "chain c x (as @ a # bs) y \<longleftrightarrow> chain c x as a \<and> chain c a bs y"
  by (induction as arbitrary: x) auto

lemma chain_cong:
  "(\<And>z. z \<in> set (x # as) \<Longrightarrow> nx c' z = nx c z) \<Longrightarrow>
   (\<And>z. z \<in> set (as @ [y]) \<Longrightarrow> pv c' z = pv c z) \<Longrightarrow>
   chain c' x as y = chain c x as y"
  by (induction as arbitrary: x) auto

lemma chain_ends:
  "chain c x as y \<Longrightarrow> nx c x = Some (hd (as @ [y])) \<and> pv c y = Some (last (x # as))"
  by (induction as arbitrary: x) auto

lemma chain_alloc:
  "chain c x as y \<Longrightarrow> z \<in> set (x # as) \<Longrightarrow> \<exists>n. c z = Some n"
  by (induction as arbitrary: x) (auto simp: nx_def)

lemma cdll_rotate: "cdll h l (xs @ p # ys) \<longleftrightarrow> cdll h p (ys @ l # xs)"
  by (auto simp: cdll_def)

lemma cdll_alloc: "cdll h l as \<Longrightarrow> z \<in> set (l # as) \<Longrightarrow> \<exists>n. cells h z = Some n"
  unfolding cdll_def by (blast dest: chain_alloc)

lemma cdll_mem:
  "cdll h l as \<Longrightarrow> p \<in> set (l # as) \<Longrightarrow> \<exists>bs. cdll h p bs \<and> set (p # bs) = set (l # as)"
proof -
  assume r: "cdll h l as" and p: "p \<in> set (l # as)"
  show ?thesis
  proof (cases "p = l")
    case True
    with r show ?thesis by blast
  next
    case False
    with p obtain xs ys where "as = xs @ p # ys" by (auto dest: split_list)
    with r have "cdll h p (ys @ l # xs)" by (simp add: cdll_rotate)
    with \<open>as = xs @ p # ys\<close> show ?thesis by (intro exI [of _ "ys @ l # xs"]) auto
  qed
qed

lemma wf_heapD: "wf_heap h \<Longrightarrow> cells h p = Some n \<Longrightarrow> 0 < p \<and> p < brk h"
  unfolding wf_heap_def by blast

lemma cdll_bound: "wf_heap h \<Longrightarrow> cdll h l as \<Longrightarrow> length (l # as) < brk h"
proof -
  assume w: "wf_heap h" and r: "cdll h l as"
  have "set (l # as) \<subseteq> {1 ..< brk h}"
  proof
    fix z
    assume "z \<in> set (l # as)"
    with r obtain n where "cells h z = Some n" using cdll_alloc by blast
    with w show "z \<in> {1 ..< brk h}" by (simp add: wf_heapD Suc_le_eq)
  qed
  then have "card (set (l # as)) \<le> card {1 ..< brk h}" by (intro card_mono) auto
  moreover have "card (set (l # as)) = length (l # as)"
    using r by (intro distinct_card) (simp add: cdll_def)
  moreover have "0 < brk h" using w by (simp add: wf_heap_def)
  ultimately show ?thesis by simp
qed

lemma cdll_frame:
  "cdll h l as \<Longrightarrow> (\<And>z. z \<in> set (l # as) \<Longrightarrow> nx (cells h') z = nx (cells h) z \<and>
     pv (cells h') z = pv (cells h) z) \<Longrightarrow> cdll h' l as"
  unfolding cdll_def using chain_cong [of l as "cells h'" "cells h" l] by auto

lemma get_node_nx: "nx (cells h) p = Some q \<Longrightarrow> \<exists>n. get_node h p = Inr n \<and> nxt n = q"
  by (auto simp: nx_def get_node_def)

lemma get_node_pv: "pv (cells h) p = Some q \<Longrightarrow> \<exists>n. get_node h p = Inr n \<and> prv n = q"
  by (auto simp: pv_def get_node_def)

section \<open>Insertion and removal next to the head\<close>

text \<open>
  \<open>relinked h h'\<close>: the same nodes with the same values and the same allocator state; only
  pointers differ.
\<close>

definition relinked :: "'d pheap \<Rightarrow> 'd pheap \<Rightarrow> bool" where
  "relinked h h' \<longleftrightarrow> (\<forall>p. dat (cells h') p = dat (cells h) p) \<and> brk h' = brk h \<and> lim h' = lim h"

lemma relinked_dom: "relinked h h' \<Longrightarrow> dom (cells h') = dom (cells h)"
  unfolding relinked_def dat_def dom_def by (auto simp: map_option_case split: option.splits)

lemma relinked_wf: "relinked h h' \<Longrightarrow> wf_heap h \<Longrightarrow> wf_heap h'"
  using relinked_dom [of h h'] by (simp add: wf_heap_def relinked_def)

lemma relinked_data:
  "relinked h h' \<Longrightarrow> cells h p = Some n \<Longrightarrow> ldata (the (cells h' p)) = ldata n"
proof -
  assume "relinked h h'" and c: "cells h p = Some n"
  then have "dat (cells h') p = Some (ldata n)" by (simp add: relinked_def dat_def)
  then show ?thesis by (auto simp: dat_def)
qed

lemma relinked_items:
  "relinked h h' \<Longrightarrow> set as \<subseteq> dom (cells h) \<Longrightarrow> items h' as = items h as"
  by (auto simp: items_def relinked_data dest!: subsetD)


lemmas heap_steps = set_nxt_def set_prv_def get_node_def

text \<open>What an insertion of \<open>e\<close> that turns the list \<open>as\<close> into \<open>bs\<close> must achieve.\<close>

definition inserted :: "'d pheap \<Rightarrow> addr \<Rightarrow> addr list \<Rightarrow> addr \<Rightarrow> addr list \<Rightarrow> (addr \<times> 'd pheap) res \<Rightarrow> bool"
where
  "inserted h l as e bs r \<longleftrightarrow>
     (\<exists>h'. r = Inr (e, h') \<and> cdll h' l bs \<and> relinked h h' \<and>
           (\<forall>z. z \<notin> set (l # e # as) \<longrightarrow> cells h' z = cells h z))"

lemma pr_list_append_head:
  assumes r: "cdll h l as" and e: "e \<notin> set (l # as)" "cells h e = Some ne" "e \<noteq> 0"
  shows "inserted h l as e (e # as) (pr_list_append l e h)"
proof (cases as)
  case Nil
  with r obtain nl where nl: "cells h l = Some nl" "nxt nl = l" "l \<noteq> 0"
    by (auto simp: cdll_def nx_def)
  from e nl have "pr_list_append l e h =
      Inr (e, h\<lparr>cells := (cells h)(e \<mapsto> ne\<lparr>nxt := l, prv := l\<rparr>, l \<mapsto> nl\<lparr>prv := e, nxt := e\<rparr>)\<rparr>)"
    by (auto simp: pr_list_append_def heap_steps)
  with e nl Nil show ?thesis
    by (auto simp: inserted_def cdll_def relinked_def ring_simps dat_def)
next
  case (Cons a as')
  from r Cons obtain nl na where n: "cells h l = Some nl" "nxt nl = a" "cells h a = Some na"
      "l \<noteq> 0" "l \<noteq> a" "l \<notin> set as'" "a \<notin> set as'"
    by (auto simp: cdll_def nx_def pv_def)
  let ?c = "(cells h)(e \<mapsto> ne\<lparr>nxt := a, prv := l\<rparr>, a \<mapsto> na\<lparr>prv := e\<rparr>, l \<mapsto> nl\<lparr>nxt := e\<rparr>)"
  from e n Cons have op: "pr_list_append l e h = Inr (e, h\<lparr>cells := ?c\<rparr>)"
    by (auto simp: pr_list_append_def heap_steps)
  from r Cons have "chain (cells h) a as' l" by (simp add: cdll_def)
  then have "chain ?c a as' l"
    using e n Cons
    by (subst chain_cong [of a as' ?c "cells h"]) (auto simp: ring_simps nx_def pv_def)
  with op r e n Cons show ?thesis
    by (auto simp: inserted_def cdll_def relinked_def ring_simps dat_def)
qed

lemma pr_list_prepend_head:
  assumes r: "cdll h l as" and e: "e \<notin> set (l # as)" "cells h e = Some ne" "e \<noteq> 0"
  shows "inserted h l as e (as @ [e]) (pr_list_prepend l e h)"
proof (cases as rule: rev_cases)
  case Nil
  with r obtain nl where nl: "cells h l = Some nl" "prv nl = l" "l \<noteq> 0"
    by (auto simp: cdll_def nx_def pv_def)
  from e nl have "pr_list_prepend l e h =
      Inr (e, h\<lparr>cells := (cells h)(e \<mapsto> ne\<lparr>nxt := l, prv := l\<rparr>, l \<mapsto> nl\<lparr>nxt := e, prv := e\<rparr>)\<rparr>)"
    by (auto simp: pr_list_prepend_def heap_steps)
  with e nl Nil show ?thesis
    by (auto simp: inserted_def cdll_def relinked_def ring_simps dat_def)
next
  case (snoc as' a)
  from r snoc obtain nl na where n: "cells h l = Some nl" "prv nl = a" "cells h a = Some na"
      "l \<noteq> 0" "l \<noteq> a" "l \<notin> set as'" "a \<notin> set as'"
    by (auto simp: cdll_def nx_def pv_def)
  let ?c = "(cells h)(e \<mapsto> ne\<lparr>nxt := l, prv := a\<rparr>, a \<mapsto> na\<lparr>nxt := e\<rparr>, l \<mapsto> nl\<lparr>prv := e\<rparr>)"
  from e n snoc have op: "pr_list_prepend l e h = Inr (e, h\<lparr>cells := ?c\<rparr>)"
    by (auto simp: pr_list_prepend_def heap_steps)
  from r snoc have "chain (cells h) l as' a" by (simp add: cdll_def)
  then have "chain ?c l as' a"
    using e n snoc
    by (subst chain_cong [of l as' ?c "cells h"]) (auto simp: ring_simps nx_def pv_def)
  with op r e n snoc show ?thesis
    by (auto simp: inserted_def cdll_def relinked_def ring_simps dat_def)
qed


section \<open>Insertion and removal anywhere\<close>

lemma pr_list_append_at:
  assumes "cdll h l (xs @ p # ys)" and "e \<notin> set (l # xs @ p # ys)"
    and "cells h e = Some ne" and "e \<noteq> 0"
  shows "inserted h l (xs @ p # ys) e (xs @ p # e # ys) (pr_list_append p e h)"
proof -
  have "inserted h p (ys @ l # xs) e (e # ys @ l # xs) (pr_list_append p e h)"
    using assms by (intro pr_list_append_head) (auto simp: cdll_rotate)
  then show ?thesis
    using cdll_rotate [of _ l xs p "e # ys"] by (auto simp: inserted_def)
qed

lemma pr_list_prepend_at:
  assumes "cdll h l (xs @ p # ys)" and "e \<notin> set (l # xs @ p # ys)"
    and "cells h e = Some ne" and "e \<noteq> 0"
  shows "inserted h l (xs @ p # ys) e (xs @ e # p # ys) (pr_list_prepend p e h)"
proof -
  have "inserted h p (ys @ l # xs) e ((ys @ l # xs) @ [e]) (pr_list_prepend p e h)"
    using assms by (intro pr_list_prepend_head) (auto simp: cdll_rotate)
  then show ?thesis
    using cdll_rotate [of _ l "xs @ [e]" p ys] by (auto simp: inserted_def)
qed

definition removed :: "'d pheap \<Rightarrow> addr \<Rightarrow> addr list \<Rightarrow> addr \<Rightarrow> addr list \<Rightarrow> (addr \<times> 'd pheap) res \<Rightarrow> bool"
where
  "removed h l as e bs r \<longleftrightarrow>
     (\<exists>h'. r = Inr (e, h') \<and> cdll h' l bs \<and> cdll h' e [] \<and> relinked h h' \<and>
           (\<forall>z. z \<notin> set (l # as) \<longrightarrow> cells h' z = cells h z))"

lemma pr_list_remove_head:
  assumes r: "cdll h p (c # cs)"
  shows "\<exists>h'. pr_list_remove p h = Inr (p, h') \<and> cdll h' c cs \<and> cdll h' p [] \<and> relinked h h' \<and>
      (\<forall>z. z \<notin> set (p # c # cs) \<longrightarrow> cells h' z = cells h z)"
proof (cases cs rule: rev_cases)
  case Nil
  with r obtain np nc where n: "cells h p = Some np" "nxt np = c" "prv np = c"
      "cells h c = Some nc" "nxt nc = p" "prv nc = p" "p \<noteq> c" "p \<noteq> 0" "c \<noteq> 0"
    by (auto simp: cdll_def nx_def pv_def)
  then have "pr_list_remove p h =
      Inr (p, h\<lparr>cells := (cells h)(c \<mapsto> nc\<lparr>nxt := c, prv := c\<rparr>, p \<mapsto> np\<lparr>prv := p, nxt := p\<rparr>)\<rparr>)"
    by (auto simp: pr_list_remove_def heap_steps)
  with n Nil show ?thesis
    by (auto simp: cdll_def relinked_def ring_simps dat_def)
next
  case (snoc m z)
  with r obtain np nc nz where n: "cells h p = Some np" "nxt np = c" "prv np = z"
      "cells h c = Some nc" "cells h z = Some nz" "p \<noteq> c" "p \<noteq> z" "c \<noteq> z" "p \<noteq> 0"
    by (auto simp: cdll_def nx_def pv_def)
  let ?c = "(cells h)(z \<mapsto> nz\<lparr>nxt := c\<rparr>, c \<mapsto> nc\<lparr>prv := z\<rparr>, p \<mapsto> np\<lparr>prv := p, nxt := p\<rparr>)"
  from n have op: "pr_list_remove p h = Inr (p, h\<lparr>cells := ?c\<rparr>)"
    by (auto simp: pr_list_remove_def heap_steps)
  from r snoc have "chain (cells h) c m z" by (simp add: cdll_def)
  then have "chain ?c c m z"
    using r n snoc
    by (subst chain_cong [of c m ?c "cells h"]) (auto simp: cdll_def ring_simps nx_def pv_def)
  with op r n snoc show ?thesis
    by (auto simp: cdll_def relinked_def ring_simps dat_def)
qed

lemma pr_list_remove_at:
  assumes r: "cdll h l (xs @ p # ys)"
  shows "removed h l (xs @ p # ys) p (xs @ ys) (pr_list_remove p h)"
proof (cases ys)
  case Nil
  with r have "cdll h p (l # xs)" using cdll_rotate [of h l xs p ys] by simp
  from pr_list_remove_head [OF this] Nil show ?thesis
    by (auto simp: removed_def)
next
  case (Cons c ys')
  with r have "cdll h p (c # ys' @ l # xs)" using cdll_rotate [of h l xs p ys] by simp
  from pr_list_remove_head [OF this] Cons show ?thesis
    using cdll_rotate [of _ l xs c ys'] by (auto simp: removed_def)
qed


section \<open>Creation and release\<close>

lemma pr_list_new_ring:
  assumes "wf_heap h" and "brk h < lim h" and "pr_list_new d h = (e, h')"
  shows "cdll h' e []" "e = brk h" "e \<noteq> 0" "wf_heap h'" "cells h e = None"
    "cells h' e = Some \<lparr>ldata = d, nxt = e, prv = e\<rparr>" "\<And>z. z \<noteq> e \<Longrightarrow> cells h' z = cells h z"
    "brk h' = Suc (brk h)" "lim h' = lim h"
proof -
  from assms show e: "e = brk h" by (simp add: pr_list_new_def)
  with assms(1) show "e \<noteq> 0" by (simp add: wf_heap_def)
  with e assms show "cdll h' e []"
    by (auto simp: pr_list_new_def cdll_def ring_simps)
  from assms e show "wf_heap h'" by (auto simp: wf_heap_def pr_list_new_def less_Suc_eq)
  show "cells h e = None" using wf_heapD [OF assms(1), of e] e by (cases "cells h e") auto
  from assms e show "cells h' e = Some \<lparr>ldata = d, nxt = e, prv = e\<rparr>"
    and "\<And>z. z \<noteq> e \<Longrightarrow> cells h' z = cells h z" and "brk h' = Suc (brk h)" and "lim h' = lim h"
    by (auto simp: pr_list_new_def)
qed

lemma pr_list_new_fails: "lim h \<le> brk h \<Longrightarrow> pr_list_new d h = (0, h)"
  by (simp add: pr_list_new_def)

lemma cdll_new_frame:
  assumes "wf_heap h" and "brk h < lim h" and "pr_list_new d h = (e, h')" and "cdll h l as"
  shows "cdll h' l as" "e \<notin> set (l # as)" "items h' as = items h as"
proof -
  note n = pr_list_new_ring [OF assms(1-3)]
  show e: "e \<notin> set (l # as)" using cdll_alloc [OF assms(4)] n(5) by fastforce
  have same: "cells h' z = cells h z" if "z \<in> set (l # as)" for z
    using e that by (intro n(7)) auto
  then show "cdll h' l as"
    by (intro cdll_frame [OF assms(4)]) (auto simp: nx_def pv_def)
  from same show "items h' as = items h as" by (auto simp: items_def)
qed

lemma inserted_items:
  assumes "inserted h l as e bs r" and "cdll h l as" and "cells h e = Some ne"
    and "set bs \<subseteq> insert e (set as)"
  obtains h' where "r = Inr (e, h')" "cdll h' l bs" "items h' bs = items h bs"
    "brk h' = brk h" "lim h' = lim h" "wf_heap h \<longrightarrow> wf_heap h'"
proof -
  from assms(1) obtain h' where h: "r = Inr (e, h')" "cdll h' l bs" "relinked h h'"
    by (auto simp: inserted_def)
  have "set bs \<subseteq> dom (cells h)"
    using assms(3,4) cdll_alloc [OF assms(2)] by fastforce
  with h have "items h' bs = items h bs" by (simp add: relinked_items)
  with h that relinked_wf [OF h(3)] show thesis by (auto simp: relinked_def)
qed


section \<open>Sorted insertion\<close>

abbreviation nul :: char where
  "nul \<equiv> CHR 0x00"

lemma of_char_pos: "c \<noteq> nul \<Longrightarrow> 0 < (of_char c :: nat)"
proof (rule ccontr)
  assume c: "c \<noteq> nul" and "\<not> 0 < (of_char c :: nat)"
  then have "c = char_of (0 :: nat)" by (metis char_of_char neq0_conv)
  also have "\<dots> = nul" by (simp add: char_of_def)
  finally show False using c by simp
qed

lemma strcmp_less_iff:
  "nul \<notin> set a \<Longrightarrow> nul \<notin> set b \<Longrightarrow> strcmp a b < 0 \<longleftrightarrow> a < b"
  by (induction a b rule: strcmp.induct) (auto simp: less_char_def of_char_pos)

definition str_ok :: "string option \<Rightarrow> bool" where
  "str_ok d \<longleftrightarrow> (\<forall>s. d = Some s \<longrightarrow> nul \<notin> set s)"

lemma pr_list_cmp_str_less:
  assumes "cells h a = Some na" "cells h b = Some nb" "a \<noteq> 0" "b \<noteq> 0"
    and "str_ok (ldata na)" "str_ok (ldata nb)"
  shows "\<exists>r. pr_list_cmp_str a b h = Inr r \<and> (r < 0 \<longleftrightarrow> ldata na < ldata nb)"
  using assms by (auto simp: pr_list_cmp_str_def get_node_def str_ok_def strcmp_less_iff
      split: option.splits)

text \<open>
  The search on a ring: walking forwards it stops at the first node greater than the new
  one, walking backwards at the last such node; the head stands for "no such node".
\<close>

definition cmp_ok :: "(addr \<Rightarrow> addr \<Rightarrow> 'd pheap \<Rightarrow> int res) \<Rightarrow> 'd pheap \<Rightarrow> addr \<Rightarrow> addr set \<Rightarrow> (addr \<Rightarrow> bool) \<Rightarrow> bool"
where
  "cmp_ok cmp h e A gt \<longleftrightarrow> (\<forall>p \<in> A. \<exists>r. cmp e p h = Inr r \<and> (r < 0 \<longleftrightarrow> gt p))"

lemma sorted_pos_forward:
  assumes "chain (cells h) p ps l" and "l \<notin> set (p # ps)" and "cmp_ok cmp h e (set (p # ps)) gt"
    and "length (p # ps) < f"
  shows "sorted_pos f cmp True l e h p =
    Inr (case dropWhile (\<lambda>p. \<not> gt p) (p # ps) of [] \<Rightarrow> l | q # _ \<Rightarrow> q)"
  using assms
proof (induction ps arbitrary: p f)
  case Nil
  then have f: "f = Suc (Suc (f - 2))" by simp
  from Nil obtain n where "get_node h p = Inr n" "nxt n = l" by (auto dest: get_node_nx)
  with Nil show ?case by (subst f) (auto simp: cmp_ok_def)
next
  case (Cons a ps)
  then obtain f' where f: "f = Suc f'" by (cases f) auto
  from Cons.prems obtain n where n: "get_node h p = Inr n" "nxt n = a" by (auto dest: get_node_nx)
  have "sorted_pos f' cmp True l e h a =
      Inr (case dropWhile (\<lambda>p. \<not> gt p) (a # ps) of [] \<Rightarrow> l | q # _ \<Rightarrow> q)"
    using Cons.prems f by (intro Cons.IH) (auto simp: cmp_ok_def)
  moreover obtain r where "cmp e p h = Inr r" "r < 0 \<longleftrightarrow> gt p"
    using Cons.prems by (auto simp: cmp_ok_def)
  ultimately show ?case using Cons.prems f n by auto
qed


lemma sorted_pos_backward:
  assumes "chain (cells h) l ps p" and "l \<notin> set (ps @ [p])" and "cmp_ok cmp h e (set (ps @ [p])) gt"
    and "length (ps @ [p]) < f"
  shows "sorted_pos f cmp False l e h p =
    Inr (case dropWhile (\<lambda>p. \<not> gt p) (rev (ps @ [p])) of [] \<Rightarrow> l | q # _ \<Rightarrow> q)"
  using assms
proof (induction ps arbitrary: p f rule: rev_induct)
  case Nil
  then have f: "f = Suc (Suc (f - 2))" by simp
  from Nil obtain n where "get_node h p = Inr n" "prv n = l" by (auto dest: get_node_pv)
  with Nil show ?case by (subst f) (auto simp: cmp_ok_def)
next
  case (snoc a ps)
  then obtain f' where f: "f = Suc f'" by (cases f) auto
  from snoc.prems obtain n where n: "get_node h p = Inr n" "prv n = a" by (auto dest: get_node_pv)
  have "sorted_pos f' cmp False l e h a =
      Inr (case dropWhile (\<lambda>p. \<not> gt p) (rev (ps @ [a])) of [] \<Rightarrow> l | q # _ \<Rightarrow> q)"
    using snoc.prems f by (intro snoc.IH) (auto simp: cmp_ok_def)
  moreover obtain r where "cmp e p h = Inr r" "r < 0 \<longleftrightarrow> gt p"
    using snoc.prems by (auto simp: cmp_ok_def)
  ultimately show ?case using snoc.prems f n by auto
qed

text \<open>The position found on a whole ring, in either direction.\<close>

lemma sorted_pos_ring:
  assumes w: "wf_heap h" and r: "cdll h l as" and c: "cmp_ok cmp h e (set as) gt"
    and n: "cells h l = Some n"
  shows "sorted_pos (brk h) cmp True l e h (nxt n) =
      Inr (case dropWhile (\<lambda>p. \<not> gt p) as of [] \<Rightarrow> l | q # _ \<Rightarrow> q)"
    and "sorted_pos (brk h) cmp False l e h (prv n) =
      Inr (case dropWhile (\<lambda>p. \<not> gt p) (rev as) of [] \<Rightarrow> l | q # _ \<Rightarrow> q)"
proof -
  note b = cdll_bound [OF w r]
  then obtain f where f: "brk h = Suc f" by (cases "brk h") auto
  show "sorted_pos (brk h) cmp True l e h (nxt n) =
      Inr (case dropWhile (\<lambda>p. \<not> gt p) as of [] \<Rightarrow> l | q # _ \<Rightarrow> q)"
  proof (cases as)
    case Nil
    with r n f show ?thesis by (simp add: cdll_def nx_def)
  next
    case (Cons a as')
    with r n have "nxt n = a" by (auto simp: cdll_def nx_def)
    with Cons r b c sorted_pos_forward [of h a as' l cmp e gt "brk h"] show ?thesis
      by (auto simp: cdll_def)
  qed
  show "sorted_pos (brk h) cmp False l e h (prv n) =
      Inr (case dropWhile (\<lambda>p. \<not> gt p) (rev as) of [] \<Rightarrow> l | q # _ \<Rightarrow> q)"
  proof (cases as rule: rev_cases)
    case Nil
    with r n f show ?thesis by (simp add: cdll_def pv_def)
  next
    case (snoc as' a)
    with r n have "prv n = a" by (auto simp: cdll_def pv_def)
    with snoc r b c sorted_pos_backward [of h l as' a cmp e gt "brk h"] show ?thesis
      by (auto simp: cdll_def)
  qed
qed

lemma dropWhile_split:
  "dropWhile P as = q # qs \<Longrightarrow> as = takeWhile P as @ q # qs"
  by (metis takeWhile_dropWhile_id)

text \<open>
  Prepending sorted puts the new node before the first greater one; appending sorted puts it
  after the last greater one.
\<close>

lemma pr_list_prepend_sorted_at:
  assumes w: "wf_heap h" and r: "cdll h l as" and e: "e \<notin> set (l # as)" "cells h e = Some ne" "e \<noteq> 0"
    and c: "cmp_ok cmp h e (set as) gt"
  shows "inserted h l as e (takeWhile (\<lambda>p. \<not> gt p) as @ e # dropWhile (\<lambda>p. \<not> gt p) as)
    (pr_list_prepend_sorted l e cmp h)"
proof -
  from r obtain n where n: "cells h l = Some n" "l \<noteq> 0"
    using cdll_alloc [OF r] by (auto simp: cdll_def)
  note pos = sorted_pos_ring(1) [OF w r c n(1)]
  have op: "pr_list_prepend_sorted l e cmp h =
      pr_list_prepend (case dropWhile (\<lambda>p. \<not> gt p) as of [] \<Rightarrow> l | q # _ \<Rightarrow> q) e h"
    using n e pos by (simp add: pr_list_prepend_sorted_def pr_list_add_sorted_internal_def get_node_def)
  show ?thesis
  proof (cases "dropWhile (\<lambda>p. \<not> gt p) as")
    case Nil
    then have "takeWhile (\<lambda>p. \<not> gt p) as = as" by (metis append_Nil2 takeWhile_dropWhile_id)
    with pr_list_prepend_head [OF r e] show ?thesis by (simp only: op Nil list.case)
  next
    case (Cons q qs)
    note s = dropWhile_split [OF Cons]
    have "inserted h l (takeWhile (\<lambda>p. \<not> gt p) as @ q # qs) e
        (takeWhile (\<lambda>p. \<not> gt p) as @ e # q # qs) (pr_list_prepend q e h)"
      using r e s by (intro pr_list_prepend_at) simp_all
    with op Cons s show ?thesis by simp
  qed
qed

lemma pr_list_append_sorted_at:
  assumes w: "wf_heap h" and r: "cdll h l as" and e: "e \<notin> set (l # as)" "cells h e = Some ne" "e \<noteq> 0"
    and c: "cmp_ok cmp h e (set as) gt"
  shows "inserted h l as e
      (rev (takeWhile (\<lambda>p. \<not> gt p) (rev as) @ e # dropWhile (\<lambda>p. \<not> gt p) (rev as)))
    (pr_list_append_sorted l e cmp h)"
proof -
  from r obtain n where n: "cells h l = Some n" "l \<noteq> 0"
    using cdll_alloc [OF r] by (auto simp: cdll_def)
  note pos = sorted_pos_ring(2) [OF w r c n(1)]
  have op: "pr_list_append_sorted l e cmp h =
      pr_list_append (case dropWhile (\<lambda>p. \<not> gt p) (rev as) of [] \<Rightarrow> l | q # _ \<Rightarrow> q) e h"
    using n e pos by (simp add: pr_list_append_sorted_def pr_list_add_sorted_internal_def get_node_def)
  show ?thesis
  proof (cases "dropWhile (\<lambda>p. \<not> gt p) (rev as)")
    case Nil
    then have "takeWhile (\<lambda>p. \<not> gt p) (rev as) = rev as" by (metis append_Nil2 takeWhile_dropWhile_id)
    with pr_list_append_head [OF r e] show ?thesis
      by (simp only: op Nil list.case rev_append rev.simps rev_rev_ident append_Nil append_Cons)
  next
    case (Cons q qs)
    then have s: "as = rev qs @ q # rev (takeWhile (\<lambda>p. \<not> gt p) (rev as))"
      using dropWhile_split [OF Cons] by (metis append.assoc append_Cons append_Nil rev.simps(2) rev_append rev_rev_ident)
    have "inserted h l (rev qs @ q # rev (takeWhile (\<lambda>p. \<not> gt p) (rev as))) e
        (rev qs @ q # e # rev (takeWhile (\<lambda>p. \<not> gt p) (rev as))) (pr_list_append q e h)"
      by (rule pr_list_append_at) (use r e s in simp_all)
    with op Cons s show ?thesis by simp
  qed
qed


lemma insort_takeWhile:
  fixes f :: "'a \<Rightarrow> 'b::linorder"
  shows "sorted (map f as) \<Longrightarrow>
    map f (takeWhile (\<lambda>p. \<not> f e < f p) as @ e # dropWhile (\<lambda>p. \<not> f e < f p) as) =
    insort (f e) (map f as)"
proof (induction as)
  case Nil
  show ?case by simp
next
  case (Cons a as)
  show ?case
  proof (cases "f e < f a")
    case True
    then show ?thesis by (simp add: less_imp_le)
  next
    case False
    with Cons have ih: "map f (takeWhile (\<lambda>p. \<not> f e < f p) as @ e # dropWhile (\<lambda>p. \<not> f e < f p) as) =
        insort (f e) (map f as)" by simp
    show ?thesis
    proof (cases "f e = f a")
      case True
      with Cons.prems have "insort (f e) (map f as) = f e # map f as"
        by (intro insort_is_Cons) auto
      with True ih show ?thesis by simp
    next
      case neq: False
      with False ih show ?thesis by simp
    qed
  qed
qed

lemma items_takeWhile:
  fixes h :: "'d::linorder pheap"
  assumes "sorted (items h as)" and "cells h e = Some ne" and "\<And>p. p \<in> set as \<Longrightarrow> \<exists>n. cells h p = Some n"
    and gt: "gt = (\<lambda>p. ldata ne < ldata (the (cells h p)))"
  shows "items h (takeWhile (\<lambda>p. \<not> gt p) as @ e # dropWhile (\<lambda>p. \<not> gt p) as) =
    insort (ldata ne) (items h as)"
  using insort_takeWhile [of "\<lambda>p. ldata (the (cells h p))" as e] assms by (simp add: items_def)

lemma cmp_ok_str:
  assumes "cdll h l as" and "cells h e = Some ne" and "e \<noteq> 0"
    and "str_ok (ldata ne)" and "\<forall>d \<in> set (items h as). str_ok d"
  shows "cmp_ok pr_list_cmp_str h e (set as) (\<lambda>p. ldata ne < ldata (the (cells h p)))"
  unfolding cmp_ok_def
proof
  fix p
  assume p: "p \<in> set as"
  with assms(1) obtain n where n: "cells h p = Some n" using cdll_alloc [of h l as p] by auto
  from p assms(1) have "p \<noteq> 0" unfolding cdll_def by (metis list.set_intros(2))
  moreover from p n assms(5) have "str_ok (ldata n)" by (auto simp: items_def)
  ultimately show "\<exists>r. pr_list_cmp_str e p h = Inr r \<and> (r < 0 \<longleftrightarrow> ldata ne < ldata (the (cells h p)))"
    using pr_list_cmp_str_less [OF assms(2) n assms(3)] assms(4) n by simp
qed

text \<open>The common setting of the string lists: a well-formed ring of strings and a detached node.\<close>

definition str_ring :: "sheap \<Rightarrow> addr \<Rightarrow> addr list \<Rightarrow> bool" where
  "str_ring h l as \<longleftrightarrow> wf_heap h \<and> cdll h l as \<and> (\<forall>d \<in> set (items h as). str_ok d)"

definition detached :: "sheap \<Rightarrow> addr \<Rightarrow> addr list \<Rightarrow> addr \<Rightarrow> string option \<Rightarrow> bool" where
  "detached h l as e d \<longleftrightarrow> (\<exists>ne. cells h e = Some ne \<and> ldata ne = d) \<and> e \<noteq> 0 \<and> e \<notin> set (l # as) \<and> str_ok d"

lemma set_takeWhile_dropWhile:
  "set (takeWhile P as) \<union> set (dropWhile P as) = set as"
  by (metis set_append takeWhile_dropWhile_id)

lemma pr_list_prepend_str_sorted_insort:
  assumes "str_ring h l as" and "detached h l as e d" and "sorted (items h as)"
  shows "\<exists>h' bs. pr_list_prepend_str_sorted l e h = Inr (e, h') \<and> str_ring h' l bs \<and>
    items h' bs = insort d (items h as) \<and> set bs = insert e (set as) \<and> brk h' = brk h \<and> lim h' = lim h"
proof -
  from assms obtain ne where r: "wf_heap h" "cdll h l as" "\<forall>d \<in> set (items h as). str_ok d"
    and e: "e \<notin> set (l # as)" "cells h e = Some ne" "e \<noteq> 0" "ldata ne = d" "str_ok d"
    by (auto simp: str_ring_def detached_def)
  define gt where "gt = (\<lambda>p. ldata ne < ldata (the (cells h p)))"
  let ?bs = "takeWhile (\<lambda>p. \<not> gt p) as @ e # dropWhile (\<lambda>p. \<not> gt p) as"
  have c: "cmp_ok pr_list_cmp_str h e (set as) gt"
    unfolding gt_def using r e by (intro cmp_ok_str) auto
  have "inserted h l as e ?bs (pr_list_prepend_str_sorted l e h)"
    unfolding pr_list_prepend_str_sorted_def by (rule pr_list_prepend_sorted_at [OF r(1,2) e(1-3) c])
  moreover have bs: "set ?bs = insert e (set as)"
    using set_takeWhile_dropWhile [of "\<lambda>p. \<not> gt p" as] by auto
  ultimately obtain h' where h: "pr_list_prepend_str_sorted l e h = Inr (e, h')" "cdll h' l ?bs"
      "items h' ?bs = items h ?bs" "wf_heap h'" "brk h' = brk h" "lim h' = lim h"
    using inserted_items [OF _ r(2) e(2)] r(1) by (metis order_refl)
  have "items h ?bs = insort d (items h as)"
    using items_takeWhile [of h as e ne gt] assms(3) e gt_def cdll_alloc [OF r(2)] by auto
  with h r e bs show ?thesis
    by (intro exI [of _ h'] exI [of _ ?bs]) (auto simp: str_ring_def set_insort_key)
qed


lemma items_rev: "items h (rev as) = rev (items h as)"
  by (simp add: items_def rev_map)

lemma pr_list_append_str_sorted_insort:
  assumes "str_ring h l as" and "detached h l as e d" and "sorted (rev (items h as))"
  shows "\<exists>h' bs. pr_list_append_str_sorted l e h = Inr (e, h') \<and> str_ring h' l bs \<and>
    rev (items h' bs) = insort d (rev (items h as)) \<and> set bs = insert e (set as)"
proof -
  from assms obtain ne where r: "wf_heap h" "cdll h l as" "\<forall>d \<in> set (items h as). str_ok d"
    and e: "e \<notin> set (l # as)" "cells h e = Some ne" "e \<noteq> 0" "ldata ne = d" "str_ok d"
    by (auto simp: str_ring_def detached_def)
  define gt where "gt = (\<lambda>p. ldata ne < ldata (the (cells h p)))"
  let ?cs = "takeWhile (\<lambda>p. \<not> gt p) (rev as) @ e # dropWhile (\<lambda>p. \<not> gt p) (rev as)"
  have c: "cmp_ok pr_list_cmp_str h e (set as) gt"
    unfolding gt_def using r e by (intro cmp_ok_str) auto
  have "inserted h l as e (rev ?cs) (pr_list_append_str_sorted l e h)"
    unfolding pr_list_append_str_sorted_def by (rule pr_list_append_sorted_at [OF r(1,2) e(1-3) c])
  moreover have bs: "set (rev ?cs) = insert e (set as)"
    using set_takeWhile_dropWhile [of "\<lambda>p. \<not> gt p" "rev as"] by auto
  ultimately obtain h' where h: "pr_list_append_str_sorted l e h = Inr (e, h')" "cdll h' l (rev ?cs)"
      "items h' (rev ?cs) = items h (rev ?cs)" "wf_heap h'"
    using inserted_items [OF _ r(2) e(2)] r(1) by (metis order_refl)
  have "items h ?cs = insort d (items h (rev as))"
    using items_takeWhile [of h "rev as" e ne gt] assms(3) e gt_def cdll_alloc [OF r(2)]
    by (auto simp: items_rev)
  then have i: "rev (items h' (rev ?cs)) = insort d (rev (items h as))"
    using h(3) by (simp only: items_rev rev_rev_ident)
  moreover have "set (items h' (rev ?cs)) = insert d (set (items h as))"
    using arg_cong [OF i, of set] by (simp only: set_rev set_insort_key)
  ultimately show ?thesis
    using h r e bs by (intro exI [of _ h'] exI [of _ "rev ?cs"]) (simp add: str_ring_def)
qed

section \<open>Traversal\<close>

lemma foreach_from_chain:
  "chain (cells h) p ps l \<Longrightarrow> l \<notin> set (p # ps) \<Longrightarrow> length (p # ps) < f \<Longrightarrow>
   foreach_from f l h p = Inr (p # ps)"
proof (induction ps arbitrary: p f)
  case Nil
  then have f: "f = Suc (Suc (f - 2))" by simp
  from Nil obtain n where "get_node h p = Inr n" "nxt n = l" by (auto dest: get_node_nx)
  with Nil show ?case by (subst f) auto
next
  case (Cons a ps)
  then obtain f' where f: "f = Suc f'" by (cases f) auto
  from Cons.prems obtain n where "get_node h p = Inr n" "nxt n = a" by (auto dest: get_node_nx)
  with Cons f show ?case by auto
qed

lemma PR_LIST_FOREACH_ring:
  assumes "wf_heap h" and "cdll h l as"
  shows "PR_LIST_FOREACH l h = Inr as"
proof (cases as)
  case Nil
  from cdll_bound [OF assms] obtain f where "brk h = Suc f" by (cases "brk h") auto
  moreover from assms Nil obtain n where "get_node h l = Inr n" "nxt n = l"
    by (auto simp: cdll_def dest: get_node_nx)
  ultimately show ?thesis using Nil by (simp add: PR_LIST_FOREACH_def)
next
  case (Cons a as')
  with assms obtain n where "get_node h l = Inr n" "nxt n = a"
    by (auto simp: cdll_def dest: get_node_nx)
  with assms Cons cdll_bound [OF assms] foreach_from_chain [of h a as' l "brk h"] show ?thesis
    by (auto simp: PR_LIST_FOREACH_def cdll_def)
qed

lemma visit_from_chain:
  "chain (cells h) p ps l \<Longrightarrow> l \<notin> set ps \<Longrightarrow> length (p # ps) \<le> f \<Longrightarrow>
   visit_from f (Some v) True l h p r = Inr (fold (\<lambda>p. v p h) (p # ps) r)"
proof (induction ps arbitrary: p f r)
  case Nil
  then obtain f' where f: "f = Suc f'" by (cases f) auto
  from Nil obtain n where "get_node h p = Inr n" "nxt n = l" by (auto dest: get_node_nx)
  with f show ?case by simp
next
  case (Cons a ps)
  then obtain f' where f: "f = Suc f'" by (cases f) auto
  from Cons.prems obtain n where "get_node h p = Inr n" "nxt n = a" by (auto dest: get_node_nx)
  with Cons f show ?case by auto
qed

lemma visit_from_chain_rev:
  "chain (cells h) z (rev ps) p \<Longrightarrow> z \<notin> set ps \<Longrightarrow> length (p # ps) \<le> f \<Longrightarrow>
   visit_from f (Some v) False z h p r = Inr (fold (\<lambda>p. v p h) (p # ps) r)"
proof (induction ps arbitrary: p f r)
  case Nil
  then obtain f' where f: "f = Suc f'" by (cases f) auto
  from Nil obtain n where "get_node h p = Inr n" "prv n = z" by (auto dest: get_node_pv)
  with f show ?case by simp
next
  case (Cons a ps)
  then obtain f' where f: "f = Suc f'" by (cases f) auto
  from Cons.prems obtain n where "get_node h p = Inr n" "prv n = a" by (auto dest: get_node_pv)
  with Cons f show ?case by auto
qed


lemma cdll_head_pv: "cdll h l as \<Longrightarrow> \<exists>n. get_node h l = Inr n \<and> prv n = last (l # as)"
  unfolding cdll_def by (blast dest: chain_ends get_node_pv)

lemma foreach_visit_forward:
  assumes "wf_heap h" and "cdll h l as"
  shows "pr_list_foreach_visit l (Some v) h r = Inr (fold (\<lambda>p. v p h) (l # as) r)"
  using assms cdll_bound [OF assms] visit_from_chain [of h l as l "brk h" v r]
  by (simp add: pr_list_foreach_visit_def cdll_def)

lemma foreach_visit_backward:
  assumes "wf_heap h" and "cdll h l as"
  shows "pr_list_foreach_rev_visit l (Some v) h r = Inr (fold (\<lambda>p. v p h) (rev (l # as)) r)"
proof -
  have l: "l \<noteq> 0" using assms(2) by (simp add: cdll_def)
  obtain n where n: "get_node h l = Inr n" "prv n = last (l # as)"
    using cdll_head_pv [OF assms(2)] by blast
  note b = cdll_bound [OF assms]
  have "visit_from (brk h) (Some v) False (prv n) h (prv n) r =
      Inr (fold (\<lambda>p. v p h) (rev (l # as)) r)"
  proof (cases as rule: rev_cases)
    case Nil
    with assms b n visit_from_chain_rev [of h l "[]" l "brk h" v r] show ?thesis
      by (simp add: cdll_def)
  next
    case (snoc as' z)
    with assms(2) have "cdll h z (l # as')" using cdll_rotate [of h l as' z "[]"] by simp
    then have "chain (cells h) z (rev (rev as' @ [l])) z" "z \<notin> set (rev as' @ [l])"
      by (auto simp: cdll_def)
    with b snoc have "visit_from (brk h) (Some v) False z h z r =
        Inr (fold (\<lambda>p. v p h) (z # rev as' @ [l]) r)"
      by (intro visit_from_chain_rev) auto
    with n snoc show ?thesis by simp
  qed
  with l n show ?thesis by (simp add: pr_list_foreach_rev_visit_def)
qed

lemma chain_determined:
  "chain c x as y \<Longrightarrow> chain c' x as y \<Longrightarrow> z \<in> set (x # as) \<Longrightarrow> nx c' z = nx c z"
  "chain c x as y \<Longrightarrow> chain c' x as y \<Longrightarrow> z \<in> set (as @ [y]) \<Longrightarrow> pv c' z = pv c z"
  by (induction as arbitrary: x) auto

lemma cdll_determined:
  assumes "cdll h l as" and "cdll h' l as" and "relinked h h'" and "z \<in> set (l # as)"
  shows "cells h' z = cells h z"
proof -
  have c: "chain (cells h) l as l" "chain (cells h') l as l"
    using assms by (simp_all add: cdll_def)
  have "nx (cells h') z = nx (cells h) z" "pv (cells h') z = pv (cells h) z"
    "dat (cells h') z = dat (cells h) z"
    using chain_determined [OF c] assms(3,4) by (auto simp: relinked_def)
  then show ?thesis
    by (cases "cells h z"; cases "cells h' z") (auto simp: nx_def pv_def dat_def)
qed

lemma relinked_trans: "relinked h h1 \<Longrightarrow> relinked h1 h2 \<Longrightarrow> relinked h h2"
  by (simp add: relinked_def)

section \<open>Properties\<close>

text \<open>
  C27: \<open>pr_list_prepend_str_sorted\<close> on a sorted list inserts the new entry at its place: the
  operation returns the entry, the list stays one well-formed ring, and its strings are the
  old ones with the new string inserted in \<^verbatim>\<open>strcmp\<close> order.
\<close>

theorem prepend_str_sorted_correct:
  assumes "str_ring h l as" and "detached h l as e d" and "sorted (items h as)"
  shows "\<exists>h' bs. pr_list_prepend_str_sorted l e h = Inr (e, h') \<and> str_ring h' l bs \<and>
    items h' bs = insort d (items h as) \<and> set bs = insert e (set as)"
  using pr_list_prepend_str_sorted_insort [OF assms] by blast

text \<open>A ring \<open>a\<close>, \<open>c\<close> with a detached node \<open>b\<close>, as the unit tests build it.\<close>

definition ring_example :: sheap where
  "ring_example = \<lparr>cells = [1 \<mapsto> \<lparr>ldata = None, nxt = 2, prv = 3\<rparr>,
     2 \<mapsto> \<lparr>ldata = Some ''a'', nxt = 3, prv = 1\<rparr>,
     3 \<mapsto> \<lparr>ldata = Some ''c'', nxt = 1, prv = 2\<rparr>,
     4 \<mapsto> \<lparr>ldata = Some ''b'', nxt = 4, prv = 4\<rparr>], brk = 5, lim = 100\<rparr>"

lemma ring_example_ok:
  "str_ring ring_example 1 [2, 3]" "detached ring_example 1 [2, 3] 4 (Some ''b'')"
  "items ring_example [2, 3] = [Some ''a'', Some ''c'']"
  by (auto simp: str_ring_def detached_def wf_heap_def cdll_def items_def ring_example_def nx_def
      pv_def str_ok_def split: if_splits)

theorem prepend_str_sorted_correct_witness:
  "\<exists>h' bs. pr_list_prepend_str_sorted 1 4 ring_example = Inr (4, h') \<and>
     items h' bs = [Some ''a'', Some ''b'', Some ''c''] \<and> str_ring h' 1 bs"
proof -
  have "sorted (items ring_example [2, 3])" by (simp add: ring_example_ok(3) less_eq_char_def)
  from prepend_str_sorted_correct [OF ring_example_ok(1,2) this] show ?thesis
    unfolding ring_example_ok(3) by (force simp: less_eq_char_def)
qed


text \<open>
  C28: \<open>pr_list_append_str_sorted\<close> keeps the list in descending order from head to tail:
  read from the tail, the strings are the old ones with the new one inserted.
\<close>

theorem append_str_sorted_correct:
  assumes "str_ring h l as" and "detached h l as e d" and "sorted (rev (items h as))"
  shows "\<exists>h' bs. pr_list_append_str_sorted l e h = Inr (e, h') \<and> str_ring h' l bs \<and>
    rev (items h' bs) = insort d (rev (items h as)) \<and> set bs = insert e (set as)"
  using assms by (rule pr_list_append_str_sorted_insort)

definition ring_example_desc :: sheap where
  "ring_example_desc = \<lparr>cells = [1 \<mapsto> \<lparr>ldata = None, nxt = 2, prv = 3\<rparr>,
     2 \<mapsto> \<lparr>ldata = Some ''c'', nxt = 3, prv = 1\<rparr>,
     3 \<mapsto> \<lparr>ldata = Some ''a'', nxt = 1, prv = 2\<rparr>,
     4 \<mapsto> \<lparr>ldata = Some ''b'', nxt = 4, prv = 4\<rparr>], brk = 5, lim = 100\<rparr>"

lemma ring_example_desc_ok:
  "str_ring ring_example_desc 1 [2, 3]" "detached ring_example_desc 1 [2, 3] 4 (Some ''b'')"
  "items ring_example_desc [2, 3] = [Some ''c'', Some ''a'']"
  by (auto simp: str_ring_def detached_def wf_heap_def cdll_def items_def ring_example_desc_def
      nx_def pv_def str_ok_def split: if_splits)

theorem append_str_sorted_correct_witness:
  "\<exists>h' bs. pr_list_append_str_sorted 1 4 ring_example_desc = Inr (4, h') \<and>
     rev (items h' bs) = [Some ''a'', Some ''b'', Some ''c''] \<and> str_ring h' 1 bs"
proof -
  have "sorted (rev (items ring_example_desc [2, 3]))"
    by (simp add: ring_example_desc_ok(3) less_eq_char_def)
  from append_str_sorted_correct [OF ring_example_desc_ok(1,2) this] show ?thesis
    unfolding ring_example_desc_ok(3) by (force simp: less_eq_char_def)
qed

text \<open>
  C29: on a well-formed ring both visitors end and call the callback exactly once on every
  node, the head included: forwards from the head, and backwards from the tail to the head.
\<close>

theorem foreach_visits_ring:
  assumes "wf_heap h" and "cdll h l as"
  shows "pr_list_foreach_visit l (Some v) h r = Inr (fold (\<lambda>p. v p h) (l # as) r) \<and>
    pr_list_foreach_rev_visit l (Some v) h r = Inr (fold (\<lambda>p. v p h) (rev (l # as)) r)"
  by (intro conjI foreach_visit_forward [OF assms] foreach_visit_backward [OF assms])

theorem foreach_visits_ring_witness:
  "pr_list_foreach_visit 1 (Some (\<lambda>p h log. log @ [p])) ring_example [] = Inr [1, 2, 3] \<and>
   pr_list_foreach_rev_visit 1 (Some (\<lambda>p h log. log @ [p])) ring_example [] = Inr [3, 2, 1]"
proof -
  have "wf_heap ring_example" "cdll ring_example 1 [2, 3]"
    using ring_example_ok(1) by (simp_all add: str_ring_def)
  from foreach_visits_ring [OF this, of "\<lambda>p h log. log @ [p]" "[]"] show ?thesis by simp
qed

text \<open>
  C30: adding a detached entry after any node behind the head of a ring and removing it again restores
  every node of the ring, pointers included, and leaves the entry as a ring of its own.
\<close>

theorem append_remove_roundtrip:
  assumes "cdll h l (xs @ p # ys)" and "e \<notin> set (l # xs @ p # ys)"
    and "cells h e = Some ne" and "e \<noteq> 0"
  shows "\<exists>h1 h2. pr_list_append p e h = Inr (e, h1) \<and> cdll h1 l (xs @ p # e # ys) \<and>
    pr_list_remove e h1 = Inr (e, h2) \<and> cdll h2 e [] \<and>
    (\<forall>z \<in> set (l # xs @ p # ys). cells h2 z = cells h z)"
proof -
  from pr_list_append_at [OF assms] obtain h1
    where h1: "pr_list_append p e h = Inr (e, h1)" "cdll h1 l (xs @ p # e # ys)" "relinked h h1"
    by (auto simp: inserted_def)
  then have "removed h1 l (xs @ p # e # ys) e (xs @ p # ys) (pr_list_remove e h1)"
    using pr_list_remove_at [of h1 l "xs @ [p]" e ys] by simp
  then obtain h2 where h2: "pr_list_remove e h1 = Inr (e, h2)" "cdll h2 l (xs @ p # ys)"
      "cdll h2 e []" "relinked h1 h2"
    by (auto simp: removed_def)
  have "\<forall>z \<in> set (l # xs @ p # ys). cells h2 z = cells h z"
    using cdll_determined [OF assms(1) h2(2) relinked_trans [OF h1(3) h2(4)]] by blast
  with h1 h2 show ?thesis by blast
qed

theorem append_remove_roundtrip_witness:
  "\<exists>h1 h2. pr_list_append 2 4 ring_example = Inr (4, h1) \<and> cdll h1 1 [2, 4, 3] \<and>
     pr_list_remove 4 h1 = Inr (4, h2) \<and> cells h2 3 = cells ring_example 3"
proof -
  have "cdll ring_example 1 ([] @ 2 # [3])" using ring_example_ok(1) by (simp add: str_ring_def)
  moreover have "(4::nat) \<notin> set (1 # [] @ 2 # [3])" by simp
  moreover have "cells ring_example 4 = Some \<lparr>ldata = Some ''b'', nxt = 4, prv = 4\<rparr>"
    by (simp add: ring_example_def)
  ultimately show ?thesis using append_remove_roundtrip [of ring_example 1 "[]" 2 "[3]" 4] by fastforce
qed

text \<open>
  \<open>pr_list_appendn_str\<close> and \<open>pr_list_prependn_str\<close> store one character more than the
  \<open>len\<close> they are asked for whenever the string is longer than \<open>len\<close>, since they pass
  \<open>1+len\<close> to \<^verbatim>\<open>strndup\<close>, which adds the terminator itself.
\<close>

theorem appendn_str_stores_one_more:
  assumes "wf_heap h" and "cdll h l as" and "brk h < lim h" and "len < length str"
  shows "\<exists>e h'. pr_list_appendn_str l str len h = Inr (e, h') \<and> cdll h' l (e # as) \<and>
    items h' (e # as) = Some (take (Suc len) str) # items h as \<and> length (take (Suc len) str) = Suc len"
proof -
  obtain e h1 where n: "pr_list_new (Some (take (Suc len) str)) h = (e, h1)" by force
  note ring = pr_list_new_ring [OF assms(1,3) n] and old = cdll_new_frame [OF assms(1,3) n assms(2)]
  have "inserted h1 l as e (e # as) (pr_list_append l e h1)"
    by (rule pr_list_append_head [OF old(1,2) ring(6,3)])
  then obtain h2 where h2: "pr_list_append l e h1 = Inr (e, h2)" "cdll h2 l (e # as)"
      "items h2 (e # as) = items h1 (e # as)"
    by (rule inserted_items [OF _ old(1) ring(6)]) auto
  have "pr_list_appendn_str l str len h = Inr (e, h2)"
    using assms n h2 ring(3)
    by (simp add: pr_list_appendn_str_def strndup_def cdll_def)
  moreover have "items h2 (e # as) = Some (take (Suc len) str) # items h as"
    using h2(3) old(3) ring(6) by (simp add: items_def)
  ultimately show ?thesis using h2(2) assms(4) by auto
qed

theorem appendn_str_stores_one_more_witness:
  "\<exists>e h'. pr_list_appendn_str 1 ''hello'' 2 ring_example = Inr (e, h') \<and>
     items h' (e # [2, 3]) = [Some ''hel'', Some ''a'', Some ''c'']"
proof -
  have "wf_heap ring_example" "cdll ring_example 1 [2, 3]"
    using ring_example_ok(1) by (simp_all add: str_ring_def)
  moreover have "brk ring_example < lim ring_example" by (simp add: ring_example_def)
  ultimately show ?thesis
    using appendn_str_stores_one_more [of ring_example 1 "[2, 3]" 2 "''hello''"]
    unfolding ring_example_ok(3) by fastforce
qed

end
