(* ===== verification/StringUtil.thy ===== *)
theory StringUtil
  imports PString PrList
begin

text \<open>
  \<^verbatim>\<open>string-util.c\<close>: the append functions on multibyte and wide strings, and
  \<^verbatim>\<open>split_fields\<close>. A destination \<^verbatim>\<open>char **\<close> or \<^verbatim>\<open>pstring **\<close> is the option it points
  to, passed in and returned. Sources are C strings given without their terminator.

  The lemmas show that every wide append extends the text of a document by exactly the
  text appended (\<open>doc_is\<close>), that the loops of \<open>appendva\<close> and \<open>wappendva\<close> end with a buffer
  that fits, and what they do when the conversion itself fails; \<open>split_fields\<close> with
  \<open>compress\<close> is related to the fields between runs of the delimiter.
\<close>

section \<open>Multibyte strings\<close>

definition DEFAULT_ALLOC_GUESS_SIZE :: nat where
  "DEFAULT_ALLOC_GUESS_SIZE = 8"

definition appendn :: "cenv \<Rightarrow> string option \<Rightarrow> string \<Rightarrow> nat \<Rightarrow> string option res" where
  "appendn env dest src n =
     (if n = 0 then Inr dest
      else bindE (case dest of
                    Some d \<Rightarrow> Inr d
                  | None \<Rightarrow> if alloc_ok env 1 then Inr [nul]
                            else Inl (Die ''failed to allocate space for string'')) (\<lambda>d.
           bindE (str_end nul d 0) (\<lambda>e.
           let total = e + 1 + n in
           guardE (alloc_ok env total) AssertFail
             (bindE (ncat_at nul (realloc_cells (char_of (junk env)) d total) 0 src n) (\<lambda>d2.
              bindE (rd d2 (total - 1)) (\<lambda>c. guardE (c = nul) AssertFail (Inr (Some d2))))))))"

definition append_c :: "cenv \<Rightarrow> string option \<Rightarrow> string \<Rightarrow> string option res" where
  "append_c env dest src = appendn env dest src (length src)"

text \<open>
  The loop of \<open>appendva\<close>: \<open>out\<close> is what the format expands to, the result is the final
  \<open>len\<close>. The buffer has \<open>1 + len\<close> cells; the cells behind the text are still the zeros
  of the first allocation, or the one cell the last \<^verbatim>\<open>realloc\<close> added.
\<close>

function appendva_len :: "cenv \<Rightarrow> string option \<Rightarrow> nat \<Rightarrow> nat res" where
  "appendva_len env out n =
     (let ret = vsnprintf_ret out in
      if ret < 0 then Inl (Die ''failed to format string'')
      else if nat ret < n then Inr n
      else if alloc_ok env (1 + (n + 1)) then appendva_len env out (n + 1)
      else Inl (Die ''failed to allocate space for string''))"
  by pat_completeness auto
termination
  by (relation "measure (\<lambda>(env, out, n). Suc (nat (vsnprintf_ret out)) - n)") auto

declare appendva_len.simps [simp del]

definition appendva :: "cenv \<Rightarrow> string option \<Rightarrow> string \<Rightarrow> parg list \<Rightarrow> string option res" where
  "appendva env dest fmt ap =
     (if \<not> alloc_ok env (1 + DEFAULT_ALLOC_GUESS_SIZE) then Inl (Die ''failed to allocate space for string'')
      else let out = format fmt ap in
        bindE (appendva_len env out DEFAULT_ALLOC_GUESS_SIZE) (\<lambda>n.
          let s = the out;
              fill = (if n = DEFAULT_ALLOC_GUESS_SIZE then nul else char_of (junk env))
          in case dest of
               Some _ \<Rightarrow> append_c env dest s
             | None \<Rightarrow> Inr (Some (s @ nul # replicate (n - length s) fill))))"

definition appendf :: "cenv \<Rightarrow> string option \<Rightarrow> string \<Rightarrow> parg list \<Rightarrow> string option res" where
  "appendf env dest fmt args = appendva env dest fmt args"

section \<open>Wide strings\<close>

definition wappendn :: "cenv \<Rightarrow> pstring option \<Rightarrow> wchar list \<Rightarrow> nat \<Rightarrow> pstring option res" where
  "wappendn env dest src n =
     (if n = 0 then Inr dest
      else case (case dest of Some d \<Rightarrow> Some d | None \<Rightarrow> pstring_new env) of
        None \<Rightarrow> Inl (Die ''failed to allocate space for pstring'')
      | Some d \<Rightarrow>
          let total = len d + n;
              bytes = (1 + total) * sizeof_wchar
          in guardE (alloc_ok env bytes) AssertFail
               (let b0 = realloc_cells (junk env) (case buf d of None \<Rightarrow> [] | Some b \<Rightarrow> b) (1 + total);
                    b1 = (if len d = 0 then replicate (1 + total) 0 else b0)
                in bindE (wr b1 total 0) (\<lambda>b2.
                   bindE (ncat_at 0 b2 (len d) src n) (\<lambda>b3.
                   bindE (rd b3 total) (\<lambda>c.
                     guardE (c = 0) AssertFail
                       (Inr (Some \<lparr>buf = Some b3, len = total, bsize = bytes\<rparr>)))))))"

definition wappend :: "cenv \<Rightarrow> pstring option \<Rightarrow> wchar list \<Rightarrow> pstring option res" where
  "wappend env dest src = wappendn env dest src (length src)"

definition wmappend :: "cenv \<Rightarrow> pstring option \<Rightarrow> string \<Rightarrow> pstring option res" where
  "wmappend env dest src =
     (case char_to_wchar env src of
        None \<Rightarrow> Inl (Die ''failed to allocate space for wide string'')
      | Some w \<Rightarrow> bindE (str_at 0 w 0) (wappend env dest))"

definition wmappendn :: "cenv \<Rightarrow> pstring option \<Rightarrow> string \<Rightarrow> nat \<Rightarrow> pstring option res" where
  "wmappendn env dest src n =
     (if n = 0 then Inr dest
      else case char_to_wchar env src of
        None \<Rightarrow> Inl (Die ''failed to allocate space for wide string'')
      | Some w \<Rightarrow> bindE (str_at 0 w 0) (\<lambda>s. wappendn env dest s (length s)))"

text \<open>
  The loop of \<open>wappendva\<close>: the result is \<open>ret + 1\<close>. A negative result of
  \<^verbatim>\<open>vswprintf\<close> is cast to \<^verbatim>\<open>size_t\<close> and so is never smaller than \<open>len\<close>, whatever the reason
  of the failure: the loop goes on until the allocation fails.
\<close>

function wappendva_len :: "cenv \<Rightarrow> wchar list option \<Rightarrow> nat \<Rightarrow> nat res" where
  "wappendva_len env out n =
     (let ret = vswprintf_ret out n in
      if 0 \<le> ret \<and> nat ret < n then Inr (nat ret + 1)
      else if alloc_ok env ((1 + (n + 1)) * sizeof_wchar) then wappendva_len env out (n + 1)
      else Inl (Die ''failed to allocate space for string''))"
  by pat_completeness auto
termination
  by (relation "measure (\<lambda>(env, out, n). mem_limit env - n)")
    (auto simp: alloc_ok_def sizeof_wchar_def)

declare wappendva_len.simps [simp del]

definition wappendva :: "cenv \<Rightarrow> pstring option \<Rightarrow> wchar list \<Rightarrow> parg list \<Rightarrow> pstring option res" where
  "wappendva env dest fmt ap =
     (if \<not> alloc_ok env ((1 + DEFAULT_ALLOC_GUESS_SIZE) * sizeof_wchar)
      then Inl (Die ''failed to allocate space for wide string'')
      else let out = wformat env fmt ap in
        bindE (wappendva_len env out DEFAULT_ALLOC_GUESS_SIZE) (\<lambda>n.
          let w = the out in
          case dest of
            Some _ \<Rightarrow> wappend env dest w
          | None \<Rightarrow>
              let bytes = (1 + n) * sizeof_wchar in
              if \<not> alloc_ok env bytes then Inl (Die ''failed to reallocate space'')
              else case pstring_new env of
                None \<Rightarrow> Inl AssertFail
              | Some p \<Rightarrow> Inr (Some (p\<lparr>buf := Some (w @ replicate (1 + n - length w) 0),
                                        len := n, bsize := bytes\<rparr>))))"

definition wappendf :: "cenv \<Rightarrow> pstring option \<Rightarrow> wchar list \<Rightarrow> parg list \<Rightarrow> pstring option res" where
  "wappendf env dest fmt args = wappendva env dest fmt args"

definition wmappendva :: "cenv \<Rightarrow> pstring option \<Rightarrow> string \<Rightarrow> parg list \<Rightarrow> pstring option res" where
  "wmappendva env dest fmt ap =
     (case char_to_wchar env fmt of
        None \<Rightarrow> Inl (Die ''failed to allocate memory for wide format'')
      | Some w \<Rightarrow> bindE (str_at 0 w 0) (\<lambda>f. wappendva env dest f ap))"

definition wmappendf :: "cenv \<Rightarrow> pstring option \<Rightarrow> string \<Rightarrow> parg list \<Rightarrow> pstring option res" where
  "wmappendf env dest fmt args =
     (case char_to_wchar env fmt of
        None \<Rightarrow> Inl (Die ''failed to allocate memory for wide format'')
      | Some w \<Rightarrow> bindE (str_at 0 w 0) (\<lambda>f. wappendva env dest f args))"

text \<open>\<open>pappend\<close> takes one off the total, so exactly one of the two lengths may count a
  terminator: the source's, as \<open>add_indent\<close> uses it.\<close>

definition pappend :: "cenv \<Rightarrow> pstring option \<Rightarrow> pstring \<Rightarrow> pstring option res" where
  "pappend env dest src =
     (if len src = 0 then Inr dest
      else case (case dest of Some d \<Rightarrow> Some d | None \<Rightarrow> pstring_new env) of
        None \<Rightarrow> Inl (Die ''failed to allocate space for pstring'')
      | Some d \<Rightarrow>
          let total = len d + len src - 1;
              bytes = (1 + total) * sizeof_wchar
          in guardE (alloc_ok env bytes) AssertFail
               (case buf src of
                  None \<Rightarrow> Inl NullDeref
                | Some sb \<Rightarrow>
                    let b0 = realloc_cells (junk env) (case buf d of None \<Rightarrow> [] | Some b \<Rightarrow> b) (1 + total)
                    in bindE (str_at 0 sb 0) (\<lambda>s.
                       bindE (ncat_at 0 b0 (len d) s (len src)) (\<lambda>b1.
                       bindE (wr b1 total 0) (\<lambda>b2.
                         Inr (Some \<lparr>buf = Some b2, len = total, bsize = bytes\<rparr>))))))"

section \<open>split_fields\<close>

text \<open>The loop, on the part of the string not yet read; the fields found so far come first.
  In the mode without \<open>compress\<close> one character is skipped before every field.\<close>

function split_loop :: "char \<Rightarrow> bool \<Rightarrow> string \<Rightarrow> string list" where
  "split_loop delimiter compress p =
     (let q = (if compress then dropWhile (\<lambda>c. c = delimiter) p else p)
      in if q = [] then []
         else let start = (if compress then q else tl q)
              in takeWhile (\<lambda>c. c \<noteq> delimiter) start #
                 split_loop delimiter compress (dropWhile (\<lambda>c. c \<noteq> delimiter) start))"
  by pat_completeness auto
termination
proof (relation "measure (\<lambda>(d, c, p). length p)", goal_cases)
  case (2 d c p q start)
  have "length (dropWhile (\<lambda>c. c \<noteq> d) start) < length q"
  proof (cases c)
    case True
    have "q \<noteq> []" using 2 by simp
    then obtain x r where q: "q = x # r" by (cases q) blast
    have "hd q \<noteq> d" using hd_dropWhile [of "\<lambda>c. c = d" p] 2(1) True \<open>q \<noteq> []\<close> by simp
    then have "x \<noteq> d" using q by simp
    with q 2 True show ?thesis by (simp add: length_dropWhile_le less_Suc_eq_le)
  next
    case False
    with 2 show ?thesis
      by (cases q) (auto simp: length_dropWhile_le less_Suc_eq_le)
  qed
  also have "length q \<le> length p" using 2 by (auto simp: length_dropWhile_le)
  finally show ?case by simp
qed auto

declare split_loop.simps [simp del]

definition split_fields :: "string \<Rightarrow> char \<Rightarrow> bool \<Rightarrow> (nat \<times> string list) res" where
  "split_fields str delimiter compress =
     guardE (delimiter \<noteq> nul) AssertFail
       (let fs = split_loop delimiter compress str
        in Inr (length fs, fs))"

section \<open>Appending to a document\<close>

text \<open>
  \<open>doc_is p w\<close>: the document holds \<open>w\<close>; a new one has no buffer. \<open>cstr_is p w\<close>: a string
  whose length counts its terminator. \<open>fits env n\<close>: memory is enough for a text of \<open>n\<close>
  characters and the first guess of the formatted appends.
\<close>

definition doc_is :: "pstring \<Rightarrow> wchar list \<Rightarrow> bool" where
  "doc_is p w \<longleftrightarrow> (buf p = None \<and> len p = 0 \<and> w = []) \<or> holds p w"

definition cstr_is :: "pstring \<Rightarrow> wchar list \<Rightarrow> bool" where
  "cstr_is p w \<longleftrightarrow> (\<exists>post. buf p = Some (w @ 0 # post)) \<and> len p = length w + 1 \<and> 0 \<notin> set w"

definition fits :: "cenv \<Rightarrow> nat \<Rightarrow> bool" where
  "fits env n \<longleftrightarrow> alloc_ok env ((n + 9) * sizeof_wchar)"

lemma fits_mono: "fits env n \<Longrightarrow> m \<le> n \<Longrightarrow> fits env m"
  by (auto simp: fits_def alloc_ok_def sizeof_wchar_def)

lemma fits_cells: "fits env n \<Longrightarrow> m \<le> n + 9 \<Longrightarrow> alloc_ok env (m * sizeof_wchar)"
  by (auto simp: fits_def alloc_ok_def sizeof_wchar_def)

lemma fits_new: "fits env n \<Longrightarrow> pstring_new env = Some \<lparr>buf = None, len = 0, bsize = 0\<rparr>"
  by (auto simp: fits_def alloc_ok_def sizeof_wchar_def sizeof_pstring_def pstring_new_def)

lemma doc_is_len: "doc_is p w \<Longrightarrow> len p = length w \<and> 0 \<notin> set w"
  by (auto simp: doc_is_def holds_def)

lemma doc_is_new: "doc_is \<lparr>buf = None, len = 0, bsize = 0\<rparr> []"
  by (simp add: doc_is_def)

lemma ncat_grown:
  assumes "length ys = length s"
  shows "ncat_at 0 (w @ 0 # ys) (length w) s (length s) = Inr (w @ s @ [0 :: wchar])"
  using ncat_at_append [of "length s" s ys 0 w] assms by simp

lemma realloc_doc:
  "\<exists>ys. realloc_cells j (w @ 0 # post) (1 + (length w + n)) = w @ (0 :: wchar) # ys \<and> length ys = n"
  by (intro exI [of _ "take n post @ replicate (n - length post) j"])
    (simp add: realloc_cells_def)

lemma wr_last:
  "length ys = n \<Longrightarrow> \<exists>ys'. wr (w @ (0 :: wchar) # ys) (length w + n) 0 = Inr (w @ 0 # ys') \<and> length ys' = n"
  by (cases n) (auto simp: wr_def list_update_append)

lemma wappendn_buf:
  assumes "doc_is d w" "n = length s" "n \<noteq> 0"
  shows "bindE (wr (if len d = 0 then replicate (1 + (len d + n)) 0
            else realloc_cells j (case buf d of None \<Rightarrow> [] | Some b \<Rightarrow> b) (1 + (len d + n))) (len d + n) 0)
          (\<lambda>b2. ncat_at 0 b2 (len d) s n) = Inr (w @ s @ [0])"
proof -
  have l: "len d = length w" using doc_is_len [OF assms(1)] by simp
  have "\<exists>ys. (if len d = 0 then replicate (1 + (len d + n)) 0
            else realloc_cells j (case buf d of None \<Rightarrow> [] | Some b \<Rightarrow> b) (1 + (len d + n))) = w @ 0 # ys
          \<and> length ys = n"
  proof (cases "w = []")
    case True
    then show ?thesis using l by (intro exI [of _ "replicate n 0"]) simp
  next
    case False
    then obtain post where "buf d = Some (w @ 0 # post)" using assms(1) by (auto simp: doc_is_def holds_def)
    with realloc_doc [of j w post n] l False show ?thesis by auto
  qed
  then obtain ys where ys: "(if len d = 0 then replicate (1 + (len d + n)) 0
            else realloc_cells j (case buf d of None \<Rightarrow> [] | Some b \<Rightarrow> b) (1 + (len d + n))) = w @ 0 # ys"
    "length ys = n" by blast
  from wr_last [OF ys(2)] obtain ys' where
    "wr (w @ 0 # ys) (length w + n) 0 = Inr (w @ 0 # ys')" "length ys' = n" by blast
  then show ?thesis unfolding ys(1) unfolding l using ncat_grown [of ys' s w] assms(2) by simp
qed

lemma wappend_doc:
  assumes "doc_is d w" "0 \<notin> set s" "fits env (length w + length s)"
  shows "\<exists>d'. wappend env (Some d) s = Inr (Some d') \<and> doc_is d' (w @ s)"
proof (cases "s = []")
  case True
  with assms show ?thesis by (auto simp: wappend_def wappendn_def)
next
  case False
  have l: "len d = length w" "0 \<notin> set w" using doc_is_len [OF assms(1)] by auto
  have a: "alloc_ok env ((1 + (len d + length s)) * sizeof_wchar)"
    using fits_cells [OF assms(3), of "1 + (len d + length s)"] l by simp
  obtain b2 where b2: "wr (if len d = 0 then replicate (1 + (len d + length s)) 0
        else realloc_cells (junk env) (case buf d of None \<Rightarrow> [] | Some b \<Rightarrow> b) (1 + (len d + length s)))
        (len d + length s) 0 = Inr b2" "ncat_at 0 b2 (len d) s (length s) = Inr (w @ s @ [0])"
    using wappendn_buf [OF assms(1) refl, of s "junk env"] False by (auto simp: bindE_Inr_iff)
  have r: "rd (w @ s @ [0]) (len d + length s) = Inr 0"
    using rd_append [of "w @ s" 0 "[]"] l by simp
  have "wappend env (Some d) s = Inr (Some \<lparr>buf = Some (w @ s @ [0]), len = len d + length s,
      bsize = (1 + (len d + length s)) * sizeof_wchar\<rparr>)"
    using False a b2 r
    by (simp only: wappend_def wappendn_def Let_def option.case length_0_conv if_False
        guardE_simps bindE_simps simp_thms)
  then show ?thesis using l assms(2) by (auto simp: doc_is_def holds_def)
qed

lemma wappendva_len_ok:
  assumes "fits env (length t)" "n \<le> length t + 8"
  shows "wappendva_len env (Some t) n = Inr (length t + 1)"
  using assms(2)
proof (induction "length t + 1 - n" arbitrary: n)
  case 0
  then show ?case by (subst wappendva_len.simps) (simp add: vswprintf_ret_def)
next
  case (Suc k)
  then have "\<not> length t < n" by simp
  moreover have "alloc_ok env ((1 + (n + 1)) * sizeof_wchar)"
    using Suc by (intro fits_cells [OF assms(1)]) simp
  moreover have "wappendva_len env (Some t) (n + 1) = Inr (length t + 1)"
    using Suc by (intro Suc.hyps) simp_all
  ultimately show ?case by (subst wappendva_len.simps) (simp add: vswprintf_ret_def)
qed

lemma wappendva_len_fails: "\<exists>m. wappendva_len env None n = Inl (Die m)"
proof (induction "mem_limit env - n" arbitrary: n rule: less_induct)
  case less
  then show ?case
    by (subst wappendva_len.simps)
      (auto simp: vswprintf_ret_def alloc_ok_def sizeof_wchar_def)
qed

lemma wappendf_doc:
  assumes "doc_is d w" "wformat env fmt args = Some t" "0 \<notin> set t" "fits env (length w + length t)"
  shows "\<exists>d'. wappendf env (Some d) fmt args = Inr (Some d') \<and> doc_is d' (w @ t)"
proof -
  have "alloc_ok env ((1 + DEFAULT_ALLOC_GUESS_SIZE) * sizeof_wchar)"
    by (rule fits_cells [OF assms(4)]) (simp add: DEFAULT_ALLOC_GUESS_SIZE_def)
  moreover have "wappendva_len env (Some t) DEFAULT_ALLOC_GUESS_SIZE = Inr (length t + 1)"
    by (rule wappendva_len_ok) (auto intro: fits_mono [OF assms(4)] simp: DEFAULT_ALLOC_GUESS_SIZE_def)
  ultimately show ?thesis using wappend_doc [OF assms(1,3,4)] assms(2)
    by (simp add: wappendf_def wappendva_def Let_def)
qed

lemma wappendva_new:
  assumes "wformat env fmt args = Some t" "0 \<notin> set t" "fits env (length t)"
  shows "\<exists>p. wappendva env None fmt args = Inr (Some p) \<and> cstr_is p t"
proof -
  have "alloc_ok env ((1 + DEFAULT_ALLOC_GUESS_SIZE) * sizeof_wchar)"
    "alloc_ok env ((1 + (length t + 1)) * sizeof_wchar)"
    by (rule fits_cells [OF assms(3)]; simp add: DEFAULT_ALLOC_GUESS_SIZE_def)+
  moreover have "wappendva_len env (Some t) DEFAULT_ALLOC_GUESS_SIZE = Inr (length t + 1)"
    by (rule wappendva_len_ok) (auto intro: assms simp: DEFAULT_ALLOC_GUESS_SIZE_def)
  ultimately show ?thesis using assms(1,2) fits_new [OF assms(3)]
    by (simp add: wappendva_def Let_def cstr_is_def numeral_2_eq_2)
qed

lemma pappend_doc:
  assumes "holds d w" "cstr_is q s" "fits env (length w + length s)"
  shows "\<exists>d'. pappend env (Some d) q = Inr (Some d') \<and> doc_is d' (w @ s)"
proof -
  obtain post where d: "buf d = Some (w @ 0 # post)" "len d = length w" "0 \<notin> set w"
    using assms(1) by (auto simp: holds_def)
  obtain post' where q: "buf q = Some (s @ 0 # post')" "len q = length s + 1" "0 \<notin> set s"
    using assms(2) by (auto simp: cstr_is_def)
  obtain ys where ys: "realloc_cells (junk env) (w @ 0 # post) (1 + (length w + length s)) = w @ 0 # ys"
    "length ys = length s" using realloc_doc by blast
  have cat: "ncat_at 0 (w @ 0 # ys) (length w) s (length s + 1) = Inr (w @ s @ [0])"
    using ncat_at_append [of "length s + 1" s ys 0 w] ys(2) by simp
  have w: "wr (w @ s @ [0]) (length w + length s) 0 = Inr (w @ s @ [0])"
    using wr_append [of "w @ s" 0 "[]" 0] by simp
  have a: "alloc_ok env ((1 + (length w + length s)) * sizeof_wchar)"
    by (rule fits_cells [OF assms(3)]) simp
  have tot: "length w + (length s + 1) - 1 = length w + length s" "length s + 1 \<noteq> 0" by simp_all
  have sat: "str_at 0 (s @ 0 # post') 0 = Inr s" by (rule str_at_0 [OF q(3)])
  have "pappend env (Some d) q = Inr (Some \<lparr>buf = Some (w @ s @ [0]), len = length w + length s,
      bsize = (1 + (length w + length s)) * sizeof_wchar\<rparr>)"
    using a ys(1) cat w sat
    by (simp only: pappend_def Let_def tot d(1,2) q(1,2) option.case if_False guardE_simps bindE_simps simp_thms)
  then show ?thesis using d q by (auto simp: doc_is_def holds_def)
qed

section \<open>split_fields and its fields\<close>

primrec split_on :: "char \<Rightarrow> string \<Rightarrow> string list" where
  "split_on d [] = [[]]"
| "split_on d (c # s) =
     (if c = d then [] # split_on d s
      else case split_on d s of [] \<Rightarrow> [[c]] | f # fs \<Rightarrow> (c # f) # fs)"

lemma split_on_ne: "split_on d s \<noteq> []"
  by (induction s) (auto split: list.split)

lemma split_on_none: "d \<notin> set s \<Longrightarrow> split_on d s = [s]"
  by (induction s) auto

lemma split_on_append: "d \<notin> set s \<Longrightarrow> split_on d (s @ d # t) = s # split_on d t"
  by (induction s) auto

lemma split_on_field:
  "split_on d s = takeWhile (\<lambda>c. c \<noteq> d) s #
     (case dropWhile (\<lambda>c. c \<noteq> d) s of [] \<Rightarrow> [] | _ # r \<Rightarrow> split_on d r)"
  by (induction s) auto

lemma split_loop_all:
  "split_loop d False s = (if s = [] then [] else split_on d (tl s))"
proof (induction "length s" arbitrary: s rule: less_induct)
  case less
  show ?case
  proof (cases s)
    case Nil
    then show ?thesis by (simp add: split_loop.simps)
  next
    case (Cons x r)
    let ?t = "dropWhile (\<lambda>c. c \<noteq> d) r"
    have "length ?t < length s" using Cons by (simp add: length_dropWhile_le less_Suc_eq_le)
    then have "split_loop d False ?t = (if ?t = [] then [] else split_on d (tl ?t))" by (rule less)
    moreover have "split_loop d False s = takeWhile (\<lambda>c. c \<noteq> d) r # split_loop d False ?t"
      using Cons by (subst split_loop.simps) simp
    moreover have "(case ?t of [] \<Rightarrow> [] | _ # u \<Rightarrow> split_on d u) = (if ?t = [] then [] else split_on d (tl ?t))"
      by (cases ?t) (simp_all only: list.case list.sel list.distinct if_False if_True simp_thms)
    ultimately show ?thesis
      using Cons split_on_field [of d r] by (simp only: list.sel list.distinct if_False)
  qed
qed

lemma split_on_dropWhile:
  "filter (\<lambda>f. f \<noteq> []) (split_on d (dropWhile (\<lambda>c. c = d) s)) = filter (\<lambda>f. f \<noteq> []) (split_on d s)"
  by (induction s) auto

lemma split_loop_compress:
  "split_loop d True s = filter (\<lambda>f. f \<noteq> []) (split_on d s)"
proof (induction "length s" arbitrary: s rule: less_induct)
  case less
  define q where "q = dropWhile (\<lambda>c. c = d) s"
  have e: "filter (\<lambda>f. f \<noteq> []) (split_on d s) = filter (\<lambda>f. f \<noteq> []) (split_on d q)"
    unfolding q_def by (simp add: split_on_dropWhile)
  show ?case
  proof (cases q)
    case Nil
    with e show ?thesis unfolding q_def by (subst split_loop.simps) simp
  next
    case (Cons x r)
    then have x: "x \<noteq> d" using hd_dropWhile [of "\<lambda>c. c = d" s] unfolding q_def by (metis list.discI list.sel(1))
    let ?t = "dropWhile (\<lambda>c. c \<noteq> d) q"
    have "length q \<le> length s" unfolding q_def by (simp add: length_dropWhile_le)
    moreover have "length ?t < length q" using Cons x by (simp add: length_dropWhile_le less_Suc_eq_le)
    ultimately have ih: "split_loop d True ?t = filter (\<lambda>f. f \<noteq> []) (split_on d ?t)"
      by (intro less) simp
    have "split_loop d True s = takeWhile (\<lambda>c. c \<noteq> d) q # split_loop d True ?t"
      using Cons by (subst split_loop.simps) (simp add: Let_def q_def [symmetric])
    moreover have "filter (\<lambda>f. f \<noteq> []) (split_on d ?t) =
        filter (\<lambda>f. f \<noteq> []) (case ?t of [] \<Rightarrow> [] | _ # r \<Rightarrow> split_on d r)"
    proof (cases ?t)
      case (Cons y u)
      then have "y = d" using hd_dropWhile [of "\<lambda>c. c \<noteq> d" q] by auto
      with Cons show ?thesis by simp
    qed (simp only: split_on.simps list.case filter.simps if_False simp_thms)
    ultimately show ?thesis using e ih split_on_field [of d q] Cons x by simp
  qed
qed

section \<open>Properties\<close>

text \<open>
  C31: every formatted append extends the document by exactly the text the format expands
  to, whatever it held before: the loop that sizes the temporary buffer ends, nothing is
  written outside a buffer, and no assertion fails.
\<close>

theorem wappendf_extends:
  assumes "doc_is d w" "wformat env fmt args = Some t" "0 \<notin> set t" "fits env (length w + length t)"
  shows "\<exists>d'. wappendf env (Some d) fmt args = Inr (Some d') \<and> doc_is d' (w @ t)"
  by (rule wappendf_doc [OF assms])

theorem wappendf_extends_witness:
  "\<exists>d'. wappendf ascii_env (Some \<lparr>buf = None, len = 0, bsize = 0\<rparr>) (L ''%ls:'') [PWStr (L ''env'')] =
      Inr (Some d') \<and> doc_is d' ([] @ L ''env:'')"
  by (rule wappendf_extends)
    (simp_all add: doc_is_new wformat_def fmt_eval fits_def alloc_ok_def ascii_env_def sizeof_wchar_def)

text \<open>
  A wide append whose format cannot be expanded, for instance a \<^verbatim>\<open>%s\<close> argument that is
  not valid in the locale, never returns: the program stops with an error.
\<close>

lemma wappendva_invalid_dies:
  assumes "wformat env fmt args = None"
  shows "\<exists>m. wappendva env dest fmt args = Inl (Die m)"
  using wappendva_len_fails [of env DEFAULT_ALLOC_GUESS_SIZE] assms
  by (auto simp: wappendva_def Let_def)

lemma wappendva_invalid_dies_witness:
  "\<exists>m. wappendva ascii_env None (L ''%s'') [PStr [CHR 0xE9]] = Inl (Die m)"
  by (rule wappendva_invalid_dies) (simp add: wformat_def fmt_eval ascii_env_def ascii_mbs_def)

text \<open>
  With \<open>compress\<close>, \<open>split_fields\<close> returns the non-empty fields of the string in order;
  without it, the first character of the string is lost and the rest is split at every
  delimiter.
\<close>

theorem split_fields_correct:
  assumes "delimiter \<noteq> nul"
  shows "split_fields s delimiter compress =
    (let fs = (if compress then filter (\<lambda>f. f \<noteq> []) (split_on delimiter s)
               else if s = [] then [] else split_on delimiter (tl s))
     in Inr (length fs, fs))"
  using assms by (simp add: split_fields_def split_loop_compress split_loop_all)

theorem split_fields_correct_witness:
  "split_fields ''1  2 3 '' CHR '' '' True = Inr (3, [''1'', ''2'', ''3''])"
  using split_fields_correct [of "CHR '' ''" "''1  2 3 ''" True] by simp

end
