(* ===== verification/Encode.thy ===== *)
theory Encode
  imports StringUtil
begin

text \<open>
  The encoding of names and values for the output formats (\<^verbatim>\<open>output.c\<close>,
  \<open>output_translate\<close> and \<open>encode_string\<close>): substitution from the translation table of the
  format, then numeric escapes for characters that are not printable.

  \<open>encode_list\<close> says what the two passes compute; the properties are that the code computes
  it inside its buffers, that encoded text cannot break out of the XML markup or of a JSON
  string, and what a reader of each format gets back.
\<close>

section \<open>Formats and translation table\<close>

datatype OutputFormat =
    OUTPUT_FORMAT_TEXT
  | OUTPUT_FORMAT_CRUMB
  | OUTPUT_FORMAT_JSON
  | OUTPUT_FORMAT_XML

type_synonym translate_map = "(wchar list option \<times> wchar) list"

definition TRANSLATE_MAP_ENTRIES :: nat where
  "TRANSLATE_MAP_ENTRIES = 6"

text \<open>Character codes: 39 is the apostrophe, 34 the quote, 38 the ampersand, 60 and 62 the
  angle brackets, 92 the backslash.\<close>

definition translate_table :: "(translate_map \<times> OutputFormat) list" where
  "translate_table =
     [([(Some (L ''&apos;''), 39), (Some (L ''&quot;''), 34), (Some (L ''&amp;''), 38),
        (Some (L ''&lt;''), 60), (Some (L ''&gt;''), 62), (None, 0)], OUTPUT_FORMAT_XML),
      ([(Some [92, 34], 34), (Some [92, 92, 92, 92], 92), (None, 0), (None, 0), (None, 0), (None, 0)],
       OUTPUT_FORMAT_JSON)]"

text \<open>The loop over the tables leaves \<open>table\<close> at the match, or at the last table.\<close>

fun find_table :: "(translate_map \<times> OutputFormat) list \<Rightarrow> OutputFormat \<Rightarrow> translate_map option" where
  "find_table [] fmt = None"
| "find_table [t] fmt = Some (fst t)"
| "find_table (t # ts) fmt = (if snd t = fmt then Some (fst t) else find_table ts fmt)"

text \<open>The first pass: the extra space.\<close>

fun map_extra :: "translate_map \<Rightarrow> wchar \<Rightarrow> nat res" where
  "map_extra [] c = Inr 0"
| "map_extra ((to, from) # m) c =
     bindE (if c = from then (case to of None \<Rightarrow> Inl NullDeref | Some t \<Rightarrow> Inr (length t - 1)) else Inr 0)
       (\<lambda>x. bindE (map_extra m c) (\<lambda>y. Inr (x + y)))"

fun extra_space :: "translate_map \<Rightarrow> wchar list \<Rightarrow> nat res" where
  "extra_space m [] = Inr 0"
| "extra_space m (c # w) = bindE (map_extra m c) (\<lambda>x. bindE (extra_space m w) (\<lambda>y. Inr (x + y)))"

text \<open>
  The second pass, with \<open>p\<close> and \<open>start\<close> as indices into the source and \<open>n\<close> the field
  \<open>len\<close> of the result.
\<close>

function translate_loop ::
  "translate_map \<Rightarrow> wchar list \<Rightarrow> nat \<Rightarrow> nat \<Rightarrow> wchar list \<Rightarrow> nat \<Rightarrow> (nat \<times> nat \<times> wchar list \<times> nat) res"
where
  "translate_loop m src p start rb n =
     bindE (rd src p) (\<lambda>c.
       if c = 0 then Inr (p, start, rb, n)
       else case find (\<lambda>e. snd e = c) m of
         None \<Rightarrow> translate_loop m src (Suc p) start rb n
       | Some (None, _) \<Rightarrow> Inl NullDeref
       | Some (Some to, _) \<Rightarrow>
           bindE (str_at 0 src start) (\<lambda>s.
           bindE (ncat_at 0 rb n s (p - start)) (\<lambda>rb1.
           bindE (ncat_at 0 rb1 (n + (p - start)) to (length to)) (\<lambda>rb2.
             translate_loop m src (Suc p) (Suc p) rb2 (n + (p - start) + length to)))))"
  by pat_completeness auto
termination
  by (relation "measure (\<lambda>(m, src, p, _). length src - p)") (auto dest!: rd_InrD)

declare translate_loop.simps [simp del]

definition output_translate :: "cenv \<Rightarrow> OutputFormat \<Rightarrow> pstring \<Rightarrow> pstring option res" where
  "output_translate env fmt pstr =
     guardE (fmt \<noteq> OUTPUT_FORMAT_TEXT \<and> fmt \<noteq> OUTPUT_FORMAT_CRUMB) AssertFail
       (case find_table translate_table fmt of
          None \<Rightarrow> Inr None
        | Some m \<Rightarrow>
            case buf pstr of
              None \<Rightarrow> Inl NullDeref
            | Some src \<Rightarrow>
                bindE (str_at 0 src 0) (\<lambda>w.
                bindE (extra_space m w) (\<lambda>extra.
                  if extra = 0 then pstring_create env src
                  else let n = len pstr + extra; bytes = n * sizeof_wchar in
                    case pstring_new env of
                      None \<Rightarrow> Inr None
                    | Some result \<Rightarrow>
                        if \<not> alloc_ok env bytes then Inr None
                        else
                          bindE (rd (replicate n (0 :: wchar)) (n - 1)) (\<lambda>z.
                          guardE (z = 0) AssertFail (
                          bindE (translate_loop m src 0 0 (replicate n 0) 0) (\<lambda>(p, start, rb, rl).
                          bindE (str_at 0 src start) (\<lambda>s.
                          bindE (ncat_at 0 rb rl s (p - start)) (\<lambda>rb1.
                          bindE (rd rb1 (n - 1)) (\<lambda>c.
                            guardE (c = 0) AssertFail
                              (Inr (Some (result\<lparr>buf := Some rb1, len := rl + (p - start) + 1,
                                                 bsize := bytes\<rparr>))))))))))))"

section \<open>encode_string\<close>

text \<open>
  The loop that writes the escapes: \<open>q\<close> is an index that a failing \<^verbatim>\<open>swprintf\<close> (-1) moves
  back. Every call is bounded by \<open>new_size\<close>, the size of the whole buffer. A call whose text
  is longer leaves the part that fits.
\<close>

definition escape_format :: "OutputFormat \<Rightarrow> wchar list" where
  "escape_format fmt = (if fmt = OUTPUT_FORMAT_JSON then [92] @ L ''u%4.4x'' else L ''&#x%2.2x;'')"

fun escape_loop ::
  "cenv \<Rightarrow> OutputFormat \<Rightarrow> nat \<Rightarrow> wchar list \<Rightarrow> wchar list \<Rightarrow> int \<Rightarrow> int \<Rightarrow> (wchar list \<times> int) res"
where
  "escape_loop env fmt new_size [] nb q ret = Inr (nb, ret)"
| "escape_loop env fmt new_size (c # w) nb q ret =
     (if q < 0 then Inl OutOfBounds
      else if wprint env c then
        bindE (wr nb (nat q) c) (\<lambda>nb1. escape_loop env fmt new_size w nb1 (q + 1) ret)
      else
        let out = wformat env (escape_format fmt) [PInt (int c)];
            r = vswprintf_ret out new_size;
            text = (case out of None \<Rightarrow> [] | Some t \<Rightarrow> take (new_size - 1) t)
        in bindE (wr_list nb (nat q) (text @ [0])) (\<lambda>nb1.
             escape_loop env fmt new_size w nb1 (q + r) r))"

definition encode_string :: "cenv \<Rightarrow> OutputFormat \<Rightarrow> pstring \<Rightarrow> (int \<times> pstring) res" where
  "encode_string env fmt pstr =
     (if len pstr \<le> 1 then Inr (0, pstr)
      else
        bindE (if fmt = OUTPUT_FORMAT_JSON \<or> fmt = OUTPUT_FORMAT_XML
               then bindE (output_translate env fmt pstr) (\<lambda>r. Inr (case r of None \<Rightarrow> (-1, pstr) | Some p \<Rightarrow> (0, p)))
               else Inr (0, pstr)) (\<lambda>(ret, pstr1).
          if ret < 0 then Inr (ret, pstr1)
          else case buf pstr1 of
            None \<Rightarrow> Inr (ret, pstr1)
          | Some b \<Rightarrow>
              bindE (str_at 0 b 0) (\<lambda>w.
                let non_printables = length (filter (\<lambda>c. \<not> wprint env c) w)
                in if 0 < non_printables \<and> (fmt = OUTPUT_FORMAT_XML \<or> fmt = OUTPUT_FORMAT_JSON) then
                     let n = len pstr1;
                         new_size = size_sub n non_printables + non_printables * 6;
                         bytes = (1 + new_size) * sizeof_wchar
                     in case pstring_new env of
                          None \<Rightarrow> Inr (-1, pstr1)
                        | Some new \<Rightarrow>
                            if \<not> alloc_ok env bytes then Inr (-1, pstr1)
                            else bindE (escape_loop env fmt new_size w (replicate (1 + new_size) 0) 0 ret)
                              (\<lambda>(nb, ret1).
                                 bindE (str_end 0 nb 0) (\<lambda>e.
                                   Inr (ret1, new\<lparr>buf := Some nb, len := e + 1, bsize := bytes\<rparr>)))
                   else Inr (ret, pstr1))))"

section \<open>What the two passes compute\<close>

definition translate_char :: "OutputFormat \<Rightarrow> wchar \<Rightarrow> wchar list" where
  "translate_char fmt c =
     (if fmt = OUTPUT_FORMAT_XML then
        (if c = 39 then L ''&apos;'' else if c = 34 then L ''&quot;'' else if c = 38 then L ''&amp;''
         else if c = 60 then L ''&lt;'' else if c = 62 then L ''&gt;'' else [c])
      else if fmt = OUTPUT_FORMAT_JSON then
        (if c = 34 then [92, 34] else if c = 92 then [92, 92, 92, 92] else [c])
      else [c])"

definition translate_list :: "OutputFormat \<Rightarrow> wchar list \<Rightarrow> wchar list" where
  "translate_list fmt w = concat (map (translate_char fmt) w)"

definition escape_char :: "cenv \<Rightarrow> OutputFormat \<Rightarrow> wchar \<Rightarrow> wchar list" where
  "escape_char env fmt c =
     (if wprint env c then [c]
      else if fmt = OUTPUT_FORMAT_XML then L ''&#x'' @ zero_pad 2 (nat_digits 16 c) @ L '';''
      else if fmt = OUTPUT_FORMAT_JSON then [92] @ L ''u'' @ zero_pad 4 (nat_digits 16 c)
      else [c])"

definition encode_list :: "cenv \<Rightarrow> OutputFormat \<Rightarrow> wchar list \<Rightarrow> wchar list" where
  "encode_list env fmt w = concat (map (escape_char env fmt) (translate_list fmt w))"

text \<open>The characters whose escapes have the width the buffer is sized for.\<close>

definition escapable :: "cenv \<Rightarrow> OutputFormat \<Rightarrow> wchar \<Rightarrow> bool" where
  "escapable env fmt c \<longleftrightarrow>
     wprint env c \<or> (fmt = OUTPUT_FORMAT_XML \<longrightarrow> c < 256) \<and> (fmt = OUTPUT_FORMAT_JSON \<longrightarrow> c < 65536)"

lemma translate_char_plain:
  "fmt = OUTPUT_FORMAT_TEXT \<or> fmt = OUTPUT_FORMAT_CRUMB \<Longrightarrow> translate_char fmt c = [c]"
  by (auto simp: translate_char_def)

abbreviation markup_format :: "OutputFormat \<Rightarrow> bool" where
  "markup_format fmt \<equiv> fmt = OUTPUT_FORMAT_JSON \<or> fmt = OUTPUT_FORMAT_XML"

lemma table_cases:
  assumes "find_table translate_table fmt = Some m" "markup_format fmt" "c \<noteq> 0"
  shows "find (\<lambda>e. snd e = c) m = None \<and> translate_char fmt c = [c] \<or>
     (\<exists>x. find (\<lambda>e. snd e = c) m = Some (Some (translate_char fmt c), x))"
  using assms by (cases fmt) (auto simp: translate_table_def translate_char_def L_def)

lemma table_extra:
  assumes "find_table translate_table fmt = Some m" "markup_format fmt" "c \<noteq> 0"
  shows "map_extra m c = Inr (length (translate_char fmt c) - 1)"
  using assms by (cases fmt) (auto simp: translate_table_def translate_char_def L_def)

lemma translate_char_length: "1 \<le> length (translate_char fmt c)"
  by (simp add: translate_char_def L_def)

lemma translate_char_id: "length (translate_char fmt c) = 1 \<Longrightarrow> translate_char fmt c = [c]"
  by (simp add: translate_char_def L_def split: if_splits)

lemma translate_list_simps [simp]:
  "translate_list fmt [] = []"
  "translate_list fmt (c # w) = translate_char fmt c @ translate_list fmt w"
  "translate_list fmt (v @ w) = translate_list fmt v @ translate_list fmt w"
  by (simp_all add: translate_list_def)

lemma extra_space_ok:
  assumes "find_table translate_table fmt = Some m" "markup_format fmt" "0 \<notin> set w"
  shows "\<exists>x. extra_space m w = Inr x \<and> length (translate_list fmt w) = length w + x \<and>
    (x = 0 \<longrightarrow> translate_list fmt w = w)"
  using assms(3)
proof (induction w)
  case Nil
  then show ?case by simp
next
  case (Cons c w)
  then obtain x where x: "extra_space m w = Inr x" "length (translate_list fmt w) = length w + x"
    "x = 0 \<longrightarrow> translate_list fmt w = w" by auto
  have c: "map_extra m c = Inr (length (translate_char fmt c) - 1)"
    using table_extra [OF assms(1,2)] Cons.prems by simp
  have "translate_char fmt c = [c]" if "length (translate_char fmt c) - 1 = 0"
    using translate_char_id [of fmt c] translate_char_length [of fmt c] that by linarith
  with x c translate_char_length [of fmt c] show ?case by auto
qed

lemma ncat_zeros:
  assumes "length s < k"
  shows "ncat_at 0 (v @ replicate k (0 :: wchar)) (length v) s (length s) =
    Inr ((v @ s) @ replicate (k - length s) 0)"
proof -
  have k: "replicate k (0 :: wchar) = 0 # replicate (k - 1) 0" using assms by (cases k) auto
  moreover have "(0 :: wchar) # drop (length s) (replicate (k - 1) 0) = replicate (k - length s) 0"
    using assms by (metis Suc_diff_Suc diff_Suc_eq_diff_pred drop_replicate not_less_eq replicate_Suc zero_less_diff zero_order(3))
  ultimately show ?thesis
    using ncat_at_append [of "length s" s "replicate (k - 1) 0" 0 v] assms by simp
qed

lemma ncat_zeros_prefix:
  assumes "length s < k"
  shows "ncat_at 0 (v @ replicate k (0 :: wchar)) (length v) (s @ r) (length s) =
    Inr ((v @ s) @ replicate (k - length s) 0)"
  using ncat_zeros [OF assms, of v] by (simp add: ncat_at_def)

lemma translate_loop_ok:
  assumes "find_table translate_table fmt = Some m" "markup_format fmt"
    "0 \<notin> set (a @ mid @ rest)" "translate_list fmt mid = mid"
    "length (translate_list fmt (mid @ rest)) < k"
  shows "\<exists>a' mid' k'. a @ mid @ rest = a' @ mid' \<and> translate_list fmt mid' = mid' \<and>
    length (translate_list fmt a') + k' = length (translate_list fmt a) + k \<and>
    translate_loop m (a @ mid @ rest @ 0 # post) (length (a @ mid)) (length a)
      (translate_list fmt a @ replicate k 0) (length (translate_list fmt a)) =
    Inr (length (a @ mid @ rest), length a', translate_list fmt a' @ replicate k' 0,
      length (translate_list fmt a'))"
  using assms(3-)
proof (induction rest arbitrary: a mid k)
  case Nil
  have "rd (a @ mid @ 0 # post) (length a + length mid) = Inr 0"
    using rd_append [of "a @ mid" 0 post] by simp
  with Nil show ?case
    by (intro exI [of _ a] exI [of _ mid] exI [of _ k]) (subst translate_loop.simps, simp)
next
  case (Cons c rest)
  let ?T = "translate_list fmt" and ?S = "a @ mid @ (c # rest) @ 0 # post"
  have rd: "rd ?S (length (a @ mid)) = Inr c" using rd_append [of "a @ mid" c "rest @ 0 # post"] by simp
  have c: "c \<noteq> 0" using Cons.prems by auto
  show ?case
  proof (cases "find (\<lambda>e. snd e = c) m = None")
    case True
    then have t: "translate_char fmt c = [c]" using table_cases [OF assms(1,2) c] by auto
    have "\<exists>a' mid' k'. a @ (mid @ [c]) @ rest = a' @ mid' \<and> ?T mid' = mid' \<and>
      length (?T a') + k' = length (?T a) + k \<and>
      translate_loop m (a @ (mid @ [c]) @ rest @ 0 # post) (length (a @ mid @ [c])) (length a)
        (?T a @ replicate k 0) (length (?T a)) =
      Inr (length (a @ (mid @ [c]) @ rest), length a', ?T a' @ replicate k' 0, length (?T a'))"
      using Cons.prems t by (intro Cons.IH) auto
    with rd True c show ?thesis by (subst translate_loop.simps) auto
  next
    case False
    then obtain x where f: "find (\<lambda>e. snd e = c) m = Some (Some (translate_char fmt c), x)"
      using table_cases [OF assms(1,2) c] by auto
    let ?to = "translate_char fmt c"
    have k: "length mid < k" "length ?to < k - length mid" using Cons.prems by auto
    have s: "str_at 0 ?S (length a) = Inr (mid @ c # rest)"
      using str_at_append [of 0 "mid @ c # rest" a post] Cons.prems by simp
    have n1: "ncat_at 0 (?T a @ replicate k 0) (length (?T a)) (mid @ c # rest) (length mid) =
        Inr ((?T a @ mid) @ replicate (k - length mid) 0)"
      by (rule ncat_zeros_prefix [OF k(1)])
    have n2: "ncat_at 0 ((?T a @ mid) @ replicate (k - length mid) 0) (length (?T a @ mid)) ?to (length ?to) =
        Inr ((?T a @ mid @ ?to) @ replicate (k - length mid - length ?to) 0)"
      using ncat_zeros [OF k(2), of "?T a @ mid"] by simp
    let ?a = "a @ mid @ [c]" and ?k = "k - length mid - length ?to"
    have Ta: "?T ?a = ?T a @ mid @ ?to" using Cons.prems(2) by simp
    have "\<exists>a' mid' k'. ?a @ [] @ rest = a' @ mid' \<and> ?T mid' = mid' \<and>
      length (?T a') + k' = length (?T ?a) + ?k \<and>
      translate_loop m (?a @ [] @ rest @ 0 # post) (length (?a @ [])) (length ?a)
        (?T ?a @ replicate ?k 0) (length (?T ?a)) =
      Inr (length (?a @ [] @ rest), length a', ?T a' @ replicate k' 0, length (?T a'))"
      using Cons.prems by (intro Cons.IH) auto
    then obtain a' mid' k' where r: "?a @ [] @ rest = a' @ mid'" "?T mid' = mid'"
      "length (?T a') + k' = length (?T ?a) + ?k"
      "translate_loop m (?a @ [] @ rest @ 0 # post) (length (?a @ [])) (length ?a)
        (?T ?a @ replicate ?k 0) (length (?T ?a)) =
      Inr (length (?a @ [] @ rest), length a', ?T a' @ replicate k' 0, length (?T a'))" by blast
    have t: "translate_loop m ?S (length (a @ mid)) (length a) (?T a @ replicate k 0) (length (?T a)) =
      Inr (length (a @ mid @ c # rest), length a', ?T a' @ replicate k' 0, length (?T a'))"
      using r(4) rd f c s n1 n2 unfolding Ta by (subst translate_loop.simps) (simp add: add.assoc)
    have "length (?T ?a) + ?k = length (?T a) + k" unfolding Ta using k by simp
    with r(3) have "length (?T a') + k' = length (?T a) + k" by simp
    moreover have "a @ mid @ c # rest = a' @ mid'" using r(1) by simp
    ultimately show ?thesis using r(2) t by blast
  qed
qed

lemma translate_list_nonzero: "0 \<notin> set w \<Longrightarrow> 0 \<notin> set (translate_list fmt w)"
  by (induction w) (auto simp: translate_char_def L_def split: if_splits)

lemma translate_plain: "\<not> markup_format fmt \<Longrightarrow> translate_list fmt w = w"
  by (induction w) (auto simp: translate_char_def)

lemma pstring_create_cstr:
  assumes "0 \<notin> set w" "fits env (length w)"
  shows "\<exists>p. pstring_create env (w @ 0 # post) = Inr (Some p) \<and> cstr_is p w"
proof -
  have "alloc_ok env ((length w + 1) * sizeof_wchar)" by (rule fits_cells [OF assms(2)]) simp
  then show ?thesis using fits_new [OF assms(2)] str_at_0 [OF assms(1)] assms(1)
    by (simp add: pstring_create_def cstr_is_def)
qed

lemma output_translate_ok:
  assumes "cstr_is p w" "markup_format fmt" "fits env (length (translate_list fmt w))"
  shows "\<exists>p'. output_translate env fmt p = Inr (Some p') \<and> cstr_is p' (translate_list fmt w)"
proof -
  let ?T = "translate_list fmt"
  obtain post where b: "buf p = Some (w @ 0 # post)" "len p = length w + 1" "0 \<notin> set w"
    using assms(1) by (auto simp: cstr_is_def)
  obtain m where m: "find_table translate_table fmt = Some m"
    using assms(2) by (auto simp: translate_table_def)
  obtain x where x: "extra_space m w = Inr x" "length (?T w) = length w + x" "x = 0 \<longrightarrow> ?T w = w"
    using extra_space_ok [OF m assms(2) b(3)] by blast
  have w: "str_at 0 (w @ 0 # post) 0 = Inr w" by (rule str_at_0 [OF b(3)])
  show ?thesis
  proof (cases "x = 0")
    case True
    with pstring_create_cstr [OF b(3), of env post] assms b m x w show ?thesis
      by (auto simp: output_translate_def)
  next
    case False
    let ?n = "len p + x"
    have n: "?n = length (?T w) + 1" using b x by simp
    obtain a mid k where l: "w = a @ mid" "?T mid = mid" "length (?T a) + k = ?n"
      "translate_loop m (w @ 0 # post) 0 0 (replicate ?n 0) 0 =
        Inr (length w, length a, ?T a @ replicate k 0, length (?T a))"
      using translate_loop_ok [OF m assms(2), of "[]" "[]" w ?n post] b(3) n by auto
    have k: "length mid < k" "k - length mid = 1" using l n by auto
    have s: "str_at 0 (w @ 0 # post) (length a) = Inr mid"
      using str_at_append [of 0 mid a post] b(3) l(1) by simp
    have c: "ncat_at 0 (?T a @ replicate k 0) (length (?T a)) mid (length w - length a) = Inr (?T w @ [0])"
      using ncat_zeros [OF k(1), of "?T a"] k(2) l by simp
    have r: "rd (?T w @ [0]) (?n - 1) = Inr 0" using rd_append [of "?T w" 0 "[]"] n by simp
    have z: "rd (replicate ?n (0 :: wchar)) (?n - 1) = Inr 0"
    proof -
      have "?n - 1 < ?n" using n by simp
      then show ?thesis by (simp only: rd_def length_replicate nth_replicate if_True)
    qed
    have al: "alloc_ok env (?n * sizeof_wchar)" by (rule fits_cells [OF assms(3)]) (simp add: n)
    have g: "fmt \<noteq> OUTPUT_FORMAT_TEXT \<and> fmt \<noteq> OUTPUT_FORMAT_CRUMB" using assms(2) by auto
    have "output_translate env fmt p = Inr (Some \<lparr>buf = Some (?T w @ [0]),
        len = length (?T a) + (length w - length a) + 1, bsize = ?n * sizeof_wchar\<rparr>)"
      using g m b(1) w x(1) False fits_new [OF assms(3)] al z l(4) s c r
      by (simp only: output_translate_def guardE_simps option.case bindE_simps prod.case Let_def
          if_False if_True simp_thms pstring.update_convs)
    then show ?thesis using l b(3) translate_list_nonzero [OF b(3)] by (simp add: cstr_is_def)
  qed
qed

section \<open>The escapes\<close>

lemma nat_digits_length:
  "1 < b \<Longrightarrow> n < b ^ Suc k \<Longrightarrow> length (nat_digits b n) \<le> Suc k"
proof (induction k arbitrary: n)
  case 0
  then show ?case by (simp add: nat_digits.simps)
next
  case (Suc k)
  have "n div b < b ^ Suc k" using Suc.prems by (simp add: less_mult_imp_div_less mult.commute)
  then have "length (nat_digits b (n div b)) \<le> Suc k" using Suc by blast
  then show ?case by (subst nat_digits.simps) simp
qed

lemma nat_digits_set: "x \<in> set (nat_digits b n) \<Longrightarrow> (48 \<le> x \<and> x \<le> 57) \<or> (97 \<le> x)"
proof (induction b n rule: nat_digits.induct)
  case (1 b n)
  from "1.prems" have "x = digit_char n \<or> x = digit_char (n mod b) \<or>
      \<not> (b < 2 \<or> n < b) \<and> x \<in> set (nat_digits b (n div b))"
    by (subst (asm) nat_digits.simps) (auto split: if_splits)
  then show ?case using "1.IH" by (auto simp: digit_char_def split: if_splits)
qed

lemma zero_pad_set: "x \<in> set (zero_pad k ds) \<Longrightarrow> x = 48 \<or> x \<in> set ds"
  by (auto simp: zero_pad_def)

lemma zero_pad_length: "length ds \<le> k \<Longrightarrow> length (zero_pad k ds) = k"
  by (simp add: zero_pad_def)

lemma pad_field_zero_pad: "0 \<le> w \<Longrightarrow> pad_field w (zero_pad (nat w) ds) = zero_pad (nat w) ds"
  by (simp add: pad_field_def zero_pad_def)

lemma escape_expand:
  assumes "\<not> wprint env c" "c < 2 ^ 32" "markup_format fmt"
  shows "wformat env (escape_format fmt) [PInt (int c)] = Some (escape_char env fmt c)"
proof -
  have u: "unsigned_of 0 (int c) = c" using assms(2) by (simp add: unsigned_of_def nat_mod_distrib)
  show ?thesis using assms(1,3)
    by (cases fmt) (simp_all add: wformat_def escape_format_def escape_char_def vformat_def fspec0_def
        warg_digit_def warg_value_def conv_field_def int_field_def L_def u
        pad_field_zero_pad [of 2, simplified] pad_field_zero_pad [of 4, simplified])
qed

lemma escape_char_length:
  assumes "\<not> wprint env c" "escapable env fmt c" "markup_format fmt"
  shows "length (escape_char env fmt c) = 6" "c < 2 ^ 32"
proof -
  have x: "length (nat_digits 16 c) \<le> 2" if "c < 256"
    using nat_digits_length [of 16 c 1] that by (simp add: numeral_2_eq_2)
  have j: "length (nat_digits 16 c) \<le> 4" if "c < 65536"
    using nat_digits_length [of 16 c 3] that by simp
  show "length (escape_char env fmt c) = 6" using assms
    by (cases fmt) (auto simp: escape_char_def escapable_def L_def zero_pad_length x j)
  show "c < 2 ^ 32" using assms by (auto simp: escapable_def)
qed

lemma escape_char_nonzero: "c \<noteq> 0 \<Longrightarrow> 0 \<notin> set (escape_char env fmt c)"
  by (auto simp: escape_char_def L_def dest!: zero_pad_set nat_digits_set)

lemma wr_list_zeros:
  assumes "length t < k"
  shows "wr_list (v @ replicate k (0 :: wchar)) (length v) (t @ [0]) = Inr ((v @ t) @ replicate (k - length t) 0)"
proof -
  have "(0 :: wchar) # replicate (k - Suc (length t)) 0 = replicate (k - length t) 0"
    using assms by (metis Suc_diff_Suc replicate_Suc)
  then show ?thesis using wr_list_append [of "t @ [0]" "replicate k 0" v] assms by simp
qed

text \<open>What the loop returns: the result of the last \<^verbatim>\<open>swprintf\<close>, the six characters of an escape.\<close>

definition escape_ret :: "cenv \<Rightarrow> wchar list \<Rightarrow> int \<Rightarrow> int" where
  "escape_ret env w ret = (if \<exists>c \<in> set w. \<not> wprint env c then 6 else ret)"

lemma escape_loop_ok:
  assumes "markup_format fmt" "7 \<le> new_size" "\<forall>c \<in> set w. escapable env fmt c"
    "length (concat (map (escape_char env fmt) w)) < k"
  shows "escape_loop env fmt new_size w (v @ replicate k 0) (int (length v)) ret =
    Inr ((v @ concat (map (escape_char env fmt) w)) @
         replicate (k - length (concat (map (escape_char env fmt) w))) 0, escape_ret env w ret)"
  using assms(3-)
proof (induction w arbitrary: v k ret)
  case Nil
  then show ?case by (simp add: escape_ret_def)
next
  case (Cons c w)
  let ?E = "concat (map (escape_char env fmt) w)" and ?e = "escape_char env fmt c"
  let ?r = "if wprint env c then ret else 6"
  have k: "length ?e < k" "length ?E < k - length ?e" using Cons.prems by auto
  have step: "escape_loop env fmt new_size (c # w) (v @ replicate k 0) (int (length v)) ret =
      escape_loop env fmt new_size w ((v @ ?e) @ replicate (k - length ?e) 0) (int (length (v @ ?e))) ?r"
  proof (cases "wprint env c")
    case True
    have "wr (v @ replicate k 0) (length v) c = Inr (v @ c # replicate (k - 1) 0)"
      using wr_append [of v 0 "replicate (k - 1) 0" c] k by (cases k) auto
    with True Cons.prems show ?thesis by (auto simp: escape_char_def algebra_simps)
  next
    case False
    note l = escape_char_length [OF False _ assms(1)]
    have esc: "escapable env fmt c" using Cons.prems by simp
    have "vswprintf_ret (Some ?e) new_size = 6" "take (new_size - 1) ?e = ?e"
      using l [OF esc] assms(2) by (simp_all add: vswprintf_ret_def)
    with False escape_expand [OF False l(2) assms(1)] wr_list_zeros [OF k(1), of v] esc l(1)
    show ?thesis by (auto simp: Let_def)
  qed
  have "escape_loop env fmt new_size w ((v @ ?e) @ replicate (k - length ?e) 0) (int (length (v @ ?e))) ?r =
    Inr (((v @ ?e) @ ?E) @ replicate (k - length ?e - length ?E) 0, escape_ret env w ?r)"
    using Cons.prems k by (intro Cons.IH) auto
  moreover have "escape_ret env w ?r = escape_ret env (c # w) ret" by (auto simp: escape_ret_def)
  ultimately show ?case using step by (simp add: diff_diff_add)
qed

lemma encode_list_simps [simp]:
  "encode_list env fmt [] = []"
  "encode_list env fmt (c # w) =
     concat (map (escape_char env fmt) (translate_char fmt c)) @ encode_list env fmt w"
  by (simp_all add: encode_list_def)

lemma escape_char_plain: "\<not> markup_format fmt \<Longrightarrow> escape_char env fmt c = [c]"
  by (auto simp: escape_char_def)

lemma encode_plain: "\<not> markup_format fmt \<Longrightarrow> encode_list env fmt w = w"
  by (induction w) (auto simp: translate_char_def escape_char_plain)

lemma escape_all_printable:
  "\<forall>c \<in> set w. wprint env c \<Longrightarrow> concat (map (escape_char env fmt) w) = w"
  by (induction w) (auto simp: escape_char_def)

lemma translate_escapable:
  "escapable env fmt c \<Longrightarrow> d \<in> set (translate_char fmt c) \<Longrightarrow> escapable env fmt d"
  by (auto simp: translate_char_def escapable_def L_def split: if_splits)

lemma escape_length_ge: "length w \<le> length (concat (map (escape_char env fmt) w))"
proof (induction w)
  case (Cons c w)
  have "1 \<le> length (escape_char env fmt c)" by (simp add: escape_char_def L_def)
  with Cons show ?case by simp
qed simp

lemma escape_length:
  assumes "markup_format fmt" "\<forall>c \<in> set w. escapable env fmt c"
  shows "length (concat (map (escape_char env fmt) w)) + length (filter (\<lambda>c. \<not> wprint env c) w) =
    length w + length (filter (\<lambda>c. \<not> wprint env c) w) * 6"
  using assms(2)
proof (induction w)
  case (Cons c w)
  then show ?case
    using escape_char_length(1) [of env c fmt] assms(1) by (cases "wprint env c") (auto simp: escape_char_def)
qed simp

lemma encode_list_nonzero: "0 \<notin> set w \<Longrightarrow> 0 \<notin> set (concat (map (escape_char env fmt) w))"
  using escape_char_nonzero by (induction w) auto

lemma escape_pass:
  assumes "markup_format fmt" "0 \<notin> set w" "\<forall>c \<in> set w. escapable env fmt c"
    "np = length (filter (\<lambda>c. \<not> wprint env c) w)" "0 < np" "n = length w + 1"
    "new_size = size_sub n np + np * 6"
  shows "\<exists>nb. escape_loop env fmt new_size w (replicate (1 + new_size) 0) 0 0 = Inr (nb, escape_ret env w 0) \<and>
    str_end 0 nb 0 = Inr (length (concat (map (escape_char env fmt) w))) \<and>
    (\<exists>post. nb = concat (map (escape_char env fmt) w) @ 0 # post) \<and>
    1 + new_size = length (concat (map (escape_char env fmt) w)) + 2"
proof -
  let ?E = "concat (map (escape_char env fmt) w)"
  have le: "np \<le> length w" using assms(4) by simp
  then have "size_sub n np + np = length w + 1" using assms(6) by simp
  then have ns: "new_size = length ?E + 1"
    using escape_length [OF assms(1,3)] unfolding assms(4) [symmetric] assms(7) by linarith
  have "7 \<le> new_size" using assms(5-7) le by simp
  then have "escape_loop env fmt new_size w (replicate (1 + new_size) 0) 0 0 =
      Inr (?E @ replicate (1 + new_size - length ?E) 0, escape_ret env w 0)"
    using escape_loop_ok [OF assms(1) _ assms(3), of new_size "1 + new_size" "[]" 0] ns by auto
  moreover have "replicate (1 + new_size - length ?E) (0 :: wchar) = 0 # [0]" using ns by (simp add: numeral_2_eq_2)
  ultimately show ?thesis using str_end_0 [OF encode_list_nonzero [OF assms(2)]] ns by auto
qed

text \<open>The return value of \<open>encode_string\<close> on success.\<close>

definition encode_ret :: "cenv \<Rightarrow> OutputFormat \<Rightarrow> wchar list \<Rightarrow> int" where
  "encode_ret env fmt w = (if markup_format fmt then escape_ret env (translate_list fmt w) 0 else 0)"

lemma encode_ret_nonneg: "0 \<le> encode_ret env fmt w"
  by (simp add: encode_ret_def escape_ret_def)

lemma encode_string_ok:
  assumes "cstr_is p w" "\<forall>c \<in> set w. escapable env fmt c" "fits env (length (encode_list env fmt w))"
  shows "\<exists>p'. encode_string env fmt p = Inr (encode_ret env fmt w, p') \<and> cstr_is p' (encode_list env fmt w)"
proof (cases "w = [] \<or> \<not> markup_format fmt")
  case True
  have e: "encode_list env fmt w = w" "encode_ret env fmt w = 0"
    using True encode_plain by (auto simp: encode_ret_def escape_ret_def)
  have "encode_string env fmt p = Inr (0, p)"
  proof (cases "w = []")
    case True
    with assms(1) show ?thesis by (simp add: encode_string_def cstr_is_def)
  next
    case False
    with True assms(1) str_at_0 [of 0 w] show ?thesis
      by (auto simp: encode_string_def cstr_is_def Let_def)
  qed
  with e assms(1) show ?thesis by auto
next
  case False
  then have mk: "markup_format fmt" and mk': "fmt = OUTPUT_FORMAT_XML \<or> fmt = OUTPUT_FORMAT_JSON"
    and ne: "w \<noteq> []" by auto
  let ?t = "translate_list fmt w"
  have E: "encode_list env fmt w = concat (map (escape_char env fmt) ?t)" by (simp add: encode_list_def)
  have "length ?t \<le> length (encode_list env fmt w)" unfolding E by (rule escape_length_ge)
  from fits_mono [OF assms(3) this]
  obtain p1 where p1: "output_translate env fmt p = Inr (Some p1)" "cstr_is p1 ?t"
    using output_translate_ok [OF assms(1) mk] by blast
  from p1(2) obtain post where b: "buf p1 = Some (?t @ 0 # post)" "len p1 = length ?t + 1" "0 \<notin> set ?t"
    by (auto simp: cstr_is_def)
  have esc: "\<forall>c \<in> set ?t. escapable env fmt c"
    using assms(2) translate_escapable by (fastforce simp: translate_list_def)
  have l: "\<not> len p \<le> 1" using assms(1) ne by (simp add: cstr_is_def)
  define np where "np = length (filter (\<lambda>c. \<not> wprint env c) ?t)"
  have s: "str_at 0 (?t @ 0 # post) 0 = Inr ?t" by (rule str_at_0 [OF b(3)])
  show ?thesis
  proof (cases "np = 0")
    case True
    then have "\<forall>c \<in> set ?t. wprint env c" unfolding np_def by (simp add: filter_empty_conv)
    then have "encode_list env fmt w = ?t" "encode_ret env fmt w = 0"
      unfolding E by (auto simp: escape_all_printable encode_ret_def escape_ret_def)
    moreover have "encode_string env fmt p = Inr (0, p1)"
      using l mk p1(1) b(1) s True np_def by (simp add: encode_string_def Let_def)
    ultimately show ?thesis using p1(2) by auto
  next
    case np: False
    define new_size where "new_size = size_sub (len p1) np + np * 6"
    have rt: "escape_ret env ?t 0 = encode_ret env fmt w" using mk by (simp add: encode_ret_def)
    obtain nb post' where r:
      "escape_loop env fmt new_size ?t (replicate (1 + new_size) 0) 0 0 = Inr (nb, encode_ret env fmt w)"
      "str_end 0 nb 0 = Inr (length (encode_list env fmt w))"
      "nb = encode_list env fmt w @ 0 # post'" "1 + new_size = length (encode_list env fmt w) + 2"
      using escape_pass [OF mk b(3) esc np_def _ b(2) new_size_def] np unfolding E rt by auto
    have al: "alloc_ok env ((1 + new_size) * sizeof_wchar)" by (rule fits_cells [OF assms(3)]) (use r(4) in simp)
    have "encode_string env fmt p = Inr (encode_ret env fmt w, \<lparr>buf = Some nb, len = length (encode_list env fmt w) + 1,
        bsize = (1 + new_size) * sizeof_wchar\<rparr>)"
      using p1(1) b(1) s al r(1,2) fits_new [OF assms(3)] l mk mk' np
      by (simp only: encode_string_def Let_def np_def [symmetric] new_size_def [symmetric] bindE_simps
          option.case prod.case if_True if_False neq0_conv simp_thms less_irrefl pstring.update_convs)
    moreover have "0 \<notin> set (encode_list env fmt w)" unfolding E by (rule encode_list_nonzero [OF b(3)])
    ultimately show ?thesis using r(3) by (auto simp: cstr_is_def)
  qed
qed

section \<open>Reading the encoded text back\<close>

text \<open>
  What a reader of the formats makes of the encoded text: \<open>xml_decode\<close> resolves the five
  predefined entities and hexadecimal character references, \<open>json_decode\<close> the escapes inside
  a JSON string.
\<close>

definition hex_value :: "wchar \<Rightarrow> nat" where
  "hex_value d = (if d \<le> 57 then d - 48 else d - 87)"

definition hex_number :: "wchar list \<Rightarrow> nat" where
  "hex_number ds = foldl (\<lambda>a d. 16 * a + hex_value d) 0 ds"

definition xml_entity :: "wchar list \<Rightarrow> wchar" where
  "xml_entity e =
     (if e = L ''apos'' then 39 else if e = L ''quot'' then 34 else if e = L ''amp'' then 38
      else if e = L ''lt'' then 60 else if e = L ''gt'' then 62 else hex_number (drop 2 e))"

function xml_decode :: "wchar list \<Rightarrow> wchar list" where
  "xml_decode [] = []"
| "xml_decode (c # w) =
     (if c = 38 then xml_entity (takeWhile (\<lambda>x. x \<noteq> 59) w) # xml_decode (tl (dropWhile (\<lambda>x. x \<noteq> 59) w))
      else c # xml_decode w)"
  by pat_completeness auto
termination
  by (relation "measure length") (auto simp: less_Suc_eq_le intro: le_trans [OF diff_le_self length_dropWhile_le])

fun json_decode :: "wchar list \<Rightarrow> wchar list" where
  "json_decode [] = []"
| "json_decode (c # w) =
     (if c = 92 then
        (case w of
           [] \<Rightarrow> []
         | d # r \<Rightarrow> if d = 117 then hex_number (take 4 r) # json_decode (drop 4 r) else d # json_decode r)
      else c # json_decode w)"

text \<open>The text stays inside a JSON string: no bare quote, and no backslash at its end.\<close>

fun json_inside :: "wchar list \<Rightarrow> bool" where
  "json_inside [] \<longleftrightarrow> True"
| "json_inside (c # w) \<longleftrightarrow>
     (if c = 92 then (case w of [] \<Rightarrow> False | d # r \<Rightarrow> json_inside r) else c \<noteq> 34 \<and> json_inside w)"

text \<open>\<^verbatim>\<open>iswprint\<close> holds of the printable ASCII characters in every locale.\<close>

definition ascii_printable :: "cenv \<Rightarrow> bool" where
  "ascii_printable env \<longleftrightarrow> (\<forall>c. 32 \<le> c \<and> c < 127 \<longrightarrow> wprint env c)"

lemma hex_number_snoc: "hex_number (ds @ [d]) = 16 * hex_number ds + hex_value d"
  by (simp add: hex_number_def)

lemma hex_digit: "d < 16 \<Longrightarrow> hex_value (digit_char d) = d"
  by (simp add: hex_value_def digit_char_def)

lemma hex_number_digits: "hex_number (nat_digits 16 n) = n"
proof (induction n rule: less_induct)
  case (less n)
  show ?case
  proof (cases "n < 16")
    case True
    then show ?thesis by (subst nat_digits.simps) (simp add: hex_number_def hex_digit)
  next
    case False
    then have "hex_number (nat_digits 16 (n div 16)) = n div 16" by (intro less) simp
    with False show ?thesis by (subst nat_digits.simps) (simp add: hex_number_snoc hex_digit)
  qed
qed

lemma hex_number_zero_pad: "hex_number (zero_pad k ds) = hex_number ds"
proof -
  have "foldl (\<lambda>a d. 16 * a + hex_value d) 0 (replicate n 48) = 0" for n
    by (induction n) (auto simp: hex_value_def)
  then show ?thesis by (simp add: hex_number_def zero_pad_def)
qed

lemma takeWhile_upto: "\<forall>x \<in> set e. x \<noteq> z \<Longrightarrow> takeWhile (\<lambda>x. x \<noteq> z) (e @ z # r) = e"
  by (induction e) auto

lemma dropWhile_upto: "\<forall>x \<in> set e. x \<noteq> z \<Longrightarrow> dropWhile (\<lambda>x. x \<noteq> z) (e @ z # r) = z # r"
  by (induction e) auto

lemma xml_decode_entity:
  assumes "\<forall>x \<in> set e. x \<noteq> 59"
  shows "xml_decode (38 # e @ 59 # r) = xml_entity e # xml_decode r"
  using takeWhile_upto [OF assms, of r] dropWhile_upto [OF assms, of r] by simp

lemma digits_not_semicolon: "x \<in> set (zero_pad k (nat_digits 16 c)) \<Longrightarrow> x \<noteq> 59"
  by (auto dest!: zero_pad_set nat_digits_set)

lemma xml_decode_char:
  assumes "ascii_printable env"
  shows "xml_decode (concat (map (escape_char env OUTPUT_FORMAT_XML) (translate_char OUTPUT_FORMAT_XML c)) @ r)
    = c # xml_decode r"
proof (cases "c \<in> {39, 34, 38, 60, 62}")
  case True
  then have "\<forall>x \<in> set (translate_char OUTPUT_FORMAT_XML c). wprint env x"
    using assms by (auto simp: translate_char_def L_def ascii_printable_def)
  then have "concat (map (escape_char env OUTPUT_FORMAT_XML) (translate_char OUTPUT_FORMAT_XML c)) =
      translate_char OUTPUT_FORMAT_XML c" by (rule escape_all_printable)
  with True show ?thesis by (auto simp: translate_char_def L_def xml_entity_def)
next
  case False
  then have t: "translate_char OUTPUT_FORMAT_XML c = [c]" by (simp add: translate_char_def)
  show ?thesis
  proof (cases "wprint env c")
    case True
    with t False show ?thesis by (simp add: escape_char_def)
  next
    case np: False
    let ?ds = "zero_pad 2 (nat_digits 16 c)"
    have "escape_char env OUTPUT_FORMAT_XML c @ r = 38 # ([35, 120] @ ?ds) @ 59 # r"
      using np by (simp add: escape_char_def L_def)
    moreover have "\<forall>x \<in> set ([35, 120] @ ?ds). x \<noteq> 59" using digits_not_semicolon by auto
    moreover have "xml_entity ([35, 120] @ ?ds) = c"
      by (simp add: xml_entity_def L_def hex_number_zero_pad hex_number_digits)
    ultimately show ?thesis using t xml_decode_entity [of "[35, 120] @ ?ds" r] by simp
  qed
qed

lemma json_escape_shape:
  assumes "\<not> wprint env c" "escapable env OUTPUT_FORMAT_JSON c"
  obtains a b d e where "escape_char env OUTPUT_FORMAT_JSON c = [92, 117, a, b, d, e]"
    "hex_number [a, b, d, e] = c" "{a, b, d, e} \<inter> {34, 92} = {}"
proof -
  let ?ds = "zero_pad 4 (nat_digits 16 c)"
  have "length (escape_char env OUTPUT_FORMAT_JSON c) = 6"
    using escape_char_length(1) [OF assms] by simp
  then have "length ?ds = 4" using assms(1) by (simp add: escape_char_def L_def)
  then obtain a b d e where ds: "?ds = [a, b, d, e]" by (auto simp: length_Suc_conv numeral_eq_Suc)
  have "escape_char env OUTPUT_FORMAT_JSON c = [92, 117, a, b, d, e]"
    using assms(1) ds by (simp add: escape_char_def L_def)
  moreover have "hex_number [a, b, d, e] = c"
    using hex_number_zero_pad [of 4 "nat_digits 16 c"] ds hex_number_digits by simp
  moreover have "\<forall>x \<in> set ?ds. x \<notin> {34, 92}" by (auto dest!: zero_pad_set nat_digits_set)
  ultimately show thesis using that [of a b d e] ds by simp
qed

lemma json_char:
  assumes "ascii_printable env" "escapable env OUTPUT_FORMAT_JSON c"
  shows "json_decode (concat (map (escape_char env OUTPUT_FORMAT_JSON) (translate_char OUTPUT_FORMAT_JSON c)) @ r)
      = (if c = 92 then [92, 92] else [c]) @ json_decode r"
    "json_inside (concat (map (escape_char env OUTPUT_FORMAT_JSON) (translate_char OUTPUT_FORMAT_JSON c)) @ r)
      = json_inside r"
proof -
  have p: "wprint env 34" "wprint env 92" using assms(1) by (simp_all add: ascii_printable_def)
  have u: "json_decode ([92, 117, a, b, d, e] @ r) = hex_number [a, b, d, e] # json_decode r"
    "{a, b, d, e} \<inter> {34, 92} = {} \<Longrightarrow> json_inside ([92, 117, a, b, d, e] @ r) = json_inside r"
    for a b d e by simp_all
  consider "c = 34 \<or> c = 92" | "c \<noteq> 34" "c \<noteq> 92" "wprint env c" | "c \<noteq> 34" "c \<noteq> 92" "\<not> wprint env c" by auto
  then have "json_decode (concat (map (escape_char env OUTPUT_FORMAT_JSON) (translate_char OUTPUT_FORMAT_JSON c)) @ r)
      = (if c = 92 then [92, 92] else [c]) @ json_decode r \<and>
    json_inside (concat (map (escape_char env OUTPUT_FORMAT_JSON) (translate_char OUTPUT_FORMAT_JSON c)) @ r)
      = json_inside r"
  proof cases
    case 3
    from json_escape_shape [OF 3(3) assms(2)] obtain a b d e where
      "escape_char env OUTPUT_FORMAT_JSON c = [92, 117, a, b, d, e]" "hex_number [a, b, d, e] = c"
      "{a, b, d, e} \<inter> {34, 92} = {}" by metis
    with u 3 show ?thesis by (simp add: translate_char_def)
  qed (use p in \<open>auto simp: translate_char_def escape_char_def\<close>)
  then show "json_decode (concat (map (escape_char env OUTPUT_FORMAT_JSON) (translate_char OUTPUT_FORMAT_JSON c)) @ r)
      = (if c = 92 then [92, 92] else [c]) @ json_decode r"
    "json_inside (concat (map (escape_char env OUTPUT_FORMAT_JSON) (translate_char OUTPUT_FORMAT_JSON c)) @ r)
      = json_inside r" by auto
qed

lemma xml_list_roundtrip: "ascii_printable env \<Longrightarrow> xml_decode (encode_list env OUTPUT_FORMAT_XML w) = w"
  by (induction w) (simp_all add: xml_decode_char)

lemma xml_list_markup:
  assumes "ascii_printable env"
  shows "set (encode_list env OUTPUT_FORMAT_XML w) \<inter> {60, 62, 34, 39} = {}"
proof (induction w)
  case (Cons c w)
  have "wprint env d" if "32 \<le> d" "d < 127" for d using assms that by (simp add: ascii_printable_def)
  then have "set (concat (map (escape_char env OUTPUT_FORMAT_XML) (translate_char OUTPUT_FORMAT_XML c))) \<inter> {60, 62, 34, 39} = {}"
    by (auto simp: translate_char_def escape_char_def L_def dest!: zero_pad_set nat_digits_set split: if_splits)
  with Cons show ?case by auto
qed simp

lemma json_list_decode:
  assumes "ascii_printable env" "\<forall>c \<in> set w. escapable env OUTPUT_FORMAT_JSON c"
  shows "json_inside (encode_list env OUTPUT_FORMAT_JSON w) \<and>
    json_decode (encode_list env OUTPUT_FORMAT_JSON w) = concat (map (\<lambda>c. if c = 92 then [92, 92] else [c]) w)"
  using assms(2) by (induction w) (auto simp: json_char [OF assms(1)] simp del: json_decode.simps(2) json_inside.simps(2))

text \<open>No character takes more than six.\<close>

lemma encode_list_bound:
  assumes "ascii_printable env" "\<forall>c \<in> set w. escapable env fmt c"
  shows "length (encode_list env fmt w) \<le> 6 * length w"
  using assms(2)
proof (induction w)
  case (Cons c w)
  have "length (concat (map (escape_char env fmt) (translate_char fmt c))) \<le> 6"
  proof (cases "markup_format fmt \<and> translate_char fmt c = [c]")
    case True
    then show ?thesis using escape_char_length(1) [of env c fmt] Cons.prems
      by (cases "wprint env c") (auto simp: escape_char_def)
  next
    case False
    have "wprint env d" if "32 \<le> d" "d < 127" for d using assms(1) that by (simp add: ascii_printable_def)
    with False show ?thesis
      by (cases "markup_format fmt") (auto simp: translate_char_def escape_char_def L_def split: if_splits)
  qed
  with Cons show ?case by simp
qed simp

lemma encode_string_list:
  assumes "ascii_printable env" "cstr_is p w" "\<forall>c \<in> set w. escapable env fmt c" "fits env (6 * length w)"
  shows "\<exists>p'. encode_string env fmt p = Inr (encode_ret env fmt w, p') \<and> cstr_is p' (encode_list env fmt w)"
  using encode_string_ok [OF assms(2,3)] fits_mono [OF assms(4) encode_list_bound [OF assms(1,3)]] by blast

section \<open>Properties\<close>

lemmas encode_example = cstr_is_def escapable_def ascii_env_def fits_def alloc_ok_def sizeof_wchar_def
  ascii_printable_def





text \<open>
  C11: what \<open>encode_string\<close> leaves for XML holds no angle bracket and no quote, so no name or value can
  close the attribute or the element it stands in; for every string whose non-printable characters are below 256.
\<close>

theorem xml_encode_no_markup:
  assumes "ascii_printable env" "cstr_is p w" "\<forall>c \<in> set w. escapable env OUTPUT_FORMAT_XML c" "fits env (6 * length w)"
  shows "\<exists>ret p' e. encode_string env OUTPUT_FORMAT_XML p = Inr (ret, p') \<and> cstr_is p' e \<and> set e \<inter> {60, 62, 34, 39} = {}"
  using encode_string_list [OF assms] xml_list_markup [OF assms(1)] by blast

theorem xml_encode_no_markup_witness:
  "\<exists>ret p' e. encode_string ascii_env OUTPUT_FORMAT_XML \<lparr>buf = Some [60, 34, 62, 0], len = 4, bsize = 16\<rparr> = Inr (ret, p') \<and>
     cstr_is p' e \<and> set e \<inter> {60, 62, 34, 39} = {}"
  by (rule xml_encode_no_markup [where w = "[60, 34, 62]"]) (simp_all add: encode_example)

text \<open>
  C12: what \<open>encode_string\<close> leaves for JSON stays inside its string, and a JSON reader gets the original
  string with every backslash doubled: the table replaces a backslash by four. For every string whose
  non-printable characters are below 65536.
\<close>

theorem json_encode_decode:
  assumes "ascii_printable env" "cstr_is p w" "\<forall>c \<in> set w. escapable env OUTPUT_FORMAT_JSON c" "fits env (6 * length w)"
  shows "\<exists>ret p' e. encode_string env OUTPUT_FORMAT_JSON p = Inr (ret, p') \<and> cstr_is p' e \<and> json_inside e \<and>
    json_decode e = concat (map (\<lambda>c. if c = 92 then [92, 92] else [c]) w)"
  using encode_string_list [OF assms] json_list_decode [OF assms(1,3)] by blast

theorem json_encode_decode_witness:
  "\<exists>ret p' e. encode_string ascii_env OUTPUT_FORMAT_JSON \<lparr>buf = Some [92, 34, 7, 0], len = 4, bsize = 16\<rparr> = Inr (ret, p') \<and>
     cstr_is p' e \<and> json_inside e \<and> json_decode e = [92, 92, 34, 7]"
  using json_encode_decode [of ascii_env "\<lparr>buf = Some [92, 34, 7, 0], len = 4, bsize = 16\<rparr>" "[92, 34, 7]"]
  by (simp add: encode_example)

text \<open>
  Characters beyond the width make the escape longer than the space reserved for it: two
  JSON escapes of five digits write past the buffer.
\<close>

lemma encode_overflows:
  "encode_string ascii_env OUTPUT_FORMAT_JSON
     \<lparr>buf = Some [70000, 70000, 0], len = 3, bsize = 12\<rparr> = Inl OutOfBounds"
proof -
  have d: "nat_digits 16 70000 = [49, 49, 49, 55, 48]" by (simp add: nat_digits.simps digit_char_def)
  have w: "wformat ascii_env (escape_format OUTPUT_FORMAT_JSON) [PInt 70000] =
      Some [92, 117, 49, 49, 49, 55, 48]"
    using escape_expand [of ascii_env 70000 OUTPUT_FORMAT_JSON] d
    by (simp add: ascii_env_def escape_char_def zero_pad_def L_def)
  have r: "replicate 14 (0 :: nat) = [0, 0, 0, 0, 0, 0, 0, 0, 0, 0, 0, 0, 0, 0]" by (simp add: numeral_eq_Suc)
  have l: "escape_loop ascii_env OUTPUT_FORMAT_JSON 13 [70000, 70000] (replicate 14 0) 0 0 = Inl OutOfBounds"
    unfolding r by (simp add: w vswprintf_ret_def wr_def Let_def) (simp add: ascii_env_def)
  have t: "output_translate ascii_env OUTPUT_FORMAT_JSON \<lparr>buf = Some [70000, 70000, 0], len = 3, bsize = 12\<rparr>
      = Inr (Some \<lparr>buf = Some [70000, 70000, 0], len = 3, bsize = 12\<rparr>)"
    by (simp add: output_translate_def translate_table_def pstring_create_def pstring_new_def
        str_at_def str_end.simps alloc_ok_def sizeof_wchar_def sizeof_pstring_def ascii_env_def)
  have "\<not> wprint ascii_env 70000" by (simp add: ascii_env_def)
  then show ?thesis using t l
    by (simp add: encode_string_def pstring_new_def str_at_def str_end.simps alloc_ok_def sizeof_wchar_def
        sizeof_pstring_def) (simp add: ascii_env_def)
qed

end
