(* ===== verification/Output.thy ===== *)
theory Output
  imports Encode
begin

text \<open>
  \<^verbatim>\<open>output.c\<close>: the document under construction, the element state machine that puts
  separators, line ends and indentation between elements, the operations that emit sections,
  containers, objects and entries in the four formats, the breadcrumbs, and the routines that
  send text to its destination.

  The globals of the file (with \<^verbatim>\<open>doc\<close> and the fields of \<^verbatim>\<open>user\<close> it reads) are the record
  \<open>ostate\<close> (the global \<^verbatim>\<open>output\<close> is the field \<open>output_dest\<close>); every routine that can stop returns \<open>ostate res\<close>. The results of the system
  calls that write are parameters (\<open>oio\<close>). What reached each destination is kept in \<open>sink\<close>.
\<close>

section \<open>State\<close>

datatype Output = OUTPUT_FILE | OUTPUT_STDERR | OUTPUT_STDOUT | OUTPUT_SYSLOG | OUTPUT_TERM

datatype ElementType =
    ELEMENT_TYPE_ENTRY
  | ELEMENT_TYPE_SECTION_OPEN
  | ELEMENT_TYPE_SECTION_CLOSE
  | ELEMENT_TYPE_CONTAINER_OPEN
  | ELEMENT_TYPE_CONTAINER_CLOSE
  | ELEMENT_TYPE_OBJECT_OPEN
  | ELEMENT_TYPE_OBJECT_CLOSE
  | ELEMENT_TYPE_NONE

datatype oflag = O_WRONLY | O_CREAT | O_APPEND

record ostate =
  output_dest :: Output
  output_format :: OutputFormat
  output_file :: "string option"
  output_file_append :: bool
  text_separator :: string
  output_fd :: int
  last_element :: ElementType
  current_element :: ElementType
  crumb_list :: addr
  crumbs :: sheap
  indent :: int
  indent_amount :: int
  indent_char :: string
  wide_indent_char :: wchar
  crumb_separator :: string
  doc :: "pstring option"
  euid :: nat
  tty_fd :: int
  sink :: "(Output \<times> string) list"
  log_open :: bool

text \<open>
  Results of the calls that write: \<^verbatim>\<open>fputs\<close> (negative on error), \<^verbatim>\<open>write\<close> (the number of
  bytes written, or negative) and \<^verbatim>\<open>open\<close> (a descriptor, or negative).
\<close>

record oio =
  fputs_ret :: "Output \<Rightarrow> string \<Rightarrow> int"
  write_ret :: "int \<Rightarrow> string \<Rightarrow> int"
  open_ret :: "string \<Rightarrow> oflag list \<Rightarrow> int"

text \<open>The package constants of the generated \<^verbatim>\<open>config.h\<close>.\<close>

record pkg =
  PACKAGE_NAME :: string
  PACKAGE_VERSION :: string
  PACKAGE_STRING :: string

definition DEFAULT_INDENT_CHAR :: string where
  "DEFAULT_INDENT_CHAR = '' ''"

definition output_map :: "(string \<times> Output) list" where
  "output_map = [(''file'', OUTPUT_FILE), (''stderr'', OUTPUT_STDERR), (''stdout'', OUTPUT_STDOUT),
     (''syslog'', OUTPUT_SYSLOG), (''terminal'', OUTPUT_TERM)]"

definition output_format_map :: "(string \<times> OutputFormat) list" where
  "output_format_map = [(''text'', OUTPUT_FORMAT_TEXT), (''crumb'', OUTPUT_FORMAT_CRUMB),
     (''json'', OUTPUT_FORMAT_JSON), (''xml'', OUTPUT_FORMAT_XML)]"

definition common_assert :: "ostate stmt" where
  "common_assert st = guardE (doc st \<noteq> None \<and> 0 \<le> indent_amount st) AssertFail (Inr st)"

text \<open>\<^verbatim>\<open>wappend (&doc, ...)\<close> and \<^verbatim>\<open>wappendf (&doc, ...)\<close>.\<close>

definition doc_wappend :: "cenv \<Rightarrow> wchar list \<Rightarrow> ostate stmt" where
  "doc_wappend env s st = bindE (wappend env (doc st) s) (\<lambda>d. Inr (st\<lparr>doc := d\<rparr>))"

definition doc_wappendf :: "cenv \<Rightarrow> wchar list \<Rightarrow> parg list \<Rightarrow> ostate stmt" where
  "doc_wappendf env fmt args st = bindE (wappendf env (doc st) fmt args) (\<lambda>d. Inr (st\<lparr>doc := d\<rparr>))"

section \<open>Indentation\<close>

definition reset_indent :: "ostate \<Rightarrow> ostate" where
  "reset_indent st = st\<lparr>indent := 0\<rparr>"

definition inc_indent :: "ostate stmt" where
  "inc_indent st =
     guardE (0 \<le> indent st) AssertFail
       (bindE (add_int (indent st) (indent_amount st)) (\<lambda>i. Inr (st\<lparr>indent := i\<rparr>)))"

definition dec_indent :: "ostate stmt" where
  "dec_indent st =
     guardE (0 \<le> indent st) AssertFail
       (bindE (add_int (indent st) (- indent_amount st)) (\<lambda>i.
          guardE (0 \<le> i) AssertFail (Inr (st\<lparr>indent := i\<rparr>))))"

definition add_indent :: "cenv \<Rightarrow> ostate stmt" where
  "add_indent env st0 =
     bindE (common_assert st0) (\<lambda>st.
       if indent st = 0 then Inr st
       else if indent_char st = DEFAULT_INDENT_CHAR then
         doc_wappendf env (L ''%*s'') [PInt (indent st), PStr (indent_char st)] st
       else
         bindE (wappendf env None (L ''%*lc'') [PInt (indent st), PWChr (wide_indent_char st)]) (\<lambda>buffer.
           case buffer of
             None \<Rightarrow> Inl NullDeref
           | Some p \<Rightarrow>
               (case buf p of
                  None \<Rightarrow> Inl NullDeref
                | Some b \<Rightarrow>
                    bindE (str_end 0 b 0) (\<lambda>n.
                    bindE (wr_list b 0 (replicate n (wide_indent_char st))) (\<lambda>b'.
                    bindE (pappend env (doc st) (p\<lparr>buf := Some b'\<rparr>)) (\<lambda>d.
                      Inr (st\<lparr>doc := d\<rparr>)))))))"

section \<open>The element state machine\<close>

text \<open>The statement groups the tables use.\<close>

abbreviation same_level :: "cenv \<Rightarrow> wchar list \<Rightarrow> ostate stmt" where
  "same_level env s \<equiv> do_all [doc_wappend env s, add_indent env]"

abbreviation one_deeper :: "cenv \<Rightarrow> ostate stmt" where
  "one_deeper env \<equiv> do_all [doc_wappend env [NL], inc_indent, add_indent env]"

abbreviation one_back :: "cenv \<Rightarrow> ostate stmt" where
  "one_back env \<equiv> do_all [doc_wappend env [NL], dec_indent, add_indent env]"

abbreviation not_reached :: "ostate stmt" where
  "not_reached \<equiv> \<lambda>st. Inl NotReached"

definition format_text_element :: "cenv \<Rightarrow> ostate stmt" where
  "format_text_element env st0 =
     bindE (common_assert st0) (\<lambda>st.
       (case last_element st of
          ELEMENT_TYPE_ENTRY \<Rightarrow>
            (case current_element st of
               ELEMENT_TYPE_ENTRY \<Rightarrow> same_level env [NL]
             | ELEMENT_TYPE_SECTION_OPEN \<Rightarrow> same_level env [NL]
             | ELEMENT_TYPE_CONTAINER_OPEN \<Rightarrow> same_level env [NL]
             | ELEMENT_TYPE_CONTAINER_CLOSE \<Rightarrow> one_back env
             | ELEMENT_TYPE_SECTION_CLOSE \<Rightarrow> one_back env
             | _ \<Rightarrow> not_reached)
        | ELEMENT_TYPE_SECTION_OPEN \<Rightarrow>
            (case current_element st of
               ELEMENT_TYPE_ENTRY \<Rightarrow> one_deeper env
             | ELEMENT_TYPE_SECTION_OPEN \<Rightarrow> one_deeper env
             | ELEMENT_TYPE_CONTAINER_OPEN \<Rightarrow> one_deeper env
             | ELEMENT_TYPE_SECTION_CLOSE \<Rightarrow> Inr
             | _ \<Rightarrow> not_reached)
        | ELEMENT_TYPE_SECTION_CLOSE \<Rightarrow>
            (case current_element st of
               ELEMENT_TYPE_SECTION_CLOSE \<Rightarrow> one_back env
             | ELEMENT_TYPE_CONTAINER_CLOSE \<Rightarrow> one_back env
             | ELEMENT_TYPE_ENTRY \<Rightarrow> same_level env [NL]
             | ELEMENT_TYPE_CONTAINER_OPEN \<Rightarrow> same_level env [NL]
             | ELEMENT_TYPE_SECTION_OPEN \<Rightarrow> same_level env [NL]
             | _ \<Rightarrow> not_reached)
        | ELEMENT_TYPE_CONTAINER_OPEN \<Rightarrow>
            (case current_element st of
               ELEMENT_TYPE_ENTRY \<Rightarrow> one_deeper env
             | ELEMENT_TYPE_SECTION_OPEN \<Rightarrow> one_deeper env
             | ELEMENT_TYPE_CONTAINER_OPEN \<Rightarrow> one_deeper env
             | ELEMENT_TYPE_CONTAINER_CLOSE \<Rightarrow> Inr
             | _ \<Rightarrow> not_reached)
        | ELEMENT_TYPE_CONTAINER_CLOSE \<Rightarrow>
            (case current_element st of
               ELEMENT_TYPE_SECTION_CLOSE \<Rightarrow> one_back env
             | ELEMENT_TYPE_CONTAINER_CLOSE \<Rightarrow> one_back env
             | ELEMENT_TYPE_SECTION_OPEN \<Rightarrow> same_level env [NL]
             | ELEMENT_TYPE_ENTRY \<Rightarrow> same_level env [NL]
             | ELEMENT_TYPE_CONTAINER_OPEN \<Rightarrow> same_level env [NL]
             | _ \<Rightarrow> not_reached)
        | ELEMENT_TYPE_NONE \<Rightarrow>
            (case current_element st of
               ELEMENT_TYPE_ENTRY \<Rightarrow> add_indent env
             | ELEMENT_TYPE_CONTAINER_OPEN \<Rightarrow> add_indent env
             | ELEMENT_TYPE_SECTION_OPEN \<Rightarrow> add_indent env
             | ELEMENT_TYPE_SECTION_CLOSE \<Rightarrow> add_indent env
             | ELEMENT_TYPE_CONTAINER_CLOSE \<Rightarrow> add_indent env
             | ELEMENT_TYPE_OBJECT_OPEN \<Rightarrow> Inr
             | ELEMENT_TYPE_OBJECT_CLOSE \<Rightarrow> Inr
             | _ \<Rightarrow> not_reached)
        | _ \<Rightarrow> not_reached) st)"

definition json_after_object_open :: "cenv \<Rightarrow> ElementType \<Rightarrow> ostate stmt" where
  "json_after_object_open env cur =
     (case cur of
        ELEMENT_TYPE_ENTRY \<Rightarrow> one_deeper env
      | ELEMENT_TYPE_CONTAINER_OPEN \<Rightarrow> one_deeper env
      | ELEMENT_TYPE_SECTION_OPEN \<Rightarrow> one_deeper env
      | ELEMENT_TYPE_OBJECT_CLOSE \<Rightarrow> Inr
      | _ \<Rightarrow> not_reached)"

definition json_after_object_close :: "cenv \<Rightarrow> ElementType \<Rightarrow> ostate stmt" where
  "json_after_object_close env cur =
     (case cur of
        ELEMENT_TYPE_CONTAINER_CLOSE \<Rightarrow> one_back env
      | ELEMENT_TYPE_SECTION_CLOSE \<Rightarrow> one_back env
      | ELEMENT_TYPE_OBJECT_OPEN \<Rightarrow> same_level env [44, NL]
      | ELEMENT_TYPE_SECTION_OPEN \<Rightarrow> same_level env [44, NL]
      | _ \<Rightarrow> not_reached)"

definition format_json_element :: "cenv \<Rightarrow> ostate stmt" where
  "format_json_element env st0 =
     bindE (common_assert st0) (\<lambda>st.
       (case last_element st of
          ELEMENT_TYPE_ENTRY \<Rightarrow>
            (case current_element st of
               ELEMENT_TYPE_ENTRY \<Rightarrow> same_level env [44, NL]
             | ELEMENT_TYPE_SECTION_OPEN \<Rightarrow> same_level env [44, NL]
             | ELEMENT_TYPE_CONTAINER_OPEN \<Rightarrow> same_level env [44, NL]
             | ELEMENT_TYPE_SECTION_CLOSE \<Rightarrow> one_back env
             | ELEMENT_TYPE_CONTAINER_CLOSE \<Rightarrow> one_back env
             | ELEMENT_TYPE_OBJECT_CLOSE \<Rightarrow> one_back env
             | _ \<Rightarrow> not_reached)
        | ELEMENT_TYPE_SECTION_OPEN \<Rightarrow>
            (case current_element st of
               ELEMENT_TYPE_ENTRY \<Rightarrow> one_deeper env
             | ELEMENT_TYPE_SECTION_OPEN \<Rightarrow> one_deeper env
             | ELEMENT_TYPE_CONTAINER_OPEN \<Rightarrow> one_deeper env
             | ELEMENT_TYPE_SECTION_CLOSE \<Rightarrow> Inr
             | ELEMENT_TYPE_OBJECT_OPEN \<Rightarrow> Inr
             | _ \<Rightarrow> not_reached)
        | ELEMENT_TYPE_SECTION_CLOSE \<Rightarrow>
            (case current_element st of
               ELEMENT_TYPE_ENTRY \<Rightarrow> same_level env [44, NL]
             | ELEMENT_TYPE_SECTION_OPEN \<Rightarrow> same_level env [44, NL]
             | ELEMENT_TYPE_CONTAINER_OPEN \<Rightarrow> same_level env [44, NL]
             | ELEMENT_TYPE_OBJECT_OPEN \<Rightarrow> Inr
             | ELEMENT_TYPE_SECTION_CLOSE \<Rightarrow> one_back env
             | ELEMENT_TYPE_CONTAINER_CLOSE \<Rightarrow> one_back env
             | ELEMENT_TYPE_OBJECT_CLOSE \<Rightarrow> one_back env
             | _ \<Rightarrow> not_reached)
        | ELEMENT_TYPE_CONTAINER_OPEN \<Rightarrow>
            (case current_element st of
               ELEMENT_TYPE_ENTRY \<Rightarrow> one_deeper env
             | ELEMENT_TYPE_CONTAINER_OPEN \<Rightarrow> one_deeper env
             | ELEMENT_TYPE_SECTION_OPEN \<Rightarrow> one_deeper env
             | ELEMENT_TYPE_OBJECT_OPEN \<Rightarrow> one_deeper env
             | ELEMENT_TYPE_CONTAINER_CLOSE \<Rightarrow> Inr
             | _ \<Rightarrow> not_reached)
        | ELEMENT_TYPE_CONTAINER_CLOSE \<Rightarrow>
            (case current_element st of
               ELEMENT_TYPE_ENTRY \<Rightarrow> same_level env [44, NL]
             | ELEMENT_TYPE_SECTION_OPEN \<Rightarrow> same_level env [44, NL]
             | ELEMENT_TYPE_OBJECT_OPEN \<Rightarrow> same_level env [44, NL]
             | ELEMENT_TYPE_CONTAINER_OPEN \<Rightarrow> same_level env [44, NL]
             | ELEMENT_TYPE_SECTION_CLOSE \<Rightarrow> one_back env
             | ELEMENT_TYPE_CONTAINER_CLOSE \<Rightarrow> one_back env
             | ELEMENT_TYPE_OBJECT_CLOSE \<Rightarrow> one_back env
             | _ \<Rightarrow> not_reached)
        | ELEMENT_TYPE_OBJECT_OPEN \<Rightarrow> json_after_object_open env (current_element st)
        | ELEMENT_TYPE_OBJECT_CLOSE \<Rightarrow> json_after_object_close env (current_element st)
        | ELEMENT_TYPE_NONE \<Rightarrow>
            (case current_element st of
               ELEMENT_TYPE_NONE \<Rightarrow> not_reached
             | _ \<Rightarrow> add_indent env)) st)"

definition xml_after_object_open :: "cenv \<Rightarrow> ElementType \<Rightarrow> ostate stmt" where
  "xml_after_object_open env cur =
     (case cur of
        ELEMENT_TYPE_ENTRY \<Rightarrow> one_deeper env
      | ELEMENT_TYPE_SECTION_OPEN \<Rightarrow> one_deeper env
      | ELEMENT_TYPE_CONTAINER_OPEN \<Rightarrow> one_deeper env
      | ELEMENT_TYPE_OBJECT_CLOSE \<Rightarrow> Inr
      | _ \<Rightarrow> not_reached)"

definition xml_after_object_close :: "cenv \<Rightarrow> ElementType \<Rightarrow> ostate stmt" where
  "xml_after_object_close env cur =
     (case cur of
        ELEMENT_TYPE_OBJECT_OPEN \<Rightarrow> Inr
      | ELEMENT_TYPE_SECTION_CLOSE \<Rightarrow> Inr
      | ELEMENT_TYPE_CONTAINER_CLOSE \<Rightarrow> do_all [doc_wappend env [NL], dec_indent]
      | ELEMENT_TYPE_ENTRY \<Rightarrow> do_all [doc_wappend env [NL], dec_indent]
      | _ \<Rightarrow> not_reached)"

definition format_xml_element :: "cenv \<Rightarrow> ostate stmt" where
  "format_xml_element env st0 =
     bindE (common_assert st0) (\<lambda>st.
       (case last_element st of
          ELEMENT_TYPE_ENTRY \<Rightarrow>
            (case current_element st of
               ELEMENT_TYPE_ENTRY \<Rightarrow> same_level env [NL]
             | ELEMENT_TYPE_SECTION_OPEN \<Rightarrow> same_level env [NL]
             | ELEMENT_TYPE_OBJECT_OPEN \<Rightarrow> same_level env [NL]
             | ELEMENT_TYPE_CONTAINER_OPEN \<Rightarrow> same_level env [NL]
             | ELEMENT_TYPE_SECTION_CLOSE \<Rightarrow> one_back env
             | ELEMENT_TYPE_CONTAINER_CLOSE \<Rightarrow> one_back env
             | ELEMENT_TYPE_OBJECT_CLOSE \<Rightarrow> one_back env
             | _ \<Rightarrow> not_reached)
        | ELEMENT_TYPE_SECTION_OPEN \<Rightarrow>
            (case current_element st of
               ELEMENT_TYPE_ENTRY \<Rightarrow> one_deeper env
             | ELEMENT_TYPE_SECTION_OPEN \<Rightarrow> one_deeper env
             | ELEMENT_TYPE_CONTAINER_OPEN \<Rightarrow> one_deeper env
             | ELEMENT_TYPE_SECTION_CLOSE \<Rightarrow> same_level env [NL]
             | _ \<Rightarrow> not_reached)
        | ELEMENT_TYPE_SECTION_CLOSE \<Rightarrow>
            (case current_element st of
               ELEMENT_TYPE_SECTION_CLOSE \<Rightarrow> one_back env
             | ELEMENT_TYPE_CONTAINER_CLOSE \<Rightarrow> one_back env
             | ELEMENT_TYPE_OBJECT_CLOSE \<Rightarrow> same_level env [NL]
             | ELEMENT_TYPE_SECTION_OPEN \<Rightarrow> same_level env [NL]
             | ELEMENT_TYPE_ENTRY \<Rightarrow> same_level env [NL]
             | ELEMENT_TYPE_CONTAINER_OPEN \<Rightarrow> same_level env [NL]
             | _ \<Rightarrow> not_reached)
        | ELEMENT_TYPE_CONTAINER_OPEN \<Rightarrow>
            (case current_element st of
               ELEMENT_TYPE_ENTRY \<Rightarrow> one_deeper env
             | ELEMENT_TYPE_SECTION_OPEN \<Rightarrow> one_deeper env
             | ELEMENT_TYPE_CONTAINER_OPEN \<Rightarrow> one_deeper env
             | ELEMENT_TYPE_CONTAINER_CLOSE \<Rightarrow> same_level env [NL]
             | ELEMENT_TYPE_OBJECT_OPEN \<Rightarrow> add_indent env
             | _ \<Rightarrow> not_reached)
        | ELEMENT_TYPE_CONTAINER_CLOSE \<Rightarrow>
            (case current_element st of
               ELEMENT_TYPE_SECTION_CLOSE \<Rightarrow> one_back env
             | ELEMENT_TYPE_CONTAINER_CLOSE \<Rightarrow> one_back env
             | ELEMENT_TYPE_OBJECT_CLOSE \<Rightarrow> one_back env
             | ELEMENT_TYPE_ENTRY \<Rightarrow> same_level env [NL]
             | ELEMENT_TYPE_SECTION_OPEN \<Rightarrow> same_level env [NL]
             | ELEMENT_TYPE_CONTAINER_OPEN \<Rightarrow> same_level env [NL]
             | _ \<Rightarrow> not_reached)
        | ELEMENT_TYPE_OBJECT_OPEN \<Rightarrow> xml_after_object_open env (current_element st)
        | ELEMENT_TYPE_OBJECT_CLOSE \<Rightarrow> xml_after_object_close env (current_element st)
        | ELEMENT_TYPE_NONE \<Rightarrow>
            (case current_element st of
               ELEMENT_TYPE_NONE \<Rightarrow> not_reached
             | _ \<Rightarrow> add_indent env)) st)"

definition format_element :: "cenv \<Rightarrow> ostate stmt" where
  "format_element env st =
     (case output_format st of
        OUTPUT_FORMAT_TEXT \<Rightarrow> format_text_element env st
      | OUTPUT_FORMAT_CRUMB \<Rightarrow> Inr st
      | OUTPUT_FORMAT_JSON \<Rightarrow> format_json_element env st
      | OUTPUT_FORMAT_XML \<Rightarrow> format_xml_element env st)"

definition change_element :: "cenv \<Rightarrow> ElementType \<Rightarrow> ostate stmt" where
  "change_element env new st0 =
     bindE (common_assert st0) (\<lambda>st.
       format_element env (st\<lparr>last_element := current_element st, current_element := new\<rparr>))"

section \<open>Breadcrumbs\<close>

definition add_breadcrumb :: "string \<Rightarrow> ostate stmt" where
  "add_breadcrumb name st =
     (let (l, h) = (if crumb_list st = 0 then pr_list_new None (crumbs st) else (crumb_list st, crumbs st))
      in guardE (l \<noteq> 0) AssertFail
           (bindE (pr_list_prepend_str l name h) (\<lambda>(_, h1).
              Inr (st\<lparr>crumb_list := l, crumbs := h1\<rparr>))))"

definition remove_breadcrumb :: "ostate stmt" where
  "remove_breadcrumb st =
     guardE (crumb_list st \<noteq> 0) AssertFail
       (bindE (get_node (crumbs st) (crumb_list st)) (\<lambda>n.
        bindE (pr_list_remove (prv n) (crumbs st)) (\<lambda>(e, h1).
        guardE (e \<noteq> 0) AssertFail
          (bindE (free_node e h1) (\<lambda>h2. Inr (st\<lparr>crumbs := h2\<rparr>))))))"

fun clear_breadcrumbs :: "nat \<Rightarrow> ostate stmt" where
  "clear_breadcrumbs 0 st = Inl Diverges"
| "clear_breadcrumbs (Suc fuel) st =
     guardE (crumb_list st \<noteq> 0) AssertFail
       (bindE (get_node (crumbs st) (crumb_list st)) (\<lambda>n.
          if prv n \<noteq> crumb_list st then bindE (remove_breadcrumb st) (clear_breadcrumbs fuel)
          else Inr st))"

definition free_breadcrumbs :: "ostate stmt" where
  "free_breadcrumbs st =
     (if output_format st = OUTPUT_FORMAT_CRUMB \<and> crumb_list st \<noteq> 0 then
        bindE (clear_breadcrumbs (brk (crumbs st)) st) (\<lambda>st1.
        bindE (free_node (crumb_list st1) (crumbs st1)) (\<lambda>h.
          Inr (st1\<lparr>crumbs := h\<rparr>)))
      else Inr st)"

section \<open>Elements\<close>

definition object_open :: "cenv \<Rightarrow> bool \<Rightarrow> ostate stmt" where
  "object_open env retain st0 =
     bindE (common_assert st0) (\<lambda>st.
       if output_format st = OUTPUT_FORMAT_JSON then
         bindE (if retain then format_element env st else change_element env ELEMENT_TYPE_OBJECT_OPEN st)
           (doc_wappend env (L ''{''))
       else Inr st)"

definition object_close :: "cenv \<Rightarrow> bool \<Rightarrow> ostate stmt" where
  "object_close env retain st0 =
     bindE (common_assert st0) (\<lambda>st.
       if output_format st = OUTPUT_FORMAT_JSON then
         bindE (if retain then format_element env st else change_element env ELEMENT_TYPE_OBJECT_CLOSE st)
           (doc_wappend env (L ''}''))
       else Inr st)"

definition name_to_wide_name :: "cenv \<Rightarrow> OutputFormat \<Rightarrow> string \<Rightarrow> pstring res" where
  "name_to_wide_name env fmt name =
     bindE (char_to_pstring env name) (\<lambda>p.
       case p of
         None \<Rightarrow> Inl (Die ''failed to convert string to pstring'')
       | Some encoded_name \<Rightarrow>
           bindE (encode_string env fmt encoded_name) (\<lambda>(ret, encoded).
             if ret < 0 then Inl (Die ''failed to encode name'') else Inr encoded))"

definition section_open :: "cenv \<Rightarrow> string \<Rightarrow> ostate stmt" where
  "section_open env name st0 =
     bindE (common_assert st0) (\<lambda>st.
     bindE (name_to_wide_name env (output_format st) name) (\<lambda>encoded_name.
     bindE (text_of encoded_name) (\<lambda>n.
     bindE (change_element env ELEMENT_TYPE_SECTION_OPEN st) (\<lambda>st1.
       case output_format st1 of
         OUTPUT_FORMAT_TEXT \<Rightarrow> doc_wappendf env (L ''%ls:'') [PWStr n] st1
       | OUTPUT_FORMAT_CRUMB \<Rightarrow> add_breadcrumb name st1
       | OUTPUT_FORMAT_JSON \<Rightarrow> doc_wappendf env (L ''\"%ls\" : {'') [PWStr n] st1
       | OUTPUT_FORMAT_XML \<Rightarrow> doc_wappendf env (L ''<section name=\"%ls\">'') [PWStr n] st1))))"

definition section_close :: "cenv \<Rightarrow> ostate stmt" where
  "section_close env st0 =
     bindE (common_assert st0) (\<lambda>st.
     bindE (change_element env ELEMENT_TYPE_SECTION_CLOSE st) (\<lambda>st1.
       case output_format st1 of
         OUTPUT_FORMAT_TEXT \<Rightarrow> Inr st1
       | OUTPUT_FORMAT_CRUMB \<Rightarrow> remove_breadcrumb st1
       | OUTPUT_FORMAT_JSON \<Rightarrow> doc_wappend env (L ''}'') st1
       | OUTPUT_FORMAT_XML \<Rightarrow> doc_wappend env (L ''</section>'') st1))"

definition container_open :: "cenv \<Rightarrow> string \<Rightarrow> ostate stmt" where
  "container_open env name st0 =
     bindE (common_assert st0) (\<lambda>st.
     bindE (name_to_wide_name env (output_format st) name) (\<lambda>encoded_name.
     bindE (text_of encoded_name) (\<lambda>n.
     bindE (change_element env ELEMENT_TYPE_CONTAINER_OPEN st) (\<lambda>st1.
       case output_format st1 of
         OUTPUT_FORMAT_TEXT \<Rightarrow> doc_wappendf env (L ''%ls:'') [PWStr n] st1
       | OUTPUT_FORMAT_CRUMB \<Rightarrow> add_breadcrumb name st1
       | OUTPUT_FORMAT_JSON \<Rightarrow> doc_wappendf env (L ''\"%ls\" : ['') [PWStr n] st1
       | OUTPUT_FORMAT_XML \<Rightarrow> doc_wappendf env (L ''<container name=\"%ls\">'') [PWStr n] st1))))"

definition container_close :: "cenv \<Rightarrow> ostate stmt" where
  "container_close env st0 =
     bindE (common_assert st0) (\<lambda>st.
     bindE (change_element env ELEMENT_TYPE_CONTAINER_CLOSE st) (\<lambda>st1.
       case output_format st1 of
         OUTPUT_FORMAT_TEXT \<Rightarrow> Inr st1
       | OUTPUT_FORMAT_CRUMB \<Rightarrow> remove_breadcrumb st1
       | OUTPUT_FORMAT_JSON \<Rightarrow> doc_wappend env (L '']'') st1
       | OUTPUT_FORMAT_XML \<Rightarrow> doc_wappend env (L ''</container>'') st1))"

definition header :: "cenv \<Rightarrow> string \<Rightarrow> ostate stmt" where
  "header env name st0 = bindE (common_assert st0) (section_open env name)"

definition footer :: "cenv \<Rightarrow> ostate stmt" where
  "footer env st0 = bindE (common_assert st0) (section_close env)"

text \<open>The bread crumbs of one entry: the names on the list from the outermost, each with the
  separator.\<close>

fun append_crumbs :: "cenv \<Rightarrow> addr list \<Rightarrow> ostate stmt" where
  "append_crumbs env [] st = Inr st"
| "append_crumbs env (a # as) st =
     bindE (get_node (crumbs st) a) (\<lambda>n.
       case ldata n of
         None \<Rightarrow> Inl NullDeref
       | Some crumb \<Rightarrow>
           bindE (doc_wappendf env (L ''%s%s'') [PStr crumb, PStr (crumb_separator st)] st)
             (append_crumbs env as))"

definition entry :: "cenv \<Rightarrow> string \<Rightarrow> string \<Rightarrow> parg list \<Rightarrow> ostate stmt" where
  "entry env name fmt args st00 =
     bindE (common_assert st00) (\<lambda>st0.
     bindE (change_element env ELEMENT_TYPE_ENTRY st0) (\<lambda>st.
     bindE (char_to_pstring env name) (\<lambda>en0.
       case en0 of
         None \<Rightarrow> Inl (Die ''failed to encode name'')
       | Some en \<Rightarrow>
           bindE (encode_string env (output_format st) en) (\<lambda>(ret, encoded_name).
           if ret < 0 then Inl (Die ''failed to encode name'')
           else
           bindE (wmappendva env None fmt args) (\<lambda>ev0.
             case ev0 of
               None \<Rightarrow> Inl AssertFail
             | Some ev \<Rightarrow>
                 bindE (encode_string env (output_format st) ev) (\<lambda>(ret, encoded_value).
                 if ret < 0 then Inl (Die ''failed to encode value'')
                 else
                 bindE (text_of encoded_name) (\<lambda>n.
                 bindE (text_of encoded_value) (\<lambda>v.
                   case output_format st of
                     OUTPUT_FORMAT_CRUMB \<Rightarrow>
                       guardE (crumb_list st \<noteq> 0) AssertFail
                         (bindE (PR_LIST_FOREACH (crumb_list st) (crumbs st)) (\<lambda>as.
                          bindE (append_crumbs env as st)
                            (doc_wappendf env (L ''%ls%s%ls'' @ [NL]) [PWStr n, PStr (text_separator st), PWStr v])))
                   | OUTPUT_FORMAT_TEXT \<Rightarrow>
                       doc_wappendf env (L ''%ls%s%ls'') [PWStr n, PStr (text_separator st), PWStr v] st
                   | OUTPUT_FORMAT_JSON \<Rightarrow>
                       doc_wappendf env (L ''\"%ls\" : \"%ls\"'') [PWStr n, PWStr v] st
                   | OUTPUT_FORMAT_XML \<Rightarrow>
                       doc_wappendf env (L ''<entry name=\"%ls\">%ls</entry>'') [PWStr n, PWStr v] st))))))))"

definition PROCENV_FORMAT_VERSION :: int where
  "PROCENV_FORMAT_VERSION = 24"

definition master_header :: "cenv \<Rightarrow> pkg \<Rightarrow> ostate stmt" where
  "master_header env pk st0 =
     bindE (common_assert st0) (\<lambda>st.
       case output_format st of
         OUTPUT_FORMAT_CRUMB \<Rightarrow> Inr st
       | OUTPUT_FORMAT_TEXT \<Rightarrow> Inr st
       | OUTPUT_FORMAT_JSON \<Rightarrow> object_open env False st
       | OUTPUT_FORMAT_XML \<Rightarrow>
           do_all
             [doc_wappend env (L ''<?xml version=\"1.0\" encoding=\"UTF-8\"?>'' @ [NL]),
              doc_wappendf env
                (L ''<%s version=\"%s\" package_string=\"%s\" mode=\"%s%s\" format_version=\"%d\">'' @ [NL])
                [PStr (PACKAGE_NAME pk), PStr (PACKAGE_VERSION pk), PStr (PACKAGE_STRING pk),
                 PStr (if euid st \<noteq> 0 then ''non-'' else []), PStr ''privileged'',
                 PInt PROCENV_FORMAT_VERSION],
              inc_indent] st)"

definition master_footer :: "cenv \<Rightarrow> pkg \<Rightarrow> ostate stmt" where
  "master_footer env pk st0 =
     bindE (common_assert st0) (\<lambda>st.
       case output_format st of
         OUTPUT_FORMAT_CRUMB \<Rightarrow> doc_wappend env [NL] st
       | OUTPUT_FORMAT_TEXT \<Rightarrow> doc_wappend env [NL] st
       | OUTPUT_FORMAT_JSON \<Rightarrow> do_all [object_close env False, doc_wappend env [NL]] st
       | OUTPUT_FORMAT_XML \<Rightarrow>
           do_all
             [doc_wappend env [NL],
              dec_indent,
              doc_wappendf env (L ''</%s>'' @ [NL]) [PStr (PACKAGE_NAME pk)]] st)"

section \<open>Destinations\<close>

definition emit :: "Output \<Rightarrow> string \<Rightarrow> ostate \<Rightarrow> ostate" where
  "emit dest str st = st\<lparr>sink := sink st @ [(dest, str)]\<rparr>"

text \<open>\<^verbatim>\<open>write (fd, str, strlen (str))\<close>: \<open>n\<close> bytes reach the file.\<close>

definition wrote :: "Output \<Rightarrow> string \<Rightarrow> int \<Rightarrow> string \<Rightarrow> ostate stmt" where
  "wrote dest str n msg st = (if n < 0 then Inl (ExitFailure msg) else Inr (emit dest (take (nat n) str) st))"

definition show_output :: "oio \<Rightarrow> string \<Rightarrow> ostate stmt" where
  "show_output io str st =
     (case output_dest st of
        OUTPUT_SYSLOG \<Rightarrow> Inr (emit OUTPUT_SYSLOG str st)
      | OUTPUT_STDOUT \<Rightarrow>
          if fputs_ret io OUTPUT_STDOUT str < 0 then Inl (ExitFailure ''failed to output message'')
          else Inr (emit OUTPUT_STDOUT str st)
      | OUTPUT_STDERR \<Rightarrow>
          if fputs_ret io OUTPUT_STDERR str < 0 then Inl (ExitFailure ''failed to output message'')
          else Inr (emit OUTPUT_STDERR str st)
      | OUTPUT_TERM \<Rightarrow>
          guardE (tty_fd st \<noteq> -1) AssertFail
            (wrote OUTPUT_TERM str (write_ret io (tty_fd st) str) ''failed to write to terminal'' st)
      | OUTPUT_FILE \<Rightarrow>
          (let flags = [O_WRONLY, O_CREAT] @ (if output_file_append st then [O_APPEND] else [])
           in case output_file st of
                None \<Rightarrow> Inl AssertFail
              | Some f \<Rightarrow>
                  let fd = (if output_fd st < 0 then open_ret io f flags else output_fd st)
                  in if fd < 0 then Inl (ExitFailure ''failed to open file'')
                     else wrote OUTPUT_FILE str (write_ret io fd str) ''failed to write to file''
                            (st\<lparr>output_fd := fd\<rparr>)))"

definition show_output_pstring :: "cenv \<Rightarrow> oio \<Rightarrow> pstring \<Rightarrow> ostate stmt" where
  "show_output_pstring env io pstr st =
     bindE (pstring_to_char env pstr) (\<lambda>s.
       case s of None \<Rightarrow> Inl AssertFail | Some str \<Rightarrow> show_output io str st)"

definition show_msg :: "cenv \<Rightarrow> oio \<Rightarrow> string \<Rightarrow> int \<Rightarrow> string \<Rightarrow> parg list \<Rightarrow> ostate stmt" where
  "show_msg env io prefix ind fmt args st =
     bindE (if ind \<noteq> 0 then appendf env None ''%*s'' [PInt ind, PStr (indent_char st)] else Inr None) (\<lambda>b0.
     bindE (if prefix \<noteq> [] then appendf env b0 ''%s: '' [PStr prefix] else Inr b0) (\<lambda>b1.
     bindE (appendva env b1 fmt args) (\<lambda>b2.
     bindE (append_c env b2 [CHR 0x0A]) (\<lambda>b3.
       case b3 of
         None \<Rightarrow> Inl AssertFail
       | Some buffer \<Rightarrow> bindE (str_at nul buffer 0) (\<lambda>str. show_output io str st)))))"

section \<open>Settings\<close>

fun map_lookup :: "(string \<times> 'a) list \<Rightarrow> string \<Rightarrow> 'a option" where
  "map_lookup [] name = None"
| "map_lookup ((n, v) # m) name = (if strcmp name n = 0 then Some v else map_lookup m name)"

definition set_output_value :: "string \<Rightarrow> ostate stmt" where
  "set_output_value name st =
     (case map_lookup output_map name of
        Some v \<Rightarrow> Inr (st\<lparr>output_dest := v\<rparr>)
      | None \<Rightarrow> Inl (Die ''invalid output value''))"

definition set_output_value_raw :: "Output \<Rightarrow> ostate \<Rightarrow> ostate" where
  "set_output_value_raw dest st = st\<lparr>output_dest := dest\<rparr>"

definition set_output_format :: "string \<Rightarrow> ostate stmt" where
  "set_output_format name st =
     (case map_lookup output_format_map name of
        Some v \<Rightarrow> Inr (st\<lparr>output_format := v\<rparr>)
      | None \<Rightarrow> Inl (Die ''invalid output format value''))"

definition get_output_format_name :: "ostate \<Rightarrow> string res" where
  "get_output_format_name st =
     (case find (\<lambda>e. snd e = output_format st) output_format_map of
        Some (n, _) \<Rightarrow> Inr n
      | None \<Rightarrow> Inl (Bug ''invalid output format''))"

definition handle_indent_char :: "cenv \<Rightarrow> ostate stmt" where
  "handle_indent_char env st =
     (case mbs env (indent_char st) of
        Some [w] \<Rightarrow> Inr (st\<lparr>wide_indent_char := w\<rparr>)
      | _ \<Rightarrow> Inl (Die ''invalid indent character''))"

definition set_indent_amount :: "int \<Rightarrow> ostate \<Rightarrow> ostate" where
  "set_indent_amount amount st = st\<lparr>indent_amount := amount\<rparr>"

definition set_text_separator :: "string \<Rightarrow> ostate \<Rightarrow> ostate" where
  "set_text_separator s st = st\<lparr>text_separator := s\<rparr>"

definition set_indent_char :: "string option \<Rightarrow> ostate \<Rightarrow> ostate" where
  "set_indent_char c st = (case c of None \<Rightarrow> st | Some s \<Rightarrow> st\<lparr>indent_char := s\<rparr>)"

definition set_crumb_separator :: "string option \<Rightarrow> ostate \<Rightarrow> ostate" where
  "set_crumb_separator c st = (case c of None \<Rightarrow> st | Some s \<Rightarrow> st\<lparr>crumb_separator := s\<rparr>)"

definition set_output_file :: "string option \<Rightarrow> ostate \<Rightarrow> ostate" where
  "set_output_file f st = (case f of None \<Rightarrow> st | Some s \<Rightarrow> st\<lparr>output_file := Some s\<rparr>)"

definition set_output_file_append :: "ostate \<Rightarrow> ostate" where
  "set_output_file_append st = st\<lparr>output_file_append := True\<rparr>"

definition output_init :: "ostate \<Rightarrow> ostate" where
  "output_init st = (if output_dest st = OUTPUT_SYSLOG then st\<lparr>log_open := True\<rparr> else st)"

text \<open>The descriptor is closed but keeps its value.\<close>

definition output_finalise :: "ostate stmt" where
  "output_finalise st =
     bindE (free_breadcrumbs st) (\<lambda>st1.
       Inr (if output_dest st1 = OUTPUT_SYSLOG then st1\<lparr>log_open := False\<rparr> else st1))"

text \<open>
  The state at program start; \<open>doc\<close> is created by \<^verbatim>\<open>main\<close>. No address space holds more than
  \<open>2 ^ 59\<close> nodes of a list, which is the bound of the heap of the breadcrumbs.
\<close>

definition ostate0 :: ostate where
  "ostate0 = \<lparr>output_dest = OUTPUT_STDOUT, output_format = OUTPUT_FORMAT_TEXT, output_file = None,
     output_file_append = False, text_separator = '': '', output_fd = -1,
     last_element = ELEMENT_TYPE_NONE, current_element = ELEMENT_TYPE_NONE,
     crumb_list = 0, crumbs = \<lparr>cells = Map.empty, brk = 1, lim = 576460752303423488\<rparr>, indent = 0, indent_amount = 2,
     indent_char = DEFAULT_INDENT_CHAR, wide_indent_char = 0, crumb_separator = '':'', doc = None,
     euid = 0, tty_fd = -1, sink = [], log_open = False\<rparr>"

end
