(* ===== verification/DocPrinter.thy ===== *)
theory DocPrinter
  imports Output
begin

text \<open>
  What the element state machine promises. The program remembers only the last and the
  current element; a reader of the output sees a tree. \<open>frame\<close>s are the open elements with
  the last child each has, and \<open>spec_open\<close>, \<open>spec_close\<close> and \<open>spec_entry\<close> say what a printer
  with that full stack would write. The locale \<open>element_formatter\<close> states the laws a format's
  table has to satisfy; it is interpreted for the three tables of \<^verbatim>\<open>output.c\<close>, and from it
  the operations are shown to refine the printer with the stack.
\<close>

section \<open>Text of the document\<close>

definition has_text :: "ostate \<Rightarrow> wchar list \<Rightarrow> bool" where
  "has_text st w \<longleftrightarrow> (\<exists>d. doc st = Some d \<and> doc_is d w)"

lemma has_text_doc: "has_text (st\<lparr>doc := Some d\<rparr>) w \<longleftrightarrow> doc_is d w"
  by (simp add: has_text_def)

lemma common_assert_ok: "has_text st w \<Longrightarrow> 0 \<le> indent_amount st \<Longrightarrow> common_assert st = Inr st"
  by (auto simp: common_assert_def has_text_def)

lemma doc_wappend_ok:
  assumes "has_text st w" "0 \<notin> set s" "fits env (length w + length s)"
  shows "\<exists>d. doc_wappend env s st = Inr (st\<lparr>doc := Some d\<rparr>) \<and> doc_is d (w @ s)"
  using assms wappend_doc [of _ w s env] by (fastforce simp: doc_wappend_def has_text_def)

lemma doc_wappendf_ok:
  assumes "has_text st w" "wformat env fmt args = Some t" "0 \<notin> set t" "fits env (length w + length t)"
  shows "\<exists>d. doc_wappendf env fmt args st = Inr (st\<lparr>doc := Some d\<rparr>) \<and> doc_is d (w @ t)"
  using assms wappendf_doc [of _ w env fmt args t] by (fastforce simp: doc_wappendf_def has_text_def)

text \<open>\<open>indents env st c\<close>: the indent character is \<open>c\<close>; either the default one or one set by
  \<open>set_indent_char\<close> and converted by \<open>handle_indent_char\<close>.\<close>

definition indents :: "cenv \<Rightarrow> ostate \<Rightarrow> wchar \<Rightarrow> bool" where
  "indents env st c \<longleftrightarrow>
     (if indent_char st = DEFAULT_INDENT_CHAR then mbs env DEFAULT_INDENT_CHAR = Some [32] \<and> c = 32
      else wide_indent_char st = c \<and> c \<noteq> 0)"

lemma wformat_star_s:
  "mbs env '' '' = Some [32] \<Longrightarrow> 0 < n \<Longrightarrow>
   wformat env (L ''%*s'') [PInt (int n), PStr '' ''] = Some (replicate n 32)"
  by (cases n) (simp_all add: wformat_def fmt_eval replicate_append_same)

lemma wformat_star_lc:
  "0 < n \<Longrightarrow> wformat env (L ''%*lc'') [PInt (int n), PWChr c] = Some (replicate (n - 1) 32 @ [c])"
  by (simp add: wformat_def fmt_eval)

lemma wr_list_prefix:
  "length vs = length xs \<Longrightarrow> wr_list (xs @ ys) 0 vs = Inr (vs @ ys)"
  using wr_list_append [of vs "xs @ ys" "[]"] by simp

lemma add_indent_ok:
  assumes "has_text st w" "0 \<le> indent_amount st" "indent st = int n" "indents env st c"
    "n \<noteq> 0 \<Longrightarrow> w \<noteq> []" "fits env (length w + n)"
  shows "\<exists>d. add_indent env st = Inr (st\<lparr>doc := Some d\<rparr>) \<and> doc_is d (w @ replicate n c)"
proof -
  note ca = common_assert_ok [OF assms(1,2)]
  obtain d where d: "doc st = Some d" "doc_is d w" using assms(1) by (auto simp: has_text_def)
  consider "n = 0" | "n \<noteq> 0" "indent_char st = DEFAULT_INDENT_CHAR" | "n \<noteq> 0" "indent_char st \<noteq> DEFAULT_INDENT_CHAR"
    by blast
  then show ?thesis
  proof cases
    case 1
    then show ?thesis using ca d assms(3)
      by (intro exI [of _ d]) (simp add: add_indent_def)
  next
    case 2
    then have "wformat env (L ''%*s'') [PInt (indent st), PStr (indent_char st)] = Some (replicate n c)"
      using wformat_star_s [of env n] assms(3,4) by (simp add: indents_def DEFAULT_INDENT_CHAR_def)
    moreover have "c \<noteq> 0" using 2 assms(4) by (simp add: indents_def)
    ultimately show ?thesis
      using doc_wappendf_ok [OF assms(1), of env _ _ "replicate n c"] 2 ca assms(3,6)
      by (simp add: add_indent_def)
  next
    case 3
    have c: "wide_indent_char st = c" "c \<noteq> 0" using 3 assms(4) by (auto simp: indents_def)
    let ?s = "replicate (n - 1) 32 @ [c]"
    have "0 \<notin> set ?s" "length ?s = n" using c 3 by auto
    moreover have "fits env n" using fits_mono [OF assms(6)] by simp
    ultimately obtain p post where p: "wappendf env None (L ''%*lc'') [PInt (indent st), PWChr (wide_indent_char st)] = Inr (Some p)"
      "buf p = Some (?s @ 0 # post)" "len p = n + 1"
      using wappendva_new [OF wformat_star_lc, of n c env] 3 assms(3) c by (auto simp: wappendf_def cstr_is_def)
    have e: "str_end 0 (?s @ 0 # post) 0 = Inr n"
      using str_end_0 [of 0 ?s post] \<open>0 \<notin> set ?s\<close> \<open>length ?s = n\<close> by simp
    have wl: "wr_list (?s @ 0 # post) 0 (replicate n c) = Inr (replicate n c @ 0 # post)"
      by (rule wr_list_prefix) (use \<open>length ?s = n\<close> in simp)
    have "cstr_is (p\<lparr>buf := Some (replicate n c @ 0 # post)\<rparr>) (replicate n c)"
      using p c by (auto simp: cstr_is_def)
    moreover have "holds d w" using d(2) assms(5) 3 by (auto simp: doc_is_def)
    ultimately obtain d' where d': "pappend env (Some d) (p\<lparr>buf := Some (replicate n c @ 0 # post)\<rparr>) = Inr (Some d')"
      "doc_is d' (w @ replicate n c)"
      using pappend_doc [of d w _ "replicate n c" env] assms(6) by auto
    have "indent st \<noteq> 0" using 3 assms(3) by simp
    then show ?thesis using 3 ca p e wl d d' c
      by (simp only: add_indent_def bindE_simps if_False option.case simp_thms) blast
  qed
qed

section \<open>Frames and styles\<close>

datatype kind = Sec | Con | Obj

datatype child = ChEntry | Ch kind

text \<open>\<open>Frame k l\<close>: an open element (the document itself when \<open>k\<close> is \<open>None\<close>) and its last child.\<close>

datatype frame = Frame (fkind: "kind option") (flast: "child option")

definition open_el :: "kind \<Rightarrow> ElementType" where
  "open_el k = (case k of Sec \<Rightarrow> ELEMENT_TYPE_SECTION_OPEN | Con \<Rightarrow> ELEMENT_TYPE_CONTAINER_OPEN
                        | Obj \<Rightarrow> ELEMENT_TYPE_OBJECT_OPEN)"

definition close_el :: "kind \<Rightarrow> ElementType" where
  "close_el k = (case k of Sec \<Rightarrow> ELEMENT_TYPE_SECTION_CLOSE | Con \<Rightarrow> ELEMENT_TYPE_CONTAINER_CLOSE
                         | Obj \<Rightarrow> ELEMENT_TYPE_OBJECT_CLOSE)"

definition start_el :: "child \<Rightarrow> ElementType" where
  "start_el ch = (case ch of ChEntry \<Rightarrow> ELEMENT_TYPE_ENTRY | Ch k \<Rightarrow> open_el k)"

definition end_el :: "child \<Rightarrow> ElementType" where
  "end_el ch = (case ch of ChEntry \<Rightarrow> ELEMENT_TYPE_ENTRY | Ch k \<Rightarrow> close_el k)"

text \<open>The element the program remembers when \<open>f\<close> is the innermost open element.\<close>

definition cur_of :: "frame \<Rightarrow> ElementType" where
  "cur_of f = (case flast f of
                 Some ch \<Rightarrow> end_el ch
               | None \<Rightarrow> (case fkind f of None \<Rightarrow> ELEMENT_TYPE_NONE | Some k \<Rightarrow> open_el k))"

definition separator :: "OutputFormat \<Rightarrow> wchar list" where
  "separator fmt = (if fmt = OUTPUT_FORMAT_JSON then [44, NL] else [NL])"

text \<open>Only XML puts the closing tag of an empty element on a line of its own.\<close>

definition blank_empty :: "OutputFormat \<Rightarrow> bool" where
  "blank_empty fmt \<longleftrightarrow> fmt = OUTPUT_FORMAT_XML"

text \<open>
  Objects exist only in JSON, as the document or inside a container next to other objects or
  containers; nothing but objects and sections follows an object.
\<close>

definition plain_frame :: "OutputFormat \<Rightarrow> frame \<Rightarrow> bool" where
  "plain_frame fmt f \<longleftrightarrow> (fmt = OUTPUT_FORMAT_JSON \<or> fkind f \<noteq> Some Obj \<and> flast f \<noteq> Some (Ch Obj))"

definition allowed :: "OutputFormat \<Rightarrow> frame \<Rightarrow> child \<Rightarrow> bool" where
  "allowed fmt f ch \<longleftrightarrow> plain_frame fmt f \<and>
     (case ch of
        Ch Obj \<Rightarrow> fmt = OUTPUT_FORMAT_JSON \<and>
          (fkind f = None \<and> flast f = None \<or>
           fkind f = Some Con \<and> flast f \<in> {None, Some (Ch Obj), Some (Ch Con)})
      | Ch Sec \<Rightarrow> True
      | _ \<Rightarrow> flast f \<noteq> Some (Ch Obj))"

definition closable :: "OutputFormat \<Rightarrow> frame \<Rightarrow> kind \<Rightarrow> bool" where
  "closable fmt f k \<longleftrightarrow> plain_frame fmt f \<and> fkind f = Some k \<and> (k = Obj \<longrightarrow> flast f \<noteq> Some (Ch Obj))"

section \<open>The laws of a formatter\<close>

locale element_formatter =
  fixes ofmt :: OutputFormat
    and fmt_elem :: "cenv \<Rightarrow> ostate stmt"
  assumes dispatch: "output_format st = ofmt \<Longrightarrow> format_element env st = fmt_elem env st"
    and before_first: "allowed ofmt f ch \<Longrightarrow> last_element st = cur_of f \<Longrightarrow> current_element st = start_el ch \<Longrightarrow>
      common_assert st = Inr st \<Longrightarrow> flast f = None \<Longrightarrow>
      fmt_elem env st = (if fkind f = None then add_indent env st else one_deeper env st)"
    and before_next: "allowed ofmt f ch \<Longrightarrow> last_element st = cur_of f \<Longrightarrow> current_element st = start_el ch \<Longrightarrow>
      common_assert st = Inr st \<Longrightarrow> flast f \<noteq> None \<Longrightarrow>
      fmt_elem env st = same_level env (separator ofmt) st"
    and after_last: "closable ofmt f k \<Longrightarrow> last_element st = cur_of f \<Longrightarrow> current_element st = close_el k \<Longrightarrow>
      common_assert st = Inr st \<Longrightarrow> flast f \<noteq> None \<Longrightarrow> fmt_elem env st = one_back env st"
    and after_none: "closable ofmt f k \<Longrightarrow> last_element st = cur_of f \<Longrightarrow> current_element st = close_el k \<Longrightarrow>
      common_assert st = Inr st \<Longrightarrow> flast f = None \<Longrightarrow>
      fmt_elem env st = (if blank_empty ofmt then same_level env [NL] st else Inr st)"

lemmas frame_eval = allowed_def closable_def plain_frame_def cur_of_def start_el_def end_el_def open_el_def
  close_el_def separator_def blank_empty_def

interpretation text_table: element_formatter OUTPUT_FORMAT_TEXT format_text_element
  by unfold_locales
    (auto simp: format_element_def format_text_element_def frame_eval split: option.splits child.splits kind.splits)

interpretation json_table: element_formatter OUTPUT_FORMAT_JSON format_json_element
  by unfold_locales
    (auto simp: format_element_def format_json_element_def json_after_object_open_def json_after_object_close_def frame_eval split: option.splits child.splits kind.splits)

interpretation xml_table: element_formatter OUTPUT_FORMAT_XML format_xml_element
  by unfold_locales
    (auto simp: format_element_def format_xml_element_def xml_after_object_open_def xml_after_object_close_def frame_eval split: option.splits child.splits kind.splits)

section \<open>The printer with a stack\<close>

record layout =
  base :: nat
  amount :: nat
  pad_char :: wchar
  tsep :: "wchar list"

definition level :: "layout \<Rightarrow> nat \<Rightarrow> nat" where
  "level ly n = base ly + amount ly * n"

definition pad :: "layout \<Rightarrow> nat \<Rightarrow> wchar list" where
  "pad ly n = replicate (level ly n) (pad_char ly)"

text \<open>What comes before a child of \<open>f\<close> and before the end of \<open>f\<close>; \<open>n\<close> is the number of
  elements around \<open>f\<close>.\<close>

definition gap :: "OutputFormat \<Rightarrow> layout \<Rightarrow> frame \<Rightarrow> nat \<Rightarrow> wchar list" where
  "gap fmt ly f n =
     (if flast f \<noteq> None then separator fmt else if fkind f = None then [] else [NL]) @ pad ly n"

definition close_gap :: "OutputFormat \<Rightarrow> layout \<Rightarrow> frame \<Rightarrow> nat \<Rightarrow> wchar list" where
  "close_gap fmt ly f n = (if flast f = None \<and> \<not> blank_empty fmt then [] else NL # pad ly (n - 1))"

text \<open>The indent the program has: it grows with the first child, not with the opening.\<close>

definition frames_level :: "layout \<Rightarrow> frame list \<Rightarrow> nat" where
  "frames_level ly fs =
     (let n = length fs - 1
      in level ly (if flast (hd fs) = None \<and> fkind (hd fs) \<noteq> None then n - 1 else n))"

definition shows_doc :: "cenv \<Rightarrow> OutputFormat \<Rightarrow> layout \<Rightarrow> ostate \<Rightarrow> frame list \<Rightarrow> wchar list \<Rightarrow> bool" where
  "shows_doc env fmt ly st fs t \<longleftrightarrow>
     has_text st t \<and> output_format st = fmt \<and> indent_amount st = int (amount ly) \<and>
     indents env st (pad_char ly) \<and> current_element st = cur_of (hd fs) \<and>
     indent st = int (frames_level ly fs) \<and> (t = [] \<longrightarrow> base ly = 0) \<and> fs \<noteq> [] \<and>
     mbs env (text_separator st) = Some (tsep ly) \<and> 0 \<notin> set (tsep ly)"

definition level_ok :: "layout \<Rightarrow> nat \<Rightarrow> bool" where
  "level_ok ly n \<longleftrightarrow> int_range (int (level ly n))"

lemma level_mono: "m \<le> n \<Longrightarrow> level ly m \<le> level ly n"
  by (simp add: level_def)

lemma level_ok_mono: "level_ok ly n \<Longrightarrow> m \<le> n \<Longrightarrow> level_ok ly m"
  using level_mono [of m n ly] by (auto simp: level_ok_def int_range_def)

lemma level_Suc: "int (level ly n) + int (amount ly) = int (level ly (Suc n))"
  by (simp add: level_def)

lemma level_back: "int (level ly (Suc n)) - int (amount ly) = int (level ly n)"
  by (simp add: level_def)

lemma pad_nonzero: "indents env st (pad_char ly) \<Longrightarrow> 0 \<notin> set (pad ly n)"
  by (auto simp: pad_def indents_def split: if_splits)

lemma pad_length [simp]: "length (pad ly n) = level ly n"
  by (simp add: pad_def)

text \<open>The three statement groups of the tables, as text.\<close>

lemma same_level_ok:
  assumes "has_text st t" "indent_amount st = int (amount ly)" "indent st = int (level ly n)"
    "indents env st (pad_char ly)" "s \<noteq> []" "0 \<notin> set s" "fits env (length t + length s + level ly n)"
  shows "\<exists>d. same_level env s st = Inr (st\<lparr>doc := Some d\<rparr>) \<and> doc_is d (t @ s @ pad ly n)"
proof -
  obtain d where d: "doc_wappend env s st = Inr (st\<lparr>doc := Some d\<rparr>)" "doc_is d (t @ s)"
    using doc_wappend_ok [OF assms(1,6) fits_mono [OF assms(7) le_add1]] by blast
  have "\<exists>d'. add_indent env (st\<lparr>doc := Some d\<rparr>) = Inr (st\<lparr>doc := Some d, doc := Some d'\<rparr>) \<and>
      doc_is d' ((t @ s) @ replicate (level ly n) (pad_char ly))"
    using assms d by (intro add_indent_ok) (auto simp: has_text_doc indents_def add.assoc)
  with d show ?thesis by (auto simp: pad_def)
qed

lemma one_deeper_ok:
  assumes "has_text st t" "indent_amount st = int (amount ly)" "indent st = int (level ly n)"
    "indents env st (pad_char ly)" "level_ok ly (Suc n)" "fits env (length t + 1 + level ly (Suc n))"
  shows "\<exists>d. one_deeper env st = Inr (st\<lparr>indent := int (level ly (Suc n)), doc := Some d\<rparr>) \<and>
    doc_is d (t @ NL # pad ly (Suc n))"
proof -
  obtain d where d: "doc_wappend env [NL] st = Inr (st\<lparr>doc := Some d\<rparr>)" "doc_is d (t @ [NL])"
    using doc_wappend_ok [OF assms(1), of "[NL]" env] fits_mono [OF assms(6), of "length t + length [NL]"]
    by auto
  let ?st = "st\<lparr>doc := Some d, indent := int (level ly (Suc n))\<rparr>"
  have i: "inc_indent (st\<lparr>doc := Some d\<rparr>) = Inr ?st"
    using assms(2,3,5) level_Suc [of ly n] by (simp add: inc_indent_def add_int_def level_ok_def)
  have "\<exists>d'. add_indent env ?st = Inr (?st\<lparr>doc := Some d'\<rparr>) \<and>
      doc_is d' ((t @ [NL]) @ replicate (level ly (Suc n)) (pad_char ly))"
    using assms d by (intro add_indent_ok) (auto simp: has_text_def indents_def)
  with d i show ?thesis by (auto simp: pad_def)
qed

lemma one_back_ok:
  assumes "has_text st t" "indent_amount st = int (amount ly)" "indent st = int (level ly (Suc n))"
    "indents env st (pad_char ly)" "level_ok ly (Suc n)" "fits env (length t + 1 + level ly n)"
  shows "\<exists>d. one_back env st = Inr (st\<lparr>indent := int (level ly n), doc := Some d\<rparr>) \<and>
    doc_is d (t @ NL # pad ly n)"
proof -
  obtain d where d: "doc_wappend env [NL] st = Inr (st\<lparr>doc := Some d\<rparr>)" "doc_is d (t @ [NL])"
    using doc_wappend_ok [OF assms(1), of "[NL]" env] fits_mono [OF assms(6), of "length t + length [NL]"]
    by auto
  let ?st = "st\<lparr>doc := Some d, indent := int (level ly n)\<rparr>"
  have "level_ok ly n" using level_ok_mono [OF assms(5), of n] by simp
  then have i: "dec_indent (st\<lparr>doc := Some d\<rparr>) = Inr ?st"
    using assms(2,3) level_back [of ly n] by (simp add: dec_indent_def add_int_def level_ok_def)
  have "\<exists>d'. add_indent env ?st = Inr (?st\<lparr>doc := Some d'\<rparr>) \<and>
      doc_is d' ((t @ [NL]) @ replicate (level ly n) (pad_char ly))"
    using assms d by (intro add_indent_ok) (auto simp: has_text_def indents_def)
  with d i show ?thesis by (auto simp: pad_def)
qed

lemma keep_indent:
  "indent st = i \<Longrightarrow> st\<lparr>last_element := a, current_element := b, indent := i, doc := e\<rparr> =
     st\<lparr>last_element := a, current_element := b, doc := e\<rparr>"
  by (cases st) simp

context element_formatter
begin

lemma change_to_child:
  assumes "shows_doc env ofmt ly st (f # rest) t" "allowed ofmt f ch" "level_ok ly (length rest)"
    "fkind f = None \<longleftrightarrow> rest = []" "fits env (length t + length (gap ofmt ly f (length rest)))"
  shows "\<exists>d. change_element env (start_el ch) st =
      Inr (st\<lparr>last_element := cur_of f, current_element := start_el ch,
              indent := int (level ly (length rest)), doc := Some d\<rparr>) \<and>
    doc_is d (t @ gap ofmt ly f (length rest))"
proof -
  let ?st = "st\<lparr>last_element := cur_of f, current_element := start_el ch\<rparr>"
  have s: "has_text st t" "output_format st = ofmt" "indent_amount st = int (amount ly)"
    "indents env st (pad_char ly)" "current_element st = cur_of f"
    "indent st = int (frames_level ly (f # rest))" "t = [] \<longrightarrow> base ly = 0"
    using assms(1) by (auto simp: shows_doc_def)
  have s': "has_text ?st t" "output_format ?st = ofmt" "indent_amount ?st = int (amount ly)"
    "indents env ?st (pad_char ly)" "last_element ?st = cur_of f" "current_element ?st = start_el ch"
    using s by (auto simp: has_text_def indents_def)
  have ca: "common_assert st = Inr st" "common_assert ?st = Inr ?st"
    using common_assert_ok [OF s(1)] common_assert_ok [OF s'(1)] s(3) by simp_all
  have ch: "change_element env (start_el ch) st = fmt_elem env ?st"
    using ca(1) s(5) dispatch [OF s'(2)] by (simp add: change_element_def)
  show ?thesis
  proof (cases "flast f")
    case (Some x)
    have i: "indent st = int (level ly (length rest))" using s(6) Some by (simp add: frames_level_def)
    with Some have "\<exists>d. same_level env (separator ofmt) ?st = Inr (?st\<lparr>doc := Some d\<rparr>) \<and>
        doc_is d (t @ separator ofmt @ pad ly (length rest))"
      using assms(5) s' by (intro same_level_ok) (auto simp: separator_def gap_def add.assoc)
    then show ?thesis
      using ch before_next [OF assms(2) s'(5,6) ca(2)] Some by (simp add: gap_def keep_indent [OF i])
  next
    case None
    show ?thesis
    proof (cases "fkind f")
      case kNone: None
      have i: "indent st = int (level ly (length rest))" using s(6) None kNone by (simp add: frames_level_def)
      have "\<exists>d. add_indent env ?st = Inr (?st\<lparr>doc := Some d\<rparr>) \<and>
          doc_is d (t @ replicate (level ly (length rest)) (pad_char ly))"
        using assms(4,5) s' i s(7) None kNone
        by (intro add_indent_ok) (auto simp: gap_def level_def)
      then show ?thesis
        using ch before_first [OF assms(2) s'(5,6) ca(2) None] kNone None
        by (simp add: gap_def pad_def keep_indent [OF i])
    next
      case (Some k)
      with assms(4) obtain n where n: "length rest = Suc n" by (cases rest) auto
      have i: "indent ?st = int (level ly n)" using s(6) None Some n by (simp add: frames_level_def)
      have "\<exists>d. one_deeper env ?st = Inr (?st\<lparr>indent := int (level ly (Suc n)), doc := Some d\<rparr>) \<and>
          doc_is d (t @ NL # pad ly (Suc n))"
        using assms(3,5) s' i None Some n by (intro one_deeper_ok) (auto simp: gap_def)
      then show ?thesis
        using ch before_first [OF assms(2) s'(5,6) ca(2) None] Some None n by (auto simp: gap_def)
    qed
  qed
qed

end

context element_formatter
begin

lemma change_to_close:
  assumes "shows_doc env ofmt ly st (f # rest) t" "closable ofmt f k" "level_ok ly (length rest)"
    "rest \<noteq> []" "fits env (length t + length (close_gap ofmt ly f (length rest)))"
  shows "\<exists>d. change_element env (close_el k) st =
      Inr (st\<lparr>last_element := cur_of f, current_element := close_el k,
              indent := int (level ly (length rest - 1)), doc := Some d\<rparr>) \<and>
    doc_is d (t @ close_gap ofmt ly f (length rest))"
proof -
  let ?st = "st\<lparr>last_element := cur_of f, current_element := close_el k\<rparr>"
  obtain n where n: "length rest = Suc n" using assms(4) by (cases rest) auto
  have s: "has_text st t" "output_format st = ofmt" "indent_amount st = int (amount ly)"
    "indents env st (pad_char ly)" "current_element st = cur_of f"
    "indent st = int (frames_level ly (f # rest))"
    using assms(1) by (auto simp: shows_doc_def)
  have s': "has_text ?st t" "output_format ?st = ofmt" "indent_amount ?st = int (amount ly)"
    "indents env ?st (pad_char ly)" "last_element ?st = cur_of f" "current_element ?st = close_el k"
    using s by (auto simp: has_text_def indents_def)
  have ca: "common_assert st = Inr st" "common_assert ?st = Inr ?st"
    using common_assert_ok [OF s(1)] common_assert_ok [OF s'(1)] s(3) by simp_all
  have ch: "change_element env (close_el k) st = fmt_elem env ?st"
    using ca(1) s(5) dispatch [OF s'(2)] by (simp add: change_element_def)
  have k: "fkind f = Some k" using assms(2) by (simp add: closable_def)
  show ?thesis
  proof (cases "flast f")
    case (Some x)
    have i: "indent ?st = int (level ly (Suc n))" using s(6) Some n by (simp add: frames_level_def)
    have "\<exists>d. one_back env ?st = Inr (?st\<lparr>indent := int (level ly n), doc := Some d\<rparr>) \<and>
        doc_is d (t @ NL # pad ly n)"
      using assms(3,5) s' i Some n by (intro one_back_ok) (auto simp: close_gap_def)
    then show ?thesis
      using ch after_last [OF assms(2) s'(5,6) ca(2)] Some n by (auto simp: close_gap_def)
  next
    case None
    have i: "indent st = int (level ly n)" using s(6) None k n by (simp add: frames_level_def)
    note af = after_none [OF assms(2) s'(5,6) ca(2) None]
    show ?thesis
    proof (cases "blank_empty ofmt")
      case True
      have "\<exists>d. same_level env [NL] ?st = Inr (?st\<lparr>doc := Some d\<rparr>) \<and> doc_is d (t @ [NL] @ pad ly n)"
        using assms(5) s' i True n by (intro same_level_ok) (auto simp: close_gap_def)
      then show ?thesis using ch af True None n by (simp add: close_gap_def keep_indent [OF i])
    next
      case False
      obtain d where "doc st = Some d" "doc_is d t" using s(1) by (auto simp: has_text_def)
      moreover have "?st = ?st\<lparr>doc := doc st\<rparr>" by simp
      ultimately show ?thesis using ch af False None n
        by (intro exI [of _ d]) (simp add: close_gap_def keep_indent [OF i])
    qed
  qed
qed

end

lemma change_to_child_any:
  assumes "fmt \<noteq> OUTPUT_FORMAT_CRUMB" "shows_doc env fmt ly st (f # rest) t" "allowed fmt f ch"
    "level_ok ly (length rest)" "fkind f = None \<longleftrightarrow> rest = []"
    "fits env (length t + length (gap fmt ly f (length rest)))"
  shows "\<exists>d. change_element env (start_el ch) st =
      Inr (st\<lparr>last_element := cur_of f, current_element := start_el ch,
              indent := int (level ly (length rest)), doc := Some d\<rparr>) \<and>
    doc_is d (t @ gap fmt ly f (length rest))"
  using assms text_table.change_to_child json_table.change_to_child xml_table.change_to_child
  by (cases fmt) simp_all

lemma change_to_close_any:
  assumes "fmt \<noteq> OUTPUT_FORMAT_CRUMB" "shows_doc env fmt ly st (f # rest) t" "closable fmt f k"
    "level_ok ly (length rest)" "rest \<noteq> []" "fits env (length t + length (close_gap fmt ly f (length rest)))"
  shows "\<exists>d. change_element env (close_el k) st =
      Inr (st\<lparr>last_element := cur_of f, current_element := close_el k,
              indent := int (level ly (length rest - 1)), doc := Some d\<rparr>) \<and>
    doc_is d (t @ close_gap fmt ly f (length rest))"
  using assms text_table.change_to_close json_table.change_to_close xml_table.change_to_close
  by (cases fmt) simp_all

section \<open>Operations and the printer with a stack\<close>

definition stack_ok :: "frame list \<Rightarrow> bool" where
  "stack_ok fs \<longleftrightarrow> fs \<noteq> [] \<and> fkind (last fs) = None \<and> (\<forall>f \<in> set (butlast fs). fkind f \<noteq> None)"

definition open_text :: "OutputFormat \<Rightarrow> kind \<Rightarrow> wchar list \<Rightarrow> wchar list" where
  "open_text fmt k n =
     (case k of
        Obj \<Rightarrow> L ''{''
      | Sec \<Rightarrow> if fmt = OUTPUT_FORMAT_JSON then L ''\"'' @ n @ L ''\" : {''
               else if fmt = OUTPUT_FORMAT_XML then L ''<section name=\"'' @ n @ L ''\">''
               else n @ L '':''
      | Con \<Rightarrow> if fmt = OUTPUT_FORMAT_JSON then L ''\"'' @ n @ L ''\" : [''
               else if fmt = OUTPUT_FORMAT_XML then L ''<container name=\"'' @ n @ L ''\">''
               else n @ L '':'')"

definition close_text :: "OutputFormat \<Rightarrow> kind \<Rightarrow> wchar list" where
  "close_text fmt k =
     (case k of
        Obj \<Rightarrow> L ''}''
      | Sec \<Rightarrow> if fmt = OUTPUT_FORMAT_JSON then L ''}''
               else if fmt = OUTPUT_FORMAT_XML then L ''</section>'' else []
      | Con \<Rightarrow> if fmt = OUTPUT_FORMAT_JSON then L '']''
               else if fmt = OUTPUT_FORMAT_XML then L ''</container>'' else [])"

definition entry_text :: "OutputFormat \<Rightarrow> layout \<Rightarrow> wchar list \<Rightarrow> wchar list \<Rightarrow> wchar list" where
  "entry_text fmt ly n v =
     (if fmt = OUTPUT_FORMAT_JSON then L ''\"'' @ n @ L ''\" : \"'' @ v @ L ''\"''
      else if fmt = OUTPUT_FORMAT_XML then L ''<entry name=\"'' @ n @ L ''\">'' @ v @ L ''</entry>''
      else n @ tsep ly @ v)"

fun spec_open :: "OutputFormat \<Rightarrow> layout \<Rightarrow> kind \<Rightarrow> wchar list \<Rightarrow> frame list \<times> wchar list \<Rightarrow> frame list \<times> wchar list" where
  "spec_open fmt ly k n (f # rest, t) =
     (Frame (Some k) None # f # rest, t @ gap fmt ly f (length rest) @ open_text fmt k n)"
| "spec_open fmt ly k n ([], t) = ([], t)"

fun spec_close :: "OutputFormat \<Rightarrow> layout \<Rightarrow> kind \<Rightarrow> frame list \<times> wchar list \<Rightarrow> frame list \<times> wchar list" where
  "spec_close fmt ly k (f # p # rest, t) =
     (Frame (fkind p) (Some (Ch k)) # rest, t @ close_gap fmt ly f (Suc (length rest)) @ close_text fmt k)"
| "spec_close fmt ly k (fs, t) = (fs, t)"

fun spec_entry :: "OutputFormat \<Rightarrow> layout \<Rightarrow> wchar list \<Rightarrow> wchar list \<Rightarrow> frame list \<times> wchar list \<Rightarrow> frame list \<times> wchar list" where
  "spec_entry fmt ly n v (f # rest, t) =
     (Frame (fkind f) (Some ChEntry) # rest, t @ gap fmt ly f (length rest) @ entry_text fmt ly n v)"
| "spec_entry fmt ly n v ([], t) = ([], t)"

text \<open>\<open>name_ok env fmt s n\<close>: the name \<open>s\<close> is valid in the locale, not empty, and \<open>n\<close> is its
  encoding. \<open>value_ok\<close> says the same of the value a format and its arguments give; the value
  may be empty, the format may not.\<close>

definition name_ok :: "cenv \<Rightarrow> OutputFormat \<Rightarrow> string \<Rightarrow> wchar list \<Rightarrow> bool" where
  "name_ok env fmt s n \<longleftrightarrow>
     (\<exists>w. mbs env s = Some w \<and> w \<noteq> [] \<and> 0 \<notin> set w \<and> (\<forall>c \<in> set w. escapable env fmt c) \<and>
          n = encode_list env fmt w)"

definition value_ok :: "cenv \<Rightarrow> OutputFormat \<Rightarrow> string \<Rightarrow> parg list \<Rightarrow> wchar list \<Rightarrow> bool" where
  "value_ok env fmt s args v \<longleftrightarrow>
     (\<exists>fw w. mbs env s = Some fw \<and> fw \<noteq> [] \<and> 0 \<notin> set fw \<and> fits env (length fw) \<and>
          wformat env fw args = Some w \<and> 0 \<notin> set w \<and> (\<forall>c \<in> set w. escapable env fmt c) \<and>
          v = encode_list env fmt w)"

lemma stack_ok_Cons: "stack_ok (f # rest) \<Longrightarrow> (fkind f = None \<longleftrightarrow> rest = []) \<and> (rest \<noteq> [] \<longrightarrow> stack_ok rest)"
  by (auto simp: stack_ok_def split: if_splits)

lemma stack_ok_push: "stack_ok (f # rest) \<Longrightarrow> stack_ok (Frame (Some k) l # f # rest)"
  by (auto simp: stack_ok_def)

lemma stack_ok_last: "stack_ok (f # rest) \<Longrightarrow> stack_ok (Frame (fkind f) l # rest)"
  by (auto simp: stack_ok_def split: if_splits)

lemma encode_length: "length w \<le> length (encode_list env fmt w)"
proof (induction w)
  case (Cons c w)
  have "1 \<le> length (concat (map (escape_char env fmt) (translate_char fmt c)))"
    using escape_length_ge [of "translate_char fmt c" env fmt] translate_char_length [of fmt c] by simp
  with Cons show ?case by simp
qed simp

lemma encode_nonempty: "w \<noteq> [] \<Longrightarrow> encode_list env fmt w \<noteq> []"
  by (metis encode_length le_zero_eq length_0_conv)

lemma char_to_pstring_ok:
  assumes "mbs env s = Some w" "w \<noteq> []" "0 \<notin> set w" "fits env (length w)"
  shows "\<exists>p. char_to_pstring env s = Inr (Some p) \<and> cstr_is p w"
proof -
  have "alloc_ok env ((1 + length w) * sizeof_wchar)" by (rule fits_cells [OF assms(4)]) simp
  then have "char_to_wchar env s = Some (w @ [0])" using assms by (simp add: char_to_wchar_def)
  then show ?thesis using pstring_create_cstr [OF assms(3,4), of "[]"] by (simp add: char_to_pstring_def)
qed

lemma cstr_text: "cstr_is p w \<Longrightarrow> text_of p = Inr w \<and> 0 \<notin> set w"
  by (auto simp: cstr_is_def text_of_def mem_simps)

lemma encoded_name:
  assumes "name_ok env fmt s n" "fits env (length n)"
  shows "n \<noteq> [] \<and> (\<exists>p ret q. char_to_pstring env s = Inr (Some p) \<and> encode_string env fmt p = Inr (ret, q) \<and>
    0 \<le> ret \<and> text_of q = Inr n \<and> 0 \<notin> set n)"
proof -
  obtain w where w: "mbs env s = Some w" "w \<noteq> []" "0 \<notin> set w" "\<forall>c \<in> set w. escapable env fmt c"
    "n = encode_list env fmt w" using assms(1) by (auto simp: name_ok_def)
  have "fits env (length w)" using fits_mono [OF assms(2), of "length w"] encode_length w(5) by blast
  then obtain p where p: "char_to_pstring env s = Inr (Some p)" "cstr_is p w"
    using char_to_pstring_ok w by blast
  then show ?thesis
    using encode_string_ok [OF p(2) w(4)] assms(2) w(2,5) encode_nonempty cstr_text encode_ret_nonneg by metis
qed

lemma encoded_value:
  assumes "value_ok env fmt s args v" "fits env (length v)"
  shows "\<exists>p ret q. wmappendva env None s args = Inr (Some p) \<and> encode_string env fmt p = Inr (ret, q) \<and>
    0 \<le> ret \<and> text_of q = Inr v \<and> 0 \<notin> set v"
proof -
  obtain fw w where w: "mbs env s = Some fw" "fw \<noteq> []" "0 \<notin> set fw" "fits env (length fw)"
    "wformat env fw args = Some w" "0 \<notin> set w" "\<forall>c \<in> set w. escapable env fmt c" "v = encode_list env fmt w"
    using assms(1) by (auto simp: value_ok_def)
  have "alloc_ok env ((1 + length fw) * sizeof_wchar)" by (rule fits_cells [OF w(4)]) simp
  then have "char_to_wchar env s = Some (fw @ [0])" using w by (simp add: char_to_wchar_def)
  moreover have "fits env (length w)" using fits_mono [OF assms(2), of "length w"] encode_length w(8) by blast
  then obtain p where p: "wappendva env None fw args = Inr (Some p)" "cstr_is p w"
    using wappendva_new [OF w(5,6)] by blast
  ultimately have "wmappendva env None s args = Inr (Some p)"
    using str_at_0 [OF w(3), of "[]"] by (simp add: wmappendva_def)
  then show ?thesis using encode_string_ok [OF p(2) w(7)] assms(2) w(8) cstr_text encode_ret_nonneg by metis
qed

lemma open_format:
  "wformat env (L ''%ls:'') [PWStr n] = Some (n @ L '':'')"
  "wformat env (L ''\"%ls\" : {'') [PWStr n] = Some (L ''\"'' @ n @ L ''\" : {'')"
  "wformat env (L ''\"%ls\" : ['') [PWStr n] = Some (L ''\"'' @ n @ L ''\" : ['')"
  "wformat env (L ''<section name=\"%ls\">'') [PWStr n] = Some (L ''<section name=\"'' @ n @ L ''\">'')"
  "wformat env (L ''<container name=\"%ls\">'') [PWStr n] = Some (L ''<container name=\"'' @ n @ L ''\">'')"
  by (simp_all add: wformat_def fmt_eval)

lemma entry_format:
  "mbs env ts = Some u \<Longrightarrow> wformat env (L ''%ls%s%ls'') [PWStr n, PStr ts, PWStr v] = Some (n @ u @ v)"
  "wformat env (L ''\"%ls\" : \"%ls\"'') [PWStr n, PWStr v] = Some (L ''\"'' @ n @ L ''\" : \"'' @ v @ L ''\"'')"
  "wformat env (L ''<entry name=\"%ls\">%ls</entry>'') [PWStr n, PWStr v] =
     Some (L ''<entry name=\"'' @ n @ L ''\">'' @ v @ L ''</entry>'')"
  by (simp_all add: wformat_def fmt_eval)

lemma open_text_nonzero: "0 \<notin> set n \<Longrightarrow> 0 \<notin> set (open_text fmt k n)"
  by (cases k; cases fmt) (auto simp: open_text_def L_def)

lemma close_text_nonzero: "0 \<notin> set (close_text fmt k)"
  by (cases k; cases fmt) (auto simp: close_text_def L_def)

lemma entry_text_nonzero: "0 \<notin> set n \<Longrightarrow> 0 \<notin> set v \<Longrightarrow> 0 \<notin> set (tsep ly) \<Longrightarrow> 0 \<notin> set (entry_text fmt ly n v)"
  by (cases fmt) (auto simp: entry_text_def L_def)

text \<open>The state a routine leaves after the text of its element is written.\<close>

lemma shows_doc_after:
  assumes "shows_doc env fmt ly st fs t" "doc_is d t'" "t' = [] \<Longrightarrow> base ly = 0" "el = cur_of (hd fs')" "fs' \<noteq> []"
    "i = frames_level ly fs'"
  shows "shows_doc env fmt ly (st\<lparr>last_element := x, current_element := el, indent := int i, doc := Some d\<rparr>) fs' t'"
  using assms by (simp add: shows_doc_def has_text_def indents_def)

text \<open>The calls that open and close an element of each kind.\<close>

definition do_open :: "cenv \<Rightarrow> kind \<Rightarrow> string \<Rightarrow> ostate stmt" where
  "do_open env k name =
     (case k of Sec \<Rightarrow> section_open env name | Con \<Rightarrow> container_open env name | Obj \<Rightarrow> object_open env False)"

definition do_close :: "cenv \<Rightarrow> kind \<Rightarrow> ostate stmt" where
  "do_close env k =
     (case k of Sec \<Rightarrow> section_close env | Con \<Rightarrow> container_close env | Obj \<Rightarrow> object_close env False)"

lemma shows_common: "shows_doc env fmt ly st fs t \<Longrightarrow> common_assert st = Inr st"
  by (rule common_assert_ok) (auto simp: shows_doc_def)

lemma shows_format: "shows_doc env fmt ly st fs t \<Longrightarrow> output_format st = fmt"
  by (simp add: shows_doc_def)

lemma do_open_unfold:
  assumes "common_assert st = Inr st" "output_format st = fmt" "fmt \<noteq> OUTPUT_FORMAT_CRUMB"
    "change_element env (open_el k) st = Inr st1" "output_format st1 = fmt"
    "k = Obj \<Longrightarrow> fmt = OUTPUT_FORMAT_JSON"
    "k \<noteq> Obj \<Longrightarrow> name_to_wide_name env fmt name = Inr q \<and> text_of q = Inr n"
    "doc_is d t" "st1 = st0\<lparr>doc := Some d\<rparr>" "0 \<notin> set n" "fits env (length t + length (open_text fmt k n))"
  shows "\<exists>d'. do_open env k name st = Inr (st0\<lparr>doc := Some d'\<rparr>) \<and> doc_is d' (t @ open_text fmt k n)"
proof -
  have ht: "has_text st1 t" using assms(8,9) by (simp add: has_text_def)
  have nz: "0 \<notin> set (open_text fmt k n)" using open_text_nonzero [OF assms(10)] .
  note ap = doc_wappendf_ok [OF ht _ nz assms(11)] and ap' = doc_wappend_ok [OF ht nz assms(11)]
  show ?thesis
  proof (cases k)
    case Obj
    then have "do_open env k name st = doc_wappend env (open_text fmt k n) st1"
      using assms(1,2,4,6) by (simp add: do_open_def object_open_def open_el_def open_text_def)
    with ap' assms(9) show ?thesis by simp
  next
    case Sec
    with assms(7) have "do_open env k name st = (case fmt of
         OUTPUT_FORMAT_TEXT \<Rightarrow> doc_wappendf env (L ''%ls:'') [PWStr n] st1
       | OUTPUT_FORMAT_CRUMB \<Rightarrow> add_breadcrumb name st1
       | OUTPUT_FORMAT_JSON \<Rightarrow> doc_wappendf env (L ''\"%ls\" : {'') [PWStr n] st1
       | OUTPUT_FORMAT_XML \<Rightarrow> doc_wappendf env (L ''<section name=\"%ls\">'') [PWStr n] st1)"
      using assms(1,2,4,5) by (simp add: do_open_def section_open_def open_el_def)
    with assms(3,9) ap open_format [of env n] Sec show ?thesis
      by (cases fmt) (simp_all add: open_text_def)
  next
    case Con
    with assms(7) have "do_open env k name st = (case fmt of
         OUTPUT_FORMAT_TEXT \<Rightarrow> doc_wappendf env (L ''%ls:'') [PWStr n] st1
       | OUTPUT_FORMAT_CRUMB \<Rightarrow> add_breadcrumb name st1
       | OUTPUT_FORMAT_JSON \<Rightarrow> doc_wappendf env (L ''\"%ls\" : ['') [PWStr n] st1
       | OUTPUT_FORMAT_XML \<Rightarrow> doc_wappendf env (L ''<container name=\"%ls\">'') [PWStr n] st1)"
      using assms(1,2,4,5) by (simp add: do_open_def container_open_def open_el_def)
    with assms(3,9) ap open_format [of env n] Con show ?thesis
      by (cases fmt) (simp_all add: open_text_def)
  qed
qed

lemma do_open_ok:
  assumes "fmt \<noteq> OUTPUT_FORMAT_CRUMB" "shows_doc env fmt ly st (f # rest) t" "stack_ok (f # rest)"
    "allowed fmt f (Ch k)" "k \<noteq> Obj \<Longrightarrow> name_ok env fmt name n" "k = Obj \<Longrightarrow> n = []" "level_ok ly (length rest)"
    "spec_open fmt ly k n (f # rest, t) = (fs', t')" "fits env (length t')"
  shows "\<exists>st'. do_open env k name st = Inr st' \<and> shows_doc env fmt ly st' fs' t'"
proof -
  have t': "t' = t @ gap fmt ly f (length rest) @ open_text fmt k n" "fs' = Frame (Some k) None # f # rest"
    using assms(8) by auto
  have fk: "fkind f = None \<longleftrightarrow> rest = []" using stack_ok_Cons [OF assms(3)] by simp
  have "fits env (length t + length (gap fmt ly f (length rest)))"
    using fits_mono [OF assms(9)] t' by simp
  then obtain d where d: "change_element env (open_el k) st =
      Inr (st\<lparr>last_element := cur_of f, current_element := open_el k,
              indent := int (level ly (length rest)), doc := Some d\<rparr>)"
    "doc_is d (t @ gap fmt ly f (length rest))"
    using change_to_child_any [OF assms(1,2,4,7) fk] by (auto simp: start_el_def)
  have nm: "\<exists>q. name_to_wide_name env fmt name = Inr q \<and> text_of q = Inr n" "0 \<notin> set n" if "k \<noteq> Obj"
  proof -
    have "length n \<le> length t'" using t' that by (cases k; cases fmt) (auto simp: open_text_def)
    from encoded_name [OF assms(5) [OF that] fits_mono [OF assms(9) this]]
    show "\<exists>q. name_to_wide_name env fmt name = Inr q \<and> text_of q = Inr n" "0 \<notin> set n"
      by (auto simp: name_to_wide_name_def)
  qed
  have nz: "0 \<notin> set n" using nm(2) assms(6) by (cases k) auto
  have oj: "k = Obj \<Longrightarrow> fmt = OUTPUT_FORMAT_JSON" using assms(4) by (auto simp: allowed_def)
  obtain q where q: "k \<noteq> Obj \<Longrightarrow> name_to_wide_name env fmt name = Inr q \<and> text_of q = Inr n"
    using nm(1) by blast
  let ?st0 = "st\<lparr>last_element := cur_of f, current_element := open_el k, indent := int (level ly (length rest))\<rparr>"
  have of: "output_format (?st0\<lparr>doc := Some d\<rparr>) = fmt" using shows_format [OF assms(2)] by simp
  have "fits env (length (t @ gap fmt ly f (length rest)) + length (open_text fmt k n))"
    using assms(9) t' by (simp add: add.assoc)
  from do_open_unfold [OF shows_common [OF assms(2)] shows_format [OF assms(2)] assms(1) d(1) of oj q d(2) refl nz this]
  obtain d' where "do_open env k name st = Inr (?st0\<lparr>doc := Some d'\<rparr>)" "doc_is d' t'"
    using t' by auto
  moreover have "t' = [] \<Longrightarrow> base ly = 0" using t' assms(2) by (auto simp: shows_doc_def)
  ultimately show ?thesis
    using shows_doc_after [OF assms(2), of d' t' "open_el k" fs' "level ly (length rest)"] t'
    by (simp add: cur_of_def frames_level_def)
qed

lemma do_close_unfold:
  assumes "common_assert st = Inr st" "output_format st = fmt" "fmt \<noteq> OUTPUT_FORMAT_CRUMB"
    "change_element env (close_el k) st = Inr st1" "output_format st1 = fmt"
    "k = Obj \<Longrightarrow> fmt = OUTPUT_FORMAT_JSON" "doc_is d t" "st1 = st0\<lparr>doc := Some d\<rparr>"
    "fits env (length t + length (close_text fmt k))"
  shows "\<exists>d'. do_close env k st = Inr (st0\<lparr>doc := Some d'\<rparr>) \<and> doc_is d' (t @ close_text fmt k)"
proof -
  have ht: "has_text st1 t" using assms(7,8) by (simp add: has_text_def)
  have "do_close env k st = (if fmt = OUTPUT_FORMAT_TEXT then Inr st1 else doc_wappend env (close_text fmt k) st1)"
  proof (cases k)
    case Obj
    with assms(1-6) show ?thesis
      by (auto simp: do_close_def object_close_def close_el_def close_text_def)
  next
    case Sec
    then have "do_close env k st = (case fmt of OUTPUT_FORMAT_TEXT \<Rightarrow> Inr st1
       | OUTPUT_FORMAT_CRUMB \<Rightarrow> remove_breadcrumb st1
       | OUTPUT_FORMAT_JSON \<Rightarrow> doc_wappend env (L ''}'') st1
       | OUTPUT_FORMAT_XML \<Rightarrow> doc_wappend env (L ''</section>'') st1)"
      using assms(1,2,4,5) by (simp add: do_close_def section_close_def close_el_def)
    with assms(3) Sec show ?thesis by (cases fmt) (simp_all add: close_text_def)
  next
    case Con
    then have "do_close env k st = (case fmt of OUTPUT_FORMAT_TEXT \<Rightarrow> Inr st1
       | OUTPUT_FORMAT_CRUMB \<Rightarrow> remove_breadcrumb st1
       | OUTPUT_FORMAT_JSON \<Rightarrow> doc_wappend env (L '']'') st1
       | OUTPUT_FORMAT_XML \<Rightarrow> doc_wappend env (L ''</container>'') st1)"
      using assms(1,2,4,5) by (simp add: do_close_def container_close_def close_el_def)
    with assms(3) Con show ?thesis by (cases fmt) (simp_all add: close_text_def)
  qed
  moreover have "close_text fmt k = []" if "fmt = OUTPUT_FORMAT_TEXT"
    using that assms(6) by (cases k) (auto simp: close_text_def)
  ultimately show ?thesis
    using doc_wappend_ok [OF ht close_text_nonzero assms(9)] assms(7,8) by auto
qed

lemma do_close_ok:
  assumes "fmt \<noteq> OUTPUT_FORMAT_CRUMB" "shows_doc env fmt ly st (f # p # rest) t"
    "closable fmt f k" "level_ok ly (Suc (length rest))"
    "spec_close fmt ly k (f # p # rest, t) = (fs', t')" "fits env (length t')"
  shows "\<exists>st'. do_close env k st = Inr st' \<and> shows_doc env fmt ly st' fs' t'"
proof -
  have t': "t' = t @ close_gap fmt ly f (Suc (length rest)) @ close_text fmt k"
    "fs' = Frame (fkind p) (Some (Ch k)) # rest"
    using assms(5) by auto
  have "fits env (length t + length (close_gap fmt ly f (length (p # rest))))"
    using fits_mono [OF assms(6)] t' by simp
  moreover have "level_ok ly (length (p # rest))" using assms(4) by simp
  ultimately obtain d where d: "change_element env (close_el k) st =
      Inr (st\<lparr>last_element := cur_of f, current_element := close_el k,
              indent := int (level ly (length rest)), doc := Some d\<rparr>)"
    "doc_is d (t @ close_gap fmt ly f (Suc (length rest)))"
    using change_to_close_any [OF assms(1-3)] by force
  let ?st0 = "st\<lparr>last_element := cur_of f, current_element := close_el k, indent := int (level ly (length rest))\<rparr>"
  have of: "output_format (?st0\<lparr>doc := Some d\<rparr>) = fmt" using shows_format [OF assms(2)] by simp
  have oj: "k = Obj \<Longrightarrow> fmt = OUTPUT_FORMAT_JSON" using assms(3) by (auto simp: closable_def plain_frame_def)
  have "fits env (length (t @ close_gap fmt ly f (Suc (length rest))) + length (close_text fmt k))"
    using assms(6) t' by (simp add: add.assoc)
  from do_close_unfold [OF shows_common [OF assms(2)] shows_format [OF assms(2)] assms(1) d(1) of oj d(2) refl this]
  obtain d' where "do_close env k st = Inr (?st0\<lparr>doc := Some d'\<rparr>)" "doc_is d' t'"
    using t' by auto
  moreover have "t' = [] \<Longrightarrow> base ly = 0" using t' assms(2) by (auto simp: shows_doc_def)
  ultimately show ?thesis
    using shows_doc_after [OF assms(2), of d' t' "close_el k" fs' "level ly (length rest)"] t'
    by (simp add: cur_of_def end_el_def frames_level_def)
qed

lemma entry_ok:
  assumes "fmt \<noteq> OUTPUT_FORMAT_CRUMB" "shows_doc env fmt ly st (f # rest) t" "stack_ok (f # rest)"
    "allowed fmt f ChEntry" "name_ok env fmt name n" "value_ok env fmt vfmt args v" "level_ok ly (length rest)"
    "spec_entry fmt ly n v (f # rest, t) = (fs', t')" "fits env (length t')"
  shows "\<exists>st'. entry env name vfmt args st = Inr st' \<and> shows_doc env fmt ly st' fs' t'"
proof -
  have t': "t' = t @ gap fmt ly f (length rest) @ entry_text fmt ly n v"
    "fs' = Frame (fkind f) (Some ChEntry) # rest" using assms(8) by auto
  have fk: "fkind f = None \<longleftrightarrow> rest = []" using stack_ok_Cons [OF assms(3)] by simp
  have "fits env (length t + length (gap fmt ly f (length rest)))" using fits_mono [OF assms(9)] t' by simp
  then obtain d where d: "change_element env ELEMENT_TYPE_ENTRY st =
      Inr (st\<lparr>last_element := cur_of f, current_element := ELEMENT_TYPE_ENTRY,
              indent := int (level ly (length rest)), doc := Some d\<rparr>)"
    "doc_is d (t @ gap fmt ly f (length rest))"
    using change_to_child_any [OF assms(1,2,4,7) fk] by (auto simp: start_el_def)
  let ?st0 = "st\<lparr>last_element := cur_of f, current_element := ELEMENT_TYPE_ENTRY, indent := int (level ly (length rest))\<rparr>"
  let ?st1 = "?st0\<lparr>doc := Some d\<rparr>"
  have len: "length n \<le> length t'" "length v \<le> length t'" using t' by (auto simp: entry_text_def)
  obtain en ret encoded_name where en: "char_to_pstring env name = Inr (Some en)"
    "encode_string env fmt en = Inr (ret, encoded_name)" "0 \<le> ret" "text_of encoded_name = Inr n" "0 \<notin> set n"
    using encoded_name [OF assms(5) fits_mono [OF assms(9) len(1)]] by blast
  obtain ev ret' encoded_value where ev: "wmappendva env None vfmt args = Inr (Some ev)"
    "encode_string env fmt ev = Inr (ret', encoded_value)" "0 \<le> ret'" "text_of encoded_value = Inr v" "0 \<notin> set v"
    using encoded_value [OF assms(6) fits_mono [OF assms(9) len(2)]] by blast
  have ts: "mbs env (text_separator ?st1) = Some (tsep ly)" "0 \<notin> set (tsep ly)" "output_format ?st1 = fmt"
    using assms(2) by (simp_all add: shows_doc_def)
  have e: "entry env name vfmt args st =
     (case fmt of
        OUTPUT_FORMAT_CRUMB \<Rightarrow> entry env name vfmt args st
      | OUTPUT_FORMAT_TEXT \<Rightarrow>
          doc_wappendf env (L ''%ls%s%ls'') [PWStr n, PStr (text_separator ?st1), PWStr v] ?st1
      | OUTPUT_FORMAT_JSON \<Rightarrow> doc_wappendf env (L ''\"%ls\" : \"%ls\"'') [PWStr n, PWStr v] ?st1
      | OUTPUT_FORMAT_XML \<Rightarrow> doc_wappendf env (L ''<entry name=\"%ls\">%ls</entry>'') [PWStr n, PWStr v] ?st1)"
    using shows_common [OF assms(2)] d(1) en ev ts(3) assms(1)
    by (cases fmt) (simp_all add: entry_def)
  have ht: "has_text ?st1 (t @ gap fmt ly f (length rest))" using d(2) by (simp add: has_text_def)
  have nz: "0 \<notin> set (entry_text fmt ly n v)" using entry_text_nonzero en(5) ev(5) ts(2) by blast
  have ft: "fits env (length (t @ gap fmt ly f (length rest)) + length (entry_text fmt ly n v))"
    using assms(9) t' by (simp add: add.assoc)
  have "\<exists>d'. entry env name vfmt args st = Inr (?st1\<lparr>doc := Some d'\<rparr>) \<and> doc_is d' t'"
    using e t' doc_wappendf_ok [OF ht _ nz ft] entry_format(1) [OF ts(1)] entry_format(2,3) [of env n v] assms(1)
    by (cases fmt) (simp_all add: entry_text_def)
  then obtain d' where "entry env name vfmt args st = Inr (?st0\<lparr>doc := Some d'\<rparr>)" "doc_is d' t'" by auto
  moreover have "t' = [] \<Longrightarrow> base ly = 0" using t' assms(2) by (auto simp: shows_doc_def)
  ultimately show ?thesis
    using shows_doc_after [OF assms(2), of d' t' ELEMENT_TYPE_ENTRY fs' "level ly (length rest)"] t'
    by (simp add: cur_of_def end_el_def frames_level_def)
qed

end
