(* ===== verification/DocTree.thy ===== *)
theory DocTree
  imports DocPrinter
begin

text \<open>
  Whole documents. An \<open>item\<close> is an entry or an element with its children, as the calls of the
  program nest; \<open>run_item\<close> makes the calls, \<open>render\<close> is a recursive printer that knows the
  tree. The theorems show that for every tree the program can build the calls succeed and
  write exactly what the printer gives, in JSON, XML and text, and that the state machine is
  back at the same level afterwards.
\<close>

datatype item = Entry string string "parg list" | Node kind string "item list"

fun run_item :: "cenv \<Rightarrow> item \<Rightarrow> ostate stmt" where
  "run_item env (Entry name fmt args) = entry env name fmt args"
| "run_item env (Node k name is) =
     do_all [do_open env k name, do_all (map (run_item env) is), do_close env k]"

definition enc_name :: "cenv \<Rightarrow> OutputFormat \<Rightarrow> string \<Rightarrow> wchar list" where
  "enc_name env fmt s = encode_list env fmt (the (mbs env s))"

definition enc_value :: "cenv \<Rightarrow> OutputFormat \<Rightarrow> string \<Rightarrow> parg list \<Rightarrow> wchar list" where
  "enc_value env fmt s args = encode_list env fmt (the (wformat env (the (mbs env s)) args))"

text \<open>The children of an element at level \<open>n\<close>, given their own texts at level \<open>n + 1\<close>.\<close>

fun body :: "OutputFormat \<Rightarrow> layout \<Rightarrow> nat \<Rightarrow> wchar list list \<Rightarrow> wchar list" where
  "body fmt ly n [] = (if blank_empty fmt then NL # pad ly n else [])"
| "body fmt ly n (x # xs) =
     NL # pad ly (Suc n) @ x @ concat (map (\<lambda>y. separator fmt @ pad ly (Suc n) @ y) xs) @ NL # pad ly n"

fun render :: "cenv \<Rightarrow> OutputFormat \<Rightarrow> layout \<Rightarrow> nat \<Rightarrow> item \<Rightarrow> wchar list" where
  "render env fmt ly n (Entry name vfmt args) =
     entry_text fmt ly (enc_name env fmt name) (enc_value env fmt vfmt args)"
| "render env fmt ly n (Node k name is) =
     open_text fmt k (if k = Obj then [] else enc_name env fmt name) @
     body fmt ly n (map (render env fmt ly (Suc n)) is) @ close_text fmt k"

definition is_obj :: "item \<Rightarrow> bool" where
  "is_obj i = (case i of Node Obj _ _ \<Rightarrow> True | _ \<Rightarrow> False)"

definition child_of :: "item \<Rightarrow> child" where
  "child_of i = (case i of Entry _ _ _ \<Rightarrow> ChEntry | Node k _ _ \<Rightarrow> Ch k)"

fun item_ok :: "cenv \<Rightarrow> OutputFormat \<Rightarrow> item \<Rightarrow> bool" where
  "item_ok env fmt (Entry name vfmt args) \<longleftrightarrow>
     name_ok env fmt name (enc_name env fmt name) \<and> value_ok env fmt vfmt args (enc_value env fmt vfmt args)"
| "item_ok env fmt (Node k name is) \<longleftrightarrow>
     (k = Obj \<longrightarrow> fmt = OUTPUT_FORMAT_JSON) \<and>
     (k \<noteq> Obj \<longrightarrow> name_ok env fmt name (enc_name env fmt name)) \<and>
     ((\<forall>i \<in> set is. \<not> is_obj i) \<or> k = Con \<and> (\<forall>i \<in> set is. is_obj i)) \<and>
     (\<forall>i \<in> set is. item_ok env fmt i)"

fun height :: "item \<Rightarrow> nat" where
  "height (Entry name vfmt args) = 0"
| "height (Node k name is) = Suc (Max (set (0 # map height is)))"

lemma height_child: "i \<in> set is \<Longrightarrow> Suc (height i) \<le> height (Node k name is)"
  by simp

lemma obj_is_json: "item_ok env fmt i \<Longrightarrow> is_obj i \<Longrightarrow> fmt = OUTPUT_FORMAT_JSON"
  by (cases i) (auto simp: is_obj_def split: kind.splits)

text \<open>A sequence of children of \<open>f\<close>, the way the program writes it.\<close>

fun children :: "OutputFormat \<Rightarrow> layout \<Rightarrow> frame \<Rightarrow> nat \<Rightarrow> (child \<times> wchar list) list \<Rightarrow> wchar list" where
  "children fmt ly f n [] = []"
| "children fmt ly f n ((ch, x) # xs) = gap fmt ly f n @ x @ children fmt ly (Frame (fkind f) (Some ch)) n xs"

definition last_child :: "frame \<Rightarrow> item list \<Rightarrow> frame" where
  "last_child f is = (if is = [] then f else Frame (fkind f) (Some (child_of (last is))))"

abbreviation texts :: "cenv \<Rightarrow> OutputFormat \<Rightarrow> layout \<Rightarrow> nat \<Rightarrow> item list \<Rightarrow> (child \<times> wchar list) list" where
  "texts env fmt ly n is \<equiv> map (\<lambda>i. (child_of i, render env fmt ly n i)) is"

lemma children_siblings:
  "flast f \<noteq> None \<Longrightarrow>
   children fmt ly f n xs = concat (map (\<lambda>y. separator fmt @ pad ly n @ y) (map snd xs))"
  by (induction xs arbitrary: f) (auto simp: gap_def)

lemma body_children:
  assumes "f = Frame (Some k) None"
  shows "body fmt ly n (map (render env fmt ly (Suc n)) is) =
    children fmt ly f (Suc n) (texts env fmt ly (Suc n) is) @ close_gap fmt ly (last_child f is) (Suc n)"
proof (cases "is")
  case Nil
  then show ?thesis using assms by (simp add: close_gap_def last_child_def)
next
  case (Cons i js)
  then show ?thesis using assms
    by (simp add: gap_def close_gap_def last_child_def children_siblings comp_def)
qed

definition runs_ok :: "cenv \<Rightarrow> OutputFormat \<Rightarrow> layout \<Rightarrow> item \<Rightarrow> bool" where
  "runs_ok env fmt ly i \<longleftrightarrow>
     (\<forall>st f rest t. shows_doc env fmt ly st (f # rest) t \<longrightarrow> stack_ok (f # rest) \<longrightarrow> allowed fmt f (child_of i) \<longrightarrow>
        item_ok env fmt i \<longrightarrow> level_ok ly (length rest + height i) \<longrightarrow>
        fits env (length t + length (gap fmt ly f (length rest) @ render env fmt ly (length rest) i)) \<longrightarrow>
        (\<exists>st'. run_item env i st = Inr st' \<and>
           shows_doc env fmt ly st' (Frame (fkind f) (Some (child_of i)) # rest)
             (t @ gap fmt ly f (length rest) @ render env fmt ly (length rest) i)))"

lemma runs_okD:
  assumes "runs_ok env fmt ly i" "shows_doc env fmt ly st (f # rest) t" "stack_ok (f # rest)"
    "allowed fmt f (child_of i)" "item_ok env fmt i" "level_ok ly (length rest + height i)"
    "fits env (length t + length (gap fmt ly f (length rest) @ render env fmt ly (length rest) i))"
  shows "\<exists>st'. run_item env i st = Inr st' \<and>
     shows_doc env fmt ly st' (Frame (fkind f) (Some (child_of i)) # rest)
       (t @ gap fmt ly f (length rest) @ render env fmt ly (length rest) i)"
  using assms unfolding runs_ok_def by blast

text \<open>Which children may follow one another.\<close>

definition seq_ok :: "OutputFormat \<Rightarrow> frame \<Rightarrow> item list \<Rightarrow> bool" where
  "seq_ok fmt f is \<longleftrightarrow> plain_frame fmt f \<and>
     (flast f \<noteq> Some (Ch Obj) \<and> (\<forall>i \<in> set is. \<not> is_obj i) \<or>
      fmt = OUTPUT_FORMAT_JSON \<and> fkind f = Some Con \<and> flast f \<in> {None, Some (Ch Obj)} \<and> (\<forall>i \<in> set is. is_obj i))"

lemma seq_ok_Cons:
  assumes "seq_ok fmt f (i # is)"
  shows "allowed fmt f (child_of i) \<and> seq_ok fmt (Frame (fkind f) (Some (child_of i))) is"
  using assms
  by (cases i) (auto simp: seq_ok_def allowed_def plain_frame_def child_of_def is_obj_def split: kind.splits)

lemma run_children:
  assumes "fmt \<noteq> OUTPUT_FORMAT_CRUMB" "\<forall>i \<in> set is. runs_ok env fmt ly i \<and> item_ok env fmt i \<and> level_ok ly (length rest + height i)"
    "shows_doc env fmt ly st (f # rest) t" "stack_ok (f # rest)" "seq_ok fmt f is"
    "fits env (length t + length (children fmt ly f (length rest) (texts env fmt ly (length rest) is)))"
  shows "\<exists>st'. do_all (map (run_item env) is) st = Inr st' \<and>
    shows_doc env fmt ly st' (last_child f is # rest)
      (t @ children fmt ly f (length rest) (texts env fmt ly (length rest) is))"
  using assms(2-)
proof (induction "is" arbitrary: st f t)
  case Nil
  then show ?case by (simp add: last_child_def)
next
  case (Cons i js)
  let ?f = "Frame (fkind f) (Some (child_of i))"
  let ?x = "gap fmt ly f (length rest) @ render env fmt ly (length rest) i"
  have a: "allowed fmt f (child_of i)" "seq_ok fmt ?f js" using seq_ok_Cons [OF Cons.prems(4)] by auto
  have len: "length (t @ ?x) \<le>
      length t + length (children fmt ly f (length rest) (texts env fmt ly (length rest) (i # js)))" by simp
  have fx: "fits env (length t + length ?x)" using fits_mono [OF Cons.prems(5) len] by simp
  have i: "runs_ok env fmt ly i" "item_ok env fmt i" "level_ok ly (length rest + height i)"
    using Cons.prems(1) by simp_all
  obtain st1 where st1: "run_item env i st = Inr st1" "shows_doc env fmt ly st1 (?f # rest) (t @ ?x)"
    using runs_okD [OF i(1) Cons.prems(2,3) a(1) i(2,3) fx] by blast
  have "\<exists>st'. do_all (map (run_item env) js) st1 = Inr st' \<and>
      shows_doc env fmt ly st' (last_child ?f js # rest)
        ((t @ ?x) @ children fmt ly ?f (length rest) (texts env fmt ly (length rest) js))"
    using Cons.prems st1(2) a(2) stack_ok_last [OF Cons.prems(3)]
    by (intro Cons.IH) (auto simp: add.assoc)
  then show ?case using st1(1) by (auto simp: last_child_def)
qed

text \<open>An element up to the call that closes it.\<close>

lemma open_and_children:
  assumes "fmt \<noteq> OUTPUT_FORMAT_CRUMB" "shows_doc env fmt ly st (f # rest) t" "stack_ok (f # rest)"
    "allowed fmt f (Ch k)" "item_ok env fmt (Node k name is)" "level_ok ly (length rest + height (Node k name is))"
    "\<forall>i \<in> set is. runs_ok env fmt ly i"
    "t' = t @ gap fmt ly f (length rest) @ open_text fmt k (if k = Obj then [] else enc_name env fmt name)"
    "F = Frame (Some k) None" "c = children fmt ly F (Suc (length rest)) (texts env fmt ly (Suc (length rest)) is)"
    "fits env (length t' + length c)"
  shows "\<exists>st2. bindE (do_open env k name st) (do_all (map (run_item env) is)) = Inr st2 \<and>
    shows_doc env fmt ly st2 (last_child F is # f # rest) (t' @ c)"
proof -
  let ?n = "if k = Obj then [] else enc_name env fmt name"
  obtain st1 where st1: "do_open env k name st = Inr st1" "shows_doc env fmt ly st1 (F # f # rest) t'"
    using do_open_ok [OF assms(1-4), of name ?n _ t'] assms(5,8,9)
      level_ok_mono [OF assms(6)] fits_mono [OF assms(11)] by auto
  have "seq_ok fmt F is" using assms(5,9) obj_is_json
    by (cases "is") (auto simp: seq_ok_def plain_frame_def)
  moreover have "level_ok ly (length (f # rest) + height i)" if "i \<in> set is" for i
    using height_child [OF that, of k name] by (intro level_ok_mono [OF assms(6)]) simp
  moreover have "stack_ok (F # f # rest)" unfolding assms(9) by (rule stack_ok_push [OF assms(3)])
  ultimately obtain st2 where "do_all (map (run_item env) is) st1 = Inr st2"
    "shows_doc env fmt ly st2 (last_child F is # f # rest) (t' @ c)"
    using run_children [OF assms(1) _ st1(2), of "is"] assms(5,7,10,11) by auto
  with st1(1) show ?thesis by simp
qed

lemma run_item_ok:
  assumes "fmt \<noteq> OUTPUT_FORMAT_CRUMB"
  shows "runs_ok env fmt ly i"
proof (induction i)
  case (Entry name vfmt args)
  show ?case unfolding runs_ok_def
  proof (intro allI impI, goal_cases)
    case (1 st f rest t)
    then show ?case
      using entry_ok [OF assms 1(1,2), of name _ vfmt args] by (auto simp: child_of_def)
  qed
next
  case (Node k name "is")
  show ?case unfolding runs_ok_def
  proof (intro allI impI, goal_cases)
    case (1 st f rest t)
    let ?n = "if k = Obj then [] else enc_name env fmt name"
    let ?F = "Frame (Some k) None" and ?m = "length rest"
    let ?t = "t @ gap fmt ly f ?m @ open_text fmt k ?n"
    let ?c = "children fmt ly ?F (Suc ?m) (texts env fmt ly (Suc ?m) is)"
    let ?e = "close_gap fmt ly (last_child ?F is) (Suc ?m)"
    have ok: "item_ok env fmt (Node k name is)" and k: "allowed fmt f (Ch k)"
      using 1(3,4) by (simp_all add: child_of_def)
    have r: "render env fmt ly ?m (Node k name is) = open_text fmt k ?n @ ?c @ ?e @ close_text fmt k"
      using body_children [of ?F k fmt ly ?m env "is"] by simp
    have fit: "fits env (length (?t @ ?c @ ?e @ close_text fmt k))"
      using 1(6) unfolding r by (simp add: add.assoc)
    have "fits env (length ?t + length ?c)" using fits_mono [OF fit] by simp
    then obtain st2 where st2: "bindE (do_open env k name st) (do_all (map (run_item env) is)) = Inr st2"
      "shows_doc env fmt ly st2 (last_child ?F is # f # rest) (?t @ ?c)"
      using open_and_children [OF assms 1(1,2) k ok 1(5) _ refl refl refl] Node.IH by blast
    have "closable fmt (last_child ?F is) k"
      using ok by (cases "is" rule: rev_cases)
        (auto simp: closable_def plain_frame_def last_child_def child_of_def is_obj_def split: item.splits kind.splits)
    moreover have "level_ok ly (Suc ?m)" by (rule level_ok_mono [OF 1(5)]) simp
    ultimately obtain st3 where "do_close env k st2 = Inr st3"
      "shows_doc env fmt ly st3 (Frame (fkind f) (Some (Ch k)) # rest) ((?t @ ?c) @ ?e @ close_text fmt k)"
      using do_close_ok [OF assms st2(2)] fit by auto
    then show ?case using st2(1) unfolding r by (auto simp: child_of_def bindE_Inr_iff)
  qed
qed

section \<open>Whole documents\<close>

definition run_document :: "cenv \<Rightarrow> pkg \<Rightarrow> item list \<Rightarrow> ostate stmt" where
  "run_document env pk is =
     do_all [master_header env pk, do_all (map (run_item env) is), master_footer env pk]"

definition items_height :: "item list \<Rightarrow> nat" where
  "items_height is = Max (set (0 # map height is))"

lemma items_height_le: "i \<in> set is \<Longrightarrow> height i \<le> items_height is"
  by (simp add: items_height_def)

text \<open>The state before the header: nothing written, no element seen, no indent.\<close>

definition fresh :: "cenv \<Rightarrow> OutputFormat \<Rightarrow> layout \<Rightarrow> ostate \<Rightarrow> bool" where
  "fresh env fmt ly st \<longleftrightarrow> shows_doc env fmt (ly\<lparr>base := 0\<rparr>) st [Frame None None] []"

lemma root_stack: "stack_ok [Frame None l]"
  by (simp add: stack_ok_def)

lemma run_top:
  assumes "fmt \<noteq> OUTPUT_FORMAT_CRUMB" "shows_doc env fmt ly st [Frame None None] t"
    "\<forall>i \<in> set is. item_ok env fmt i \<and> \<not> is_obj i" "level_ok ly (items_height is)"
    "fits env (length t + length (children fmt ly (Frame None None) 0 (texts env fmt ly 0 is)))"
  shows "\<exists>st'. do_all (map (run_item env) is) st = Inr st' \<and>
    shows_doc env fmt ly st' [last_child (Frame None None) is]
      (t @ children fmt ly (Frame None None) 0 (texts env fmt ly 0 is))"
proof -
  have lv: "\<forall>i \<in> set is. level_ok ly (0 + height i)"
    using level_ok_mono [OF assms(4)] items_height_le by simp
  have sq: "seq_ok fmt (Frame None None) is" using assms(3) by (simp add: seq_ok_def plain_frame_def)
  show ?thesis
    using run_children [OF assms(1) _ assms(2) root_stack sq] run_item_ok [OF assms(1)] assms(3,5) lv by simp
qed

lemma indent_after_top: "shows_doc env fmt ly st [last_child (Frame None None) is] t \<Longrightarrow> indent st = int (base ly)"
  by (auto simp: shows_doc_def frames_level_def level_def last_child_def split: if_splits)

lemma json_document_text:
  assumes "fresh env OUTPUT_FORMAT_JSON ly st" "base ly = 0" "item_ok env OUTPUT_FORMAT_JSON (Node Obj [] is)"
    "level_ok ly (Suc (items_height is))"
    "fits env (length (render env OUTPUT_FORMAT_JSON ly 0 (Node Obj [] is)) + 1)"
  shows "\<exists>st'. run_document env pk is st = Inr st' \<and> indent st' = 0 \<and>
    has_text st' (render env OUTPUT_FORMAT_JSON ly 0 (Node Obj [] is) @ [NL])"
proof -
  let ?J = OUTPUT_FORMAT_JSON and ?f = "Frame None None" and ?F = "Frame (Some Obj) None"
  let ?c = "children ?J ly ?F 1 (texts env ?J ly 1 is)" and ?R = "render env ?J ly 0 (Node Obj [] is)"
  have ly: "ly\<lparr>base := 0\<rparr> = ly" using assms(2) by (cases ly) simp
  have s: "shows_doc env ?J ly st [?f] []" using assms(1) ly by (simp add: fresh_def)
  have g: "gap ?J ly ?f 0 = []" using assms(2) by (simp add: gap_def pad_def level_def)
  have h: "height (Node Obj [] is) = Suc (items_height is)" by (simp add: items_height_def)
  have al: "allowed ?J ?f (Ch Obj)" by (simp add: allowed_def plain_frame_def)
  have r: "?R = open_text ?J Obj [] @ ?c @ close_gap ?J ly (last_child ?F is) 1 @ close_text ?J Obj"
    using body_children [of ?F Obj ?J ly 0 env "is"] by simp
  have fit: "fits env (length (open_text ?J Obj []) + length ?c)" using fits_mono [OF assms(5)] r by simp
  obtain st2 where st2: "bindE (do_open env Obj [] st) (do_all (map (run_item env) is)) = Inr st2"
    "shows_doc env ?J ly st2 [last_child ?F is, ?f] (open_text ?J Obj [] @ ?c)"
    using open_and_children [OF _ s root_stack al assms(3) _ _ _ refl, of "open_text ?J Obj []" ?c]
      assms(4) g h fit run_item_ok by auto
  have "closable ?J (last_child ?F is) Obj"
    using assms(3) by (cases "is" rule: rev_cases)
      (auto simp: closable_def plain_frame_def last_child_def child_of_def is_obj_def split: item.splits kind.splits)
  moreover have "fits env (length ?R)" using fits_mono [OF assms(5)] by simp
  moreover have "level_ok ly (Suc 0)" by (rule level_ok_mono [OF assms(4)]) simp
  ultimately obtain st1 where st1: "do_close env Obj st2 = Inr st1"
    "shows_doc env ?J ly st1 [Frame None (Some (Ch Obj))] ?R"
    using do_close_ok [OF _ st2(2), of Obj _ ?R] r by auto
  have ht: "has_text st1 ?R" "indent st1 = 0"
    using st1(2) assms(2) by (auto simp: shows_doc_def frames_level_def level_def)
  obtain d where d: "doc_wappend env [NL] st1 = Inr (st1\<lparr>doc := Some d\<rparr>)" "doc_is d (?R @ [NL])"
    using doc_wappend_ok [OF ht(1), of "[NL]" env] assms(5) by auto
  have "run_document env pk is st = Inr (st1\<lparr>doc := Some d\<rparr>)"
    using st2(1) st1(1) d(1) shows_common [OF s] shows_common [OF st2(2)] shows_format [OF s] shows_format [OF st2(2)]
    by (auto simp: run_document_def master_header_def master_footer_def do_open_def do_close_def bindE_Inr_iff)
  with d ht(2) show ?thesis by (simp add: has_text_def)
qed

text \<open>The opening of an XML document.\<close>

definition xml_prolog :: "cenv \<Rightarrow> pkg \<Rightarrow> nat \<Rightarrow> wchar list" where
  "xml_prolog env pk uid =
     L ''<?xml version=\"1.0\" encoding=\"UTF-8\"?>'' @ [NL] @
     L ''<'' @ the (mbs env (PACKAGE_NAME pk)) @ L '' version=\"'' @ the (mbs env (PACKAGE_VERSION pk)) @
     L ''\" package_string=\"'' @ the (mbs env (PACKAGE_STRING pk)) @
     L ''\" mode=\"'' @ (if uid \<noteq> 0 then L ''non-'' else []) @ L ''privileged\" format_version=\"24\">'' @ [NL]"

text \<open>The locale converts the constants of the header.\<close>

definition converts :: "cenv \<Rightarrow> string \<Rightarrow> bool" where
  "converts env s \<longleftrightarrow> (case mbs env s of None \<Rightarrow> False | Some w \<Rightarrow> 0 \<notin> set w)"

definition pkg_ok :: "cenv \<Rightarrow> pkg \<Rightarrow> bool" where
  "pkg_ok env pk \<longleftrightarrow>
     converts env (PACKAGE_NAME pk) \<and> converts env (PACKAGE_VERSION pk) \<and> converts env (PACKAGE_STRING pk) \<and>
     mbs env ''non-'' = Some (L ''non-'') \<and> mbs env [] = Some [] \<and> mbs env ''privileged'' = Some (L ''privileged'')"

lemma nat_digits_24: "nat_digits 10 24 = [50, 52]"
  by (simp add: nat_digits.simps digit_char_def)

lemma header_format:
  assumes "mbs env a = Some a'" "mbs env b = Some b'" "mbs env c = Some c'" "mbs env e = Some e'" "mbs env p = Some p'"
  shows "wformat env
     (L ''<%s version=\"%s\" package_string=\"%s\" mode=\"%s%s\" format_version=\"%d\">'' @ [NL])
     [PStr a, PStr b, PStr c, PStr e, PStr p, PInt PROCENV_FORMAT_VERSION] =
   Some (L ''<'' @ a' @ L '' version=\"'' @ b' @ L ''\" package_string=\"'' @ c' @ L ''\" mode=\"'' @
         e' @ p' @ L ''\" format_version=\"24\">'' @ [NL])"
  using assms by (simp add: wformat_def fmt_eval PROCENV_FORMAT_VERSION_def nat_digits_24)

lemma footer_format:
  "mbs env a = Some a' \<Longrightarrow> wformat env (L ''</%s>'' @ [NL]) [PStr a] = Some (L ''</'' @ a' @ L ''>'' @ [NL])"
  by (simp add: wformat_def fmt_eval)

lemma xml_prolog_ok:
  assumes "fresh env OUTPUT_FORMAT_XML ly st" "base ly = amount ly" "pkg_ok env pk"
    "fits env (length (xml_prolog env pk (euid st)))" "level_ok ly 0"
  shows "\<exists>st'. master_header env pk st = Inr st' \<and>
    shows_doc env OUTPUT_FORMAT_XML ly st' [Frame None None] (xml_prolog env pk (euid st))"
proof -
  let ?l1 = "L ''<?xml version=\"1.0\" encoding=\"UTF-8\"?>'' @ [NL]"
  have s: "has_text st []" "output_format st = OUTPUT_FORMAT_XML" "indent_amount st = int (amount ly)"
    "indents env st (pad_char ly)" "current_element st = ELEMENT_TYPE_NONE" "indent st = 0"
    "mbs env (text_separator st) = Some (tsep ly)" "0 \<notin> set (tsep ly)"
    using assms(1) by (auto simp: fresh_def shows_doc_def cur_of_def frames_level_def level_def)
  obtain a b c where p: "mbs env (PACKAGE_NAME pk) = Some a" "mbs env (PACKAGE_VERSION pk) = Some b"
    "mbs env (PACKAGE_STRING pk) = Some c" "0 \<notin> set a" "0 \<notin> set b" "0 \<notin> set c"
    using assms(3) by (auto simp: pkg_ok_def converts_def split: option.splits)
  let ?e = "if euid st \<noteq> 0 then ''non-'' else []" and ?e' = "if euid st \<noteq> 0 then L ''non-'' else []"
  let ?l2 = "L ''<'' @ a @ L '' version=\"'' @ b @ L ''\" package_string=\"'' @ c @ L ''\" mode=\"'' @
         ?e' @ L ''privileged'' @ L ''\" format_version=\"24\">'' @ [NL]"
  have e: "mbs env ?e = Some ?e'" "mbs env ''privileged'' = Some (L ''privileged'')"
    using assms(3) by (auto simp: pkg_ok_def)
  have x: "xml_prolog env pk (euid st) = ?l1 @ ?l2" using p by (simp add: xml_prolog_def L_def)
  have ca: "common_assert st = Inr st" using common_assert_ok s(1,3) by simp
  obtain d1 where d1: "doc_wappend env ?l1 st = Inr (st\<lparr>doc := Some d1\<rparr>)" "doc_is d1 ?l1"
    using doc_wappend_ok [OF s(1), of ?l1 env] fits_mono [OF assms(4), of "length ?l1"] x by (auto simp: L_def)
  have f2: "fits env (length ?l1 + length ?l2)" using assms(4) x by simp
  have n2: "0 \<notin> set ?l2" using p by (auto simp: L_def)
  have h1: "has_text (st\<lparr>doc := Some d1\<rparr>) ?l1" using d1 by (simp add: has_text_def)
  obtain d2 where d2: "doc_wappendf env
      (L ''<%s version=\"%s\" package_string=\"%s\" mode=\"%s%s\" format_version=\"%d\">'' @ [NL])
      [PStr (PACKAGE_NAME pk), PStr (PACKAGE_VERSION pk), PStr (PACKAGE_STRING pk),
       PStr ?e, PStr ''privileged'', PInt PROCENV_FORMAT_VERSION] (st\<lparr>doc := Some d1\<rparr>) = Inr (st\<lparr>doc := Some d2\<rparr>)"
    "doc_is d2 (?l1 @ ?l2)"
    using doc_wappendf_ok [OF h1 header_format [OF p(1-3) e] n2 f2] by auto
  let ?st = "st\<lparr>indent := int (base ly), doc := Some d2\<rparr>"
  have i: "inc_indent (st\<lparr>doc := Some d2\<rparr>) = Inr ?st"
    using s(3,6) assms(2,5) by (simp add: inc_indent_def add_int_def level_ok_def level_def)
  have "master_header env pk st = Inr ?st"
    using ca s(2) d1(1) d2(1) i by (simp add: master_header_def)
  moreover have "shows_doc env OUTPUT_FORMAT_XML ly ?st [Frame None None] (xml_prolog env pk (euid st))"
    using s d2(2) x by (simp add: shows_doc_def has_text_def indents_def cur_of_def frames_level_def level_def L_def)
  ultimately show ?thesis by blast
qed

lemma xml_document_text:
  assumes "fresh env OUTPUT_FORMAT_XML ly st" "base ly = amount ly" "pkg_ok env pk"
    "\<forall>i \<in> set is. item_ok env OUTPUT_FORMAT_XML i" "level_ok ly (items_height is)"
    "t = xml_prolog env pk (euid st) @
         children OUTPUT_FORMAT_XML ly (Frame None None) 0 (texts env OUTPUT_FORMAT_XML ly 0 is) @
         [NL] @ L ''</'' @ the (mbs env (PACKAGE_NAME pk)) @ L ''>'' @ [NL]" "fits env (length t)"
  shows "\<exists>st'. run_document env pk is st = Inr st' \<and> indent st' = 0 \<and> has_text st' t"
proof -
  let ?X = OUTPUT_FORMAT_XML
  let ?c = "children ?X ly (Frame None None) 0 (texts env ?X ly 0 is)" and ?p = "xml_prolog env pk (euid st)"
  have lv: "level_ok ly 0" using level_ok_mono [OF assms(5)] by simp
  have f1: "fits env (length ?p)" using fits_mono [OF assms(7)] assms(6) by simp
  obtain st1 where st1: "master_header env pk st = Inr st1" "shows_doc env ?X ly st1 [Frame None None] ?p"
    using xml_prolog_ok [OF assms(1-3) f1 lv] by blast
  have no: "\<forall>i \<in> set is. item_ok env ?X i \<and> \<not> is_obj i" using assms(4) obj_is_json by blast
  have f2: "fits env (length ?p + length ?c)" using fits_mono [OF assms(7)] assms(6) by simp
  obtain st2 where st2: "do_all (map (run_item env) is) st1 = Inr st2"
    "shows_doc env ?X ly st2 [last_child (Frame None None) is] (?p @ ?c)"
    using run_top [OF _ st1(2) no assms(5) f2] by auto
  have s: "has_text st2 (?p @ ?c)" "indent_amount st2 = int (amount ly)" "indent st2 = int (base ly)"
    using st2(2) indent_after_top [OF st2(2)] by (auto simp: shows_doc_def)
  have f3: "fits env (length (?p @ ?c) + length [NL])" using fits_mono [OF assms(7)] assms(6) by simp
  obtain d1 where d1: "doc_wappend env [NL] st2 = Inr (st2\<lparr>doc := Some d1\<rparr>)" "doc_is d1 ((?p @ ?c) @ [NL])"
    using doc_wappend_ok [OF s(1) _ f3] by auto
  let ?st = "st2\<lparr>doc := Some d1, indent := 0\<rparr>"
  have i: "dec_indent (st2\<lparr>doc := Some d1\<rparr>) = Inr ?st"
    using s assms(2) by (simp add: dec_indent_def add_int_def int_range_def)
  obtain a where a: "mbs env (PACKAGE_NAME pk) = Some a" "0 \<notin> set a"
    using assms(3) by (auto simp: pkg_ok_def converts_def split: option.splits)
  have "has_text ?st ((?p @ ?c) @ [NL])" using d1 by (simp add: has_text_def)
  moreover have "fits env (length ((?p @ ?c) @ [NL]) + length (L ''</'' @ a @ L ''>'' @ [NL]))"
    using assms(6,7) a by (simp add: add.assoc)
  moreover have "0 \<notin> set (L ''</'' @ a @ L ''>'' @ [NL])" using a by (simp add: L_def)
  ultimately obtain d2 where d2: "doc_wappendf env (L ''</%s>'' @ [NL]) [PStr (PACKAGE_NAME pk)] ?st =
      Inr (?st\<lparr>doc := Some d2\<rparr>)" "doc_is d2 t"
    using doc_wappendf_ok [OF _ footer_format [OF a(1)]] assms(6) a by fastforce
  have "run_document env pk is st = Inr (?st\<lparr>doc := Some d2\<rparr>)"
    using st1(1) st2(1) d1(1) i d2(1) shows_common [OF st2(2)] shows_format [OF st2(2)]
    by (simp add: run_document_def master_footer_def)
  with d2(2) show ?thesis by (simp add: has_text_def)
qed

lemma text_document_text:
  assumes "fresh env OUTPUT_FORMAT_TEXT ly st" "base ly = 0"
    "\<forall>i \<in> set is. item_ok env OUTPUT_FORMAT_TEXT i" "level_ok ly (items_height is)"
    "t = children OUTPUT_FORMAT_TEXT ly (Frame None None) 0 (texts env OUTPUT_FORMAT_TEXT ly 0 is) @ [NL]"
    "fits env (length t)"
  shows "\<exists>st'. run_document env pk is st = Inr st' \<and> indent st' = 0 \<and> has_text st' t"
proof -
  let ?T = OUTPUT_FORMAT_TEXT
  let ?c = "children ?T ly (Frame None None) 0 (texts env ?T ly 0 is)"
  have ly: "ly\<lparr>base := 0\<rparr> = ly" using assms(2) by (cases ly) simp
  have s1: "shows_doc env ?T ly st [Frame None None] []" using assms(1) ly by (simp add: fresh_def)
  have no: "\<forall>i \<in> set is. item_ok env ?T i \<and> \<not> is_obj i" using assms(3) obj_is_json by blast
  have f2: "fits env (length [] + length ?c)" using fits_mono [OF assms(6)] assms(5) by simp
  obtain st2 where st2: "do_all (map (run_item env) is) st = Inr st2"
    "shows_doc env ?T ly st2 [last_child (Frame None None) is] ?c"
    using run_top [OF _ s1 no assms(4) f2] by auto
  have s: "has_text st2 ?c" "indent st2 = 0"
    using st2(2) indent_after_top [OF st2(2)] assms(2) by (auto simp: shows_doc_def)
  have f3: "fits env (length ?c + length [NL])" using assms(5,6) by simp
  obtain d1 where d1: "doc_wappend env [NL] st2 = Inr (st2\<lparr>doc := Some d1\<rparr>)" "doc_is d1 (?c @ [NL])"
    using doc_wappend_ok [OF s(1) _ f3] by auto
  have "run_document env pk is st = Inr (st2\<lparr>doc := Some d1\<rparr>)"
    using shows_common [OF s1] shows_format [OF s1] st2(1) d1(1) shows_common [OF st2(2)] shows_format [OF st2(2)]
    by (simp add: run_document_def master_header_def master_footer_def)
  with d1(2) s(2) assms(5) show ?thesis by (simp add: has_text_def)
qed

section \<open>Properties\<close>

text \<open>
  C5: for every tree of sections, containers, objects and entries with encodable names and
  values, the calls of a JSON document succeed (no assertion is reached, no buffer overrun),
  write exactly the indented rendering of the tree, and leave the indent at zero.
\<close>

theorem json_document_correct:
  assumes "fresh env OUTPUT_FORMAT_JSON ly st" "base ly = 0" "item_ok env OUTPUT_FORMAT_JSON (Node Obj [] is)"
    "level_ok ly (Suc (items_height is))"
    "fits env (length (render env OUTPUT_FORMAT_JSON ly 0 (Node Obj [] is)) + 1)"
  shows "\<exists>st'. run_document env pk is st = Inr st' \<and> indent st' = 0 \<and>
    has_text st' (render env OUTPUT_FORMAT_JSON ly 0 (Node Obj [] is) @ [NL])"
  by (rule json_document_text [OF assms])

text \<open>A small tree for the examples, in a state fresh from \<^verbatim>\<open>main\<close>.\<close>

definition example_state :: "OutputFormat \<Rightarrow> ostate" where
  "example_state fmt = ostate0\<lparr>output_format := fmt, doc := Some \<lparr>buf = None, len = 0, bsize = 0\<rparr>\<rparr>"

definition example_layout :: "nat \<Rightarrow> layout" where
  "example_layout b = \<lparr>base = b, amount = 2, pad_char = 32, tsep = [58, 32]\<rparr>"

definition example_items :: "item list" where
  "example_items = [Node Sec ''s'' [Entry ''k'' ''%s'' [PStr ''v''], Node Con ''c'' []], Node Sec ''e'' []]"

definition example_pkg :: pkg where
  "example_pkg = \<lparr>PACKAGE_NAME = ''p'', PACKAGE_VERSION = ''1'', PACKAGE_STRING = ''p 1''\<rparr>"

lemmas example_simps = ascii_env_def ascii_mbs_def enc_name_def enc_value_def name_ok_def value_ok_def
  wformat_def fmt_eval fits_def alloc_ok_def sizeof_wchar_def escapable_def

lemma example_layout_sel: "base (example_layout b) = b" "amount (example_layout b) = 2"
  by (simp_all add: example_layout_def)

lemma example_pkg_ok: "pkg_ok ascii_env example_pkg"
  by (simp add: pkg_ok_def converts_def example_pkg_def ascii_env_def ascii_mbs_def L_def)

lemma example_fresh: "fmt \<noteq> OUTPUT_FORMAT_CRUMB \<Longrightarrow> fresh ascii_env fmt (example_layout b) (example_state fmt)"
  by (simp add: fresh_def shows_doc_def has_text_def doc_is_new example_state_def example_layout_def ostate0_def
      indents_def DEFAULT_INDENT_CHAR_def ascii_env_def ascii_mbs_def cur_of_def frames_level_def level_def)

lemma example_items_ok: "item_ok ascii_env fmt i" if "i \<in> set example_items"
  using that by (auto simp: example_items_def is_obj_def example_simps)

lemma example_level: "n \<le> 100 \<Longrightarrow> b \<le> 2 \<Longrightarrow> level_ok (example_layout b) n"
  by (simp add: level_ok_def level_def example_layout_def int_range_def)

lemma example_render_length:
  "length (children OUTPUT_FORMAT_XML (example_layout 2) (Frame None None) 0
     (texts ascii_env OUTPUT_FORMAT_XML (example_layout 2) 0 example_items)) \<le> 1000"
  "length (render ascii_env OUTPUT_FORMAT_JSON (example_layout 0) 0 (Node Obj [] example_items)) \<le> 1000"
  "length (children OUTPUT_FORMAT_TEXT (example_layout 0) (Frame None None) 0
     (texts ascii_env OUTPUT_FORMAT_TEXT (example_layout 0) 0 example_items)) \<le> 1000"
  by (simp_all add: example_items_def example_simps gap_def pad_def level_def example_layout_def blank_empty_def
      separator_def open_text_def close_text_def entry_text_def translate_char_def escape_char_def)

theorem json_document_correct_witness:
  "\<exists>st'. run_document ascii_env example_pkg example_items (example_state OUTPUT_FORMAT_JSON) = Inr st' \<and> indent st' = 0 \<and>
    has_text st' (render ascii_env OUTPUT_FORMAT_JSON (example_layout 0) 0 (Node Obj [] example_items) @ [NL])"
proof (rule json_document_correct)
  show "item_ok ascii_env OUTPUT_FORMAT_JSON (Node Obj [] example_items)"
    using example_items_ok by (auto simp: example_items_def is_obj_def)
  show "level_ok (example_layout 0) (Suc (items_height example_items))"
    by (rule example_level) (simp_all add: items_height_def example_items_def)
  show "fits ascii_env (length (render ascii_env OUTPUT_FORMAT_JSON (example_layout 0) 0 (Node Obj [] example_items)) + 1)"
    by (rule fits_mono [of _ 1001]) (use example_render_length(2) in \<open>simp_all add: example_simps\<close>)
qed (simp_all add: example_fresh example_layout_sel)

text \<open>
  C6: an XML document is the prolog, the indented rendering of its elements and the closing
  tag of the root element, which is the package name; the indent returns to zero.
\<close>

theorem xml_document_correct:
  assumes "fresh env OUTPUT_FORMAT_XML ly st" "base ly = amount ly" "pkg_ok env pk"
    "\<forall>i \<in> set is. item_ok env OUTPUT_FORMAT_XML i" "level_ok ly (items_height is)"
    "t = xml_prolog env pk (euid st) @
         children OUTPUT_FORMAT_XML ly (Frame None None) 0 (texts env OUTPUT_FORMAT_XML ly 0 is) @
         [NL] @ L ''</'' @ the (mbs env (PACKAGE_NAME pk)) @ L ''>'' @ [NL]" "fits env (length t)"
  shows "\<exists>st'. run_document env pk is st = Inr st' \<and> indent st' = 0 \<and> has_text st' t"
  by (rule xml_document_text [OF assms])

theorem xml_document_correct_witness:
  "\<exists>st'. run_document ascii_env example_pkg example_items (example_state OUTPUT_FORMAT_XML) = Inr st' \<and> indent st' = 0 \<and>
    has_text st' (xml_prolog ascii_env example_pkg (euid (example_state OUTPUT_FORMAT_XML)) @
         children OUTPUT_FORMAT_XML (example_layout 2) (Frame None None) 0
           (texts ascii_env OUTPUT_FORMAT_XML (example_layout 2) 0 example_items) @
         [NL] @ L ''</'' @ the (mbs ascii_env (PACKAGE_NAME example_pkg)) @ L ''>'' @ [NL])"
proof (rule xml_document_correct)
  show "fits ascii_env (length (xml_prolog ascii_env example_pkg (euid (example_state OUTPUT_FORMAT_XML)) @
         children OUTPUT_FORMAT_XML (example_layout 2) (Frame None None) 0
           (texts ascii_env OUTPUT_FORMAT_XML (example_layout 2) 0 example_items) @
         [NL] @ L ''</'' @ the (mbs ascii_env (PACKAGE_NAME example_pkg)) @ L ''>'' @ [NL]))"
    by (rule fits_mono [of _ 2000])
      (use example_render_length(1) in \<open>simp_all add: example_simps xml_prolog_def example_pkg_def\<close>)
  show "level_ok (example_layout 2) (items_height example_items)"
    by (rule example_level) (simp_all add: items_height_def example_items_def)
qed (use example_items_ok in \<open>simp_all add: example_fresh example_layout_sel example_pkg_ok\<close>)

text \<open>
  C7: a text document is the rendering of its elements by lines, names and values joined by
  the text separator, and a final line end; the indent returns to zero.
\<close>

theorem text_document_correct:
  assumes "fresh env OUTPUT_FORMAT_TEXT ly st" "base ly = 0"
    "\<forall>i \<in> set is. item_ok env OUTPUT_FORMAT_TEXT i" "level_ok ly (items_height is)"
    "t = children OUTPUT_FORMAT_TEXT ly (Frame None None) 0 (texts env OUTPUT_FORMAT_TEXT ly 0 is) @ [NL]"
    "fits env (length t)"
  shows "\<exists>st'. run_document env pk is st = Inr st' \<and> indent st' = 0 \<and> has_text st' t"
  by (rule text_document_text [OF assms])

theorem text_document_correct_witness:
  "\<exists>st'. run_document ascii_env example_pkg example_items (example_state OUTPUT_FORMAT_TEXT) = Inr st' \<and> indent st' = 0 \<and>
    has_text st' (children OUTPUT_FORMAT_TEXT (example_layout 0) (Frame None None) 0
           (texts ascii_env OUTPUT_FORMAT_TEXT (example_layout 0) 0 example_items) @ [NL])"
proof (rule text_document_correct)
  show "fits ascii_env (length (children OUTPUT_FORMAT_TEXT (example_layout 0) (Frame None None) 0
           (texts ascii_env OUTPUT_FORMAT_TEXT (example_layout 0) 0 example_items) @ [NL]))"
    by (rule fits_mono [of _ 1001]) (use example_render_length(3) in \<open>simp_all add: example_simps\<close>)
  show "level_ok (example_layout 0) (items_height example_items)"
    by (rule example_level) (simp_all add: items_height_def example_items_def)
qed (use example_items_ok in \<open>simp_all add: example_fresh example_layout_sel\<close>)

end
