(* ===== verification/JsonDoc.thy ===== *)
theory JsonDoc
  imports DocTree
begin

text \<open>
  JSON documents are JSON: the grammar of RFC 8259, as far as procenv uses it (strings,
  objects and arrays), as inductive predicates, and the proof that what the program prints
  for a tree whose containers hold objects is derivable in it.
\<close>

section \<open>Grammar\<close>

definition ws :: "wchar list \<Rightarrow> bool" where
  "ws w \<longleftrightarrow> (\<forall>c \<in> set w. c = 32 \<or> c = 9 \<or> c = 10 \<or> c = 13)"

text \<open>The inside of a string: quotes and backslashes only escaped, no control characters.\<close>

definition jchars :: "wchar list \<Rightarrow> bool" where
  "jchars b \<longleftrightarrow> json_inside b \<and> (\<forall>c \<in> set b. 32 \<le> c)"

inductive jvalue :: "wchar list \<Rightarrow> bool"
  and jmember :: "wchar list \<Rightarrow> bool"
  and jmembers :: "wchar list \<Rightarrow> bool"
  and jelements :: "wchar list \<Rightarrow> bool"
where
  jstring: "jchars b \<Longrightarrow> jvalue (34 # b @ [34])"
| jobject_empty: "ws w \<Longrightarrow> jvalue (123 # w @ [125])"
| jobject: "jmembers m \<Longrightarrow> jvalue (123 # m @ [125])"
| jarray_empty: "ws w \<Longrightarrow> jvalue (91 # w @ [93])"
| jarray: "jelements m \<Longrightarrow> jvalue (91 # m @ [93])"
| jmember: "jchars b \<Longrightarrow> ws w1 \<Longrightarrow> ws w2 \<Longrightarrow> jvalue v \<Longrightarrow> jmember (34 # b @ [34] @ w1 @ [58] @ w2 @ v)"
| jmembers_one: "ws w1 \<Longrightarrow> jmember x \<Longrightarrow> ws w2 \<Longrightarrow> jmembers (w1 @ x @ w2)"
| jmembers_more: "ws w1 \<Longrightarrow> jmember x \<Longrightarrow> ws w2 \<Longrightarrow> jmembers m \<Longrightarrow> jmembers (w1 @ x @ w2 @ [44] @ m)"
| jelements_one: "ws w1 \<Longrightarrow> jvalue x \<Longrightarrow> ws w2 \<Longrightarrow> jelements (w1 @ x @ w2)"
| jelements_more: "ws w1 \<Longrightarrow> jvalue x \<Longrightarrow> ws w2 \<Longrightarrow> jelements m \<Longrightarrow> jelements (w1 @ x @ w2 @ [44] @ m)"

section \<open>The printer stays in the grammar\<close>

definition json_layout :: "layout \<Rightarrow> bool" where
  "json_layout ly \<longleftrightarrow> ws [pad_char ly]"

lemma ws_simps [simp]: "ws []" "ws (c # w) \<longleftrightarrow> (c = 32 \<or> c = 9 \<or> c = 10 \<or> c = 13) \<and> ws w" "ws (v @ w) \<longleftrightarrow> ws v \<and> ws w"
  by (auto simp: ws_def)

lemma ws_pad: "json_layout ly \<Longrightarrow> ws (pad ly n)"
  by (auto simp: json_layout_def pad_def ws_def)

text \<open>The rows of a body, as members or as elements.\<close>

lemma jmembers_rows:
  assumes "json_layout ly" "\<forall>y \<in> set (x # xs). jmember y"
  shows "jmembers (NL # pad ly m @ x @ concat (map (\<lambda>y. [44, NL] @ pad ly m @ y) xs) @ NL # pad ly n)"
  using assms(2)
proof (induction xs arbitrary: x)
  case Nil
  then show ?case using jmembers_one [of "NL # pad ly m" x "NL # pad ly n"] ws_pad [OF assms(1)] by simp
next
  case (Cons y ys)
  then have "jmembers (NL # pad ly m @ y @ concat (map (\<lambda>y. [44, NL] @ pad ly m @ y) ys) @ NL # pad ly n)" by simp
  from jmembers_more [of "NL # pad ly m" x "[]", OF _ _ _ this] Cons.prems ws_pad [OF assms(1)]
  show ?case by simp
qed

lemma jelements_rows:
  assumes "json_layout ly" "\<forall>y \<in> set (x # xs). jvalue y"
  shows "jelements (NL # pad ly m @ x @ concat (map (\<lambda>y. [44, NL] @ pad ly m @ y) xs) @ NL # pad ly n)"
  using assms(2)
proof (induction xs arbitrary: x)
  case Nil
  then show ?case using jelements_one [of "NL # pad ly m" x "NL # pad ly n"] ws_pad [OF assms(1)] by simp
next
  case (Cons y ys)
  then have "jelements (NL # pad ly m @ y @ concat (map (\<lambda>y. [44, NL] @ pad ly m @ y) ys) @ NL # pad ly n)" by simp
  from jelements_more [of "NL # pad ly m" x "[]", OF _ _ _ this] Cons.prems ws_pad [OF assms(1)]
  show ?case by simp
qed

lemma jvalue_object_body:
  assumes "json_layout ly" "\<forall>y \<in> set xs. jmember y"
  shows "jvalue (123 # body OUTPUT_FORMAT_JSON ly n xs @ [125])"
proof (cases xs)
  case Nil
  then show ?thesis using jobject_empty [of "[]"] by (simp add: blank_empty_def)
next
  case (Cons x ys)
  with assms(2) jobject [OF jmembers_rows [OF assms(1), of x ys "Suc n" n]] show ?thesis
    by (simp add: separator_def)
qed

lemma jvalue_array_body:
  assumes "json_layout ly" "\<forall>y \<in> set xs. jvalue y"
  shows "jvalue (91 # body OUTPUT_FORMAT_JSON ly n xs @ [93])"
proof (cases xs)
  case Nil
  then show ?thesis using jarray_empty [of "[]"] by (simp add: blank_empty_def)
next
  case (Cons x ys)
  with assms(2) jarray [OF jelements_rows [OF assms(1), of x ys "Suc n" n]] show ?thesis
    by (simp add: separator_def)
qed

text \<open>Printable characters are the ASCII ones from space to tilde and perhaps others, but no
  control character.\<close>

definition printable_sane :: "cenv \<Rightarrow> bool" where
  "printable_sane env \<longleftrightarrow> ascii_printable env \<and> (\<forall>c. wprint env c \<longrightarrow> 32 \<le> c)"

text \<open>Containers hold objects only.\<close>

fun json_shape :: "item \<Rightarrow> bool" where
  "json_shape (Entry name vfmt args) \<longleftrightarrow> True"
| "json_shape (Node k name is) \<longleftrightarrow> (k = Con \<longrightarrow> (\<forall>i \<in> set is. is_obj i)) \<and>
     (k \<noteq> Con \<longrightarrow> (\<forall>i \<in> set is. \<not> is_obj i)) \<and> (\<forall>i \<in> set is. json_shape i)"

lemma encode_jchars:
  assumes "printable_sane env" "\<forall>c \<in> set w. escapable env OUTPUT_FORMAT_JSON c"
  shows "jchars (encode_list env OUTPUT_FORMAT_JSON w)"
proof -
  have p: "ascii_printable env" "\<And>c. wprint env c \<Longrightarrow> 32 \<le> c" using assms(1) by (auto simp: printable_sane_def)
  have "json_inside (encode_list env OUTPUT_FORMAT_JSON w)"
    using assms(2) by (induction w)
      (auto simp: json_char [OF p(1)] simp del: json_inside.simps(2))
  moreover have "\<forall>d \<in> set (escape_char env OUTPUT_FORMAT_JSON c). 32 \<le> d" for c
    using p(2) by (auto simp: escape_char_def L_def dest!: zero_pad_set nat_digits_set)
  ultimately show ?thesis by (auto simp: jchars_def encode_list_def)
qed

lemma name_jchars: "printable_sane env \<Longrightarrow> name_ok env OUTPUT_FORMAT_JSON s n \<Longrightarrow> jchars n"
  using encode_jchars by (auto simp: name_ok_def)

lemma value_jchars: "printable_sane env \<Longrightarrow> value_ok env OUTPUT_FORMAT_JSON s a n \<Longrightarrow> jchars n"
  using encode_jchars by (auto simp: value_ok_def)

lemma L_json: "L ''\"'' = [34]" "L ''\" : {'' = [34, 32, 58, 32, 123]" "L ''\" : ['' = [34, 32, 58, 32, 91]"
  "L ''\" : \"'' = [34, 32, 58, 32, 34]" "L ''{'' = [123]" "L ''}'' = [125]" "L '']'' = [93]"
  by (simp_all add: L_def)

lemma member_text: "jchars b \<Longrightarrow> jvalue v \<Longrightarrow> jmember (34 # b @ [34, 32, 58, 32] @ v)"
  using jmember [of b "[32]" "[32]" v] by simp

lemma render_json:
  assumes "printable_sane env" "json_layout ly"
  shows "item_ok env OUTPUT_FORMAT_JSON i \<Longrightarrow> json_shape i \<Longrightarrow>
    (if is_obj i then jvalue (render env OUTPUT_FORMAT_JSON ly n i) else jmember (render env OUTPUT_FORMAT_JSON ly n i))"
proof (induction i arbitrary: n)
  case (Entry name vfmt args)
  let ?n = "enc_name env OUTPUT_FORMAT_JSON name" and ?v = "enc_value env OUTPUT_FORMAT_JSON vfmt args"
  have "jchars ?n" "jchars ?v" using Entry name_jchars value_jchars assms(1) by auto
  then have "jmember (34 # ?n @ [34, 32, 58, 32] @ 34 # ?v @ [34])" by (intro member_text jstring)
  then show ?case by (simp add: is_obj_def entry_text_def L_json)
next
  case (Node k name "is")
  let ?xs = "map (render env OUTPUT_FORMAT_JSON ly (Suc n)) is" and ?n = "enc_name env OUTPUT_FORMAT_JSON name"
  let ?b = "body OUTPUT_FORMAT_JSON ly n ?xs"
  have ih: "if is_obj i then jvalue (render env OUTPUT_FORMAT_JSON ly (Suc n) i)
      else jmember (render env OUTPUT_FORMAT_JSON ly (Suc n) i)" if "i \<in> set is" for i
    using Node that by auto
  show ?case
  proof (cases "k = Con")
    case True
    then have "\<forall>y \<in> set ?xs. jvalue y" using ih Node.prems(2) by auto
    then have "jvalue (91 # ?b @ [93])" by (rule jvalue_array_body [OF assms(2)])
    moreover have "jchars ?n" using Node.prems(1) True name_jchars [OF assms(1)] by auto
    ultimately have "jmember (34 # ?n @ [34, 32, 58, 32] @ 91 # ?b @ [93])" by (intro member_text)
    then show ?thesis using True by (simp add: is_obj_def open_text_def close_text_def L_json)
  next
    case False
    then have "\<forall>y \<in> set ?xs. jmember y" using ih Node.prems(2) by auto
    then have v: "jvalue (123 # ?b @ [125])" by (rule jvalue_object_body [OF assms(2)])
    show ?thesis
    proof (cases "k = Obj")
      case True
      with v show ?thesis by (simp add: is_obj_def open_text_def close_text_def L_json)
    next
      case ns: False
      with False have k: "k = Sec" by (cases k) auto
      have "jchars ?n" using Node.prems(1) k name_jchars [OF assms(1)] by auto
      with v have "jmember (34 # ?n @ [34, 32, 58, 32] @ 123 # ?b @ [125])" by (intro member_text)
      then show ?thesis using k by (simp add: is_obj_def open_text_def close_text_def L_json)
    qed
  qed
qed

section \<open>Properties\<close>

text \<open>
  The document procenv prints for a tree whose containers hold objects is a JSON object:
  the run succeeds, and its text, the final line end apart, is derivable in the grammar.
\<close>

theorem json_document_valid:
  assumes "fresh env OUTPUT_FORMAT_JSON ly st" "base ly = 0" "item_ok env OUTPUT_FORMAT_JSON (Node Obj [] is)"
    "json_shape (Node Obj [] is)" "printable_sane env" "json_layout ly" "level_ok ly (Suc (items_height is))"
    "fits env (length (render env OUTPUT_FORMAT_JSON ly 0 (Node Obj [] is)) + 1)"
  shows "\<exists>st' t. run_document env pk is st = Inr st' \<and> has_text st' (t @ [NL]) \<and> jvalue t"
proof -
  have "jvalue (render env OUTPUT_FORMAT_JSON ly 0 (Node Obj [] is))"
    using render_json [OF assms(5,6,3,4), of 0] by (simp add: is_obj_def)
  then show ?thesis using json_document_text [OF assms(1-3,7,8), of pk] by blast
qed

theorem json_document_valid_witness:
  "\<exists>st' t. run_document ascii_env example_pkg example_items (example_state OUTPUT_FORMAT_JSON) = Inr st' \<and>
     has_text st' (t @ [NL]) \<and> jvalue t"
proof (rule json_document_valid [where ly = "example_layout 0"])
  show "item_ok ascii_env OUTPUT_FORMAT_JSON (Node Obj [] example_items)"
    using example_items_ok by (auto simp: example_items_def is_obj_def)
  show "json_shape (Node Obj [] example_items)" by (simp add: example_items_def is_obj_def)
  show "printable_sane ascii_env" by (simp add: printable_sane_def ascii_printable_def ascii_env_def)
  show "json_layout (example_layout 0)" by (simp add: json_layout_def example_layout_def)
  show "level_ok (example_layout 0) (Suc (items_height example_items))"
    by (rule example_level) (simp_all add: items_height_def example_items_def)
  show "fits ascii_env (length (render ascii_env OUTPUT_FORMAT_JSON (example_layout 0) 0 (Node Obj [] example_items)) + 1)"
    by (rule fits_mono [of _ 1001]) (use example_render_length(2) in \<open>simp_all add: example_simps\<close>)
qed (simp_all add: example_fresh example_layout_sel)

end
