(* ===== verification/Crumbs.thy ===== *)
theory Crumbs
  imports DocTree
begin

text \<open>
  The breadcrumbs (\<^verbatim>\<open>add_breadcrumb\<close>, \<^verbatim>\<open>remove_breadcrumb\<close> and the crumb format of
  \<^verbatim>\<open>output.c\<close>). The list of names is a ring of \<^verbatim>\<open>pr_list\<close> nodes; to its users it is a
  stack of names. The locale \<open>name_stack\<close> states that contract, the ring is shown to
  implement it, and the crumb format is shown to print each entry on a line of its own behind
  the names of the elements around it.
\<close>

section \<open>The contract of a stack of names\<close>

locale name_stack =
  fixes push :: "string \<Rightarrow> 's stmt"
    and pop :: "'s stmt"
    and names :: "'s \<Rightarrow> string list \<Rightarrow> bool"
    and room :: "'s \<Rightarrow> nat \<Rightarrow> bool"
  assumes push_law: "names s cs \<Longrightarrow> room s (Suc n) \<Longrightarrow>
      \<exists>s'. push x s = Inr s' \<and> names s' (cs @ [x]) \<and> room s' n"
    and pop_law: "names s (cs @ [x]) \<Longrightarrow> room s n \<Longrightarrow>
      \<exists>s'. pop s = Inr s' \<and> names s' cs \<and> room s' n"
begin

lemma push_all:
  "names s cs \<Longrightarrow> room s (length xs + n) \<Longrightarrow>
   \<exists>s'. do_all (map push xs) s = Inr s' \<and> names s' (cs @ xs) \<and> room s' n"
proof (induction xs arbitrary: s cs)
  case Nil
  then show ?case by simp
next
  case (Cons x xs)
  then obtain s1 where "push x s = Inr s1" "names s1 (cs @ [x])" "room s1 (length xs + n)"
    using push_law [of s cs "length xs + n" x] by auto
  with Cons.IH [of s1 "cs @ [x]"] show ?case by auto
qed

lemma pop_all:
  "names s (cs @ xs) \<Longrightarrow> room s n \<Longrightarrow>
   \<exists>s'. do_all (replicate (length xs) pop) s = Inr s' \<and> names s' cs \<and> room s' n"
proof (induction xs arbitrary: s rule: rev_induct)
  case Nil
  then show ?case by simp
next
  case (snoc x xs)
  then obtain s1 where "pop s = Inr s1" "names s1 (cs @ xs)" "room s1 n"
    using pop_law [of s "cs @ xs" x n] by auto
  with snoc.IH [of s1] show ?case by auto
qed

lemma push_pop_balanced:
  assumes "names s cs" "room s (length xs + n)"
  shows "\<exists>s'. do_all (map push xs @ replicate (length xs) pop) s = Inr s' \<and> names s' cs \<and> room s' n"
  using push_all [OF assms] pop_all by fastforce

end

section \<open>The ring implements it\<close>

definition crumb_names :: "ostate \<Rightarrow> string list \<Rightarrow> bool" where
  "crumb_names st cs \<longleftrightarrow> wf_heap (crumbs st) \<and>
     (if crumb_list st = 0 then cs = []
      else \<exists>as. cdll (crumbs st) (crumb_list st) as \<and> items (crumbs st) as = map Some cs)"

text \<open>Memory for \<open>n\<close> more names, and for the head of the list when there is none.\<close>

definition crumb_room :: "ostate \<Rightarrow> nat \<Rightarrow> bool" where
  "crumb_room st n \<longleftrightarrow> brk (crumbs st) + n + (if crumb_list st = 0 then 1 else 0) \<le> lim (crumbs st)"

lemma prepend_str_ring:
  assumes "wf_heap h" "cdll h l as" "brk h < lim h"
  shows "\<exists>e h2. pr_list_prepend_str l name h = Inr (e, h2) \<and> cdll h2 l (as @ [e]) \<and> wf_heap h2 \<and>
    items h2 (as @ [e]) = items h as @ [Some name] \<and> brk h2 = Suc (brk h) \<and> lim h2 = lim h"
proof -
  obtain e h1 where n: "pr_list_new (Some name) h = (e, h1)" by (metis surj_pair)
  note r = pr_list_new_ring [OF assms(1,3) n] and f = cdll_new_frame [OF assms(1,3) n assms(2)]
  have "inserted h1 l as e (as @ [e]) (pr_list_prepend l e h1)"
    by (rule pr_list_prepend_head [OF f(1,2) r(6,3)])
  then obtain h2 where h2: "pr_list_prepend l e h1 = Inr (e, h2)" "cdll h2 l (as @ [e])"
    "items h2 (as @ [e]) = items h1 (as @ [e])" "brk h2 = brk h1" "lim h2 = lim h1" "wf_heap h1 \<longrightarrow> wf_heap h2"
    by (rule inserted_items [OF _ f(1) r(6)]) auto
  have l: "l \<noteq> 0" using assms(2) by (auto simp: cdll_def)
  have "items h1 (as @ [e]) = items h as @ [Some name]"
    using f(3) r(6) by (simp add: items_def)
  with h2 r l n assms(3) show ?thesis
    by (auto simp: pr_list_prepend_str_def pr_list_prependn_str_def strndup_def)
qed

lemma add_breadcrumb_ok:
  assumes "crumb_names st cs" "crumb_room st (Suc n)"
  shows "\<exists>l h. add_breadcrumb name st = Inr (st\<lparr>crumb_list := l, crumbs := h\<rparr>) \<and>
    crumb_names (st\<lparr>crumb_list := l, crumbs := h\<rparr>) (cs @ [name]) \<and> crumb_room (st\<lparr>crumb_list := l, crumbs := h\<rparr>) n"
proof -
  obtain l h as where lh: "(if crumb_list st = 0 then pr_list_new None (crumbs st) else (crumb_list st, crumbs st)) = (l, h)"
    "wf_heap h" "cdll h l as" "items h as = map Some cs" "l \<noteq> 0" "brk h + Suc n \<le> lim h"
  proof (cases "crumb_list st = 0")
    case True
    obtain e h1 where n: "pr_list_new None (crumbs st) = (e, h1)" by (metis surj_pair)
    have w: "wf_heap (crumbs st)" "brk (crumbs st) < lim (crumbs st)"
      using assms True by (auto simp: crumb_names_def crumb_room_def)
    note r = pr_list_new_ring [OF w n]
    show thesis
      by (rule that [of e h1 "[]"])
        (use assms True n r in \<open>auto simp: crumb_names_def crumb_room_def items_def\<close>)
  next
    case False
    with assms that show thesis by (auto simp: crumb_names_def crumb_room_def)
  qed
  obtain e h2 where h2: "pr_list_prepend_str l name h = Inr (e, h2)" "cdll h2 l (as @ [e])" "wf_heap h2"
    "items h2 (as @ [e]) = items h as @ [Some name]" "brk h2 = Suc (brk h)" "lim h2 = lim h"
    using prepend_str_ring [OF lh(2,3), of name] lh(6) by auto
  have "add_breadcrumb name st = Inr (st\<lparr>crumb_list := l, crumbs := h2\<rparr>)"
    using lh(1,5) h2(1) by (simp add: add_breadcrumb_def)
  moreover have "crumb_names (st\<lparr>crumb_list := l, crumbs := h2\<rparr>) (cs @ [name])"
    using h2 lh by (auto simp: crumb_names_def)
  moreover have "crumb_room (st\<lparr>crumb_list := l, crumbs := h2\<rparr>) n"
    using h2 lh by (simp add: crumb_room_def)
  ultimately show ?thesis by blast
qed

lemma remove_last_ring:
  assumes "wf_heap h" "cdll h l (as @ [p])"
  shows "\<exists>h1 h2. pr_list_remove p h = Inr (p, h1) \<and> free_node p h1 = Inr h2 \<and> p \<noteq> 0 \<and>
    cdll h2 l as \<and> items h2 as = items h as \<and> wf_heap h2 \<and> brk h2 = brk h \<and> lim h2 = lim h"
proof -
  obtain h1 where h1: "pr_list_remove p h = Inr (p, h1)" "cdll h1 l as" "cdll h1 p []" "relinked h h1"
    using pr_list_remove_at [of h l as p "[]"] assms(2) by (auto simp: removed_def)
  have p: "p \<noteq> 0" "p \<notin> set (l # as)" using assms(2) by (auto simp: cdll_def)
  obtain n where n: "cells h1 p = Some n" using cdll_alloc [OF h1(3)] by auto
  let ?h2 = "h1\<lparr>cells := (cells h1)(p := None)\<rparr>"
  have "free_node p h1 = Inr ?h2" using n p by (simp add: free_node_def get_node_def)
  moreover have "cdll ?h2 l as"
    by (rule cdll_frame [OF h1(2)]) (use p in \<open>auto simp: nx_def pv_def\<close>)
  moreover have "set as \<subseteq> dom (cells h)" using cdll_alloc [OF assms(2)] by auto
  then have "items ?h2 as = items h as"
    using relinked_items [OF h1(4), of as] p by (auto simp: items_def)
  moreover have "wf_heap ?h2" using relinked_wf [OF h1(4) assms(1)] by (auto simp: wf_heap_def)
  ultimately show ?thesis using h1 p by (auto simp: relinked_def)
qed

lemma remove_breadcrumb_ok:
  assumes "crumb_names st (cs @ [x])" "crumb_room st n"
  shows "\<exists>h. remove_breadcrumb st = Inr (st\<lparr>crumbs := h\<rparr>) \<and> crumb_names (st\<lparr>crumbs := h\<rparr>) cs \<and>
    crumb_room (st\<lparr>crumbs := h\<rparr>) n \<and> brk h = brk (crumbs st)"
proof -
  have l: "crumb_list st \<noteq> 0" using assms(1) by (auto simp: crumb_names_def split: if_splits)
  then obtain bs where b: "wf_heap (crumbs st)" "cdll (crumbs st) (crumb_list st) bs"
    "items (crumbs st) bs = map Some (cs @ [x])" using assms(1) by (auto simp: crumb_names_def)
  then obtain as p where as: "bs = as @ [p]" by (cases bs rule: rev_cases) (auto simp: items_def)
  obtain h1 h2 where h: "pr_list_remove p (crumbs st) = Inr (p, h1)" "free_node p h1 = Inr h2" "p \<noteq> 0"
    "cdll h2 (crumb_list st) as" "items h2 as = items (crumbs st) as" "wf_heap h2"
    "brk h2 = brk (crumbs st)" "lim h2 = lim (crumbs st)"
    using remove_last_ring [OF b(1) b(2) [unfolded as]] by blast
  obtain nd where "get_node (crumbs st) (crumb_list st) = Inr nd" "prv nd = p"
    using cdll_head_pv [OF b(2)] as by auto
  then have "remove_breadcrumb st = Inr (st\<lparr>crumbs := h2\<rparr>)" using l h by (simp add: remove_breadcrumb_def)
  moreover have "items h2 as = map Some cs" using b(3) as h(5) by (simp add: items_def)
  ultimately show ?thesis using h l assms(2) by (auto simp: crumb_names_def crumb_room_def)
qed

interpretation crumb_ring: name_stack add_breadcrumb remove_breadcrumb crumb_names crumb_room
proof unfold_locales
  fix s cs n x
  assume "crumb_names s cs" "crumb_room s (Suc n)"
  then show "\<exists>s'. add_breadcrumb x s = Inr s' \<and> crumb_names s' (cs @ [x]) \<and> crumb_room s' n"
    using add_breadcrumb_ok [of s cs n x] by auto
next
  fix s cs x n
  assume "crumb_names s (cs @ [x])" "crumb_room s n"
  then show "\<exists>s'. remove_breadcrumb s = Inr s' \<and> crumb_names s' cs \<and> crumb_room s' n"
    using remove_breadcrumb_ok [of s cs x n] by auto
qed

section \<open>Clearing the list\<close>

lemma clear_breadcrumbs_ok:
  assumes "crumb_names st cs" "crumb_list st \<noteq> 0" "length cs < fuel"
  shows "\<exists>h. clear_breadcrumbs fuel st = Inr (st\<lparr>crumbs := h\<rparr>) \<and> crumb_names (st\<lparr>crumbs := h\<rparr>) []"
  using assms
proof (induction cs arbitrary: st fuel rule: rev_induct)
  case Nil
  then obtain fuel' as where f: "fuel = Suc fuel'" "cdll (crumbs st) (crumb_list st) as" "as = []"
    by (cases fuel) (auto simp: crumb_names_def items_def)
  obtain nd where "get_node (crumbs st) (crumb_list st) = Inr nd" "prv nd = crumb_list st"
    using cdll_head_pv [OF f(2)] f(3) by auto
  with Nil f show ?case by (intro exI [of _ "crumbs st"]) simp
next
  case (snoc x cs)
  obtain fuel' where fuel: "fuel = Suc fuel'" using snoc.prems(3) by (cases fuel) auto
  obtain bs where b: "wf_heap (crumbs st)" "cdll (crumbs st) (crumb_list st) bs"
    "items (crumbs st) bs = map Some (cs @ [x])" using snoc.prems by (auto simp: crumb_names_def)
  then obtain as p where as: "bs = as @ [p]" by (cases bs rule: rev_cases) (auto simp: items_def)
  obtain nd where nd: "get_node (crumbs st) (crumb_list st) = Inr nd" "prv nd = p"
    using cdll_head_pv [OF b(2)] as by auto
  have ne: "p \<noteq> crumb_list st" using b(2) as by (auto simp: cdll_def)
  obtain h1 h2 where h: "pr_list_remove p (crumbs st) = Inr (p, h1)" "free_node p h1 = Inr h2" "p \<noteq> 0"
    "cdll h2 (crumb_list st) as" "items h2 as = items (crumbs st) as" "wf_heap h2"
    using remove_last_ring [OF b(1) b(2) [unfolded as]] by blast
  have r: "remove_breadcrumb st = Inr (st\<lparr>crumbs := h2\<rparr>)"
    using snoc.prems(2) h nd by (simp add: remove_breadcrumb_def)
  have "items h2 as = map Some cs" using b(3) as h(5) by (simp add: items_def)
  with h snoc.prems(2) have "crumb_names (st\<lparr>crumbs := h2\<rparr>) cs" by (auto simp: crumb_names_def)
  from snoc.IH [OF this, of fuel'] snoc.prems fuel obtain h3 where
    "clear_breadcrumbs fuel' (st\<lparr>crumbs := h2\<rparr>) = Inr (st\<lparr>crumbs := h3\<rparr>)" "crumb_names (st\<lparr>crumbs := h3\<rparr>) []"
    by auto
  with r nd ne fuel snoc.prems(2) show ?case by auto
qed

section \<open>The crumb format\<close>

text \<open>
  The state while the names \<open>cs\<close> are open and the text is \<open>t\<close>; \<open>sp\<close> and \<open>ts\<close> are the crumb
  separator and the text separator as wide strings.
\<close>

definition shows_crumb :: "cenv \<Rightarrow> wchar list \<Rightarrow> wchar list \<Rightarrow> ostate \<Rightarrow> string list \<Rightarrow> wchar list \<Rightarrow> bool" where
  "shows_crumb env sp ts st cs t \<longleftrightarrow>
     has_text st t \<and> output_format st = OUTPUT_FORMAT_CRUMB \<and> 0 \<le> indent_amount st \<and> crumb_names st cs \<and>
     mbs env (crumb_separator st) = Some sp \<and> mbs env (text_separator st) = Some ts \<and>
     0 \<notin> set sp \<and> 0 \<notin> set ts \<and> (\<forall>c \<in> set cs. converts env c)"

definition path :: "cenv \<Rightarrow> wchar list \<Rightarrow> string list \<Rightarrow> wchar list" where
  "path env sp cs = concat (map (\<lambda>c. the (mbs env c) @ sp) cs)"

fun crumb_lines :: "cenv \<Rightarrow> wchar list \<Rightarrow> wchar list \<Rightarrow> string list \<Rightarrow> item \<Rightarrow> wchar list" where
  "crumb_lines env sp ts cs (Entry name vfmt args) =
     path env sp cs @ the (mbs env name) @ ts @ the (wformat env (the (mbs env vfmt)) args) @ [NL]"
| "crumb_lines env sp ts cs (Node k name is) =
     concat (map (crumb_lines env sp ts (if k = Obj then cs else cs @ [name])) is)"

text \<open>Objects leave no trace; entries need an open element.\<close>

fun crumb_ok :: "cenv \<Rightarrow> bool \<Rightarrow> item \<Rightarrow> bool" where
  "crumb_ok env inside (Entry name vfmt args) \<longleftrightarrow> inside \<and>
     name_ok env OUTPUT_FORMAT_CRUMB name (the (mbs env name)) \<and>
     value_ok env OUTPUT_FORMAT_CRUMB vfmt args (the (wformat env (the (mbs env vfmt)) args))"
| "crumb_ok env inside (Node k name is) \<longleftrightarrow>
     (k \<noteq> Obj \<longrightarrow> name_ok env OUTPUT_FORMAT_CRUMB name (the (mbs env name)) \<and> fits env (length (the (mbs env name)))) \<and>
     (\<forall>i \<in> set is. crumb_ok env (inside \<or> k \<noteq> Obj) i)"

fun opens :: "item \<Rightarrow> nat" where
  "opens (Entry name vfmt args) = 0"
| "opens (Node k name is) = (if k = Obj then 0 else 1) + sum_list (map opens is)"

lemma crumb_format:
  "mbs env c = Some w \<Longrightarrow> mbs env s = Some sp \<Longrightarrow> wformat env (L ''%s%s'') [PStr c, PStr s] = Some (w @ sp)"
  "mbs env s = Some ts \<Longrightarrow>
   wformat env (L ''%ls%s%ls'' @ [NL]) [PWStr n, PStr s, PWStr v] = Some (n @ ts @ v @ [NL])"
  by (simp_all add: wformat_def fmt_eval)

lemma append_crumbs_ok:
  assumes "items (crumbs st) as = map Some cs" "\<forall>a \<in> set as. cells (crumbs st) a \<noteq> None"
    "has_text st t" "\<forall>c \<in> set cs. converts env c" "mbs env (crumb_separator st) = Some sp" "0 \<notin> set sp"
    "fits env (length t + length (path env sp cs))"
  shows "\<exists>d. append_crumbs env as st = Inr (st\<lparr>doc := Some d\<rparr>) \<and> doc_is d (t @ path env sp cs)"
  using assms
proof (induction "as" arbitrary: cs st t)
  case Nil
  then obtain d where d: "doc st = Some d" "doc_is d t" by (auto simp: has_text_def)
  have "st\<lparr>doc := doc st\<rparr> = st" by simp
  with d(1) have "append_crumbs env [] st = Inr (st\<lparr>doc := Some d\<rparr>)" by simp
  moreover have "cs = []" using Nil(1) by (simp add: items_def)
  ultimately show ?case using d(2) by (auto simp: path_def)
next
  case (Cons a as)
  then obtain c cs' where cs: "cs = c # cs'" "items (crumbs st) as = map Some cs'"
    by (cases cs) (auto simp: items_def)
  obtain nd where nd: "cells (crumbs st) a = Some nd" "ldata nd = Some c"
    using Cons.prems(1,2) cs(1) by (auto simp: items_def)
  obtain w where w: "mbs env c = Some w" "0 \<notin> set w"
    using Cons.prems(4) cs(1) by (auto simp: converts_def split: option.splits)
  have p: "path env sp cs = (w @ sp) @ path env sp cs'" using w cs(1) by (simp add: path_def)
  have "fits env (length t + length (w @ sp))" using fits_mono [OF Cons.prems(7)] p by simp
  then obtain d where d: "doc_wappendf env (L ''%s%s'') [PStr c, PStr (crumb_separator st)] st =
      Inr (st\<lparr>doc := Some d\<rparr>)" "doc_is d (t @ w @ sp)"
    using doc_wappendf_ok [OF Cons.prems(3) crumb_format(1) [OF w(1) Cons.prems(5)]] w(2) Cons.prems(6) by auto
  have "\<exists>d'. append_crumbs env as (st\<lparr>doc := Some d\<rparr>) = Inr (st\<lparr>doc := Some d, doc := Some d'\<rparr>) \<and>
      doc_is d' ((t @ w @ sp) @ path env sp cs')"
    using Cons.prems cs d(2) p by (intro Cons.IH) (auto simp: has_text_def add.assoc)
  with d nd p show ?case by (simp add: get_node_def)
qed

lemma crumb_change: "shows_crumb env sp ts st cs t \<Longrightarrow>
   common_assert st = Inr st \<and> change_element env e st =
     Inr (st\<lparr>last_element := current_element st, current_element := e\<rparr>)"
  by (auto simp: shows_crumb_def common_assert_def change_element_def format_element_def has_text_def)

lemma shows_crumb_cong:
  assumes "shows_crumb env sp ts st cs t"
  shows "shows_crumb env sp ts (st\<lparr>last_element := x, current_element := y\<rparr>) cs t"
  using assms by (simp add: shows_crumb_def has_text_def crumb_names_def)

lemma crumb_entry_ok:
  assumes "shows_crumb env sp ts st cs t" "crumb_list st \<noteq> 0" "crumb_ok env True (Entry name vfmt args)"
    "t' = t @ crumb_lines env sp ts cs (Entry name vfmt args)" "fits env (length t')"
  shows "\<exists>d. entry env name vfmt args st =
      Inr (st\<lparr>last_element := current_element st, current_element := ELEMENT_TYPE_ENTRY, doc := Some d\<rparr>) \<and> doc_is d t'"
proof -
  let ?st = "st\<lparr>last_element := current_element st, current_element := ELEMENT_TYPE_ENTRY\<rparr>"
  let ?n = "the (mbs env name)" and ?v = "the (wformat env (the (mbs env vfmt)) args)"
  have s: "has_text ?st t" "output_format ?st = OUTPUT_FORMAT_CRUMB" "mbs env (crumb_separator ?st) = Some sp"
    "mbs env (text_separator ?st) = Some ts" "0 \<notin> set sp" "0 \<notin> set ts" "\<forall>c \<in> set cs. converts env c"
    using assms(1) by (auto simp: shows_crumb_def has_text_def)
  obtain as where as: "wf_heap (crumbs st)" "cdll (crumbs st) (crumb_list st) as" "items (crumbs st) as = map Some cs"
    using assms(1,2) by (auto simp: shows_crumb_def crumb_names_def)
  have len: "length ?n \<le> length t'" "length ?v \<le> length t'" using assms(4) by auto
  have ok: "name_ok env OUTPUT_FORMAT_CRUMB name ?n" "value_ok env OUTPUT_FORMAT_CRUMB vfmt args ?v"
    using assms(3) by simp_all
  obtain en ret encoded_name where en: "char_to_pstring env name = Inr (Some en)"
    "encode_string env OUTPUT_FORMAT_CRUMB en = Inr (ret, encoded_name)" "0 \<le> ret" "text_of encoded_name = Inr ?n" "0 \<notin> set ?n"
    using encoded_name [OF ok(1) fits_mono [OF assms(5) len(1)]] by blast
  obtain ev ret' encoded_value where ev: "wmappendva env None vfmt args = Inr (Some ev)"
    "encode_string env OUTPUT_FORMAT_CRUMB ev = Inr (ret', encoded_value)" "0 \<le> ret'" "text_of encoded_value = Inr ?v" "0 \<notin> set ?v"
    using encoded_value [OF ok(2) fits_mono [OF assms(5) len(2)]] by blast
  have al: "\<forall>a \<in> set as. cells (crumbs ?st) a \<noteq> None" using cdll_alloc [OF as(2)] by auto
  have it: "items (crumbs ?st) as = map Some cs" using as(3) by simp
  have "fits env (length t + length (path env sp cs))" using fits_mono [OF assms(5)] assms(4) by simp
  then obtain d1 where d1: "append_crumbs env as ?st = Inr (?st\<lparr>doc := Some d1\<rparr>)" "doc_is d1 (t @ path env sp cs)"
    using append_crumbs_ok [OF it al s(1,7,3,5)] by blast
  have "has_text (?st\<lparr>doc := Some d1\<rparr>) (t @ path env sp cs)" using d1(2) by (simp add: has_text_def)
  moreover have "0 \<notin> set (?n @ ts @ ?v @ [NL])" using en(5) ev(5) s(6) by auto
  moreover have "fits env (length (t @ path env sp cs) + length (?n @ ts @ ?v @ [NL]))"
    using assms(4,5) by (simp add: add.assoc)
  ultimately obtain d2 where d2: "doc_wappendf env (L ''%ls%s%ls'' @ [NL]) [PWStr ?n, PStr (text_separator ?st), PWStr ?v]
      (?st\<lparr>doc := Some d1\<rparr>) = Inr (?st\<lparr>doc := Some d2\<rparr>)" "doc_is d2 t'"
    using doc_wappendf_ok [OF _ crumb_format(2) [OF s(4)]] assms(4) by fastforce
  have "entry env name vfmt args st = Inr (?st\<lparr>doc := Some d2\<rparr>)"
    using crumb_change [OF assms(1)] en ev s(2) PR_LIST_FOREACH_ring [OF as(1,2)] assms(2) d1(1) d2(1)
    by (simp add: entry_def)
  with d2(2) show ?thesis by blast
qed

lemma shows_crumb_upd:
  assumes "shows_crumb env sp ts st cs t" "crumb_names (st1\<lparr>crumb_list := l, crumbs := h\<rparr>) cs'"
    "\<forall>c \<in> set cs'. converts env c" "st1 = st\<lparr>last_element := x, current_element := y\<rparr>"
  shows "shows_crumb env sp ts (st1\<lparr>crumb_list := l, crumbs := h\<rparr>) cs' t"
  using assms by (simp add: shows_crumb_def has_text_def)

lemma crumb_room_cong: "crumb_room (st\<lparr>last_element := x, current_element := y\<rparr>) n = crumb_room st n"
  by (simp add: crumb_room_def)

lemma crumb_open_ok:
  assumes "shows_crumb env sp ts st cs t" "k \<noteq> Obj" "name_ok env OUTPUT_FORMAT_CRUMB name n" "fits env (length n)"
    "crumb_room st (Suc m)"
  shows "\<exists>st'. do_open env k name st = Inr st' \<and> shows_crumb env sp ts st' (cs @ [name]) t \<and> crumb_room st' m"
proof -
  let ?st = "st\<lparr>last_element := current_element st, current_element := open_el k\<rparr>"
  obtain q where q: "name_to_wide_name env OUTPUT_FORMAT_CRUMB name = Inr q" "text_of q = Inr n"
    using encoded_name [OF assms(3,4)] by (auto simp: name_to_wide_name_def)
  have c: "converts env name" using assms(3) by (auto simp: name_ok_def converts_def)
  have s: "output_format st = OUTPUT_FORMAT_CRUMB" "crumb_names ?st cs" "\<forall>c \<in> set cs. converts env c"
    using assms(1) by (auto simp: shows_crumb_def crumb_names_def)
  have rm: "crumb_room ?st (Suc m)" using assms(5) by (simp add: crumb_room_cong)
  obtain l h where ab: "add_breadcrumb name ?st = Inr (?st\<lparr>crumb_list := l, crumbs := h\<rparr>)"
    "crumb_names (?st\<lparr>crumb_list := l, crumbs := h\<rparr>) (cs @ [name])" "crumb_room (?st\<lparr>crumb_list := l, crumbs := h\<rparr>) m"
    using add_breadcrumb_ok [OF s(2) rm, of name] by blast
  have "do_open env k name st = add_breadcrumb name ?st"
    using crumb_change [OF assms(1)] q s(1) assms(2)
    by (cases k) (simp_all add: do_open_def section_open_def container_open_def open_el_def)
  moreover have "shows_crumb env sp ts (?st\<lparr>crumb_list := l, crumbs := h\<rparr>) (cs @ [name]) t"
    by (rule shows_crumb_upd [OF assms(1) ab(2) _ refl]) (use s(3) c in auto)
  ultimately show ?thesis using ab by auto
qed

lemma crumb_close_ok:
  assumes "shows_crumb env sp ts st (cs @ [name]) t" "k \<noteq> Obj" "crumb_room st m"
  shows "\<exists>st'. do_close env k st = Inr st' \<and> shows_crumb env sp ts st' cs t \<and> crumb_room st' m"
proof -
  let ?st = "st\<lparr>last_element := current_element st, current_element := close_el k\<rparr>"
  have s: "output_format st = OUTPUT_FORMAT_CRUMB" "crumb_names ?st (cs @ [name])" "\<forall>c \<in> set cs. converts env c"
    using assms(1) by (auto simp: shows_crumb_def crumb_names_def)
  have rm: "crumb_room ?st m" using assms(3) by (simp add: crumb_room_cong)
  obtain h where h: "remove_breadcrumb ?st = Inr (?st\<lparr>crumbs := h\<rparr>)" "crumb_names (?st\<lparr>crumbs := h\<rparr>) cs"
    "crumb_room (?st\<lparr>crumbs := h\<rparr>) m"
    using remove_breadcrumb_ok [OF s(2) rm] by blast
  have "do_close env k st = remove_breadcrumb ?st"
    using crumb_change [OF assms(1)] s(1) assms(2)
    by (cases k) (simp_all add: do_close_def section_close_def container_close_def close_el_def)
  moreover have "shows_crumb env sp ts (?st\<lparr>crumbs := h\<rparr>) cs t"
    using assms(1) h(2) s(3) by (simp add: shows_crumb_def has_text_def)
  ultimately show ?thesis using h by auto
qed

definition runs_crumb :: "cenv \<Rightarrow> wchar list \<Rightarrow> wchar list \<Rightarrow> item \<Rightarrow> bool" where
  "runs_crumb env sp ts i \<longleftrightarrow>
     (\<forall>st cs t m. shows_crumb env sp ts st cs t \<longrightarrow> crumb_ok env (cs \<noteq> []) i \<longrightarrow> crumb_room st (opens i + m) \<longrightarrow>
        fits env (length t + length (crumb_lines env sp ts cs i)) \<longrightarrow>
        (\<exists>st'. run_item env i st = Inr st' \<and> shows_crumb env sp ts st' cs (t @ crumb_lines env sp ts cs i) \<and>
               crumb_room st' m))"

lemma run_crumb_items:
  assumes "\<forall>i \<in> set is. runs_crumb env sp ts i \<and> crumb_ok env (cs \<noteq> []) i" "shows_crumb env sp ts st cs t"
    "crumb_room st (sum_list (map opens is) + m)"
    "fits env (length t + length (concat (map (crumb_lines env sp ts cs) is)))"
  shows "\<exists>st'. do_all (map (run_item env) is) st = Inr st' \<and>
    shows_crumb env sp ts st' cs (t @ concat (map (crumb_lines env sp ts cs) is)) \<and> crumb_room st' m"
  using assms
proof (induction "is" arbitrary: st t)
  case Nil
  then show ?case by simp
next
  case (Cons i js)
  let ?x = "crumb_lines env sp ts cs i"
  have "fits env (length t + length ?x)" using fits_mono [OF Cons.prems(4)] by simp
  moreover have "runs_crumb env sp ts i" "crumb_ok env (cs \<noteq> []) i"
    "crumb_room st (opens i + (sum_list (map opens js) + m))"
    using Cons.prems by (simp_all add: add.assoc)
  ultimately obtain st1 where st1: "run_item env i st = Inr st1" "shows_crumb env sp ts st1 cs (t @ ?x)"
    "crumb_room st1 (sum_list (map opens js) + m)"
    using Cons.prems(2) unfolding runs_crumb_def by blast
  have "\<exists>st'. do_all (map (run_item env) js) st1 = Inr st' \<and>
      shows_crumb env sp ts st' cs ((t @ ?x) @ concat (map (crumb_lines env sp ts cs) js)) \<and> crumb_room st' m"
    using Cons.prems st1 by (intro Cons.IH) (auto simp: add.assoc)
  with st1(1) show ?case by simp
qed

lemma run_crumb_item: "runs_crumb env sp ts i"
proof (induction i)
  case (Entry name vfmt args)
  show ?case unfolding runs_crumb_def
  proof (intro allI impI, goal_cases)
    case (1 st cs t m)
    have ok: "crumb_ok env True (Entry name vfmt args)" and "cs \<noteq> []" using 1(2) by auto
    then have l: "crumb_list st \<noteq> 0" using 1(1) by (auto simp: shows_crumb_def crumb_names_def split: if_splits)
    have ft: "fits env (length (t @ crumb_lines env sp ts cs (Entry name vfmt args)))" using 1(4) by simp
    obtain d where d: "entry env name vfmt args st =
        Inr (st\<lparr>last_element := current_element st, current_element := ELEMENT_TYPE_ENTRY, doc := Some d\<rparr>)"
      "doc_is d (t @ crumb_lines env sp ts cs (Entry name vfmt args))"
      using crumb_entry_ok [OF 1(1) l ok refl ft] by blast
    then show ?case using 1(1,3)
      by (auto simp: shows_crumb_def has_text_def crumb_names_def crumb_room_def)
  qed
next
  case (Node k name "is")
  show ?case unfolding runs_crumb_def
  proof (intro allI impI, goal_cases)
    case (1 st cs t m)
    show ?case
    proof (cases "k = Obj")
      case True
      have o: "do_open env Obj name st = Inr st" using crumb_change [OF 1(1)] 1(1)
        by (simp add: do_open_def object_open_def shows_crumb_def)
      obtain st1 where st1: "do_all (map (run_item env) is) st = Inr st1"
        "shows_crumb env sp ts st1 cs (t @ crumb_lines env sp ts cs (Node k name is))" "crumb_room st1 m"
        using run_crumb_items [OF _ 1(1), of "is" m] 1(2-4) Node.IH True by auto
      have "do_close env Obj st1 = Inr st1" using crumb_change [OF st1(2)] st1(2)
        by (simp add: do_close_def object_close_def shows_crumb_def)
      with o st1 True show ?thesis by simp
    next
      case False
      have nm: "name_ok env OUTPUT_FORMAT_CRUMB name (the (mbs env name))" "fits env (length (the (mbs env name)))"
        using 1(2) False by auto
      have rm: "crumb_room st (Suc (sum_list (map opens is) + m))" using 1(3) False by simp
      obtain st1 where st1: "do_open env k name st = Inr st1" "shows_crumb env sp ts st1 (cs @ [name]) t"
        "crumb_room st1 (sum_list (map opens is) + m)"
        using crumb_open_ok [OF 1(1) False nm rm] by blast
      obtain st2 where st2: "do_all (map (run_item env) is) st1 = Inr st2"
        "shows_crumb env sp ts st2 (cs @ [name]) (t @ crumb_lines env sp ts cs (Node k name is))" "crumb_room st2 m"
        using run_crumb_items [OF _ st1(2,3)] 1(2,4) Node.IH False by auto
      obtain st3 where "do_close env k st2 = Inr st3"
        "shows_crumb env sp ts st3 cs (t @ crumb_lines env sp ts cs (Node k name is))" "crumb_room st3 m"
        using crumb_close_ok [OF st2(2) False st2(3)] by blast
      with st1(1) st2(1) show ?thesis by simp
    qed
  qed
qed

section \<open>Properties\<close>

text \<open>
  C25: pushing any names onto the breadcrumbs and removing as many restores the names that
  were there: the ring of list nodes behind \<open>add_breadcrumb\<close> and \<open>remove_breadcrumb\<close> is a stack.
\<close>

theorem breadcrumbs_balanced:
  assumes "crumb_names st cs" "crumb_room st (length xs + n)"
  shows "\<exists>st'. do_all (map add_breadcrumb xs @ replicate (length xs) remove_breadcrumb) st = Inr st' \<and>
    crumb_names st' cs \<and> crumb_room st' n"
  by (rule crumb_ring.push_pop_balanced [OF assms])

theorem breadcrumbs_balanced_witness:
  "\<exists>st'. do_all (map add_breadcrumb [''a'', ''b''] @ replicate 2 remove_breadcrumb) ostate0 = Inr st' \<and>
    crumb_names st' [] \<and> crumb_room st' 5"
  using breadcrumbs_balanced [of ostate0 "[]" "[''a'', ''b'']" 5]
  by (simp add: crumb_names_def crumb_room_def ostate0_def wf_heap_def numeral_2_eq_2)

text \<open>
  C8: in the crumb format every entry of a tree is printed on one line behind the names of
  the elements around it, outermost first, and the breadcrumbs are as before afterwards;
  objects leave no trace.
\<close>

theorem crumb_document_correct:
  assumes "shows_crumb env sp ts st cs t" "crumb_ok env (cs \<noteq> []) i" "crumb_room st (opens i + m)"
    "fits env (length t + length (crumb_lines env sp ts cs i))"
  shows "\<exists>st'. run_item env i st = Inr st' \<and> shows_crumb env sp ts st' cs (t @ crumb_lines env sp ts cs i) \<and>
    crumb_room st' m"
  using run_crumb_item [of env sp ts i] assms unfolding runs_crumb_def by blast

theorem crumb_document_correct_witness:
  "\<exists>st'. run_item ascii_env (Node Sec ''s'' [Entry ''k'' ''%s'' [PStr ''v'']]) (example_state OUTPUT_FORMAT_CRUMB) = Inr st' \<and>
    shows_crumb ascii_env [58] [58, 32] st' [] ([] @ crumb_lines ascii_env [58] [58, 32] []
      (Node Sec ''s'' [Entry ''k'' ''%s'' [PStr ''v'']])) \<and> crumb_room st' 3"
  by (rule crumb_document_correct)
    (simp_all add: shows_crumb_def has_text_def doc_is_new example_state_def ostate0_def crumb_names_def wf_heap_def
      crumb_room_def path_def example_simps encode_plain)

text \<open>
  C26: \<open>clear_breadcrumbs\<close> ends for every list of names and leaves the empty list; a number of
  rounds above the number of names is enough.
\<close>

theorem clear_breadcrumbs_terminates:
  assumes "crumb_names st cs" "crumb_list st \<noteq> 0" "length cs < fuel"
  shows "\<exists>h. clear_breadcrumbs fuel st = Inr (st\<lparr>crumbs := h\<rparr>) \<and> crumb_names (st\<lparr>crumbs := h\<rparr>) []"
  by (rule clear_breadcrumbs_ok [OF assms])

definition one_crumb :: ostate where
  "one_crumb = ostate0\<lparr>crumb_list := 1, crumbs := \<lparr>cells = [1 \<mapsto> \<lparr>ldata = None, nxt = 2, prv = 2\<rparr>,
     2 \<mapsto> \<lparr>ldata = Some ''a'', nxt = 1, prv = 1\<rparr>], brk = 3, lim = 576460752303423488\<rparr>\<rparr>"

lemma one_crumb_ok: "crumb_names one_crumb [''a'']" "crumb_list one_crumb = 1"
  by (auto simp: crumb_names_def one_crumb_def wf_heap_def cdll_def items_def nx_def pv_def
      intro!: exI [of _ "[2]"])

theorem clear_breadcrumbs_terminates_witness:
  "\<exists>h. clear_breadcrumbs 2 one_crumb = Inr (one_crumb\<lparr>crumbs := h\<rparr>) \<and> crumb_names (one_crumb\<lparr>crumbs := h\<rparr>) []"
  by (rule clear_breadcrumbs_terminates [OF one_crumb_ok(1)]) (simp_all add: one_crumb_ok)

end
