(* ===== verification/Report.thy ===== *)
theory Report
  imports JsonDoc Crumbs
begin

text \<open>
  Reports: the sequences of document calls the \<^verbatim>\<open>show_*\<close> routines make. A routine of
  \<^verbatim>\<open>procenv.c\<close> or of a platform driver queries the system and calls \<^verbatim>\<open>header\<close>,
  \<^verbatim>\<open>section_open\<close>, \<^verbatim>\<open>entry\<close> and so on; the model of such a routine returns the
  list of these calls (\<open>call list\<close>), and \<open>run_calls\<close> performs them on the document. A report has
  no document, so the \<^verbatim>\<open>common_assert ()\<close> at the start of a routine or hook is not part of it: every
  document call makes the same assertion when it is performed, and between two of them nothing a
  routine does changes what is asserted.

  \<open>shape\<close> follows the nesting of a call sequence: every opening call is closed by its own kind,
  a container holds objects only and an object stands in a container only. A sequence that
  passes it is the linear form of a tree of \<open>DocTree\<close> (\<open>tree_of\<close>), so the theorems on whole
  documents apply to what the routines print.
\<close>

section \<open>Calls\<close>

datatype call =
    C_header string
  | C_footer
  | C_section_open string
  | C_section_close
  | C_container_open string
  | C_container_close
  | C_object_open
  | C_object_close
  | C_entry string string "parg list"

type_synonym report = "call list res"

fun run_call :: "cenv \<Rightarrow> call \<Rightarrow> ostate stmt" where
  "run_call env (C_header name) = header env name"
| "run_call env C_footer = footer env"
| "run_call env (C_section_open name) = section_open env name"
| "run_call env C_section_close = section_close env"
| "run_call env (C_container_open name) = container_open env name"
| "run_call env C_container_close = container_close env"
| "run_call env C_object_open = object_open env False"
| "run_call env C_object_close = object_close env False"
| "run_call env (C_entry name fmt args) = entry env name fmt args"

definition run_calls :: "cenv \<Rightarrow> call list \<Rightarrow> ostate stmt" where
  "run_calls env cs = do_all (map (run_call env) cs)"

text \<open>One routine after the other; the first that stops ends the run.\<close>

fun reports :: "report list \<Rightarrow> report" where
  "reports [] = Inr []"
| "reports (r # rs) = bindE r (\<lambda>cs. bindE (reports rs) (\<lambda>ds. Inr (cs @ ds)))"

lemma run_calls_simps [simp]:
  "run_calls env [] st = Inr st"
  "run_calls env (c # cs) st = bindE (run_call env c st) (run_calls env cs)"
  "run_calls env (cs @ ds) st = bindE (run_calls env cs st) (run_calls env ds)"
  by (simp_all add: run_calls_def)

section \<open>Nesting\<close>

definition in_con :: "kind list \<Rightarrow> bool" where
  "in_con stk \<longleftrightarrow> (case stk of Con # _ \<Rightarrow> True | _ \<Rightarrow> False)"

definition pop :: "kind \<Rightarrow> kind list \<Rightarrow> kind list option" where
  "pop k stk = (case stk of k' # rest \<Rightarrow> if k = k' then Some rest else None | [] \<Rightarrow> None)"

definition push :: "kind \<Rightarrow> kind list \<Rightarrow> kind list option" where
  "push k stk = (if in_con stk = (k = Obj) then Some (k # stk) else None)"

fun step_shape :: "call \<Rightarrow> kind list \<Rightarrow> kind list option" where
  "step_shape (C_header name) stk = push Sec stk"
| "step_shape C_footer stk = pop Sec stk"
| "step_shape (C_section_open name) stk = push Sec stk"
| "step_shape C_section_close stk = pop Sec stk"
| "step_shape (C_container_open name) stk = push Con stk"
| "step_shape C_container_close stk = pop Con stk"
| "step_shape C_object_open stk = push Obj stk"
| "step_shape C_object_close stk = pop Obj stk"
| "step_shape (C_entry name fmt args) stk = (if in_con stk then None else Some stk)"

fun shape :: "call list \<Rightarrow> kind list \<Rightarrow> kind list option" where
  "shape [] stk = Some stk"
| "shape (c # cs) stk = Option.bind (step_shape c stk) (shape cs)"

text \<open>A complete sequence of members, and a complete sequence of objects.\<close>

definition members :: "call list \<Rightarrow> bool" where
  "members cs \<longleftrightarrow> (\<forall>stk. \<not> in_con stk \<longrightarrow> shape cs stk = Some stk)"

definition objects :: "call list \<Rightarrow> bool" where
  "objects cs \<longleftrightarrow> (\<forall>stk. in_con stk \<longrightarrow> shape cs stk = Some stk)"

lemma shape_append [simp]: "shape (cs @ ds) stk = Option.bind (shape cs stk) (shape ds)"
  by (induction cs arbitrary: stk) (auto split: bind_splits)

lemma in_con_simps [simp]: "in_con (Con # stk)" "\<not> in_con []" "\<not> in_con (Sec # stk)" "\<not> in_con (Obj # stk)"
  by (simp_all add: in_con_def)

lemma push_simps [simp]:
  "\<not> in_con stk \<Longrightarrow> k \<noteq> Obj \<Longrightarrow> push k stk = Some (k # stk)"
  "in_con stk \<Longrightarrow> push Obj stk = Some (Obj # stk)"
  by (simp_all add: push_def)

lemma pop_simps [simp]: "pop k (k # stk) = Some stk"
  by (simp add: pop_def)

lemma members_shape: "members cs \<Longrightarrow> \<not> in_con stk \<Longrightarrow> shape cs stk = Some stk"
  by (simp add: members_def)

lemma objects_shape: "objects cs \<Longrightarrow> in_con stk \<Longrightarrow> shape cs stk = Some stk"
  by (simp add: objects_def)

text \<open>The closure rules the routines are checked with.\<close>

named_theorems report_shape

lemma members_basic [report_shape]:
  "members []"
  "members [C_entry name fmt args]"
  "members cs \<Longrightarrow> members (C_entry name fmt args # cs)"
  by (simp_all add: members_def)

lemma members_append [report_shape]: "members cs \<Longrightarrow> members ds \<Longrightarrow> members (cs @ ds)"
  by (simp add: members_def)

lemma objects_basic [report_shape]: "objects []"
  by (simp add: objects_def)

lemma objects_append [report_shape]: "objects cs \<Longrightarrow> objects ds \<Longrightarrow> objects (cs @ ds)"
  by (simp add: objects_def)

lemma members_concat [report_shape]: "(\<And>x. x \<in> set xs \<Longrightarrow> members x) \<Longrightarrow> members (concat xs)"
  by (induction xs) (auto intro: members_append members_basic)

lemma objects_concat [report_shape]: "(\<And>x. x \<in> set xs \<Longrightarrow> objects x) \<Longrightarrow> objects (concat xs)"
  by (induction xs) (auto intro: objects_append objects_basic)

lemma members_entries [report_shape]: "members (map (\<lambda>x. C_entry (n x) (f x) (a x)) xs)"
  by (induction xs) (auto intro: members_basic)

lemma shape_concat [simp]:
  "(\<And>x. x \<in> set xs \<Longrightarrow> shape (f x) stk = Some stk) \<Longrightarrow> shape (concat (map f xs)) stk = Some stk"
  by (induction xs) auto

lemma shape_entries [simp]:
  "\<not> in_con stk \<Longrightarrow> shape (map (\<lambda>x. C_entry (n x) (f x) (a x)) xs) stk = Some stk"
  by (induction xs) auto

section \<open>The tree of a report\<close>

fun open_call :: "kind \<Rightarrow> string \<Rightarrow> call" where
  "open_call Sec name = C_section_open name"
| "open_call Con name = C_container_open name"
| "open_call Obj name = C_object_open"

fun close_call :: "kind \<Rightarrow> call" where
  "close_call Sec = C_section_close"
| "close_call Con = C_container_close"
| "close_call Obj = C_object_close"

fun calls :: "item \<Rightarrow> call list" where
  "calls (Entry name fmt args) = [C_entry name fmt args]"
| "calls (Node k name is) = open_call k name # concat (map calls is) @ [close_call k]"

text \<open>\<^verbatim>\<open>header\<close> and \<^verbatim>\<open>footer\<close> are \<^verbatim>\<open>section_open\<close> and \<^verbatim>\<open>section_close\<close> behind one more assertion.\<close>

fun plain :: "call \<Rightarrow> call" where
  "plain (C_header name) = C_section_open name"
| "plain C_footer = C_section_close"
| "plain c = c"

text \<open>Reading a call: what it opens, what it closes, or an entry.\<close>

datatype call_token = T_open kind string | T_close kind | T_entry string string "parg list"

fun token :: "call \<Rightarrow> call_token" where
  "token (C_header name) = T_open Sec name"
| "token C_footer = T_close Sec"
| "token (C_section_open name) = T_open Sec name"
| "token C_section_close = T_close Sec"
| "token (C_container_open name) = T_open Con name"
| "token C_container_close = T_close Con"
| "token C_object_open = T_open Obj []"
| "token C_object_close = T_close Obj"
| "token (C_entry name fmt args) = T_entry name fmt args"

text \<open>The open elements, innermost first, each with the items before it.\<close>

fun nest :: "(kind \<times> string \<times> item list) list \<Rightarrow> item list \<Rightarrow> call list \<Rightarrow> item list option" where
  "nest stk acc [] = (if stk = [] then Some (rev acc) else None)"
| "nest stk acc (c # cs) =
     (case token c of
        T_entry name fmt args \<Rightarrow> nest stk (Entry name fmt args # acc) cs
      | T_open k name \<Rightarrow> nest ((k, name, acc) # stk) [] cs
      | T_close k \<Rightarrow>
          (case stk of
             [] \<Rightarrow> None
           | (k', name, up) # rest \<Rightarrow> if k = k' then nest rest (Node k name (rev acc) # up) cs else None))"

definition tree_of :: "call list \<Rightarrow> item list" where
  "tree_of cs = (case nest [] [] cs of Some is \<Rightarrow> is | None \<Rightarrow> [])"

fun prefix_calls :: "(kind \<times> string \<times> item list) list \<Rightarrow> call list" where
  "prefix_calls [] = []"
| "prefix_calls ((k, name, up) # stk) = prefix_calls stk @ concat (map calls (rev up)) @ [open_call k name]"

lemma token_plain:
  "token c = T_entry name fmt args \<Longrightarrow> plain c = C_entry name fmt args"
  "token c = T_open k name \<Longrightarrow> plain c = open_call k name"
  "token c = T_close k \<Longrightarrow> plain c = close_call k"
  by (cases c; auto)+

lemma token_shape:
  "token c = T_entry name fmt args \<Longrightarrow> step_shape c stk = (if in_con stk then None else Some stk)"
  "token c = T_open k name \<Longrightarrow> step_shape c stk = push k stk"
  "token c = T_close k \<Longrightarrow> step_shape c stk = pop k stk"
  by (cases c; auto)+

lemma nest_calls:
  "nest stk acc cs = Some is \<Longrightarrow>
   concat (map calls is) = prefix_calls stk @ concat (map calls (rev acc)) @ map plain cs"
proof (induction stk acc cs rule: nest.induct)
  case (1 stk acc)
  then show ?case by (simp split: if_splits)
next
  case (2 stk acc c cs)
  then show ?case
    by (cases "token c") (auto simp: token_plain split: list.splits if_splits)
qed

text \<open>The items before each open element fit the element around it.\<close>

definition fitting :: "bool \<Rightarrow> item list \<Rightarrow> bool" where
  "fitting con is \<longleftrightarrow> (\<forall>i \<in> set is. json_shape i \<and> is_obj i = con)"

fun partial_ok :: "(kind \<times> string \<times> item list) list \<Rightarrow> bool" where
  "partial_ok [] = True"
| "partial_ok ((k, name, up) # stk) \<longleftrightarrow>
     in_con (map fst stk) = (k = Obj) \<and> fitting (k = Obj) up \<and> partial_ok stk"

lemma in_con_Cons: "in_con (k # stk) \<longleftrightarrow> k = Con"
  by (cases k) simp_all

lemma fitting_Node:
  "fitting (k = Con) acc \<Longrightarrow> fitting (k = Obj) up \<Longrightarrow> fitting (k = Obj) (Node k name (rev acc) # up)"
  by (cases k) (auto simp: fitting_def is_obj_def)

lemma nest_shape:
  assumes "shape cs (map fst stk) = Some []" "partial_ok stk" "fitting (in_con (map fst stk)) acc"
  shows "\<exists>is. nest stk acc cs = Some is \<and> fitting False is"
  using assms
proof (induction stk acc cs rule: nest.induct)
  case (1 stk acc)
  then show ?case by (auto simp: fitting_def)
next
  case (2 stk acc c cs)
  show ?case
  proof (cases "token c")
    case (T_open k name)
    then show ?thesis using "2.prems" "2.IH"(1) [OF T_open]
      by (auto simp: token_shape push_def in_con_Cons fitting_def split: bind_splits if_splits)
  next
    case (T_close k)
    show ?thesis
    proof (cases stk)
      case Nil
      with T_close "2.prems" show ?thesis by (simp add: token_shape pop_def)
    next
      case (Cons p rest)
      obtain k' name up where p: "p = (k', name, up)" by (cases p)
      have k: "k' = k" "shape cs (map fst rest) = Some []"
        using "2.prems"(1) T_close Cons p by (auto simp: token_shape pop_def split: if_splits)
      have f: "fitting (k = Obj) (Node k name (rev acc) # up)" "in_con (map fst rest) = (k = Obj)" "partial_ok rest"
        using "2.prems"(2,3) Cons p k(1) by (auto simp: in_con_Cons intro: fitting_Node)
      show ?thesis
        using "2.IH"(2) [OF T_close Cons p [symmetric] refl] k f T_close Cons p by simp
    qed
  next
    case (T_entry name fmt args)
    then show ?thesis using "2.prems" "2.IH"(3) [OF T_entry]
      by (auto simp: token_shape fitting_def is_obj_def split: if_splits)
  qed
qed

lemma tree_of_members:
  assumes "members cs"
  shows "concat (map calls (tree_of cs)) = map plain cs" "fitting False (tree_of cs)"
proof -
  have "\<exists>is. nest [] [] cs = Some is \<and> fitting False is"
    by (rule nest_shape) (simp_all add: members_shape [OF assms] fitting_def)
  then obtain is' where "nest [] [] cs = Some is'" "fitting False is'" by blast
  with nest_calls [of "[]" "[]" cs is'] show "concat (map calls (tree_of cs)) = map plain cs" "fitting False (tree_of cs)"
    by (simp_all add: tree_of_def)
qed

section \<open>Running a report is running its tree\<close>

lemma header_section: "header env name = section_open env name"
  by (rule ext) (simp add: header_def section_open_def common_assert_def guardE_def)

lemma footer_section: "footer env = section_close env"
  by (rule ext) (simp add: footer_def section_close_def common_assert_def guardE_def)

lemma run_plain: "run_calls env (map plain cs) st = run_calls env cs st"
proof (induction cs arbitrary: st)
  case (Cons c cs)
  then have "run_calls env (map plain cs) = run_calls env cs" by (rule ext)
  moreover have "run_call env (plain c) = run_call env c"
    by (cases c) (simp_all add: header_section footer_section)
  ultimately show ?case by simp
qed simp

lemma run_open_close:
  "run_call env (open_call k name) = do_open env k name" "run_call env (close_call k) = do_close env k"
  by (cases k; simp add: do_open_def do_close_def)+

lemma run_calls_item: "run_calls env (calls i) st = run_item env i st"
proof (induction i arbitrary: st)
  case (Node k name "is")
  have "run_calls env (concat (map calls js)) s = do_all (map (run_item env) js) s" if "set js \<subseteq> set is" for js s
    using that Node.IH by (induction js arbitrary: s) (auto intro!: bindE_cong)
  then have "run_calls env (concat (map calls is)) = do_all (map (run_item env) is)" by blast
  then show ?case by (auto simp: run_open_close intro!: bindE_cong)
next
  case (Entry name fmt args)
  show ?case by (cases "entry env name fmt args st") simp_all
qed

lemma run_calls_items: "run_calls env (concat (map calls is)) st = do_all (map (run_item env) is) st"
  by (induction "is" arbitrary: st) (auto simp: run_calls_item intro!: bindE_cong)

lemma run_calls_tree: "members cs \<Longrightarrow> run_calls env cs = do_all (map (run_item env) (tree_of cs))"
  using tree_of_members(1) [of cs] run_calls_items [of env "tree_of cs"] run_plain [of env cs]
  by (simp add: fun_eq_iff)

text \<open>The strings of a call can be encoded.\<close>

fun call_ok :: "cenv \<Rightarrow> OutputFormat \<Rightarrow> call \<Rightarrow> bool" where
  "call_ok env fmt (C_header name) = name_ok env fmt name (enc_name env fmt name)"
| "call_ok env fmt (C_section_open name) = name_ok env fmt name (enc_name env fmt name)"
| "call_ok env fmt (C_container_open name) = name_ok env fmt name (enc_name env fmt name)"
| "call_ok env fmt (C_entry name vfmt args) \<longleftrightarrow>
     name_ok env fmt name (enc_name env fmt name) \<and> value_ok env fmt vfmt args (enc_value env fmt vfmt args)"
| "call_ok env fmt c = True"

definition calls_ok :: "cenv \<Rightarrow> OutputFormat \<Rightarrow> call list \<Rightarrow> bool" where
  "calls_ok env fmt cs \<longleftrightarrow> (\<forall>c \<in> set cs. call_ok env fmt c)"

lemma calls_ok_simps [simp]:
  "calls_ok env fmt []"
  "calls_ok env fmt (c # cs) \<longleftrightarrow> call_ok env fmt c \<and> calls_ok env fmt cs"
  "calls_ok env fmt (cs @ ds) \<longleftrightarrow> calls_ok env fmt cs \<and> calls_ok env fmt ds"
  by (auto simp: calls_ok_def)

lemma calls_ok_plain: "calls_ok env fmt (map plain cs) \<longleftrightarrow> calls_ok env fmt cs"
proof -
  have "call_ok env fmt (plain c) \<longleftrightarrow> call_ok env fmt c" for c by (cases c) simp_all
  then show ?thesis by (simp add: calls_ok_def)
qed

lemma calls_ok_concat: "calls_ok env fmt (concat (map f xs)) \<longleftrightarrow> (\<forall>x \<in> set xs. calls_ok env fmt (f x))"
  by (auto simp: calls_ok_def)

lemma calls_ok_item:
  "json_shape i \<Longrightarrow> calls_ok env OUTPUT_FORMAT_JSON (calls i) \<Longrightarrow> item_ok env OUTPUT_FORMAT_JSON i"
proof (induction i)
  case (Node k name "is")
  then have "\<forall>i \<in> set is. item_ok env OUTPUT_FORMAT_JSON i" by (auto simp: calls_ok_concat)
  with Node.prems show ?case by (cases k) auto
qed simp

lemma height_calls: "height i \<le> length (calls i)"
proof (induction i)
  case (Node k name "is")
  have "height i \<le> length (concat (map calls is))" if "i \<in> set is" for i
    using Node.IH [OF that] that by (fastforce simp: length_concat intro: order_trans [OF _ member_le_sum_list])
  then show ?case by (auto simp: Max_le_iff intro: le_SucI)
qed simp

lemma items_height_calls: "items_height is \<le> length (concat (map calls is))"
proof -
  have "height i \<le> length (concat (map calls is))" if "i \<in> set is" for i
    using height_calls [of i] that by (fastforce simp: length_concat intro: order_trans [OF _ member_le_sum_list])
  then show ?thesis by (simp add: items_height_def)
qed

lemma tree_height: "members cs \<Longrightarrow> items_height (tree_of cs) \<le> length cs"
  using items_height_calls [of "tree_of cs"] tree_of_members(1) [of cs] by simp

lemma tree_json_ok:
  assumes "members cs" "calls_ok env OUTPUT_FORMAT_JSON cs"
  shows "item_ok env OUTPUT_FORMAT_JSON (Node Obj [] (tree_of cs))" "json_shape (Node Obj [] (tree_of cs))"
proof -
  have t: "fitting False (tree_of cs)" "calls_ok env OUTPUT_FORMAT_JSON (concat (map calls (tree_of cs)))"
    using tree_of_members [OF assms(1)] assms(2) by (simp_all add: calls_ok_plain)
  show "json_shape (Node Obj [] (tree_of cs))" using t(1) by (auto simp: fitting_def)
  with t show "item_ok env OUTPUT_FORMAT_JSON (Node Obj [] (tree_of cs))"
    by (auto simp: fitting_def calls_ok_concat intro: calls_ok_item)
qed

text \<open>Header, report and footer, as \<^verbatim>\<open>main\<close> and \<^verbatim>\<open>dump\<close> put them together.\<close>

definition run_report :: "cenv \<Rightarrow> pkg \<Rightarrow> call list \<Rightarrow> ostate stmt" where
  "run_report env pk cs = do_all [master_header env pk, run_calls env cs, master_footer env pk]"

lemma run_report_tree: "members cs \<Longrightarrow> run_report env pk cs = run_document env pk (tree_of cs)"
  by (rule ext) (simp add: run_report_def run_document_def run_calls_tree)

text \<open>The JSON text of a report, without the final line end.\<close>

definition json_text :: "cenv \<Rightarrow> layout \<Rightarrow> call list \<Rightarrow> wchar list" where
  "json_text env ly cs = render env OUTPUT_FORMAT_JSON ly 0 (Node Obj [] (tree_of cs))"

lemma json_report:
  assumes "fresh env OUTPUT_FORMAT_JSON ly st" "base ly = 0" "members cs" "calls_ok env OUTPUT_FORMAT_JSON cs"
    "level_ok ly (Suc (length cs))" "fits env (length (json_text env ly cs) + 1)"
  shows "\<exists>st'. run_report env pk cs st = Inr st' \<and> indent st' = 0 \<and> has_text st' (json_text env ly cs @ [NL])"
proof -
  have "level_ok ly (Suc (items_height (tree_of cs)))"
    by (rule level_ok_mono [OF assms(5)]) (simp add: tree_height [OF assms(3)])
  then show ?thesis
    using json_document_text [OF assms(1,2) tree_json_ok(1) [OF assms(3,4)]] assms(6)
    by (simp add: run_report_tree [OF assms(3)] json_text_def)
qed

lemma json_report_grammar:
  assumes "members cs" "calls_ok env OUTPUT_FORMAT_JSON cs" "printable_sane env" "json_layout ly"
  shows "jvalue (json_text env ly cs)"
  using render_json [OF assms(3,4) tree_json_ok [OF assms(1,2)], of 0] by (simp add: is_obj_def json_text_def)

section \<open>What the calls leave alone\<close>

text \<open>
  \<open>preserves I a\<close>: the statement keeps the property \<open>I\<close> of the state when it succeeds. The document
  calls only change the document, the indentation, the element before and the breadcrumbs; so they keep
  every property that does not depend on these (\<open>doc_invariant\<close>).
\<close>

definition preserves :: "(ostate \<Rightarrow> bool) \<Rightarrow> ostate stmt \<Rightarrow> bool" where
  "preserves I a \<longleftrightarrow> (\<forall>st st'. I st \<longrightarrow> a st = Inr st' \<longrightarrow> I st')"

named_theorems preserves_intros

lemma preservesD: "preserves I a \<Longrightarrow> a st = Inr st' \<Longrightarrow> I st \<Longrightarrow> I st'"
  by (auto simp: preserves_def)

lemma preservesI: "(\<And>st st'. I st \<Longrightarrow> a st = Inr st' \<Longrightarrow> I st') \<Longrightarrow> preserves I a"
  unfolding preserves_def by blast

lemma preserves_Inr [preserves_intros]: "preserves I Inr" and preserves_Inl [preserves_intros]: "preserves I (\<lambda>st. Inl e)"
  by (simp_all add: preserves_def)

lemma preserves_bind [preserves_intros]:
  assumes "preserves I a" "preserves I b"
  shows "preserves I (\<lambda>st. bindE (a st) b)"
proof (rule preservesI)
  fix st st'
  assume l: "I st" and "bindE (a st) b = Inr st'"
  then obtain s1 where "a st = Inr s1" "b s1 = Inr st'" by (auto simp: bindE_Inr_iff)
  with l show "I st'" by (metis assms preservesD)
qed

lemma preserves_do_all [preserves_intros]: "(\<And>a. a \<in> set as \<Longrightarrow> preserves I a) \<Longrightarrow> preserves I (do_all as)"
proof (induction as)
  case Nil
  have "do_all [] = Inr" by (rule ext) simp
  then show ?case using preserves_Inr by simp
next
  case (Cons a as)
  have "do_all (a # as) = (\<lambda>st. bindE (a st) (do_all as))" by (rule ext) simp
  with Cons show ?case by (simp add: preserves_bind del: do_all.simps)
qed

text \<open>A step that computes a value first.\<close>

lemma preserves_value [preserves_intros]:
  assumes "\<And>x. preserves I (f x)"
  shows "preserves I (\<lambda>st. bindE (g st) (\<lambda>x. f x st))"
proof (rule preservesI)
  fix st st'
  assume l: "I st" and "bindE (g st) (\<lambda>x. f x st) = Inr st'"
  then obtain x where "f x st = Inr st'" by (auto simp: bindE_Inr_iff)
  with l assms show "I st'" by (metis preservesD)
qed

lemma preserves_guard [preserves_intros]: "preserves I a \<Longrightarrow> preserves I (\<lambda>st. guardE (b st) e (a st))"
  by (rule preservesI) (metis guardE_Inr_iff preservesD)

lemma preserves_cases [preserves_intros]:
  "preserves I a \<Longrightarrow> preserves I b \<Longrightarrow> preserves I (\<lambda>st. if c st then a st else b st)"
  "preserves I a \<Longrightarrow> (\<And>x. preserves I (f x)) \<Longrightarrow> preserves I (\<lambda>st. case o' st of None \<Rightarrow> a st | Some x \<Rightarrow> f x st)"
  "(\<And>x y. preserves I (h x y)) \<Longrightarrow> preserves I (\<lambda>st. case p st of (x, y) \<Rightarrow> h x y st)"
  by (rule preservesI, auto split: if_splits option.splits prod.splits dest: preservesD)+

lemma preserves_format_case [preserves_intros]:
  "preserves I t \<Longrightarrow> preserves I c \<Longrightarrow> preserves I j \<Longrightarrow> preserves I x \<Longrightarrow>
   preserves I (\<lambda>st. case f st of OUTPUT_FORMAT_TEXT \<Rightarrow> t st | OUTPUT_FORMAT_CRUMB \<Rightarrow> c st
     | OUTPUT_FORMAT_JSON \<Rightarrow> j st | OUTPUT_FORMAT_XML \<Rightarrow> x st)"
  by (rule preservesI) (auto split: OutputFormat.splits dest: preservesD)

lemma preserves_common [preserves_intros]: "preserves I common_assert"
  by (rule preservesI) (auto simp: common_assert_def guardE_Inr_iff)

lemma preserves_do_all_state [preserves_intros]:
  "(\<And>s a. a \<in> set (as s) \<Longrightarrow> preserves I a) \<Longrightarrow> preserves I (\<lambda>st. do_all (as st) st)"
  by (rule preservesI) (rule preservesD [OF preserves_do_all])

lemma wappend_Some: "wappend env (Some d) s = Inr d' \<Longrightarrow> d' \<noteq> None"
  by (auto simp: wappend_def wappendn_def Let_def bindE_Inr_iff guardE_Inr_iff split: if_splits)

lemma wappendf_Some: "wappendf env dest fmt args = Inr d' \<Longrightarrow> dest = Some d \<Longrightarrow> d' \<noteq> None"
  by (auto simp: wappendf_def wappendva_def Let_def bindE_Inr_iff dest: wappend_Some split: if_splits)

lemma pappend_Some: "pappend env (Some d) s = Inr d' \<Longrightarrow> d' \<noteq> None"
  by (auto simp: pappend_def Let_def bindE_Inr_iff guardE_Inr_iff split: if_splits option.splits)

lemma append_doc:
  "wappend env dest s = Inr d' \<Longrightarrow> dest = None \<or> d' \<noteq> None"
  "wappendf env dest fmt args = Inr d' \<Longrightarrow> dest = None \<or> d' \<noteq> None"
  "pappend env dest p = Inr d' \<Longrightarrow> dest = None \<or> d' \<noteq> None"
  by (cases dest; auto dest: wappend_Some wappendf_Some pappend_Some)+

lemma do_all_single: "do_all [a] = a"
proof
  show "do_all [a] st = a st" for st by (cases "a st") simp_all
qed

locale doc_invariant =
  fixes I :: "ostate \<Rightarrow> bool"
  assumes has_doc: "I st \<Longrightarrow> doc st \<noteq> None"
    and upd_doc: "I st \<Longrightarrow> I (st\<lparr>doc := Some d\<rparr>)"
    and upd_indent: "I st \<Longrightarrow> I (st\<lparr>indent := i\<rparr>)"
    and upd_element: "I st \<Longrightarrow> I (st\<lparr>last_element := l, current_element := e\<rparr>)"
    and upd_crumbs: "I st \<Longrightarrow> I (st\<lparr>crumb_list := cl, crumbs := h\<rparr>)" "I st \<Longrightarrow> I (st\<lparr>crumbs := h\<rparr>)"
begin

lemma doc_result: "d \<noteq> None \<Longrightarrow> I st \<Longrightarrow> I (st\<lparr>doc := d\<rparr>)"
  using upd_doc by auto

lemma keeps_append [preserves_intros]:
  "preserves I (\<lambda>st. doc_wappend env (s st) st)" "preserves I (\<lambda>st. doc_wappendf env (f st) (args st) st)"
  by (rule preservesI, auto simp: doc_wappend_def doc_wappendf_def bindE_Inr_iff
      intro!: doc_result dest!: append_doc dest: has_doc)+

lemma keeps_indent [preserves_intros]: "preserves I inc_indent" "preserves I dec_indent"
  by (rule preservesI, auto simp: inc_indent_def dec_indent_def bindE_Inr_iff guardE_Inr_iff intro: upd_indent)+

lemma keeps_add_indent [preserves_intros]: "preserves I (add_indent env)"
proof -
  have p: "preserves I (\<lambda>st. bindE (pappend env (doc st) (p st)) (\<lambda>d. Inr (st\<lparr>doc := d\<rparr>)))" for p
    by (rule preservesI) (auto simp: bindE_Inr_iff intro!: doc_result dest!: append_doc dest: has_doc)
  show ?thesis
    unfolding add_indent_def
    by (intro preserves_intros p)
qed

lemma keeps_formats [preserves_intros]:
  "preserves I (format_text_element env)" "preserves I (format_json_element env)" "preserves I (format_xml_element env)"
proof -
  have g: "preserves I (same_level env s)" "preserves I (one_deeper env)" "preserves I (one_back env)"
    "preserves I (do_all [doc_wappend env s, dec_indent])" for s
    by (rule preserves_do_all; auto intro: preserves_intros keeps_append(1) [of env "\<lambda>_. s" for s])+
  note k = g [THEN preservesD] preservesD [OF keeps_add_indent]
  show "preserves I (format_text_element env)"
    unfolding preserves_def format_text_element_def common_assert_def
    by (auto simp: guardE_Inr_iff bindE_Inr_iff simp del: do_all.simps dest: k split: ElementType.splits)
  show "preserves I (format_json_element env)"
    unfolding preserves_def format_json_element_def json_after_object_open_def json_after_object_close_def common_assert_def
    by (auto simp: guardE_Inr_iff bindE_Inr_iff simp del: do_all.simps dest: k split: ElementType.splits)
  show "preserves I (format_xml_element env)"
    unfolding preserves_def format_xml_element_def xml_after_object_open_def xml_after_object_close_def common_assert_def
    by (auto simp: guardE_Inr_iff bindE_Inr_iff simp del: do_all.simps dest: k split: ElementType.splits)
qed

lemma keeps_format [preserves_intros]: "preserves I (format_element env)"
  unfolding format_element_def by (intro preserves_intros)

lemma keeps_change [preserves_intros]: "preserves I (change_element env el)"
proof -
  have "preserves I (\<lambda>st. format_element env (st\<lparr>last_element := current_element st, current_element := el\<rparr>))"
    by (rule preservesI) (rule preservesD [OF keeps_format], assumption, rule upd_element)
  then show ?thesis unfolding change_element_def by (intro preserves_intros)
qed

lemma keeps_crumbs [preserves_intros]: "preserves I (add_breadcrumb name)" "preserves I remove_breadcrumb"
  by (rule preservesI, auto simp: add_breadcrumb_def remove_breadcrumb_def bindE_Inr_iff guardE_Inr_iff
      intro: upd_crumbs split: prod.splits if_splits)+

lemma keeps_append_crumbs [preserves_intros]: "preserves I (append_crumbs env as)"
proof (induction as)
  case Nil
  have "append_crumbs env [] = Inr" by (rule ext) simp
  then show ?case using preserves_Inr by simp
next
  case (Cons a as)
  have "append_crumbs env (a # as) = (\<lambda>st. bindE (get_node (crumbs st) a) (\<lambda>n.
       case ldata n of
         None \<Rightarrow> Inl NullDeref
       | Some crumb \<Rightarrow>
           bindE (doc_wappendf env (L ''%s%s'') [PStr crumb, PStr (crumb_separator st)] st)
             (append_crumbs env as)))" by (rule ext) simp
  with Cons show ?case by (simp del: append_crumbs.simps) (intro preserves_intros)
qed

lemma keeps_elements [preserves_intros]:
  "preserves I (section_open env name)" "preserves I (section_close env)"
  "preserves I (container_open env name)" "preserves I (container_close env)"
  "preserves I (object_open env r)" "preserves I (object_close env r)"
  unfolding section_open_def section_close_def container_open_def container_close_def object_open_def object_close_def
  by (intro preserves_intros)+

lemma keeps_entry [preserves_intros]: "preserves I (entry env name fmt args)"
proof -
  have c: "preserves I (\<lambda>st. bindE (append_crumbs env as st) (doc_wappendf env f (args st)))" for as f args
    by (rule preservesI)
      (auto simp: bindE_Inr_iff dest: preservesD [OF keeps_append_crumbs] preservesD [OF keeps_append(2)])
  have "preserves I (\<lambda>st. entry env name fmt args st)"
    unfolding entry_def by (intro c preserves_intros)
  then show ?thesis by simp
qed

lemma keeps_call [preserves_intros]: "preserves I (run_call env c)"
  by (cases c) (simp_all add: header_section footer_section keeps_elements keeps_entry)

lemma keeps_calls [preserves_intros]: "preserves I (run_calls env cs)"
  unfolding run_calls_def by (rule preserves_do_all) (auto intro: keeps_call)

lemma keeps_item [preserves_intros]: "preserves I (run_item env i)"
  using keeps_calls [of env "calls i"] by (simp add: preserves_def run_calls_item)

lemma keeps_master [preserves_intros]: "preserves I (master_header env pk)" "preserves I (master_footer env pk)"
  unfolding master_header_def master_footer_def
  by (intro preserves_intros; auto intro: preserves_intros keeps_append)+

end

section \<open>Objects outside JSON\<close>

text \<open>
  In the other formats \<^verbatim>\<open>object_open\<close> and \<^verbatim>\<open>object_close\<close> write nothing, so an object is
  its children. \<open>live\<close> is what the assertions of every routine ask of the state; all calls keep it.
\<close>

definition live :: "OutputFormat \<Rightarrow> ostate \<Rightarrow> bool" where
  "live fmt st \<longleftrightarrow> output_format st = fmt \<and> doc st \<noteq> None \<and> 0 \<le> indent_amount st"

interpretation live_state: doc_invariant "live fmt" for fmt
  by unfold_locales (auto simp: live_def)

fun splice :: "item \<Rightarrow> item list" where
  "splice (Entry name fmt args) = [Entry name fmt args]"
| "splice (Node k name is) =
     (let js = concat (map splice is) in if k = Obj then js else [Node k name js])"

definition splices :: "item list \<Rightarrow> item list" where
  "splices is = concat (map splice is)"

lemma object_skip:
  "live fmt st \<Longrightarrow> fmt \<noteq> OUTPUT_FORMAT_JSON \<Longrightarrow> do_open env Obj name st = Inr st \<and> do_close env Obj st = Inr st"
  by (simp add: live_def do_open_def do_close_def object_open_def object_close_def common_assert_def)

lemma run_splice_list:
  assumes "\<And>i st. i \<in> set is \<Longrightarrow> live fmt st \<Longrightarrow> run_item env i st = do_all (map (run_item env) (splice i)) st"
    "live fmt st"
  shows "do_all (map (run_item env) is) st = do_all (map (run_item env) (concat (map splice is))) st"
  using assms
proof (induction "is" arbitrary: st)
  case (Cons i js)
  have "live fmt st'" if "do_all (map (run_item env) (splice i)) st = Inr st'" for st'
    using that Cons.prems(1) [of i st] Cons.prems(2) preservesD [OF live_state.keeps_item] by simp
  then show ?case using Cons by (auto intro!: bindE_cong)
qed simp

lemma run_splice:
  assumes "fmt \<noteq> OUTPUT_FORMAT_JSON"
  shows "live fmt st \<Longrightarrow> run_item env i st = do_all (map (run_item env) (splice i)) st"
proof (induction i arbitrary: st)
  case (Entry name vfmt args)
  show ?case by (cases "entry env name vfmt args st") simp_all
next
  case (Node k name "is")
  let ?js = "concat (map splice is)"
  have r: "do_all (map (run_item env) is) s = do_all (map (run_item env) ?js) s" if "live fmt s" for s
    using run_splice_list [of "is" fmt env s] Node.IH that by blast
  have kd: "live fmt s'" if "do_all (map (run_item env) ?js) s = Inr s'" "live fmt s" for s s'
  proof -
    have "preserves (live fmt) (do_all (map (run_item env) ?js))"
      by (rule preserves_do_all) (auto intro: live_state.keeps_item)
    from preservesD [OF this that] show ?thesis .
  qed
  show ?case
  proof (cases "k = Obj")
    case True
    have "bindE (do_all (map (run_item env) ?js) st) (do_close env Obj) = do_all (map (run_item env) ?js) st"
      using object_skip [OF _ assms] kd [OF _ Node.prems] by (cases "do_all (map (run_item env) ?js) st") auto
    then show ?thesis using True object_skip [OF Node.prems assms] r [OF Node.prems] by (simp add: do_all_single)
  next
    case False
    have "live fmt s" if "do_open env k name st = Inr s" for s
    proof -
      have "preserves (live fmt) (do_open env k name)" by (cases k) (simp_all add: do_open_def live_state.keeps_elements)
      from preservesD [OF this that Node.prems] show ?thesis .
    qed
    with False r show ?thesis by (cases "do_open env k name st") (simp_all add: bindE_def split: sum.splits)
  qed
qed

lemma splice_ok:
  "calls_ok env fmt (calls i) \<Longrightarrow> fmt \<noteq> OUTPUT_FORMAT_JSON \<Longrightarrow> j \<in> set (splice i) \<Longrightarrow>
   item_ok env fmt j \<and> \<not> is_obj j \<and> height j \<le> height i"
proof (induction i arbitrary: j)
  case (Entry name vfmt args)
  then show ?case by (simp add: is_obj_def)
next
  case (Node k name "is")
  have c: "item_ok env fmt j' \<and> \<not> is_obj j' \<and> height j' \<le> Max (insert 0 (height ` set is))"
    if "j' \<in> set (concat (map splice is))" for j'
  proof -
    obtain i where i: "i \<in> set is" "j' \<in> set (splice i)" using \<open>j' \<in> set (concat (map splice is))\<close> by auto
    then have "calls_ok env fmt (calls i)" using Node.prems(1) by (auto simp: calls_ok_concat)
    moreover have "height i \<le> Max (insert 0 (height ` set is))" using i by auto
    ultimately show ?thesis using Node.IH [OF i(1) _ Node.prems(2) i(2)] by auto
  qed
  show ?case
  proof (cases "k = Obj")
    case True
    then have "j \<in> set (concat (map splice is))" using Node.prems(3) by simp
    with c show ?thesis by fastforce
  next
    case False
    then have j: "j = Node k name (concat (map splice is))" using Node.prems(3) by simp
    have "Max (insert 0 (height ` set (concat (map splice is)))) \<le> Max (insert 0 (height ` set is))"
      using c by (subst Max_le_iff) auto
    moreover have "name_ok env fmt name (enc_name env fmt name)" using Node.prems(1) False by (cases k) auto
    ultimately show ?thesis using c False j by (auto simp: is_obj_def split: kind.splits)
  qed
qed

lemma splices_ok:
  assumes "members cs" "calls_ok env fmt cs" "fmt \<noteq> OUTPUT_FORMAT_JSON"
  shows "\<forall>i \<in> set (splices (tree_of cs)). item_ok env fmt i" "items_height (splices (tree_of cs)) \<le> length cs"
proof -
  have "calls_ok env fmt (concat (map calls (tree_of cs)))"
    using tree_of_members(1) [OF assms(1)] assms(2) by (simp add: calls_ok_plain)
  then have ok: "item_ok env fmt j \<and> height j \<le> items_height (tree_of cs)" if "j \<in> set (splices (tree_of cs))" for j
    using that splice_ok [OF _ assms(3)] items_height_le
    by (fastforce simp: splices_def calls_ok_concat)
  then show "\<forall>i \<in> set (splices (tree_of cs)). item_ok env fmt i" by blast
  have "items_height (splices (tree_of cs)) \<le> items_height (tree_of cs)"
    unfolding items_height_def [of "splices (tree_of cs)"] using ok by auto
  with tree_height [OF assms(1)] show "items_height (splices (tree_of cs)) \<le> length cs" by simp
qed

lemma fresh_live: "fresh env fmt ly st \<Longrightarrow> live fmt st"
  by (auto simp: fresh_def shows_doc_def live_def has_text_def)

lemma run_report_splices:
  assumes "members cs" "live fmt st" "fmt \<noteq> OUTPUT_FORMAT_JSON"
  shows "run_report env pk cs st = run_document env pk (splices (tree_of cs)) st"
proof -
  have "live fmt s" if "master_header env pk st = Inr s" for s
    using that assms(2) preservesD [OF live_state.keeps_master(1)] by blast
  then have "run_calls env cs s = do_all (map (run_item env) (splices (tree_of cs))) s"
    if "master_header env pk st = Inr s" for s
    using run_splice_list [OF run_splice [OF assms(3)], of "tree_of cs"] that
    by (simp add: splices_def run_calls_tree [OF assms(1)])
  then show ?thesis by (cases "master_header env pk st") (simp_all add: run_report_def run_document_def)
qed

definition text_text :: "cenv \<Rightarrow> layout \<Rightarrow> call list \<Rightarrow> wchar list" where
  "text_text env ly cs =
     children OUTPUT_FORMAT_TEXT ly (Frame None None) 0 (texts env OUTPUT_FORMAT_TEXT ly 0 (splices (tree_of cs))) @ [NL]"

definition xml_text :: "cenv \<Rightarrow> pkg \<Rightarrow> nat \<Rightarrow> layout \<Rightarrow> call list \<Rightarrow> wchar list" where
  "xml_text env pk uid ly cs =
     xml_prolog env pk uid @
     children OUTPUT_FORMAT_XML ly (Frame None None) 0 (texts env OUTPUT_FORMAT_XML ly 0 (splices (tree_of cs))) @
     [NL] @ L ''</'' @ the (mbs env (PACKAGE_NAME pk)) @ L ''>'' @ [NL]"

lemma text_report:
  assumes "fresh env OUTPUT_FORMAT_TEXT ly st" "base ly = 0" "members cs" "calls_ok env OUTPUT_FORMAT_TEXT cs"
    "level_ok ly (length cs)" "fits env (length (text_text env ly cs))"
  shows "\<exists>st'. run_report env pk cs st = Inr st' \<and> indent st' = 0 \<and> has_text st' (text_text env ly cs)"
proof -
  have i: "\<forall>i \<in> set (splices (tree_of cs)). item_ok env OUTPUT_FORMAT_TEXT i" "items_height (splices (tree_of cs)) \<le> length cs"
    using splices_ok [OF assms(3,4)] by simp_all
  show ?thesis
    using text_document_text [OF assms(1,2) i(1) level_ok_mono [OF assms(5) i(2)]] assms(6)
    by (simp add: run_report_splices [OF assms(3) fresh_live [OF assms(1)]] text_text_def)
qed

lemma xml_report:
  assumes "fresh env OUTPUT_FORMAT_XML ly st" "base ly = amount ly" "pkg_ok env pk" "members cs"
    "calls_ok env OUTPUT_FORMAT_XML cs" "level_ok ly (length cs)" "fits env (length (xml_text env pk (euid st) ly cs))"
  shows "\<exists>st'. run_report env pk cs st = Inr st' \<and> indent st' = 0 \<and> has_text st' (xml_text env pk (euid st) ly cs)"
proof -
  have i: "\<forall>i \<in> set (splices (tree_of cs)). item_ok env OUTPUT_FORMAT_XML i" "items_height (splices (tree_of cs)) \<le> length cs"
    using splices_ok [OF assms(4,5)] by simp_all
  show ?thesis
    using xml_document_text [OF assms(1-3) i(1) level_ok_mono [OF assms(6) i(2)] refl] assms(7)
    by (simp add: run_report_splices [OF assms(4) fresh_live [OF assms(1)]] xml_text_def)
qed

end
