(* ===== verification/Util.thy ===== *)
theory Util
  imports Report "HOL-Library.Word"
begin

text \<open>
  \<^verbatim>\<open>util.c\<close>: the small questions procenv asks about its process and its system. The results of
  the system calls are parameters: \<open>statf path\<close> is \<^verbatim>\<open>stat (path, ...)\<close>, \<open>None\<close> for a failure;
  \<open>fopenf path\<close> is the contents of a file, \<open>None\<close> when it cannot be opened. \<^verbatim>\<open>fgets\<close> is modelled
  on the contents.
\<close>

section \<open>The system interface\<close>

text \<open>A device number as its major and minor part.\<close>

type_synonym dev = "nat \<times> nat"

record statbuf =
  st_dev :: dev
  st_ino :: nat
  st_mode :: "32 word"
  st_nlink :: nat
  st_uid :: nat
  st_gid :: nat
  st_rdev :: dev
  st_size :: int
  st_blocks :: int
  st_atim :: int
  st_mtim :: int
  st_ctim :: int

type_synonym statfun = "string \<Rightarrow> statbuf option"

text \<open>\<^verbatim>\<open>fgets (buffer, n, f)\<close> until the end of the file: each call reads up to \<open>n - 1\<close> bytes
  and stops behind a line end; the caller sees the bytes before the first nul.\<close>

function read_chunks :: "nat \<Rightarrow> string \<Rightarrow> string list" where
  "read_chunks n s =
     (if s = [] \<or> n < 2 then []
      else let line = takeWhile (\<lambda>c. c \<noteq> CHR 0x0A) s;
               k = (if length line < n - 1 \<and> length line < length s then length line + 1
                    else min (n - 1) (length line))
           in take k s # read_chunks n (drop k s))"
  by pat_completeness auto
termination
proof (relation "measure (\<lambda>(n, s). length s)", simp, goal_cases)
  case (1 n s line k)
  then show ?case by (cases s) (auto split: if_splits)
qed

declare read_chunks.simps [simp del]

definition cstr :: "string \<Rightarrow> string" where
  "cstr s = takeWhile (\<lambda>c. c \<noteq> nul) s"

definition fgets_all :: "nat \<Rightarrow> string \<Rightarrow> string list" where
  "fgets_all n s = map cstr (read_chunks n s)"

text \<open>\<^verbatim>\<open>buffer[strlen (buffer)-1] = '\0'\<close>: on an empty string it writes before the buffer.\<close>

definition drop_last :: "string \<Rightarrow> string res" where
  "drop_last s = (if s = [] then Inl OutOfBounds else Inr (butlast s))"

text \<open>The conversion of an inode number to \<^verbatim>\<open>int\<close>.\<close>

definition to_int :: "nat \<Rightarrow> int" where
  "to_int n = sint (of_nat n :: 32 word)"

definition YES_STR :: string where "YES_STR = ''yes''"
definition NO_STR :: string where "NO_STR = ''no''"
definition NA_STR :: string where "NA_STR = ''n/a''"
definition UNKNOWN_STR :: string where "UNKNOWN_STR = ''unknown''"

lemmas message_defs = YES_STR_def NO_STR_def NA_STR_def UNKNOWN_STR_def

section \<open>Descriptors and the process\<close>

text \<open>\<open>fcntl_getfl fd\<close> is the result of \<^verbatim>\<open>fcntl (fd, F_GETFL)\<close> and whether it set \<^verbatim>\<open>EBADF\<close>.\<close>

definition fd_valid :: "(int \<Rightarrow> int \<times> bool) \<Rightarrow> int \<Rightarrow> bool" where
  "fd_valid fcntl_getfl fd =
     (if fd < 0 then False
      else let (flags, ebadf) = fcntl_getfl fd in
        if flags < 0 then False else \<not> ebadf)"

text \<open>\<^verbatim>\<open>ioctl (fd, VT_GETMODE, &vt)\<close>.\<close>

definition is_console :: "(int \<Rightarrow> int) \<Rightarrow> int \<Rightarrow> bool" where
  "is_console vt_getmode fd = (vt_getmode fd = 0)"

text \<open>The bytes of \<^verbatim>\<open>int x = 1\<close> in memory, lowest address first.\<close>

definition is_big_endian :: "nat list \<Rightarrow> bool" where
  "is_big_endian bytes_of_one = (if hd bytes_of_one = 1 then False else True)"

definition has_ctty :: "(string \<Rightarrow> int) \<Rightarrow> bool" where
  "has_ctty open_ro = (\<not> open_ro ''/dev/tty'' < 0)"

definition uid_match :: "nat \<Rightarrow> nat \<Rightarrow> bool" where
  "uid_match getuid uid = (uid = getuid)"

definition is_session_leader :: "int \<Rightarrow> int \<Rightarrow> bool" where
  "is_session_leader sid pid = (sid = pid)"

definition is_process_group_leader :: "int \<Rightarrow> int \<Rightarrow> bool" where
  "is_process_group_leader pgroup pid = (pgroup = pid)"

section \<open>Containers and chroots\<close>

text \<open>\<^verbatim>\<open>strstr (buffer, s) == buffer\<close>: the first occurrence is at the start.\<close>

definition starts_with :: "string \<Rightarrow> string \<Rightarrow> bool" where
  "starts_with p s = (take (length p) s = p)"

fun scan_status :: "string list \<Rightarrow> string res" where
  "scan_status [] = Inr NO_STR"
| "scan_status (buffer # lines) =
     bindE (drop_last buffer) (\<lambda>b. if starts_with ''VxID'' b then Inr ''vserver'' else scan_status lines)"

definition container_type :: "statfun \<Rightarrow> (string \<Rightarrow> string option) \<Rightarrow> string res" where
  "container_type statf fopenf =
     (case statf ''/dev/console'' of
        None \<Rightarrow> Inr NO_STR
      | Some s \<Rightarrow>
          if st_rdev s \<noteq> (5, 1) then Inr ''lxc''
          else if statf ''/proc/vz'' \<noteq> None \<and> statf ''/proc/bc'' = None then Inr ''openvz''
          else case fopenf ''/proc/self/status'' of
            None \<Rightarrow> Inr NO_STR
          | Some content \<Rightarrow> scan_status (fgets_all 1024 content))"

definition in_chroot :: "statfun \<Rightarrow> bool res" where
  "in_chroot statf =
     (case statf ''/'' of
        None \<Rightarrow> Inl (Die ''cannot stat '')
      | Some st \<Rightarrow>
          let root_inode = to_int (st_ino st) in
          if root_inode \<noteq> 2 \<and> root_inode \<noteq> 128 then Inr True
          else if statf ''/proc/curproc'' \<noteq> None then Inr False
          else case statf ''/proc/self/root'' of
            None \<Rightarrow> Inr False
          | Some st' \<Rightarrow>
              let self_inode = to_int (st_ino st') in
              if root_inode = self_inode then Inr False else Inr True)"

section \<open>Line speeds\<close>

text \<open>The values of the \<^verbatim>\<open>B*\<close> constants of \<^verbatim>\<open>termios.h\<close> on Linux.\<close>

definition baud_speeds :: "(string \<times> nat) list" where
  "baud_speeds =
     [(''B0'', 0), (''B50'', 1), (''B75'', 2), (''B110'', 3), (''B134'', 4), (''B150'', 5), (''B200'', 6),
      (''B300'', 7), (''B600'', 8), (''B1200'', 9), (''B1800'', 10), (''B2400'', 11), (''B4800'', 12),
      (''B9600'', 13), (''B19200'', 14), (''B38400'', 15), (''B57600'', 0x1001), (''B115200'', 0x1002),
      (''B230400'', 0x1003)]"

fun find_speed :: "(string \<times> nat) list \<Rightarrow> nat \<Rightarrow> string option" where
  "find_speed [] speed = None"
| "find_speed ((name, s) # rest) speed = (if speed = s then Some name else find_speed rest speed)"

definition get_speed :: "nat \<Rightarrow> string option" where
  "get_speed speed = find_speed baud_speeds speed"

section \<open>Lemmas\<close>

lemma to_int_small [simp]:
  assumes "n < 2 ^ 31"
  shows "to_int n = int n"
  using assms
  by (simp add: to_int_def sint_uint signed_take_bit_int_eq_self take_bit_int_eq_self unsigned_of_nat take_bit_nat_eq_self)

lemma read_chunks_concat: "2 \<le> n \<Longrightarrow> concat (read_chunks n s) = s"
proof (induction n s rule: read_chunks.induct)
  case (1 n s)
  then show ?case by (subst read_chunks.simps) (auto simp: Let_def)
qed

lemma read_chunks_nonempty: "c \<in> set (read_chunks n s) \<Longrightarrow> c \<noteq> [] \<and> length c < n"
proof (induction n s rule: read_chunks.induct)
  case (1 n s)
  show ?case
  proof (cases "s = [] \<or> n < 2")
    case True
    with "1.prems" show ?thesis by (simp add: read_chunks.simps)
  next
    case False
    let ?line = "takeWhile (\<lambda>c. c \<noteq> CHR 0x0A) s"
    let ?k = "if length ?line < n - 1 \<and> length ?line < length s then length ?line + 1 else min (n - 1) (length ?line)"
    have r: "read_chunks n s = take ?k s # read_chunks n (drop ?k s)"
      using False by (subst read_chunks.simps) (simp add: Let_def)
    have "0 < ?k"
    proof (cases s)
      case (Cons x xs)
      then show ?thesis using False by (auto simp: min_def)
    qed (use False in simp)
    then have "take ?k s \<noteq> [] \<and> length (take ?k s) < n" using False by (auto simp: min_def)
    with "1.prems" "1.IH" [OF False refl refl] show ?thesis unfolding r by auto
  qed
qed

text \<open>A file of lines that fit the buffer is read line by line.\<close>

definition text_lines :: "nat \<Rightarrow> string list \<Rightarrow> bool" where
  "text_lines n ls \<longleftrightarrow> (\<forall>l \<in> set ls. CHR 0x0A \<notin> set l \<and> nul \<notin> set l \<and> length l + 1 < n)"

definition unlines :: "string list \<Rightarrow> string" where
  "unlines ls = concat (map (\<lambda>l. l @ [CHR 0x0A]) ls)"

lemma read_chunks_lines: "text_lines n ls \<Longrightarrow> read_chunks n (unlines ls) = map (\<lambda>l. l @ [CHR 0x0A]) ls"
proof (induction ls)
  case Nil
  show ?case by (simp add: unlines_def read_chunks.simps)
next
  case (Cons l ls)
  have l: "CHR 0x0A \<notin> set l" "length l + 1 < n" using Cons.prems by (auto simp: text_lines_def)
  let ?s = "unlines (l # ls)"
  have s: "?s = l @ CHR 0x0A # unlines ls" by (simp add: unlines_def)
  have "takeWhile (\<lambda>c. c \<noteq> CHR 0x0A) ?s = l" using l(1) unfolding s by (subst takeWhile_append2) auto
  moreover have "?s \<noteq> []" "length l < length ?s" by (simp_all add: s)
  ultimately have "read_chunks n ?s = take (length l + 1) ?s # read_chunks n (drop (length l + 1) ?s)"
    using l(2) by (subst read_chunks.simps) (simp add: Let_def del: takeWhile_eq_Nil_iff)
  then show ?case using Cons unfolding s by (simp add: text_lines_def)
qed

lemma fgets_all_lines: "text_lines n ls \<Longrightarrow> fgets_all n (unlines ls) = map (\<lambda>l. l @ [CHR 0x0A]) ls"
  by (auto simp: fgets_all_def read_chunks_lines cstr_def text_lines_def takeWhile_eq_all_conv)

lemma drop_last_line [simp]: "drop_last (l @ [c]) = Inr l"
  by (simp add: drop_last_def)

lemma scan_status_lines:
  "scan_status (map (\<lambda>l. l @ [CHR 0x0A]) ls) = Inr (if \<exists>l \<in> set ls. starts_with ''VxID'' l then ''vserver'' else NO_STR)"
  by (induction ls) auto

lemma find_speed_iff: "distinct (map snd t) \<Longrightarrow> find_speed t s = Some name \<longleftrightarrow> (name, s) \<in> set t"
  by (induction t s rule: find_speed.induct) force+

section \<open>Properties\<close>

text \<open>
  On a system whose console is the real one and which is not OpenVZ, \<open>container_type\<close>
  reads the whole of \<^verbatim>\<open>/proc/self/status\<close> without leaving its buffer and reports
  \<^verbatim>\<open>vserver\<close> exactly when a line of the file starts with \<^verbatim>\<open>VxID\<close>.
\<close>

theorem container_type_vserver:
  assumes "statf ''/dev/console'' = Some con" "st_rdev con = (5, 1)"
    "statf ''/proc/vz'' = None \<or> statf ''/proc/bc'' \<noteq> None"
    "fopenf ''/proc/self/status'' = Some (unlines ls)" "text_lines 1024 ls"
  shows "container_type statf fopenf = Inr (if \<exists>l \<in> set ls. starts_with ''VxID'' l then ''vserver'' else NO_STR)"
  using assms by (auto simp: container_type_def fgets_all_lines scan_status_lines)

definition example_stat :: "nat \<Rightarrow> dev \<Rightarrow> statbuf" where
  "example_stat ino rdev = \<lparr>st_dev = (8, 1), st_ino = ino, st_mode = 33261, st_nlink = 1, st_uid = 0, st_gid = 0,
     st_rdev = rdev, st_size = 10, st_blocks = 8, st_atim = 0, st_mtim = 0, st_ctim = 0\<rparr>"

theorem container_type_vserver_witness:
  "container_type ((\<lambda>_. None)(''/dev/console'' := Some (example_stat 5 (5, 1))))
     (\<lambda>_. Some (unlines [''Name:'', ''VxID: 1''])) = Inr ''vserver''"
  using container_type_vserver [of "(\<lambda>_. None)(''/dev/console'' := Some (example_stat 5 (5, 1)))" "example_stat 5 (5, 1)"
      "\<lambda>_. Some (unlines [''Name:'', ''VxID: 1''])" "[''Name:'', ''VxID: 1'']"]
  by (simp add: example_stat_def text_lines_def starts_with_def)

text \<open>
  For inode numbers that fit an \<^verbatim>\<open>int\<close>, \<open>in_chroot\<close> answers yes exactly when the root
  directory is not one of the well-known root inodes, or, on a system without
  \<^verbatim>\<open>/proc/curproc\<close>, when \<^verbatim>\<open>/proc/self/root\<close> is a different inode.
\<close>

lemma in_chroot_correct:
  assumes "statf ''/'' = Some root" "st_ino root < 2 ^ 31" "\<forall>s. statf ''/proc/self/root'' = Some s \<longrightarrow> st_ino s < 2 ^ 31"
  shows "in_chroot statf = Inr (st_ino root \<notin> {2, 128} \<or>
     statf ''/proc/curproc'' = None \<and> (\<exists>s. statf ''/proc/self/root'' = Some s \<and> st_ino s \<noteq> st_ino root))"
  using assms by (auto simp: in_chroot_def Let_def split: option.splits)

lemma in_chroot_correct_witness:
  "in_chroot ((\<lambda>_. None)(''/'' := Some (example_stat 2 (0, 0)), ''/proc/self/root'' := Some (example_stat 77 (0, 0)))) = Inr True"
  using in_chroot_correct [of "(\<lambda>_. None)(''/'' := Some (example_stat 2 (0, 0)), ''/proc/self/root'' := Some (example_stat 77 (0, 0)))"
      "example_stat 2 (0, 0)"]
  by (simp add: example_stat_def)

text \<open>The inode is stored in an \<^verbatim>\<open>int\<close>: a root directory with inode \<open>2 ^ 32 + 2\<close> passes for inode 2.\<close>

lemma in_chroot_truncates:
  "in_chroot ((\<lambda>_. None)(''/'' := Some (example_stat (2 ^ 32 + 2) (0, 0)))) = Inr False"
  by (simp add: in_chroot_def to_int_def example_stat_def)

text \<open>
  \<open>get_speed\<close> names a speed exactly when it is in the table, with the name of its entry.
\<close>

theorem get_speed_correct: "get_speed s = Some name \<longleftrightarrow> (name, s) \<in> set baud_speeds"
  unfolding get_speed_def by (rule find_speed_iff) (simp add: baud_speeds_def)

end
