(* ===== verification/Lookup.thy ===== *)
theory Lookup
  imports Util
begin

text \<open>
  The routines of \<^verbatim>\<open>procenv.c\<close> that turn numbers into names and texts: the \<^verbatim>\<open>procenv_map\<close>
  tables, permissions, MAC and network addresses, times, the data model, and the search of the
  program in the path. Tables whose contents depend on the platform are parameters.
\<close>

unbundle bit_operations_syntax

section \<open>Maps\<close>

text \<open>\<^verbatim>\<open>struct procenv_map []\<close> up to its terminator.\<close>

type_synonym procenv_map = "(string \<times> 32 word) list"

text \<open>The name of a number: the loop \<^verbatim>\<open>for (p = map; p && p->name; p++)\<close>.\<close>

fun map_name :: "procenv_map \<Rightarrow> 32 word \<Rightarrow> string option" where
  "map_name [] num = None"
| "map_name ((name, n) # m) num = (if n = num then Some name else map_name m num)"

definition get_signal_name :: "procenv_map \<Rightarrow> int \<Rightarrow> string option res" where
  "get_signal_name signal_map signum =
     guardE (signum \<noteq> 0) AssertFail (Inr (map_name signal_map (word_of_int signum)))"

text \<open>This map has no terminator: a policy that is not in it makes the loop read behind the array.\<close>

definition thread_sched_policy_map :: procenv_map where
  "thread_sched_policy_map = [(''SCHED_OTHER'', 0), (''SCHED_FIFO'', 1), (''SCHED_RR'', 2)]"

definition get_thread_scheduler_name :: "int \<Rightarrow> string res" where
  "get_thread_scheduler_name sched =
     (case map_name thread_sched_policy_map (word_of_int sched) of
        Some name \<Rightarrow> Inr name
      | None \<Rightarrow> Inl OutOfBounds)"

definition PER_MASK :: "32 word" where
  "PER_MASK = 0xff"

definition get_personality_name :: "procenv_map \<Rightarrow> 32 word \<Rightarrow> string option" where
  "get_personality_name personality_map domain = map_name personality_map (domain AND PER_MASK)"

text \<open>The loop of \<open>get_personality_flags\<close>: \<open>list\<close> is the text so far, \<open>NULL\<close> before the first.\<close>

fun personality_loop :: "cenv \<Rightarrow> procenv_map \<Rightarrow> 32 word \<Rightarrow> string option \<Rightarrow> bool \<Rightarrow> string option res" where
  "personality_loop env [] flags list first = Inr list"
| "personality_loop env ((name, n) # m) flags list first =
     (if flags AND n \<noteq> 0
      then bindE (appendf env list ''%s%s'' [PStr (if first then [] else '', ''), PStr name]) (\<lambda>list'.
             personality_loop env m flags list' False)
      else personality_loop env m flags list first)"

definition get_personality_flags :: "cenv \<Rightarrow> procenv_map \<Rightarrow> 32 word \<Rightarrow> string option res" where
  "get_personality_flags env personality_flag_map flags = personality_loop env personality_flag_map flags None True"

text \<open>The calls of \<open>decode_if_flags\<close>, one object per flag that is set.\<close>

definition decode_if_flags :: "procenv_map \<Rightarrow> 32 word \<Rightarrow> call list" where
  "decode_if_flags if_flag_map flags =
     concat (map (\<lambda>(name, n).
       if flags AND n \<noteq> 0
       then [C_object_open, C_entry name ''0x%x'' [PInt (uint n)], C_object_close] else []) if_flag_map)"

section \<open>Network names\<close>

definition get_ipv6_scope_name :: "32 word \<Rightarrow> string" where
  "get_ipv6_scope_name scope =
     (if scope = 0x0 \<or> scope = 0xf then ''reserved''
      else if scope = 0x1 then ''interface-local''
      else if scope = 0x2 then ''link-local''
      else if scope = 0x4 then ''admin-local''
      else if scope = 0x5 then ''site-local''
      else if scope = 0x8 then ''organization-local''
      else if scope = 0xe then ''global''
      else UNKNOWN_STR)"

text \<open>The address families on Linux.\<close>

definition AF_INET :: nat where "AF_INET = 2"
definition AF_INET6 :: nat where "AF_INET6 = 10"
definition AF_PACKET :: nat where "AF_PACKET = 17"

definition get_net_family_name :: "nat \<Rightarrow> string" where
  "get_net_family_name family =
     (if family = AF_PACKET then ''AF_PACKET''
      else if family = AF_INET then ''AF_INET''
      else if family = AF_INET6 then ''AF_INET6''
      else UNKNOWN_STR)"

text \<open>\<open>nameinfo addr\<close> is the result of \<^verbatim>\<open>getnameinfo (..., NI_NUMERICHOST)\<close> and the text it
  left in the buffer of \<^verbatim>\<open>NI_MAXHOST\<close> bytes; \<^verbatim>\<open>EAI_NONAME\<close> is -2 and \<^verbatim>\<open>EAI_FAMILY\<close> -6.\<close>

definition NI_MAXHOST :: nat where "NI_MAXHOST = 1025"

definition get_network_address :: "('addr \<Rightarrow> int \<times> string) \<Rightarrow> 'addr \<Rightarrow> nat \<Rightarrow> string res" where
  "get_network_address nameinfo address family =
     (let name = (if family = AF_INET \<or> family = AF_INET6
                  then let (ret, text) = nameinfo address in
                    if ret \<noteq> 0 then (if ret = -2 \<or> ret = -6 then NA_STR else UNKNOWN_STR) else text
                  else NA_STR)
      in guardE (length name < NI_MAXHOST) AssertFail (Inr name))"

text \<open>\<open>hwaddr\<close> is the hardware address of the interface, \<open>None\<close> when the socket or the
  \<^verbatim>\<open>ioctl\<close> failed.\<close>

definition get_mac_address :: "cenv \<Rightarrow> nat list option \<Rightarrow> string option res" where
  "get_mac_address env hwaddr =
     (case hwaddr of
        None \<Rightarrow> Inr None
      | Some d \<Rightarrow>
          if \<exists>i < 6. d ! i \<noteq> 0 then
            let bytes = 6 * 2 + 5 + 1 in
            if alloc_ok env bytes then
              (case format ''%.2x:%.2x:%.2x:%.2x:%.2x:%.2x'' (map (\<lambda>i. PInt (int (d ! i))) [0..<6]) of
                 None \<Rightarrow> Inr (Some [])
               | Some text \<Rightarrow>
                   bindE (wr_list (replicate bytes nul) 0 (text @ [nul])) (\<lambda>mac_address.
                   bindE (str_at nul mac_address 0) (\<lambda>s. Inr (Some s))))
            else Inr None
          else Inr None)"

section \<open>Permissions\<close>

definition S_IFMT :: "32 word" where "S_IFMT = 0xF000"

definition S_ISLNK :: "32 word \<Rightarrow> bool" where
  "S_ISLNK m = (m AND S_IFMT = 0xA000)"

definition perm_char :: "32 word \<Rightarrow> 32 word \<Rightarrow> char \<Rightarrow> char" where
  "perm_char perms m c = (if perms AND m \<noteq> 0 then c else CHR ''-'')"

definition format_perms :: "cenv \<Rightarrow> 32 word \<Rightarrow> string option" where
  "format_perms env mode =
     (if \<not> alloc_ok env 11 then None
      else
        let u = mode AND 0x1C0; g = mode AND 0x038; oth = mode AND 0x007;
            modestr = [if S_ISLNK (mode AND S_IFMT) then CHR ''l'' else CHR ''-'',
              perm_char u 0x100 CHR ''r'', perm_char u 0x080 CHR ''w'', perm_char u 0x040 CHR ''x'',
              perm_char g 0x020 CHR ''r'', perm_char g 0x010 CHR ''w'', perm_char g 0x008 CHR ''x'',
              perm_char oth 0x004 CHR ''r'', perm_char oth 0x002 CHR ''w'', perm_char oth 0x001 CHR ''x''];
            perms = mode AND NOT S_IFMT;
            m1 = (if perms AND 0x800 \<noteq> 0 then modestr[3 := CHR ''s''] else modestr);
            m2 = (if perms AND 0x400 \<noteq> 0 then m1[6 := CHR ''s''] else m1)
        in Some (if perms AND 0x200 \<noteq> 0 then m2[9 := CHR ''t''] else m2))"

section \<open>Times\<close>

text \<open>\<open>ctime_str\<close> is the result of \<^verbatim>\<open>ctime\<close>: \<open>None\<close> for a failure, otherwise a text that ends
  with a line end. The buffer has \<open>n\<close> bytes, \<open>cells\<close> before the call.\<close>

definition strncpy_cells :: "string \<Rightarrow> string \<Rightarrow> nat \<Rightarrow> string res" where
  "strncpy_cells b src n = wr_list b 0 (take n src @ replicate (n - length src) nul)"

definition format_time :: "string option \<Rightarrow> string \<Rightarrow> nat \<Rightarrow> string res" where
  "format_time ctime_str buffer n =
     (case ctime_str of
        None \<Rightarrow> Inl (Die ''failed to format time'')
      | Some str \<Rightarrow>
          let l = length str in
          if n < l then Inl (Bug ''buffer too small'')
          else bindE (strncpy_cells buffer str n) (\<lambda>b.
               bindE (if l = 0 then Inl OutOfBounds else wr b (l - 1) nul) (\<lambda>b'. str_at nul b' 0)))"

section \<open>The data model\<close>

definition show_data_model :: "nat \<Rightarrow> nat \<Rightarrow> nat \<Rightarrow> nat \<Rightarrow> report" where
  "show_data_model sizeof_int sizeof_long sizeof_ptr sizeof_llong =
     (let ilp = (sizeof_int, sizeof_long, sizeof_ptr);
          data_model = (if ilp = (2, 4, 4) then ''LP32''
            else if ilp = (4, 4, 4) then ''ILP32''
            else if ilp = (4, 4, 8) \<and> sizeof_llong = sizeof_ptr then ''LLP64''
            else if ilp = (4, 8, 8) then ''LP64''
            else if ilp = (8, 8, 8) then ''ILP64''
            else UNKNOWN_STR)
      in if 8 < sizeof_ptr then Inl (Die ''-byte pointers not supported'')
         else Inr [C_entry ''data model'' ''%s (%d/%d/%d)''
                     [PStr data_model, PInt (int sizeof_int), PInt (int sizeof_long), PInt (int sizeof_ptr)]])"

section \<open>The path of the program\<close>

definition PATH_MAX :: nat where "PATH_MAX = 4096"

definition get_major_minor :: "statfun \<Rightarrow> string \<Rightarrow> bool \<times> nat \<times> nat" where
  "get_major_minor statf file =
     (case statf file of None \<Rightarrow> (False, 0, 0) | Some st \<Rightarrow> (True, fst (st_dev st), snd (st_dev st)))"

text \<open>The relative case: \<^verbatim>\<open>strncat\<close> into the buffer that holds the working directory.\<close>

definition relative_path :: "string \<Rightarrow> string \<Rightarrow> string res" where
  "relative_path cwd argv0 =
     (let bytes = PATH_MAX - length cwd in
      guardE (length cwd < PATH_MAX) AssertFail
        (bindE (ncat_at nul (cwd @ replicate (PATH_MAX - length cwd) nul) 0 ''/'' bytes) (\<lambda>b1.
         bindE (ncat_at nul b1 0 argv0 (size_sub bytes 1)) (\<lambda>b2.
         bindE (wr b2 (PATH_MAX - 1) nul) (\<lambda>b3. str_at nul b3 0)))))"

text \<open>
  The search: the elements are the tokens of \<^verbatim>\<open>strsep\<close>. \<^verbatim>\<open>element[strlen (element)-1]\<close> of an
  empty first element is before the string; of a later one it is the nul that ended the token
  before. \<^verbatim>\<open>possible\<close> has \<open>PATH_MAX\<close> bytes.
\<close>

definition join_path :: "string \<Rightarrow> string \<Rightarrow> string" where
  "join_path element argv0 = element @ (if element \<noteq> [] \<and> last element = CHR ''/'' then [] else ''/'') @ argv0"

fun search_path :: "statfun \<Rightarrow> string \<Rightarrow> bool \<Rightarrow> string list \<Rightarrow> string option res" where
  "search_path statf argv0 first [] = Inr None"
| "search_path statf argv0 first (element # rest) =
     (if element = [] \<and> first then Inl OutOfBounds
      else let possible = join_path element argv0 in
        if PATH_MAX < length possible + 1 then Inl OutOfBounds
        else if statf possible \<noteq> None then Inr (Some possible)
        else search_path statf argv0 False rest)"

definition strdup :: "cenv \<Rightarrow> string \<Rightarrow> string option" where
  "strdup env s = (if alloc_ok env (length s + 1) then Some s else None)"

definition get_path :: "cenv \<Rightarrow> statfun \<Rightarrow> string \<Rightarrow> string option \<Rightarrow> string \<Rightarrow> string option res" where
  "get_path env statf cwd path_env argv0 =
     (if argv0 \<noteq> [] \<and> hd argv0 = CHR ''/'' then Inr (strdup env argv0)
      else if CHR ''/'' \<in> set argv0 then
        bindE (relative_path cwd argv0) (\<lambda>p. Inr (if statf p \<noteq> None then strdup env p else None))
      else
        let search = (case path_env of Some p \<Rightarrow> p | None \<Rightarrow> ''/usr/bin:/bin:/usr/sbin:/sbin'') in
        guardE (alloc_ok env (length search + 1)) AssertFail
          (bindE (search_path statf argv0 True (split_on CHR '':'' search)) (\<lambda>possible.
           Inr (case possible of None \<Rightarrow> None | Some p \<Rightarrow> strdup env p))))"

section \<open>Multibyte appends\<close>

definition cbuf :: "string \<Rightarrow> string \<Rightarrow> bool" where
  "cbuf b s \<longleftrightarrow> (\<exists>rest. b = s @ nul # rest) \<and> nul \<notin> set s"

lemma cbuf_str [simp]: "cbuf b s \<Longrightarrow> str_at nul b 0 = Inr s"
  by (auto simp: cbuf_def mem_simps)

lemma append_c_buf:
  assumes "cbuf b s" "nul \<notin> set t" "alloc_ok env (length s + 1 + length t)"
  shows "\<exists>b'. append_c env (Some b) t = Inr (Some b') \<and> cbuf b' (s @ t)"
proof (cases "t = []")
  case True
  with assms(1) show ?thesis by (auto simp: append_c_def appendn_def)
next
  case False
  obtain rest where b: "b = s @ nul # rest" "nul \<notin> set s" using assms(1) by (auto simp: cbuf_def)
  let ?total = "length s + 1 + length t" and ?j = "char_of (junk env)"
  obtain ys where r: "realloc_cells ?j b ?total = s @ nul # ys" "length ys = length t"
  proof -
    have "realloc_cells ?j b ?total = s @ nul # (take (length t) rest @ replicate (length t - length rest) ?j)"
      using b by (simp add: realloc_cells_def)
    then show ?thesis by (rule that) simp
  qed
  have e: "str_end nul b 0 = Inr (length s)" "str_end nul (s @ nul # ys) 0 = Inr (length s)"
    using b by (simp_all add: mem_simps)
  have "wr_list (s @ nul # ys) (length s) (t @ [nul]) = Inr (s @ t @ [nul])"
    using wr_list_append [of "t @ [nul]" "nul # ys" s] r(2) by simp
  then have c: "ncat_at nul (realloc_cells ?j b ?total) 0 t (length t) = Inr (s @ t @ [nul])"
    unfolding r(1) ncat_at_def e(2) by simp
  have "rd (s @ t @ [nul]) (?total - 1) = Inr nul" by (simp add: rd_def nth_append)
  then have "append_c env (Some b) t = Inr (Some (s @ t @ [nul]))"
    using False e(1) c assms(3) by (simp add: append_c_def appendn_def Let_def)
  then show ?thesis using b(2) assms(2) by (auto simp: cbuf_def)
qed

lemma appendva_len_ok:
  assumes "alloc_ok env (length s + 9)" "n \<le> length s + 8"
  shows "\<exists>m. appendva_len env (Some s) n = Inr m \<and> length s < m \<and> m \<le> length s + 8"
  using assms(2)
proof (induction "length s + 1 - n" arbitrary: n)
  case 0
  then show ?case by (subst appendva_len.simps) (auto simp: vsnprintf_ret_def)
next
  case (Suc k)
  then have "\<not> length s < n" "alloc_ok env (1 + (n + 1))" using assms(1) by (simp_all add: alloc_ok_def)
  moreover have "\<exists>m. appendva_len env (Some s) (n + 1) = Inr m \<and> length s < m \<and> m \<le> length s + 8"
    using Suc by (intro Suc.hyps) simp_all
  ultimately show ?case by (subst appendva_len.simps) (simp add: vsnprintf_ret_def)
qed

lemma appendf_new:
  assumes "format fmt args = Some s" "nul \<notin> set s" "alloc_ok env (length s + 9)"
  shows "\<exists>b. appendf env None fmt args = Inr (Some b) \<and> cbuf b s"
proof -
  obtain m where m: "appendva_len env (Some s) 8 = Inr m" using appendva_len_ok [OF assms(3), of 8] by auto
  have "alloc_ok env 9" using assms(3) by (simp add: alloc_ok_def)
  with m assms(1,2) show ?thesis
    by (auto simp: appendf_def appendva_def DEFAULT_ALLOC_GUESS_SIZE_def Let_def cbuf_def)
qed

lemma appendf_more:
  assumes "cbuf b s" "format fmt args = Some t" "nul \<notin> set t" "alloc_ok env (length s + length t + 9)"
  shows "\<exists>b'. appendf env (Some b) fmt args = Inr (Some b') \<and> cbuf b' (s @ t)"
proof -
  have a: "alloc_ok env (length t + 9)" "alloc_ok env 9" "alloc_ok env (length s + 1 + length t)"
    using assms(4) by (simp_all add: alloc_ok_def)
  obtain m where m: "appendva_len env (Some t) 8 = Inr m" using appendva_len_ok [OF a(1), of 8] by auto
  obtain b' where "append_c env (Some b) t = Inr (Some b')" "cbuf b' (s @ t)"
    using append_c_buf [OF assms(1,3) a(3)] by blast
  with m a assms(2) show ?thesis
    by (auto simp: appendf_def appendva_def DEFAULT_ALLOC_GUESS_SIZE_def Let_def)
qed

text \<open>The formats the program builds strings with.\<close>

lemma format_ss: "format ''%s%s'' [PStr a, PStr b] = Some (a @ b)"
  by (simp add: format_def fmt_eval comp_def)

section \<open>Lemmas on the tables\<close>

lemma map_name_iff: "distinct (map snd m) \<Longrightarrow> map_name m num = Some name \<longleftrightarrow> (name, num) \<in> set m"
  by (induction m num rule: map_name.induct) force+

text \<open>The names of the flags that are set, joined by a comma and a space.\<close>

fun commas :: "string list \<Rightarrow> string" where
  "commas [] = []"
| "commas [x] = x"
| "commas (x # xs) = x @ '', '' @ commas xs"

definition set_flags :: "procenv_map \<Rightarrow> 32 word \<Rightarrow> string list" where
  "set_flags m flags = map fst (filter (\<lambda>(name, n). flags AND n \<noteq> 0) m)"

lemma commas_Cons: "xs \<noteq> [] \<Longrightarrow> commas (x # xs) = x @ '', '' @ commas xs"
  by (cases xs) simp_all

lemma personality_more:
  assumes "cbuf b s" "\<forall>(name, n) \<in> set m. nul \<notin> set name"
    "alloc_ok env (length s + length (concat (map (\<lambda>x. '', '' @ x) (set_flags m flags))) + 9)"
  shows "\<exists>b'. personality_loop env m flags (Some b) False = Inr (Some b') \<and>
    cbuf b' (s @ concat (map (\<lambda>x. '', '' @ x) (set_flags m flags)))"
  using assms
proof (induction m arbitrary: b s)
  case Nil
  then show ?case by (simp add: set_flags_def)
next
  case (Cons p m)
  obtain name n where p: "p = (name, n)" by (cases p)
  show ?case
  proof (cases "flags AND n = 0")
    case True
    then show ?thesis using Cons p by (simp add: set_flags_def)
  next
    case False
    have f: "set_flags (p # m) flags = name # set_flags m flags" using False p by (simp add: set_flags_def)
    have nn: "nul \<notin> set ('', '' @ name)" using Cons.prems(2) p by auto
    have "alloc_ok env (length s + length ('', '' @ name) + 9)" using Cons.prems(3) f by (simp add: alloc_ok_def)
    from appendf_more [OF Cons.prems(1) format_ss nn this]
    obtain b' where b': "appendf env (Some b) ''%s%s'' [PStr '', '', PStr name] = Inr (Some b')"
      "cbuf b' (s @ '', '' @ name)" by blast
    from Cons.IH [OF b'(2)] Cons.prems(2,3) b'(1) p f False show ?thesis by (simp add: alloc_ok_def)
  qed
qed

lemma personality_first:
  assumes "\<forall>(name, n) \<in> set m. nul \<notin> set name"
    "alloc_ok env (length (commas (set_flags m flags)) + 9)"
  shows "if set_flags m flags = [] then personality_loop env m flags None True = Inr None
    else \<exists>b. personality_loop env m flags None True = Inr (Some b) \<and> cbuf b (commas (set_flags m flags))"
  using assms
proof (induction m)
  case Nil
  then show ?case by (simp add: set_flags_def)
next
  case (Cons p m)
  obtain name n where p: "p = (name, n)" by (cases p)
  show ?case
  proof (cases "flags AND n = 0")
    case True
    then have "set_flags (p # m) flags = set_flags m flags" using p by (simp add: set_flags_def)
    then show ?thesis using Cons p True by simp
  next
    case False
    let ?r = "concat (map (\<lambda>x. '', '' @ x) (set_flags m flags))"
    have f: "set_flags (p # m) flags = name # set_flags m flags" using False p by (simp add: set_flags_def)
    have c: "commas (name # xs) = name @ concat (map (\<lambda>x. '', '' @ x) xs)" for xs name
      by (induction xs arbitrary: name) simp_all
    have nn: "nul \<notin> set ([] @ name)" using Cons.prems(1) p by auto
    have "alloc_ok env (length ([] @ name) + 9)" using Cons.prems(2) f c by (simp add: alloc_ok_def)
    from appendf_new [OF format_ss nn this]
    obtain b where b: "appendf env None ''%s%s'' [PStr [], PStr name] = Inr (Some b)" "cbuf b name" by auto
    from personality_more [OF b(2), of m env flags] Cons.prems b(1) p f False c show ?thesis
      by (simp add: alloc_ok_def)
  qed
qed
section \<open>Lemmas on permissions\<close>

text \<open>Reading the nine permission letters back.\<close>

definition letter_bit :: "char \<Rightarrow> char \<Rightarrow> 32 word \<Rightarrow> 32 word" where
  "letter_bit x c m = (if x = c then m else 0)"

definition read_perms :: "string \<Rightarrow> 32 word" where
  "read_perms s =
     letter_bit (s ! 1) CHR ''r'' 0x100 OR letter_bit (s ! 2) CHR ''w'' 0x080 OR letter_bit (s ! 3) CHR ''x'' 0x040 OR
     letter_bit (s ! 4) CHR ''r'' 0x020 OR letter_bit (s ! 5) CHR ''w'' 0x010 OR letter_bit (s ! 6) CHR ''x'' 0x008 OR
     letter_bit (s ! 7) CHR ''r'' 0x004 OR letter_bit (s ! 8) CHR ''w'' 0x002 OR letter_bit (s ! 9) CHR ''x'' 0x001"

lemma and_pow_bit: "(w AND 2 ^ n = 0) \<longleftrightarrow> \<not> bit w n" for w :: "32 word"
  by (simp add: and_exp_eq_0_iff_not_bit)

lemma take_bit_top: "take_bit (Suc n) w = (if bit w n then 2 ^ n else 0) OR take_bit n w" for w :: "32 word"
  by (rule bit_word_eqI) (auto simp: bit_simps less_Suc_eq)

lemma perm_bits_word:
  "w AND 0x1FF = (if bit w 8 then 0x100 else 0) OR (if bit w 7 then 0x080 else 0) OR (if bit w 6 then 0x040 else 0) OR
     (if bit w 5 then 0x020 else 0) OR (if bit w 4 then 0x010 else 0) OR (if bit w 3 then 0x008 else 0) OR
     (if bit w 2 then 0x004 else 0) OR (if bit w 1 then 0x002 else 0) OR (if bit w 0 then 0x001 else (0 :: 32 word))"
  for w :: "32 word"
proof -
  note top = take_bit_top [of 8 w] take_bit_top [of 7 w] take_bit_top [of 6 w] take_bit_top [of 5 w] take_bit_top [of 4 w]
      take_bit_top [of 3 w] take_bit_top [of 2 w] take_bit_top [of 1 w] take_bit_top [of 0 w]
  have "w AND 0x1FF = take_bit 9 w" by (simp add: take_bit_eq_mask mask_eq_exp_minus_1)
  also have "\<dots> = (if bit w 8 then 2 ^ 8 else 0) OR (if bit w 7 then 2 ^ 7 else 0) OR (if bit w 6 then 2 ^ 6 else 0) OR
     (if bit w 5 then 2 ^ 5 else 0) OR (if bit w 4 then 2 ^ 4 else 0) OR (if bit w 3 then 2 ^ 3 else 0) OR
     (if bit w 2 then 2 ^ 2 else 0) OR (if bit w 1 then 2 ^ 1 else 0) OR (if bit w 0 then 2 ^ 0 else 0)"
    using top
    by (simp only: Suc_numeral One_nat_def [symmetric] Suc_1 semiring_norm take_bit_0 or.right_neutral)
  finally show ?thesis by simp
qed

lemma masked_bits:
  "(w AND 0x1C0) AND 0x100 = 0 \<longleftrightarrow> \<not> bit w 8" "(w AND 0x1C0) AND 0x080 = 0 \<longleftrightarrow> \<not> bit w 7" "(w AND 0x1C0) AND 0x040 = 0 \<longleftrightarrow> \<not> bit w 6"
  "(w AND 0x038) AND 0x020 = 0 \<longleftrightarrow> \<not> bit w 5" "(w AND 0x038) AND 0x010 = 0 \<longleftrightarrow> \<not> bit w 4" "(w AND 0x038) AND 0x008 = 0 \<longleftrightarrow> \<not> bit w 3"
  "(w AND 0x007) AND 0x004 = 0 \<longleftrightarrow> \<not> bit w 2" "(w AND 0x007) AND 0x002 = 0 \<longleftrightarrow> \<not> bit w 1" "(w AND 0x007) AND 0x001 = 0 \<longleftrightarrow> \<not> bit w 0"
  for w :: "32 word"
  using and_pow_bit [of w 8] and_pow_bit [of w 7] and_pow_bit [of w 6] and_pow_bit [of w 5] and_pow_bit [of w 4]
    and_pow_bit [of w 3] and_pow_bit [of w 2] and_pow_bit [of w 1] and_pow_bit [of w 0]
  by (simp_all add: and.assoc)

lemma special_bits:
  "(w AND NOT S_IFMT) AND 0x800 = 0 \<longleftrightarrow> \<not> bit w 11" "(w AND NOT S_IFMT) AND 0x400 = 0 \<longleftrightarrow> \<not> bit w 10"
  "(w AND NOT S_IFMT) AND 0x200 = 0 \<longleftrightarrow> \<not> bit w 9" for w :: "32 word"
proof -
  have "NOT S_IFMT AND 0x800 = 0x800" "NOT S_IFMT AND 0x400 = 0x400" "NOT S_IFMT AND 0x200 = 0x200"
    by (simp_all add: S_IFMT_def)
  then show "(w AND NOT S_IFMT) AND 0x800 = 0 \<longleftrightarrow> \<not> bit w 11" "(w AND NOT S_IFMT) AND 0x400 = 0 \<longleftrightarrow> \<not> bit w 10"
    "(w AND NOT S_IFMT) AND 0x200 = 0 \<longleftrightarrow> \<not> bit w 9"
    using and_pow_bit [of w 11] and_pow_bit [of w 10] and_pow_bit [of w 9] by (simp_all add: and.assoc)
qed

definition perm_letters :: "32 word \<Rightarrow> string" where
  "perm_letters w =
     [if S_ISLNK (w AND S_IFMT) then CHR ''l'' else CHR ''-'',
      if bit w 8 then CHR ''r'' else CHR ''-'', if bit w 7 then CHR ''w'' else CHR ''-'',
      if bit w 11 then CHR ''s'' else if bit w 6 then CHR ''x'' else CHR ''-'',
      if bit w 5 then CHR ''r'' else CHR ''-'', if bit w 4 then CHR ''w'' else CHR ''-'',
      if bit w 10 then CHR ''s'' else if bit w 3 then CHR ''x'' else CHR ''-'',
      if bit w 2 then CHR ''r'' else CHR ''-'', if bit w 1 then CHR ''w'' else CHR ''-'',
      if bit w 9 then CHR ''t'' else if bit w 0 then CHR ''x'' else CHR ''-'']"

lemma format_perms_letters: "alloc_ok env 11 \<Longrightarrow> format_perms env mode = Some (perm_letters mode)"
  by (simp add: format_perms_def Let_def perm_char_def masked_bits special_bits perm_letters_def)

lemma read_perm_letters:
  assumes "\<not> bit w 11" "\<not> bit w 10" "\<not> bit w 9"
  shows "read_perms (perm_letters w) = w AND 0x1FF"
proof -
  have "letter_bit (if b then c else CHR ''-'') c m = (if b then m else 0)" if "c \<noteq> CHR ''-''" for b c m
    using that by (simp add: letter_bit_def)
  then show ?thesis using assms by (simp add: read_perms_def perm_letters_def perm_bits_word)
qed

section \<open>Lemmas on addresses and paths\<close>

lemma hex_byte: "b < 256 \<Longrightarrow> int_field False 0 (Some 2) False (nat_digits 16 b) = [digit_char (b div 16), digit_char (b mod 16)]"
  by (subst nat_digits.simps) (auto simp: int_field_def pad_field_def zero_pad_def nat_digits.simps digit_char_def)

definition mac_text :: "nat list \<Rightarrow> nat list" where
  "mac_text d = butlast (concat (map (\<lambda>b. [digit_char (b div 16), digit_char (b mod 16), 58]) d))"

lemma length_6: "length d = 6 \<Longrightarrow> \<exists>a b c e f g. d = [a, b, c, e, f, g]"
  by (auto simp: length_Suc_conv eval_nat_numeral)

lemma mac_format:
  assumes "length d = 6" "\<forall>b \<in> set d. b < 256"
  shows "format ''%.2x:%.2x:%.2x:%.2x:%.2x:%.2x'' (map (\<lambda>i. PInt (int (d ! i))) [0..<6]) = Some (map char_of (mac_text d))"
proof -
  obtain a b c e f g where d: "d = [a, b, c, e, f, g]" using length_6 [OF assms(1)] by blast
  have u: "unsigned_of 0 (int x) = x" if "x < 256" for x using that by (simp add: unsigned_of_def)
  have l: "[0..<6] = [0, 1, 2, 3, 4, 5::nat]" by (simp add: upt_rec)
  show ?thesis using assms(2) unfolding d l
    by (simp add: format_def vformat_def fspec0_def warg_digit_def warg_value_def conv_field_def u hex_byte mac_text_def)
qed

lemma search_path_find:
  assumes "\<forall>e \<in> set es. length (join_path e argv0) < PATH_MAX" "first \<longrightarrow> es = [] \<or> hd es \<noteq> []"
  shows "search_path statf argv0 first es = Inr (find (\<lambda>p. statf p \<noteq> None) (map (\<lambda>e. join_path e argv0) es))"
  using assms by (induction es arbitrary: first) (auto simp: Let_def)

text \<open>\<^verbatim>\<open>strncat\<close> in a buffer that is zero behind its string.\<close>

lemma ncat_zeros_nul:
  assumes "nul \<notin> set s" "length (take n t) < k"
  shows "ncat_at nul (s @ replicate k nul) 0 t n = Inr ((s @ take n t) @ replicate (k - length (take n t)) nul)"
proof -
  obtain j where j: "k = Suc j" using assms(2) by (cases k) auto
  have "str_end nul (s @ replicate k nul) 0 = Inr (length s)" using assms(1) unfolding j by (simp add: mem_simps)
  moreover have "wr_list (s @ replicate k nul) (length s) (take n t @ [nul]) =
      Inr (s @ (take n t @ [nul]) @ drop (length (take n t @ [nul])) (replicate k nul))"
    using assms(2) by (intro wr_list_append) simp
  moreover have "[nul] @ replicate (k - Suc (length (take n t))) nul = replicate (k - length (take n t)) nul"
    using assms(2) by (simp add: Suc_diff_Suc flip: replicate_Suc)
  ultimately show ?thesis by (simp add: ncat_at_def)
qed

lemma wr_zeros: "0 < m \<Longrightarrow> wr (s @ replicate m nul) (length s + m - 1) nul = Inr (s @ replicate m nul)"
proof -
  assume m: "0 < m"
  have "(replicate m nul)[m - 1 := nul] = replicate m nul"
    using list_update_id [of "replicate m nul" "m - 1"] m by simp
  moreover have "\<not> length s + m - 1 < length s" "length s + m - 1 - length s = m - 1" using m by simp_all
  ultimately show ?thesis using m unfolding wr_def list_update_append by simp
qed

lemma relative_path_ok:
  assumes "nul \<notin> set cwd" "nul \<notin> set argv0" "length cwd + 1 + length argv0 < PATH_MAX"
  shows "relative_path cwd argv0 = Inr (cwd @ ''/'' @ argv0)"
proof -
  define k where "k = PATH_MAX - length cwd"
  have k: "1 < k" "length argv0 < k - 1" "length cwd < PATH_MAX" "PATH_MAX = length cwd + k"
    using assms(3) by (simp_all add: k_def)
  let ?b1 = "(cwd @ ''/'') @ replicate (k - 1) nul"
  let ?m = "k - 1 - length argv0"
  have c1: "ncat_at nul (cwd @ replicate k nul) 0 ''/'' k = Inr ?b1"
    using ncat_zeros_nul [OF assms(1), of k "''/''" k] k(1) by (simp add: take_Cons')
  have c2: "ncat_at nul ?b1 0 argv0 (k - 1) = Inr ((cwd @ ''/'' @ argv0) @ replicate ?m nul)"
    using ncat_zeros_nul [of "cwd @ ''/''" "k - 1" argv0 "k - 1"] assms(1) k(2) by simp
  have w: "wr ((cwd @ ''/'' @ argv0) @ replicate ?m nul) (PATH_MAX - 1) nul = Inr ((cwd @ ''/'' @ argv0) @ replicate ?m nul)"
    using wr_zeros [of ?m "cwd @ ''/'' @ argv0"] k by simp
  obtain m where m: "?m = Suc m" using k(2) by (cases ?m) auto
  have "str_at nul ((cwd @ ''/'' @ argv0) @ replicate ?m nul) 0 = Inr (cwd @ ''/'' @ argv0)"
    unfolding m replicate_Suc using assms(1,2) by (intro str_at_0) simp
  moreover have "size_sub k 1 = k - 1" using k(1) by simp
  ultimately show ?thesis using c1 c2 w k(3)
    by (simp only: relative_path_def Let_def k_def [symmetric] guardE_simps bindE_simps simp_thms)
qed

text \<open>One character more than \<open>PATH_MAX\<close> allows, and the terminator is written behind the buffer.\<close>

lemma relative_path_overflows:
  assumes "nul \<notin> set cwd" "length cwd + 1 < PATH_MAX" "PATH_MAX \<le> length cwd + 1 + length argv0"
  shows "relative_path cwd argv0 = Inl OutOfBounds"
proof -
  define k where "k = PATH_MAX - length cwd"
  have k: "1 < k" "k - 1 \<le> length argv0" "length cwd < PATH_MAX" using assms(2,3) by (simp_all add: k_def)
  let ?b1 = "(cwd @ ''/'') @ replicate (k - 1) nul"
  have c1: "ncat_at nul (cwd @ replicate k nul) 0 ''/'' k = Inr ?b1"
    using ncat_zeros_nul [OF assms(1), of k "''/''" k] k(1) by (simp add: take_Cons')
  obtain j where j: "k - 1 = Suc j" using k(1) by (cases "k - 1") auto
  have e: "str_end nul ?b1 0 = Inr (length (cwd @ ''/''))"
    unfolding j replicate_Suc using assms(1) by (intro str_end_0) simp
  have out: "wr_list b i vs = Inl OutOfBounds" if "length b < i + length vs" "vs \<noteq> []" for b vs :: string and i
    using that
  proof (induction vs arbitrary: b i)
    case (Cons v vs)
    show ?case
    proof (cases "i < length b \<and> vs \<noteq> []")
      case True
      with Cons.IH [of "b[i := v]" "Suc i"] Cons.prems show ?thesis by (simp add: wr_def)
    next
      case False
      with Cons.prems show ?thesis by (auto simp: wr_def)
    qed
  qed simp
  have "wr_list ?b1 (length (cwd @ ''/'')) (take (k - 1) argv0 @ [nul]) = Inl OutOfBounds"
    using k by (intro out) simp_all
  then have "ncat_at nul ?b1 0 argv0 (k - 1) = Inl OutOfBounds" unfolding ncat_at_def e by simp
  moreover have "size_sub k 1 = k - 1" using k(1) by simp
  ultimately show ?thesis using c1 k(3)
    by (simp only: relative_path_def Let_def k_def [symmetric] guardE_simps bindE_simps simp_thms)
qed

lemma format_time_ok:
  assumes "ctime_str = Some (s @ [CHR 0x0A])" "nul \<notin> set s" "length b = n" "length s < n"
  shows "format_time ctime_str b n = Inr s"
proof -
  let ?t = "s @ [CHR 0x0A]"
  have "strncpy_cells b ?t n = Inr (?t @ replicate (n - length ?t) nul)"
    using wr_list_append [of "?t @ replicate (n - length ?t) nul" b "[]"] assms(3,4)
    by (simp add: strncpy_cells_def)
  moreover have "wr (?t @ replicate (n - length ?t) nul) (length s) nul = Inr (s @ nul # replicate (n - length ?t) nul)"
    by (simp add: wr_def)
  moreover have "str_at nul (s @ nul # replicate (n - length ?t) nul) 0 = Inr s" using assms(2) by (rule str_at_0)
  ultimately show ?thesis using assms(1,4) by (simp add: format_time_def Let_def)
qed

lemma perm_letters_at:
  "length (perm_letters w) = 10" "perm_letters w ! 0 = CHR ''l'' \<longleftrightarrow> S_ISLNK (w AND S_IFMT)"
  "perm_letters w ! 3 = CHR ''s'' \<longleftrightarrow> bit w 11" "perm_letters w ! 6 = CHR ''s'' \<longleftrightarrow> bit w 10"
  "perm_letters w ! 9 = CHR ''t'' \<longleftrightarrow> bit w 9"
  by (simp_all add: perm_letters_def)

lemma digit_char_inj: "digit_char x = digit_char y \<longleftrightarrow> x = y"
  by (auto simp: digit_char_def split: if_splits)

lemma mac_byte_inj: "x div 16 = y div 16 \<Longrightarrow> x mod 16 = y mod 16 \<Longrightarrow> x = y" for x y :: nat
  by (metis div_mult_mod_eq)

lemma mac_text_inj:
  assumes "length d = 6" "length d' = 6" "mac_text d = mac_text d'"
  shows "d = d'"
proof -
  obtain a b c e f g where d: "d = [a, b, c, e, f, g]" using length_6 [OF assms(1)] by blast
  obtain a' b' c' e' f' g' where d': "d' = [a', b', c', e', f', g']" using length_6 [OF assms(2)] by blast
  show ?thesis using assms(3) unfolding d d' by (auto simp: mac_text_def digit_char_inj intro: mac_byte_inj)
qed

lemma mac_text_small: "length d = 6 \<Longrightarrow> \<forall>b \<in> set d. b < 256 \<Longrightarrow> x \<in> set (mac_text d) \<Longrightarrow> x < 256"
proof -
  assume d: "\<forall>b \<in> set d. b < 256" and "x \<in> set (mac_text d)"
  then have "x \<in> set (concat (map (\<lambda>b. [digit_char (b div 16), digit_char (b mod 16), 58]) d))"
    unfolding mac_text_def by (blast dest: in_set_butlastD)
  then obtain b where "b \<in> set d" "x \<in> {digit_char (b div 16), digit_char (b mod 16), 58}" by auto
  with d have b: "b < 256" "x \<in> {digit_char (b div 16), digit_char (b mod 16), 58}" by blast+
  have "b div 16 < 16" "b mod 16 < 16" using b(1) by auto
  with b(2) show ?thesis by (auto simp: digit_char_def)
qed

lemma map_char_inj:
  assumes "map char_of xs = (map char_of ys :: string)" "\<forall>x \<in> set xs. x < 256" "\<forall>y \<in> set ys. y < (256 :: nat)"
  shows "xs = ys"
proof -
  have "map of_char (map char_of xs :: string) = xs" "map of_char (map char_of ys :: string) = ys"
    using assms(2,3) by (auto intro!: map_idI simp: comp_def)
  with assms(1) show ?thesis by metis
qed

lemma mac_text_length: "length d = 6 \<Longrightarrow> length (mac_text d) = 17"
  by (drule length_6) (auto simp: mac_text_def)

lemma mac_text_no_nul:
  assumes "length d = 6" "\<forall>b \<in> set d. b < 256"
  shows "nul \<notin> set (map char_of (mac_text d))"
proof
  assume "nul \<in> set (map char_of (mac_text d))"
  then obtain x where x: "x \<in> set (mac_text d)" "char_of x = (nul :: char)" by auto
  then have "of_char (char_of x :: char) = (0 :: nat)" by simp
  with mac_text_small [OF assms x(1)] have "x = 0" by simp
  moreover have "0 \<notin> set (concat (map (\<lambda>b. [digit_char (b div 16), digit_char (b mod 16), 58]) d))"
    by (auto simp: digit_char_def)
  ultimately show False using x(1) unfolding mac_text_def by (blast dest: in_set_butlastD)
qed

text \<open>The text and its terminator fill the eighteen bytes.\<close>

lemma get_mac_address_text:
  assumes "length d = 6" "\<forall>b \<in> set d. b < 256" "alloc_ok env 18"
  shows "get_mac_address env (Some d) = Inr (if d = replicate 6 0 then None else Some (map char_of (mac_text d)))"
proof -
  let ?t = "map char_of (mac_text d) :: string"
  have "(\<exists>i < 6. d ! i \<noteq> 0) \<longleftrightarrow> d \<noteq> replicate 6 0"
    using assms(1) by (auto simp: list_eq_iff_nth_eq)
  moreover have "wr_list (replicate 18 nul) 0 (?t @ [nul]) = Inr (?t @ [nul])"
    using wr_list_append [of "?t @ [nul]" "replicate 18 nul" "[]"] mac_text_length [OF assms(1)] by simp
  moreover have "str_at nul (?t @ [nul]) 0 = Inr ?t" using mac_text_no_nul [OF assms(1,2)] by (rule str_at_0)
  ultimately show ?thesis using mac_format [OF assms(1,2)] assms(3) by (simp add: get_mac_address_def)
qed

section \<open>Properties\<close>

text \<open>
  C36: \<open>format_perms\<close> gives ten letters. Of a mode without set-id and sticky bits the nine
  permission bits can be read back from them; a set-id or sticky bit shows as \<^verbatim>\<open>s\<close> or \<^verbatim>\<open>t\<close> in
  the place of the execute letter, whose bit then cannot be read. Only symbolic links start
  with \<^verbatim>\<open>l\<close>.
\<close>

theorem format_perms_correct:
  assumes "alloc_ok env 11"
  shows "\<exists>s. format_perms env mode = Some s \<and> length s = 10 \<and>
    (s ! 0 = CHR ''l'' \<longleftrightarrow> S_ISLNK (mode AND S_IFMT)) \<and>
    (s ! 3 = CHR ''s'' \<longleftrightarrow> bit mode 11) \<and> (s ! 6 = CHR ''s'' \<longleftrightarrow> bit mode 10) \<and> (s ! 9 = CHR ''t'' \<longleftrightarrow> bit mode 9) \<and>
    (\<not> bit mode 11 \<and> \<not> bit mode 10 \<and> \<not> bit mode 9 \<longrightarrow> read_perms s = mode AND 0x1FF)"
  using format_perms_letters [OF assms, of mode] perm_letters_at [of mode] read_perm_letters [of mode] by blast

theorem format_perms_correct_witness:
  "\<exists>s. format_perms ascii_env 0x81ED = Some s \<and> length s = 10 \<and> read_perms s = 0x1ED"
  using format_perms_correct [of ascii_env "0x81ED"]
  by (auto simp: alloc_ok_def ascii_env_def bit_numeral_rec)

text \<open>The execute bit under a set-id bit is lost.\<close>

lemma format_perms_loses_x: "format_perms env 0x9ED = format_perms env 0x9AD"
  by (simp add: format_perms_def Let_def perm_char_def S_ISLNK_def S_IFMT_def)

text \<open>
  C37: the MAC address text of an interface is written inside the buffer of eighteen bytes it is
  given, has 17 characters and determines the six bytes; exactly the all-zero address has no text.
\<close>

theorem get_mac_address_correct:
  assumes "length d = 6" "\<forall>b \<in> set d. b < 256" "length d' = 6" "\<forall>b \<in> set d'. b < 256" "alloc_ok env 18"
  shows "(if d = replicate 6 0 then get_mac_address env (Some d) = Inr None
     else \<exists>s. get_mac_address env (Some d) = Inr (Some s) \<and> length s = 17) \<and>
    (get_mac_address env (Some d) = get_mac_address env (Some d') \<longrightarrow> d = d')"
proof -
  note t = get_mac_address_text [OF assms(1,2,5)] get_mac_address_text [OF assms(3,4,5)]
  have "d = d'" if "map char_of (mac_text d) = (map char_of (mac_text d') :: string)"
    using that mac_text_inj [OF assms(1,3)] map_char_inj mac_text_small assms by blast
  then show ?thesis using mac_text_length [OF assms(1)] unfolding t by auto
qed

theorem get_mac_address_correct_witness:
  "get_mac_address ascii_env (Some [0, 22, 62, 1, 2, 3]) \<noteq> get_mac_address ascii_env (Some [0, 22, 62, 1, 2, 4])"
  using get_mac_address_correct [of "[0, 22, 62, 1, 2, 3]" "[0, 22, 62, 1, 2, 4]" ascii_env]
  by (auto simp: alloc_ok_def ascii_env_def)



text \<open>A path that starts with an empty element makes the search read before the string.\<close>

lemma get_path_empty_element:
  "alloc_ok env 6 \<Longrightarrow> get_path env statf cwd (Some '':/bin'') ''p'' = Inl OutOfBounds"
  by (simp add: get_path_def alloc_ok_def)

text \<open>
  C38: the flag names of a personality are those of the set flags in the order of the table,
  joined by commas; without any flag the result is \<^verbatim>\<open>NULL\<close>.
\<close>

theorem get_personality_flags_correct:
  assumes "\<forall>(name, n) \<in> set m. nul \<notin> set name" "alloc_ok env (length (commas (set_flags m flags)) + 9)"
  shows "if set_flags m flags = [] then get_personality_flags env m flags = Inr None
    else \<exists>b. get_personality_flags env m flags = Inr (Some b) \<and> str_at nul b 0 = Inr (commas (set_flags m flags))"
  using personality_first [OF assms] by (auto simp: get_personality_flags_def split: if_splits)

theorem get_personality_flags_correct_witness:
  "\<exists>b. get_personality_flags ascii_env [(''A'', 1), (''B'', 2), (''C'', 4)] 5 = Inr (Some b) \<and>
     str_at nul b 0 = Inr ''A, C''"
  using get_personality_flags_correct [of "[(''A'', 1), (''B'', 2), (''C'', 4)]" ascii_env 5]
  by (simp add: alloc_ok_def ascii_env_def set_flags_def)

text \<open>
  \<open>format_time\<close> leaves the text of \<^verbatim>\<open>ctime\<close> without its line end in the buffer, for every
  buffer that holds the text.
\<close>

theorem format_time_correct:
  assumes "ctime_str = Some (s @ [CHR 0x0A])" "nul \<notin> set s" "length b = n" "length s < n"
  shows "format_time ctime_str b n = Inr s"
  by (rule format_time_ok [OF assms])

theorem format_time_correct_witness:
  "format_time (Some (''Thu 1970'' @ [CHR 0x0A])) (replicate 32 CHR ''x'') 32 = Inr ''Thu 1970''"
  by (rule format_time_correct) simp_all

end
