(* ===== verification/Platform.thy ===== *)
theory Platform
  imports Lookup
begin

text \<open>
  The interface between \<^verbatim>\<open>procenv.c\<close> and the platform drivers (\<^verbatim>\<open>platform.h\<close>): the global
  records, the table \<^verbatim>\<open>struct procenv_ops\<close> of a driver, whose function pointers may be
  \<^verbatim>\<open>NULL\<close>, and the contract a driver keeps: whatever its hooks print is complete, members where
  members are expected and objects where objects are.
\<close>

unbundle bit_operations_syntax

section \<open>Global records\<close>

record passwd =
  pw_name :: string
  pw_gid :: nat
  pw_gecos :: string
  pw_dir :: string
  pw_shell :: string

record procenv_user =
  u_passwd :: passwd
  proc_name :: string
  ctrl_terminal :: string
  pid :: int
  ppid :: int
  sid :: int
  login :: "string option"
  pgroup :: int
  fg_pgroup :: int
  u_tty_fd :: int
  uid :: nat
  u_euid :: nat
  suid :: nat
  gid :: nat
  egid :: nat
  sgid :: nat

record procenv_misc =
  cwd :: string
  root :: string
  umask_value :: "32 word"
  in_jail :: bool

record procenv_priority =
  prio_process :: int
  prio_pgrp :: int
  prio_user :: int

record utsname =
  sysname :: string
  nodename :: string
  release :: string
  uts_version :: string
  machine :: string
  domainname :: string

text \<open>The globals of \<^verbatim>\<open>procenv.c\<close> that the routines read.\<close>

record globals =
  user :: procenv_user
  misc :: procenv_misc
  priority :: procenv_priority
  priority_io :: procenv_priority
  uts :: utsname
  program_name :: string
  argvp :: "string list"

text \<open>\<^verbatim>\<open>struct ifaddrs\<close>; an address is its family and what \<^verbatim>\<open>getnameinfo\<close> says of it.\<close>

record sockaddr =
  sa_family :: nat
  sa_name :: "int \<times> string"

record ifaddrs =
  ifa_name :: string
  ifa_flags :: "32 word"
  ifa_addr :: "sockaddr option"
  ifa_netmask :: "sockaddr option"
  ifa_broadaddr :: "sockaddr option"
  ifa_dstaddr :: "sockaddr option"

record termios =
  c_iflag :: "32 word"
  c_oflag :: "32 word"
  c_cflag :: "32 word"
  c_lflag :: "32 word"
  c_cc :: "string \<Rightarrow> nat"
  ispeed :: nat
  ospeed :: nat

datatype ShowMountType = SHOW_ALL | SHOW_MOUNTS | SHOW_PATHCONF

section \<open>The driver\<close>

type_synonym hook = "(globals \<Rightarrow> report) option"

record procenv_ops =
  driver_name :: string
  driver_file :: string
  signal_map :: procenv_map
  if_flag_map :: procenv_map
  personality_map :: procenv_map
  personality_flag_map :: procenv_map
  get_user_misc :: "(procenv_user \<Rightarrow> procenv_misc \<Rightarrow> (string \<times> procenv_misc) res) option"
  get_proc_name :: "(utsname \<Rightarrow> procenv_user \<Rightarrow> procenv_user res) option"
  get_io_priorities :: "(procenv_priority \<Rightarrow> procenv_priority) option"
  get_tty_locked_status :: "(int \<Rightarrow> termios \<Rightarrow> termios res) option"
  get_kernel_bits :: "int option"
  get_mtu :: "(ifaddrs \<Rightarrow> int) option"
  get_time :: "(int \<times> int) option option"
  ops_show_capabilities :: hook
  ops_show_cgroups :: hook
  ops_show_clocks :: hook
  ops_show_confstrs :: hook
  ops_show_cpu_affinities :: hook
  ops_show_cpu :: hook
  show_extended_if_flags :: "(string \<Rightarrow> report) option"
  show_fd_capabilities :: "(int \<Rightarrow> report) option"
  ops_show_fds :: hook
  ops_show_io_priorities :: hook
  ops_show_mounts :: "(ShowMountType \<Rightarrow> report) option"
  ops_show_msg_queues :: hook
  ops_show_namespaces :: hook
  ops_show_oom :: hook
  ops_show_prctl :: hook
  ops_show_rlimits :: hook
  ops_show_security_module :: hook
  ops_show_semaphores :: hook
  ops_show_shared_mem :: hook
  ops_show_timezone :: hook
  ops_show_libs :: hook
  handle_memory :: hook
  handle_numa_memory :: hook
  ops_handle_proc_branch :: hook
  handle_scheduler_type :: hook
  get_cpuset :: "(nat \<Rightarrow> bool) option res option"
  cpuset_has_cpu :: "((nat \<Rightarrow> bool) \<Rightarrow> nat \<Rightarrow> bool) option"
  in_vm :: "bool option"

text \<open>
  \<open>get_user_misc\<close> returns the name of the process, the one member of \<^verbatim>\<open>user\<close> a driver changes there, and
  the new value of \<^verbatim>\<open>misc\<close>. A CPU set is known by its members. The hooks \<^verbatim>\<open>init\<close>, \<^verbatim>\<open>cleanup\<close> and \<^verbatim>\<open>free_cpuset\<close> only
  acquire and release memory and are left out.

  \<^verbatim>\<open>if (ops->hook) ops->hook ()\<close>:
\<close>

definition call_hook :: "hook \<Rightarrow> globals \<Rightarrow> report" where
  "call_hook h g = (case h of None \<Rightarrow> Inr [] | Some f \<Rightarrow> f g)"

text \<open>A string argument that may be \<^verbatim>\<open>NULL\<close>: the GNU library prints it as \<^verbatim>\<open>(null)\<close>.\<close>

definition str_arg :: "string option \<Rightarrow> parg" where
  "str_arg s = PStr (case s of Some t \<Rightarrow> t | None \<Rightarrow> ''(null)'')"

definition yes_no :: "bool \<Rightarrow> parg" where
  "yes_no b = PStr (if b then YES_STR else NO_STR)"

text \<open>The string of a buffer an append has built.\<close>

definition buf_str :: "string option \<Rightarrow> string res" where
  "buf_str b = (case b of None \<Rightarrow> Inl NullDeref | Some cs \<Rightarrow> str_at nul cs 0)"

section \<open>Complete reports\<close>

definition members_report :: "report \<Rightarrow> bool" where
  "members_report r \<longleftrightarrow> (\<forall>cs. r = Inr cs \<longrightarrow> members cs)"

definition objects_report :: "report \<Rightarrow> bool" where
  "objects_report r \<longleftrightarrow> (\<forall>cs. r = Inr cs \<longrightarrow> objects cs)"

definition members_hook :: "hook \<Rightarrow> bool" where
  "members_hook h \<longleftrightarrow> (\<forall>f g. h = Some f \<longrightarrow> members_report (f g))"

definition objects_hook :: "hook \<Rightarrow> bool" where
  "objects_hook h \<longleftrightarrow> (\<forall>f g. h = Some f \<longrightarrow> objects_report (f g))"

named_theorems complete_intros

lemma members_report_Inr [complete_intros]: "members cs \<Longrightarrow> members_report (Inr cs)"
  by (simp add: members_report_def)

lemma members_report_Inl [complete_intros, simp]: "members_report (Inl e)"
  by (simp add: members_report_def)

lemma objects_report_Inr [complete_intros]: "objects cs \<Longrightarrow> objects_report (Inr cs)"
  by (simp add: objects_report_def)

lemma objects_report_Inl [complete_intros, simp]: "objects_report (Inl e)"
  by (simp add: objects_report_def)

lemma members_report_bind [complete_intros]:
  "(\<And>x. m = Inr x \<Longrightarrow> members_report (f x)) \<Longrightarrow> members_report (bindE m f)"
  by (auto simp: members_report_def bindE_Inr_iff)

lemma objects_report_bind [complete_intros]:
  "(\<And>x. m = Inr x \<Longrightarrow> objects_report (f x)) \<Longrightarrow> objects_report (bindE m f)"
  by (auto simp: objects_report_def bindE_Inr_iff)

lemma members_report_guard [complete_intros]: "members_report m \<Longrightarrow> members_report (guardE b e m)"
  by (cases b) simp_all

lemma objects_report_guard [complete_intros]: "objects_report m \<Longrightarrow> objects_report (guardE b e m)"
  by (cases b) simp_all

lemma reports_Inr: "reports rs = Inr cs \<Longrightarrow> \<exists>css. rs = map Inr css \<and> cs = concat css"
proof (induction rs arbitrary: cs)
  case (Cons r rs)
  then obtain x ys where "r = Inr x" "reports rs = Inr ys" "cs = x @ ys" by (auto simp: bindE_Inr_iff)
  moreover from Cons.IH [OF this(2)] obtain css where "rs = map Inr css" "ys = concat css" by blast
  ultimately show ?case by (intro exI [of _ "x # css"]) simp
qed simp

lemma members_reports:
  assumes "\<And>r. r \<in> set rs \<Longrightarrow> members_report r"
  shows "members_report (reports rs)"
  unfolding members_report_def
proof (intro allI impI)
  fix cs
  assume "reports rs = Inr cs"
  then obtain css where css: "rs = map Inr css" "cs = concat css" using reports_Inr by blast
  have "members x" if "x \<in> set css" for x using assms [of "Inr x"] that css(1) by (auto simp: members_report_def)
  then show "members cs" unfolding css(2) by (rule members_concat)
qed

lemma objects_reports:
  assumes "\<And>r. r \<in> set rs \<Longrightarrow> objects_report r"
  shows "objects_report (reports rs)"
  unfolding objects_report_def
proof (intro allI impI)
  fix cs
  assume "reports rs = Inr cs"
  then obtain css where css: "rs = map Inr css" "cs = concat css" using reports_Inr by blast
  have "objects x" if "x \<in> set css" for x using assms [of "Inr x"] that css(1) by (auto simp: objects_report_def)
  then show "objects cs" unfolding css(2) by (rule objects_concat)
qed

lemma members_reports_list [complete_intros]:
  "members_report (reports [])"
  "members_report r \<Longrightarrow> members_report (reports rs) \<Longrightarrow> members_report (reports (r # rs))"
  "(\<And>x. x \<in> set xs \<Longrightarrow> members_report (f x)) \<Longrightarrow> members_report (reports (map f xs))"
proof -
  show "members_report (reports [])" by (simp add: members_report_def members_basic)
  show "members_report (reports (r # rs))" if "members_report r" "members_report (reports rs)"
    using that by (auto simp: members_report_def bindE_Inr_iff members_append)
  show "members_report (reports (map f xs))" if "\<And>x. x \<in> set xs \<Longrightarrow> members_report (f x)"
    by (rule members_reports) (use that in auto)
qed

lemma objects_reports_list [complete_intros]:
  "objects_report (reports [])"
  "objects_report r \<Longrightarrow> objects_report (reports rs) \<Longrightarrow> objects_report (reports (r # rs))"
  "(\<And>x. x \<in> set xs \<Longrightarrow> objects_report (f x)) \<Longrightarrow> objects_report (reports (map f xs))"
proof -
  show "objects_report (reports [])" by (simp add: objects_report_def objects_basic)
  show "objects_report (reports (r # rs))" if "objects_report r" "objects_report (reports rs)"
    using that by (auto simp: objects_report_def bindE_Inr_iff objects_append)
  show "objects_report (reports (map f xs))" if "\<And>x. x \<in> set xs \<Longrightarrow> objects_report (f x)"
    by (rule objects_reports) (use that in auto)
qed

lemma members_report_cases [complete_intros]:
  "(c \<Longrightarrow> members_report a) \<Longrightarrow> (\<not> c \<Longrightarrow> members_report b) \<Longrightarrow> members_report (if c then a else b)"
  "(w = None \<Longrightarrow> members_report a) \<Longrightarrow> (\<And>x. w = Some x \<Longrightarrow> members_report (f x)) \<Longrightarrow>
   members_report (case w of None \<Rightarrow> a | Some x \<Rightarrow> f x)"
  "(\<And>x y. p = (x, y) \<Longrightarrow> members_report (h x y)) \<Longrightarrow> members_report (case p of (x, y) \<Rightarrow> h x y)"
  by (simp_all split: option.split prod.split)

lemma objects_report_cases [complete_intros]:
  "(c \<Longrightarrow> objects_report a) \<Longrightarrow> (\<not> c \<Longrightarrow> objects_report b) \<Longrightarrow> objects_report (if c then a else b)"
  "(w = None \<Longrightarrow> objects_report a) \<Longrightarrow> (\<And>x. w = Some x \<Longrightarrow> objects_report (f x)) \<Longrightarrow>
   objects_report (case w of None \<Rightarrow> a | Some x \<Rightarrow> f x)"
  "(\<And>x y. p = (x, y) \<Longrightarrow> objects_report (h x y)) \<Longrightarrow> objects_report (case p of (x, y) \<Rightarrow> h x y)"
  by (simp_all split: option.split prod.split)

text \<open>Flat lists of calls: their nesting is computed.\<close>

lemmas flat_calls = members_def objects_def

lemma members_call_hook [complete_intros]: "members_hook h \<Longrightarrow> members_report (call_hook h g)"
  by (cases h) (auto simp: members_hook_def call_hook_def members_report_def members_basic)

lemma objects_call_hook [complete_intros]: "objects_hook h \<Longrightarrow> objects_report (call_hook h g)"
  by (cases h) (auto simp: objects_hook_def call_hook_def objects_report_def objects_basic)

lemma members_hook_None [simp]: "members_hook None"
  by (simp add: members_hook_def)

lemma objects_hook_None [simp]: "objects_hook None"
  by (simp add: objects_hook_def)

text \<open>The elements of the document around complete parts.\<close>

lemma members_section:
  "members cs \<Longrightarrow> members (C_section_open name # cs @ [C_section_close])"
  "members cs \<Longrightarrow> members (C_header name # cs @ [C_footer])"
  by (simp_all add: members_def)

lemma members_container: "objects cs \<Longrightarrow> members (C_container_open name # cs @ [C_container_close])"
  by (simp add: members_def objects_def)

lemma objects_object: "members cs \<Longrightarrow> objects (C_object_open # cs @ [C_object_close])"
  by (simp add: members_def objects_def)

definition in_section :: "string \<Rightarrow> report \<Rightarrow> report" where
  "in_section name r = bindE r (\<lambda>cs. Inr (C_section_open name # cs @ [C_section_close]))"

definition in_header :: "string \<Rightarrow> report \<Rightarrow> report" where
  "in_header name r = bindE r (\<lambda>cs. Inr (C_header name # cs @ [C_footer]))"

definition in_container :: "string \<Rightarrow> report \<Rightarrow> report" where
  "in_container name r = bindE r (\<lambda>cs. Inr (C_container_open name # cs @ [C_container_close]))"

definition in_object :: "report \<Rightarrow> report" where
  "in_object r = bindE r (\<lambda>cs. Inr (C_object_open # cs @ [C_object_close]))"

lemma members_in [complete_intros]:
  "members_report r \<Longrightarrow> members_report (in_section name r)"
  "members_report r \<Longrightarrow> members_report (in_header name r)"
  "objects_report r \<Longrightarrow> members_report (in_container name r)"
  by (auto simp: in_section_def in_header_def in_container_def members_report_def objects_report_def bindE_Inr_iff
      intro: members_section members_container)

lemma objects_in [complete_intros]: "members_report r \<Longrightarrow> objects_report (in_object r)"
  by (auto simp: in_object_def members_report_def objects_report_def bindE_Inr_iff intro: objects_object)

section \<open>The contract of a driver\<close>

locale platform_driver =
  fixes ops :: procenv_ops
  assumes member_hooks:
    "members_hook (ops_show_capabilities ops)" "members_hook (ops_show_cgroups ops)"
    "members_hook (ops_show_clocks ops)" "members_hook (ops_show_confstrs ops)"
    "members_hook (ops_show_cpu_affinities ops)" "members_hook (ops_show_cpu ops)"
    "members_hook (ops_show_io_priorities ops)" "members_hook (ops_show_msg_queues ops)"
    "members_hook (ops_show_oom ops)" "members_hook (ops_show_prctl ops)"
    "members_hook (ops_show_rlimits ops)" "members_hook (ops_show_security_module ops)"
    "members_hook (ops_show_semaphores ops)" "members_hook (ops_show_shared_mem ops)"
    "members_hook (ops_show_timezone ops)" "members_hook (handle_memory ops)"
    "members_hook (handle_numa_memory ops)" "members_hook (ops_handle_proc_branch ops)"
    "members_hook (handle_scheduler_type ops)"
  and object_hooks:
    "objects_hook (ops_show_fds ops)" "objects_hook (ops_show_namespaces ops)" "objects_hook (ops_show_libs ops)"
  and mounts_hook: "ops_show_mounts ops = Some f \<Longrightarrow> members_report (f what)"
  and if_flags_hook: "show_extended_if_flags ops = Some h \<Longrightarrow> objects_report (h name)"
  and fd_hook: "show_fd_capabilities ops = Some d \<Longrightarrow> members_report (d fd)"

end
