(* ===== verification/Show.thy ===== *)
theory Show
  imports Platform
begin

text \<open>
  The \<^verbatim>\<open>show_*\<close> routines of \<^verbatim>\<open>procenv.c\<close> that report on the program, the process and the system.
  Each takes the results of the system calls it makes as parameters and returns its report: the
  document calls it makes, or the error that stops the program. \<open>entries\<close> are plain sequences
  of \<^verbatim>\<open>entry\<close> calls; \<open>in_header\<close> puts \<^verbatim>\<open>header\<close> and \<^verbatim>\<open>footer\<close> around a part.
\<close>

unbundle bit_operations_syntax

text \<open>The format \<^verbatim>\<open>'%s'\<close>.\<close>

definition quoted_s :: string where
  "quoted_s = CHR 0x27 # ''%s'' @ [CHR 0x27]"

section \<open>The program\<close>

definition non_privileged :: "nat \<Rightarrow> string" where
  "non_privileged euid_value = (if euid_value \<noteq> 0 then ''non-'' else [])"

text \<open>The driver's name and file are passed as formats.\<close>

definition show_meta :: "pkg \<Rightarrow> bool \<Rightarrow> procenv_ops \<Rightarrow> globals \<Rightarrow> ostate \<Rightarrow> report" where
  "show_meta pk reproducible ops g st =
     bindE (get_output_format_name st) (\<lambda>fname.
     in_header ''meta'' (Inr
       [C_entry ''version'' ''%s'' [PStr (PACKAGE_VERSION pk)],
        C_entry ''package'' ''%s'' [PStr (PACKAGE_STRING pk)],
        C_entry ''mode'' ''%s%s'' [PStr (non_privileged (u_euid (user g))), PStr ''privileged''],
        C_entry ''build-type'' ''%s'' [PStr (if reproducible then ''reproducible'' else ''standard'')],
        C_section_open ''driver'',
        C_entry ''name'' (driver_name ops) [],
        C_entry ''file'' (driver_file ops) [],
        C_section_close,
        C_entry ''format-type'' ''%s'' [PStr fname],
        C_entry ''format-version'' ''%d'' [PInt PROCENV_FORMAT_VERSION]]))"

text \<open>One element of the list of arguments: its name is built by \<^verbatim>\<open>appendf\<close>.\<close>

definition show_argument :: "cenv \<Rightarrow> nat \<times> string \<Rightarrow> report" where
  "show_argument env arg =
     bindE (appendf env None ''argv[%d]'' [PInt (int (fst arg))]) (\<lambda>b.
     bindE (buf_str b) (\<lambda>buffer.
       in_object (Inr [C_entry buffer ''%s'' [PStr (snd arg)]])))"

definition show_arguments :: "cenv \<Rightarrow> globals \<Rightarrow> report" where
  "show_arguments env g =
     in_header ''arguments'' (reports
       [Inr [C_entry ''count'' ''%u'' [PInt (int (length (argvp g)))]],
        in_container ''list'' (reports (map (show_argument env) (enumerate 0 (argvp g))))])"

definition show_version :: "pkg \<Rightarrow> report" where
  "show_version pk =
     in_header ''version'' (Inr
       [C_entry ''name'' ''%s'' [PStr (PACKAGE_NAME pk)],
        C_entry ''version'' ''%s'' [PStr (PACKAGE_VERSION pk)],
        C_entry ''author'' ''%s'' [PStr ''James O. D. Hunt <jamesodhunt@gmail.com>'']])"

section \<open>The environment\<close>

text \<open>\<^verbatim>\<open>qsort\<close> with \<^verbatim>\<open>strcoll\<close> as the comparison.\<close>

fun insert_coll :: "(string \<Rightarrow> string \<Rightarrow> int) \<Rightarrow> string \<Rightarrow> string list \<Rightarrow> string list" where
  "insert_coll strcoll x [] = [x]"
| "insert_coll strcoll x (y # ys) = (if strcoll x y \<le> 0 then x # y # ys else y # insert_coll strcoll x ys)"

fun qsort_strings :: "(string \<Rightarrow> string \<Rightarrow> int) \<Rightarrow> string list \<Rightarrow> string list" where
  "qsort_strings strcoll [] = []"
| "qsort_strings strcoll (x # xs) = insert_coll strcoll x (qsort_strings strcoll xs)"

text \<open>\<^verbatim>\<open>strchr (name, '=')\<close> splits the entry; without it the assertion fails.\<close>

definition env_entry :: "string \<Rightarrow> report" where
  "env_entry s =
     (let name = takeWhile (\<lambda>c. c \<noteq> CHR ''='') s; rest = dropWhile (\<lambda>c. c \<noteq> CHR ''='') s
      in guardE (rest \<noteq> []) AssertFail (Inr [C_entry name ''%s'' [PStr (tl rest)]]))"

definition show_env :: "cenv \<Rightarrow> (string \<Rightarrow> string \<Rightarrow> int) \<Rightarrow> string list \<Rightarrow> report" where
  "show_env env strcoll environ =
     guardE (alloc_ok env ((1 + length environ) * 8) \<and> (\<forall>e \<in> set environ. alloc_ok env (1 + length e)))
       (Die ''failed to allocate storage'')
       (in_header ''environment'' (reports (map env_entry (qsort_strings strcoll environ))))"

section \<open>The process\<close>

text \<open>
  The loop around \<^verbatim>\<open>getgroups\<close>: one more element as long as the call fails; it ends when the
  call succeeds or memory is exhausted.
\<close>

function query_groups :: "cenv \<Rightarrow> (nat \<Rightarrow> nat list option) \<Rightarrow> nat \<Rightarrow> nat list res" where
  "query_groups env getgroups n =
     (case getgroups n of
        Some gs \<Rightarrow> Inr gs
      | None \<Rightarrow>
          if alloc_ok env ((n + 1) * 4) then query_groups env getgroups (n + 1)
          else Inl (Die ''failed to allocate space for groups''))"
  by pat_completeness auto
termination
  by (relation "measure (\<lambda>(env, f, n). mem_limit env - n)") (auto simp: alloc_ok_def)

declare query_groups.simps [simp del]

definition group_text :: "cenv \<Rightarrow> (nat \<Rightarrow> string option) \<Rightarrow> nat \<Rightarrow> string res" where
  "group_text env group_name g =
     bindE (appendf env None (quoted_s @ '' (%d)'') [str_arg (group_name g), as_int (int g)]) buf_str"

text \<open>The loop that joins the names behind the initial space.\<close>

fun join_groups :: "cenv \<Rightarrow> string option \<Rightarrow> string list \<Rightarrow> string option res" where
  "join_groups env str [] = Inr str"
| "join_groups env str [x] = appendf env str ''%s'' [PStr x]"
| "join_groups env str (x # xs) =
     bindE (appendf env str ''%s, '' [PStr x]) (\<lambda>str'. join_groups env str' xs)"

definition show_all_groups ::
  "cenv \<Rightarrow> (string \<Rightarrow> string \<Rightarrow> int) \<Rightarrow> (nat \<Rightarrow> nat list option) \<Rightarrow> (nat \<Rightarrow> string option) \<Rightarrow> globals \<Rightarrow> report"
where
  "show_all_groups env strcoll getgroups group_name g =
     guardE (alloc_ok env (32 * 4)) (Die ''failed to allocate space for groups'')
     (bindE (query_groups env getgroups 32) (\<lambda>groups.
        if groups = [] then
          let pg = pw_gid (u_passwd (user g)) in
          case group_name pg of
            None \<Rightarrow> Inr [C_entry ''groups'' ''%s'' [PStr UNKNOWN_STR]]
          | Some name \<Rightarrow>
              bindE (appendf env None ('' '' @ quoted_s @ '' (%d)'') [PStr name, as_int (int pg)]) (\<lambda>b.
              bindE (buf_str b) (\<lambda>str. Inr [C_entry ''groups'' ''%s'' [PStr str]]))
        else
          guardE (alloc_ok env (length groups * 8)) (Die ''failed to allocate space for group array'')
          (bindE (appendf env None '' '' []) (\<lambda>str0.
           bindE (map_res (group_text env group_name) groups) (\<lambda>group_names.
           bindE (join_groups env str0 (qsort_strings strcoll group_names)) (\<lambda>b.
           bindE (buf_str b) (\<lambda>str. Inr [C_entry ''groups'' ''%s'' [PStr str]])))))))"

text \<open>What \<open>show_proc\<close> asks the system.\<close>

record proc_queries =
  q_user_name :: "nat \<Rightarrow> string option"
  q_group_name :: "nat \<Rightarrow> string option"
  q_getgroups :: "nat \<Rightarrow> nat list option"
  q_strcoll :: "string \<Rightarrow> string \<Rightarrow> int"
  q_open_ro :: "string \<Rightarrow> int"
  q_vt_getmode :: "int \<Rightarrow> int"

definition maybe_quoted :: "string option \<Rightarrow> parg list" where
  "maybe_quoted s =
     [PStr (if s \<noteq> None then [CHR 0x27] else []), PStr (case s of Some t \<Rightarrow> t | None \<Rightarrow> UNKNOWN_STR),
      PStr (if s \<noteq> None then [CHR 0x27] else [])]"

definition show_proc :: "cenv \<Rightarrow> proc_queries \<Rightarrow> procenv_ops \<Rightarrow> globals \<Rightarrow> report" where
  "show_proc env q ops g =
     (let u = user g; id_name = ''%d ('' @ quoted_s @ '')'' in
      in_header ''process'' (reports
       [Inr [C_entry ''process id (pid)'' ''%d'' [PInt (pid u)],
             C_entry ''parent process id (ppid)'' ''%d'' [PInt (ppid u)],
             C_entry ''session id (sid)'' ''%d (leader=%s)'' [PInt (sid u), yes_no (is_session_leader (sid u) (pid u))],
             C_entry ''name'' quoted_s [PStr (proc_name u)]],
        call_hook (ops_handle_proc_branch ops) g,
        Inr [C_entry ''process group id'' ''%d (leader=%s)''
               [PInt (pgroup u), yes_no (is_process_group_leader (pgroup u) (pid u))],
             C_entry ''foreground process group'' ''%d'' [PInt (fg_pgroup u)],
             C_entry ''terminal'' quoted_s [PStr (ctrl_terminal u)],
             C_entry ''has controlling terminal'' ''%s'' [yes_no (has_ctty (q_open_ro q))],
             C_entry ''on console'' ''%s'' [yes_no (is_console (q_vt_getmode q) (u_tty_fd u))]],
        in_section ''user'' (Inr
            [C_entry ''real user id (uid)'' id_name [as_int (int (uid u)), str_arg (q_user_name q (uid u))],
             C_entry ''effective user id (euid)'' id_name [as_int (int (u_euid u)), str_arg (q_user_name q (u_euid u))],
             C_entry ''saved set-user-id (suid)'' ''%d (%s%s%s)''
               (as_int (int (suid u)) # maybe_quoted (q_user_name q (suid u)))]),
        in_section ''group'' (Inr
            [C_entry ''real group id (gid)'' id_name [as_int (int (gid u)), str_arg (q_group_name q (gid u))],
             C_entry ''effective group id (egid)'' id_name [as_int (int (egid u)), str_arg (q_group_name q (egid u))],
             C_entry ''saved set-group-id (sgid)'' ''%d (%s%s%s)''
               (as_int (int (sgid u)) # maybe_quoted (q_group_name q (sgid u)))]),
        Inr [C_entry ''login name'' quoted_s [PStr (case login u of Some l \<Rightarrow> l | None \<Rightarrow> [])]],
        in_section ''passwd'' (Inr
            [C_entry ''name'' quoted_s [PStr (pw_name (u_passwd u))],
             C_entry ''gecos'' quoted_s [PStr (pw_gecos (u_passwd u))],
             C_entry ''dir'' quoted_s [PStr (pw_dir (u_passwd u))],
             C_entry ''shell'' quoted_s [PStr (pw_shell (u_passwd u))]]),
        show_all_groups env (q_strcoll q) (q_getgroups q) (q_group_name q) g]))"

definition show_priorities :: "procenv_ops \<Rightarrow> globals \<Rightarrow> report" where
  "show_priorities ops g =
     in_section ''scheduler'' (reports
       [call_hook (handle_scheduler_type ops) g,
        in_section ''priority'' (Inr
          [C_entry ''process'' ''%d'' [PInt (prio_process (priority g))],
           C_entry ''process group'' ''%d'' [PInt (prio_pgrp (priority g))],
           C_entry ''user'' ''%d'' [PInt (prio_user (priority g))]]),
        case ops_show_io_priorities ops of
          None \<Rightarrow> Inr []
        | Some h \<Rightarrow> in_section ''I/O priority'' (h g)])"

definition rusage_names :: "string list" where
  "rusage_names = [''ru_maxrss'', ''ru_ixrss'', ''ru_idrss'', ''ru_isrss'', ''ru_minflt'', ''ru_majflt'', ''ru_nswap'',
     ''ru_inblock'', ''ru_oublock'', ''ru_msgsnd'', ''ru_msgrcv'', ''ru_nsignals'', ''ru_nvcsw'', ''ru_nivcsw'']"

definition show_rusage :: "(string \<Rightarrow> int) option \<Rightarrow> report" where
  "show_rusage getrusage =
     (case getrusage of
        None \<Rightarrow> Inl (Die ''unable to query rusage'')
      | Some usage \<Rightarrow> in_header ''rusage'' (Inr (map (\<lambda>n. C_entry n ''%lu'' [PInt (usage n)]) rusage_names)))"

section \<open>Signals\<close>

text \<open>\<open>sigismember\<close> and \<open>sigaction\<close> as functions of the signal number; \<open>None\<close>: no such signal.\<close>

definition show_signal ::
  "(int \<Rightarrow> int) \<Rightarrow> (int \<Rightarrow> bool option) \<Rightarrow> (int \<Rightarrow> string option) \<Rightarrow> procenv_map \<Rightarrow> int \<Rightarrow> report"
where
  "show_signal sigismember sigaction strsignal m i =
     (case sigaction i of
        None \<Rightarrow> Inr []
      | Some ignored \<Rightarrow>
          if sigismember i < 0 then Inr []
          else bindE (get_signal_name m i) (\<lambda>signal_name.
            case signal_name of
              None \<Rightarrow> Inr []
            | Some name \<Rightarrow>
                in_object (in_section name (Inr
                  [C_entry ''number'' ''%d'' [PInt i],
                   C_entry ''description'' quoted_s [PStr (case strsignal i of Some d \<Rightarrow> d | None \<Rightarrow> UNKNOWN_STR)],
                   C_entry ''blocked'' ''%s'' [yes_no (sigismember i \<noteq> 0)],
                   C_entry ''ignored'' ''%s'' [yes_no ignored]]))))"

definition show_signals ::
  "(int \<Rightarrow> int) option \<Rightarrow> (int \<Rightarrow> bool option) \<Rightarrow> (int \<Rightarrow> string option) \<Rightarrow> procenv_ops \<Rightarrow> report"
where
  "show_signals old_sigset sigaction strsignal ops =
     (case old_sigset of
        None \<Rightarrow> Inl (Die ''failed to query signal mask'')
      | Some sigismember \<Rightarrow>
          in_container ''signals'' (reports
            (map (show_signal sigismember sigaction strsignal (signal_map ops))
                 (map int [1..<1 + length (signal_map ops)]))))"

end
