(* ===== verification/ShowSys.thy ===== *)
theory ShowSys
  imports Show
begin

text \<open>
  The \<^verbatim>\<open>show_*\<close> routines of \<^verbatim>\<open>procenv.c\<close> on the system: platform, files, times, threads, locale,
  and the routines that only frame a hook of the driver.
\<close>

unbundle bit_operations_syntax

section \<open>Platform\<close>

text \<open>\<open>defd m\<close>: the macro \<open>m\<close> is defined when the program is built.\<close>

definition get_os :: "(string \<Rightarrow> bool) \<Rightarrow> string" where
  "get_os defd =
     (if defd ''_AIX'' then ''AIX''
      else if defd ''__ANDROID__'' then ''Android''
      else if (defd ''__MACH__'' \<and> defd ''__GNU__'') \<or> defd ''__gnu_hurd__'' then ''GNU (Hurd)''
      else if defd ''__hpux'' \<or> defd ''hpux'' \<or> defd ''_hpux'' then ''HP-UX''
      else if defd ''OS400'' \<or> defd ''__OS400__'' then ''iSeries (OS/400)''
      else if defd ''PROCENV_PLATFORM_LINUX'' then
        (if defd ''__s390x__'' then ''Linux (zSeries)''
         else if defd ''__s390__'' then ''Linux (S/390)''
         else if defd ''__sh__'' then ''Linux (SuperH)''
         else ''Linux'')
      else if defd ''__FreeBSD__'' then ''FreeBSD''
      else if defd ''__NetBSD__'' then ''NetBSD''
      else if defd ''__OpenBSD__'' then ''OpenBSD''
      else if defd ''VMS'' then ''OpenVMS''
      else if defd ''sun'' \<or> defd ''__sun'' then ''Solaris''
      else if defd ''__osf__'' then ''Tru64''
      else if defd ''WINDOWS'' then ''Windows''
      else if defd ''__MVS__'' then ''z/OS (MVS)''
      else if defd ''__APPLE__'' then ''Apple/Darwin''
      else UNKNOWN_STR)"

definition get_arch :: "(string \<Rightarrow> bool) \<Rightarrow> nat \<Rightarrow> string" where
  "get_arch defd sizeof_ptr =
     (if defd ''__arm__'' then
        (if defd ''__ARM_PCS_VFP'' then ''ARMhf'' else if defd ''__ARMEL__'' then ''ARMEL'' else ''ARM'')
      else if defd ''__aarch64__'' then ''ARM64/AARCH64''
      else if defd ''__OR1K__'' \<or> defd ''__or1k__'' then ''OpenRISC''
      else if defd ''__hppa__'' then ''HP/PA RISC''
      else if defd ''__i386__'' then ''i386''
      else if defd ''__ia64__'' then ''IA64''
      else if defd ''__MIPSEL__'' then ''MIPSEL''
      else if defd ''__mips__'' then ''MIPS''
      else if defd ''__powerpc64__'' \<or> defd ''__ppc64__'' then
        (if defd ''_LITTLE_ENDIAN'' then ''PPC64LE'' else ''PPC64/PowerPC64'')
      else if defd ''__powerpc__'' then
        (if defd ''__SPE__'' \<and> sizeof_ptr = 4 then ''PPCspe'' else ''PowerPC'')
      else if defd ''__sparc64__'' \<or> defd ''__sparc_v9__'' then ''Sparc64''
      else if defd ''__sparc__'' then ''Sparc''
      else if defd ''__alpha__'' then ''Alpha''
      else if defd ''__m68k__'' then ''m68k''
      else if defd ''__ILP32__'' \<and> sizeof_ptr = 4 then ''x32''
      else if defd ''__sh__'' then ''SuperH''
      else if defd ''__s390__'' \<or> defd ''__zarch__'' \<or> defd ''__SYSC_ZARCH__'' \<or> defd ''__THW_370__'' then ''SystemZ''
      else if defd ''__x86_64__'' \<or> defd ''__x86_64'' \<or> defd ''__amd64'' then ''x64/AMD64''
      else UNKNOWN_STR)"

text \<open>What the compiler fixes: macros, sizes of types, and the bytes of the integer one.\<close>

record build =
  defd :: "string \<Rightarrow> bool"
  macro_value :: "string \<Rightarrow> int"
  macro_text :: "string \<Rightarrow> string"
  sizeof :: "string \<Rightarrow> nat"
  one_bytes :: "nat list"

definition show_platform :: "build \<Rightarrow> procenv_ops \<Rightarrow> report" where
  "show_platform bd ops =
     (let ptr = sizeof bd ''void *''; kernel_bits = (case get_kernel_bits ops of Some n \<Rightarrow> n | None \<Rightarrow> -1) in
      in_header ''platform'' (reports
       [Inr [C_entry ''operating system'' ''%s'' [PStr (get_os (defd bd))],
             C_entry ''architecture'' ''%s'' [PStr (get_arch (defd bd) ptr)],
             if kernel_bits = -1 then C_entry ''kernel bits'' ''%s'' [PStr UNKNOWN_STR]
             else C_entry ''kernel bits'' ''%lu'' [PInt kernel_bits],
             C_entry ''executable bits'' ''%lu'' [PInt (int (ptr * 8))],
             C_entry ''code endian'' ''%s'' [PStr (if is_big_endian (one_bytes bd) then ''big'' else ''little'')]],
        show_data_model (sizeof bd ''int'') (sizeof bd ''long int'') ptr (sizeof bd ''long long int'')]))"

definition show_sysconf :: "(string \<times> int) list \<Rightarrow> (int \<Rightarrow> int) \<Rightarrow> report" where
  "show_sysconf sysconf_map sysconf =
     in_header ''sysconf'' (Inr (map (\<lambda>(name, num).
       let v = sysconf num in
       C_entry name (if v = -1 then ''%s'' else ''%ld'') [if v = -1 then PStr NA_STR else PInt v]) sysconf_map))"

definition show_uname :: "globals \<Rightarrow> report" where
  "show_uname g =
     (let u = uts g in
      in_header ''uname'' (Inr
       [C_entry ''sysname'' ''%s'' [PStr (sysname u)],
        C_entry ''nodename'' ''%s'' [PStr (nodename u)],
        C_entry ''release'' ''%s'' [PStr (release u)],
        C_entry ''version'' ''%s'' [PStr (uts_version u)],
        C_entry ''machine'' ''%s'' [PStr (machine u)],
        C_entry ''domainname'' ''%s'' [PStr (if domainname u \<noteq> [] then domainname u else UNKNOWN_STR)]]))"

text \<open>The chain of conditional assignments: the last library that is defined gives the name.\<close>

definition libc_name :: "build \<Rightarrow> string option" where
  "libc_name bd =
     (if defd bd ''_PICOLIBC__'' then Some ''pico''
      else if defd bd ''__BIONIC__'' then Some ''bionic''
      else if defd bd ''__dietlibc__'' then Some ''dietlibc''
      else if defd bd ''__KLIBC__'' then Some ''klibc''
      else if defd bd ''__UCLIBC__'' then Some ''uClibc''
      else if defd bd ''__GLIBC__'' then Some ''GNU libc (glibc)''
      else None)"

definition macro_or :: "build \<Rightarrow> string \<Rightarrow> int \<Rightarrow> int" where
  "macro_or bd m v = (if defd bd m then macro_value bd m else v)"

definition libc_version :: "build \<Rightarrow> int" where
  "libc_version bd =
     (let v1 = macro_or bd ''__GLIBC__'' (-1);
          v2 = (if defd bd ''__UCLIBC__'' then macro_or bd ''__UCLIBC_MAJOR__'' v1 else v1)
      in macro_or bd ''__KLIBC__'' v2)"

definition libc_minor :: "build \<Rightarrow> int" where
  "libc_minor bd =
     (let v1 = (if defd bd ''__GLIBC__'' then macro_or bd ''__GLIBC_MINOR__'' (-1) else -1);
          v2 = (if defd bd ''__UCLIBC__'' then macro_or bd ''__UCLIBC_MINOR__'' v1 else v1)
      in if defd bd ''__KLIBC__'' then macro_or bd ''__KLIBC_MINOR__'' v2 else v2)"

definition show_libc :: "build \<Rightarrow> report" where
  "show_libc bd =
     in_header ''libc'' (Inr
       [C_entry ''name'' ''%s'' [PStr (case libc_name bd of Some n \<Rightarrow> n | None \<Rightarrow> UNKNOWN_STR)],
        if 0 \<le> libc_version bd then C_entry ''version'' ''%lu'' [PInt (libc_version bd)]
        else C_entry ''version'' ''%s'' [PStr UNKNOWN_STR],
        if 0 \<le> libc_minor bd then C_entry ''minor'' ''%lu'' [PInt (libc_minor bd)]
        else C_entry ''minor'' ''%s'' [PStr UNKNOWN_STR]])"

section \<open>Routines that frame a hook\<close>

definition show_cpu :: "procenv_ops \<Rightarrow> globals \<Rightarrow> report" where
  "show_cpu ops g =
     in_header ''cpu'' (reports
       [call_hook (ops_show_cpu ops) g, call_hook (ops_show_cpu_affinities ops) g, show_priorities ops g])"

definition show_memory :: "int \<Rightarrow> procenv_ops \<Rightarrow> globals \<Rightarrow> report" where
  "show_memory pagesize ops g =
     in_header ''memory'' (reports
       [Inr [C_entry ''page size'' ''%d bytes'' [PInt pagesize]],
        call_hook (handle_memory ops) g, call_hook (handle_numa_memory ops) g])"

definition show_fds :: "procenv_ops \<Rightarrow> globals \<Rightarrow> report" where
  "show_fds ops g = in_container ''file descriptors'' (call_hook (ops_show_fds ops) g)"

definition show_namespaces :: "procenv_ops \<Rightarrow> globals \<Rightarrow> report" where
  "show_namespaces ops g = in_container ''namespaces'' (call_hook (ops_show_namespaces ops) g)"

definition show_libs :: "procenv_ops \<Rightarrow> globals \<Rightarrow> report" where
  "show_libs ops g = in_container ''libraries'' (call_hook (ops_show_libs ops) g)"

definition show_mounts :: "procenv_ops \<Rightarrow> ShowMountType \<Rightarrow> report" where
  "show_mounts ops what =
     in_header (if what = SHOW_PATHCONF then ''pathconf'' else ''mounts'')
       (case ops_show_mounts ops of None \<Rightarrow> Inr [] | Some f \<Rightarrow> f what)"

definition show_clocks :: "procenv_ops \<Rightarrow> globals \<Rightarrow> report" where
  "show_clocks ops g = in_header ''clocks'' (call_hook (ops_show_clocks ops) g)"

definition show_rlimits :: "procenv_ops \<Rightarrow> globals \<Rightarrow> report" where
  "show_rlimits ops g = in_header ''limits'' (call_hook (ops_show_rlimits ops) g)"

definition show_confstrs :: "procenv_ops \<Rightarrow> globals \<Rightarrow> report" where
  "show_confstrs ops g = in_header ''confstr'' (call_hook (ops_show_confstrs ops) g)"

definition show_timezone :: "procenv_ops \<Rightarrow> globals \<Rightarrow> report" where
  "show_timezone ops g = in_header ''timezone'' (call_hook (ops_show_timezone ops) g)"

definition show_cgroups :: "procenv_ops \<Rightarrow> globals \<Rightarrow> report" where
  "show_cgroups ops g = in_header ''cgroups'' (call_hook (ops_show_cgroups ops) g)"

definition show_oom :: "procenv_ops \<Rightarrow> globals \<Rightarrow> report" where
  "show_oom ops g = in_header ''oom'' (call_hook (ops_show_oom ops) g)"

definition show_capabilities :: "procenv_ops \<Rightarrow> globals \<Rightarrow> report" where
  "show_capabilities ops g = in_header ''capabilities'' (call_hook (ops_show_capabilities ops) g)"

definition show_shared_mem :: "procenv_ops \<Rightarrow> globals \<Rightarrow> report" where
  "show_shared_mem ops g = in_header ''shared memory'' (call_hook (ops_show_shared_mem ops) g)"

definition show_semaphores :: "procenv_ops \<Rightarrow> globals \<Rightarrow> report" where
  "show_semaphores ops g = in_header ''semaphores'' (call_hook (ops_show_semaphores ops) g)"

definition show_msg_queues :: "procenv_ops \<Rightarrow> globals \<Rightarrow> report" where
  "show_msg_queues ops g = in_header ''message queues'' (call_hook (ops_show_msg_queues ops) g)"

section \<open>Times\<close>

record tm =
  tm_year :: int
  tm_mon :: int
  tm_mday :: int
  tm_hour :: int
  tm_min :: int

text \<open>The month of \<^verbatim>\<open>struct tm\<close> counts from zero and is printed as it is.\<close>

definition show_time :: "(int \<Rightarrow> tm option) \<Rightarrow> (tm \<Rightarrow> string option) \<Rightarrow> procenv_ops \<Rightarrow> report" where
  "show_time localtime asctime_r ops =
     (case get_time ops of
        None \<Rightarrow> Inr []
      | Some None \<Rightarrow> Inl (Die ''failed to determine time'')
      | Some (Some (sec, nsec)) \<Rightarrow>
          (case localtime sec of
             None \<Rightarrow> Inl (Die ''failed to determine localtime'')
           | Some t \<Rightarrow>
               (case asctime_r t of
                  None \<Rightarrow> Inl (Die ''failed to determine formatted time'')
                | Some s \<Rightarrow>
                    bindE (drop_last s) (\<lambda>formatted_time.
                    in_header ''time'' (Inr
                      [C_entry ''raw'' ''%u.%lu'' [PInt sec, PInt nsec],
                       C_entry ''local'' ''%s'' [PStr formatted_time],
                       C_entry ''ISO'' ''%4.4d-%2.2d-%2.2dT%2.2d:%2.2d''
                         [PInt (1900 + tm_year t), PInt (tm_mon t), PInt (tm_mday t), PInt (tm_hour t), PInt (tm_min t)]])))))"

section \<open>Files\<close>

text \<open>\<open>realpath\<close>: the canonical path, \<open>ctime_r\<close>: a time as text with its line end.\<close>

record file_queries =
  q_stat :: statfun
  q_fopen :: "string \<Rightarrow> string option"
  q_realpath :: "string \<Rightarrow> string option"
  q_ctime_r :: "int \<Rightarrow> string option"
  q_getenv :: "string \<Rightarrow> string option"

definition time_entry :: "(int \<Rightarrow> string option) \<Rightarrow> string \<Rightarrow> string \<Rightarrow> int \<Rightarrow> report" where
  "time_entry ctime_r msg name t =
     (case ctime_r t of
        None \<Rightarrow> Inl (Die msg)
      | Some s \<Rightarrow> bindE (drop_last s) (\<lambda>f. Inr [C_entry name ''%lu (%s)'' [PInt t, PStr f]]))"

text \<open>The group is looked up with the user id, as the code has it.\<close>

definition show_stat :: "cenv \<Rightarrow> file_queries \<Rightarrow> proc_queries \<Rightarrow> globals \<Rightarrow> report" where
  "show_stat env fq q g =
     bindE (get_path env (q_stat fq) (cwd (misc g)) (q_getenv fq ''PATH'') (program_name g)) (\<lambda>tmp.
     case tmp of
       None \<Rightarrow> Inl AssertFail
     | Some p \<Rightarrow>
         (case q_realpath fq p of
            None \<Rightarrow> Inl (Die ''unable to resolve path'')
          | Some real_path \<Rightarrow>
              (case q_stat fq real_path of
                 None \<Rightarrow> Inl (Die ''unable to stat path'')
               | Some st \<Rightarrow>
                   (case format_perms env (st_mode st) of
                      None \<Rightarrow> Inl (Die ''failed to allocate space for permissions string'')
                    | Some modestr \<Rightarrow>
                        in_header ''stat'' (reports
                          [Inr [C_entry ''argv[0]'' quoted_s [PStr (program_name g)],
                                C_entry ''real path'' quoted_s [PStr real_path]],
                           in_section ''device'' (Inr
                               [C_entry ''major'' ''%u'' [PInt (int (fst (st_dev st)))],
                                C_entry ''minor'' ''%u'' [PInt (int (snd (st_dev st)))]]),
                           Inr [C_entry ''inode'' ''%lu'' [PInt (int (st_ino st))]],
                           in_section ''permissions'' (Inr
                               [C_entry ''octal'' ''%4.4o'' [PInt (uint (st_mode st AND NOT S_IFMT))],
                                C_entry ''symbolic'' ''%s'' [PStr modestr]]),
                           Inr [C_entry ''hard links'' ''%u'' [PInt (int (st_nlink st))],
                                C_entry ''user id (uid)'' (''%d ('' @ quoted_s @ '')'')
                                  [as_int (int (st_uid st)), str_arg (q_user_name q (st_uid st))],
                                C_entry ''group id (gid)'' (''%d ('' @ quoted_s @ '')'')
                                  [as_int (int (st_gid st)), str_arg (q_group_name q (st_uid st))],
                                C_entry ''size'' ''%lu bytes (%lu 512-byte blocks)'' [PInt (st_size st), PInt (st_blocks st)]],
                           in_section ''times'' (reports
                               [time_entry (q_ctime_r fq) ''failed to format atime'' ''atime (access)'' (st_atim st),
                                time_entry (q_ctime_r fq) ''failed to format mtime'' ''mtime (modification)'' (st_mtim st),
                                time_entry (q_ctime_r fq) ''failed to format ctime'' ''ctime (status change)'' (st_ctim st)])])))))"

section \<open>Locale and threads\<close>

text \<open>\<open>setlocale cat\<close> is \<^verbatim>\<open>setlocale (cat, NULL)\<close>.\<close>

definition show_locale :: "cenv \<Rightarrow> (string \<Rightarrow> string option) \<Rightarrow> string option \<Rightarrow> (string \<times> int) list \<Rightarrow> (int \<Rightarrow> string option) \<Rightarrow> report" where
  "show_locale env getenv current locale_map setlocale =
     (let value = (\<lambda>name. C_entry name ''%s'' [PStr (case getenv name of Some v \<Rightarrow> v | None \<Rightarrow> [])]) in
      guardE (case current of None \<Rightarrow> True | Some c \<Rightarrow> alloc_ok env (length c + 1)) (Die ''failed to allocate space for locale'')
      (in_header ''locale'' (Inr
        ([value ''LANG'', value ''LANGUAGE''] @
         map (\<lambda>(name, num). C_entry name ''%s''
           [PStr (case setlocale num of Some v \<Rightarrow> v | None \<Rightarrow> UNKNOWN_STR)]) locale_map @
         [value ''LC_ALL'']))))"

text \<open>Results of the \<^verbatim>\<open>pthread\<close> calls; \<open>None\<close> for an error.\<close>

record thread_queries =
  q_stack_size :: int
  q_scope_system :: "bool option"
  q_guard_size :: "int option"
  q_sched :: "(int \<times> int) option"
  q_inherit :: "bool option"
  q_concurrency :: int

definition show_threads :: "thread_queries \<Rightarrow> report" where
  "show_threads t =
     bindE (case q_sched t of None \<Rightarrow> Inr UNKNOWN_STR | Some (sched, _) \<Rightarrow> get_thread_scheduler_name sched) (\<lambda>type.
     in_header ''threads'' (Inr
       [C_entry ''stack size'' ''%lu bytes'' [PInt (q_stack_size t)],
        C_entry ''scope'' ''%s'' [PStr (case q_scope_system t of None \<Rightarrow> UNKNOWN_STR
          | Some s \<Rightarrow> if s then ''PTHREAD_SCOPE_SYSTEM'' else ''PTHREAD_SCOPE_PROCESS'')],
        (case q_guard_size t of Some n \<Rightarrow> C_entry ''guard size'' ''%lu bytes'' [PInt n]
          | None \<Rightarrow> C_entry ''guard size'' ''%s'' [PStr UNKNOWN_STR]),
        C_section_open ''scheduler'',
        C_entry ''type'' ''%s'' [PStr type],
        (case q_sched t of None \<Rightarrow> C_entry ''priority'' ''%s'' [PStr UNKNOWN_STR]
          | Some (_, prio) \<Rightarrow> C_entry ''priority'' ''%d'' [PInt prio]),
        C_entry ''inherit-scheduler attribute'' ''%s'' [PStr (case q_inherit t of None \<Rightarrow> UNKNOWN_STR
          | Some i \<Rightarrow> if i then ''PTHREAD_INHERIT_SCHED'' else ''PTHREAD_EXPLICIT_SCHED'')],
        C_section_close,
        C_entry ''concurrency'' ''%d'' [PInt (q_concurrency t)]]))"

section \<open>Miscellaneous\<close>

text \<open>\<open>version_code\<close> is \<^verbatim>\<open>LINUX_VERSION_CODE\<close>, \<open>persona\<close> the result of \<^verbatim>\<open>personality (0xFFFFFFFF)\<close>.\<close>

definition show_misc :: "cenv \<Rightarrow> file_queries \<Rightarrow> 32 word option \<Rightarrow> 32 word \<Rightarrow> procenv_ops \<Rightarrow> globals \<Rightarrow> report" where
  "show_misc env fq version_code persona ops g =
     bindE (in_chroot (q_stat fq)) (\<lambda>chroot.
     bindE (container_type (q_stat fq) (q_fopen fq)) (\<lambda>container.
     bindE (get_personality_flags env (personality_flag_map ops) (persona AND NOT PER_MASK)) (\<lambda>flags.
     bindE (case flags of None \<Rightarrow> Inr [] | Some b \<Rightarrow> str_at nul b 0) (\<lambda>flag_names.
     let m = misc g; quote = (if root m \<noteq> UNKNOWN_STR then [CHR 0x27] else []) in
     in_header ''misc'' (reports
       [Inr [C_entry ''umask'' ''%4.4o'' [PInt (uint (umask_value m))],
             C_entry ''current directory (cwd)'' quoted_s [PStr (cwd m)],
             C_entry ''root'' ''%s%s%s'' [PStr quote, PStr (root m), PStr quote],
             C_entry ''chroot'' ''%s'' [yes_no chroot],
             C_entry ''container'' ''%s'' [PStr container],
             C_entry ''vm'' ''%s'' [case in_vm ops of Some v \<Rightarrow> yes_no v | None \<Rightarrow> PStr UNKNOWN_STR]],
        (case ops_show_prctl ops of None \<Rightarrow> Inr [] | Some h \<Rightarrow> in_section ''prctl'' (h g)),
        (case ops_show_security_module ops of None \<Rightarrow> Inr [] | Some h \<Rightarrow> in_section ''security module'' (h g)),
        (case version_code of
           None \<Rightarrow> Inr []
         | Some v \<Rightarrow> Inr [C_entry ''kernel headers version'' ''%u.%u.%u''
             [PInt (uint (drop_bit 16 v)), PInt (uint (drop_bit 8 v AND 0xFF)), PInt (uint (v AND 0xFF))]]),
        in_section ''personality'' (Inr
          [C_entry ''type'' ''%s'' [PStr (case get_personality_name (personality_map ops) (persona AND PER_MASK) of
             Some n \<Rightarrow> n | None \<Rightarrow> UNKNOWN_STR)],
           C_entry ''flags'' ''%s'' [PStr flag_names]])])))))"

end
