(* ===== verification/ShowTables.thy ===== *)
theory ShowTables
  imports ShowSys
begin

text \<open>
  The \<^verbatim>\<open>show_*\<close> routines of \<^verbatim>\<open>procenv.c\<close> that print long tables: sizes and ranges of types, the
  compiler and its feature macros, and the attributes of the terminal. Constants have the values
  of Linux on a machine with 64-bit longs and pointers.
\<close>

unbundle bit_operations_syntax

section \<open>Sizes\<close>

definition size_entry :: "build \<Rightarrow> string \<Rightarrow> string \<Rightarrow> call" where
  "size_entry bd name type =
     C_entry name ''%lu byte%s'' [PInt (int (sizeof bd type)), PStr (if sizeof bd type = 1 then [] else ''s'')]"

definition sizeof_types :: "string list" where
  "sizeof_types =
     [''blkcnt_t'', ''blksize_t'', ''char'', ''clockid_t'', ''clock_t'', ''dev_t'', ''div_t'', ''double'',
      ''fenv_t'', ''fexcept_t'', ''float'', ''fpos_t'', ''fsblkcnt_t'', ''fsfilcnt_t'', ''gid_t'', ''id_t'',
      ''imaxdiv_t'', ''ino_t'', ''int'', ''int16_t'', ''int32_t'', ''int64_t'', ''int8_t'', ''int_fast16_t'',
      ''int_fast32_t'', ''int_fast64_t'', ''int_fast8_t'', ''int_least16_t'', ''int_least32_t'',
      ''int_least64_t'', ''int_least8_t'', ''intmax_t'', ''intptr_t'', ''key_t'', ''ldiv_t'', ''lldiv_t'',
      ''long double'', ''long int'', ''long long int'', ''mbstate_t'', ''mode_t'', ''mode_t'', ''nlink_t'',
      ''off_t'', ''pid_t'', ''pthread_attr_t'', ''pthread_barrierattr_t'', ''pthread_barrier_t'',
      ''pthread_condattr_t'', ''pthread_cond_t'', ''pthread_key_t'', ''pthread_mutexattr_t'',
      ''pthread_mutex_t'', ''pthread_once_t'', ''pthread_rwlockattr_t'', ''pthread_rwlock_t'',
      ''pthread_spinlock_t'', ''pthread_t'', ''ptrdiff_t'', ''rlim_t'', ''short int'', ''sig_atomic_t'',
      ''size_t'', ''ssize_t'', ''suseconds_t'', ''timer_t'', ''time_t'', ''uid_t'', ''uint16_t'',
      ''uint32_t'', ''uint64_t'', ''uint8_t'', ''uint_fast16_t'', ''uint_fast32_t'', ''uint_fast64_t'',
      ''uint_fast8_t'', ''uint_least16_t'', ''uint_least32_t'', ''uint_least64_t'', ''uint_least8_t'',
      ''uintmax_t'', ''uintptr_t'', ''useconds_t'', ''void *'', ''wchar_t'', ''wint_t'']"

definition show_sizeof :: "build \<Rightarrow> report" where
  "show_sizeof bd =
     in_header ''sizeof'' (Inr (C_entry ''bits/byte (CHAR_BIT)'' ''%d'' [PInt 8] # map (\<lambda>t. size_entry bd t t) sizeof_types))"

section \<open>Compiler\<close>

definition compiler_name :: "build \<Rightarrow> string option" where
  "compiler_name bd =
     (if defd bd ''__INTEL_COMPILER'' then Some ''Intel''
      else if defd bd ''__clang__'' then Some ''Clang/LLVM''
      else if defd bd ''__GNUC__'' then Some ''GCC''
      else None)"

definition compiler_version :: "build \<Rightarrow> string option" where
  "compiler_version bd =
     (if defd bd ''__INTEL_COMPILER'' then Some (macro_text bd ''__ICC'')
      else if defd bd ''__clang__'' then Some (macro_text bd ''__clang_version__'')
      else if defd bd ''__GNUC__'' then Some (macro_text bd ''__VERSION__'')
      else None)"

text \<open>The macros in the order of the code, with whether their value is printed.\<close>

definition stdc_macros :: "(string \<times> bool) list" where
  "stdc_macros =
     [(''__STDC_ANALYZABLE__'', False),
      (''__STDC_LIB_EXT1__'', False), (''__STDC_NO_THREADS__'', False), (''__STDC_NO_ATOMICS__'', False),
      (''__STDC_IEC_559__'', False), (''__STDC_IEC_559_COMPLEX__'', False), (''__STDC_NO_COMPLEX__'', False),
      (''__STDC_NO_VLA__'', False)]"

definition feature_macros :: "(string \<times> bool) list" where
  "feature_macros =
     [(''_ATFILE_SOURCE'', False), (''_BSD_SOURCE'', False), (''_DEFAULT_SOURCE'', False),
      (''_FILE_OFFSET_BITS'', True), (''_FORTIFY_SOURCE'', False), (''_GNU_SOURCE'', False),
      (''_ISOC11_SOURCE'', False), (''_ISOC2Y_SOURCE'', False), (''_ISOC95_SOURCE'', False),
      (''_ISOC99_SOURCE'', False), (''_LARGEFILE64_SOURCE'', False), (''_LARGEFILE_SOURCE'', False),
      (''_POSIX_C_SOURCE'', True), (''_POSIX_RAW_SOCKETS'', False), (''_POSIX_SOURCE'', False),
      (''_REENTRANT'', False), (''__STDC_VERSION__'', True), (''__STRICT_ANSI__'', False),
      (''__STDC_WANT_IEC_60559_BFP_EXT__'', True), (''__STDC_WANT_IEC_60559_FUNCS_EXT__'', True),
      (''__STDC_WANT_LIB_EXT2__'', True), (''_SVID_SOURCE'', False), (''_THREAD_SAFE'', False),
      (''_XOPEN_SOURCE'', True), (''_XOPEN_SOURCE_EXTENDED'', False)] @ stdc_macros"

definition feature_entry :: "build \<Rightarrow> string \<times> bool \<Rightarrow> call" where
  "feature_entry bd m =
     (if \<not> defd bd (fst m) then C_entry (fst m) ''%s'' [PStr ''not defined'']
      else if snd m then C_entry (fst m) ''%lu'' [PInt (macro_value bd (fst m))]
      else C_entry (fst m) ''%s'' [PStr ''defined''])"

definition show_compiler :: "build \<Rightarrow> report" where
  "show_compiler bd =
     (let stamp = (\<lambda>m. if defd bd ''PROCENV_REPRODUCIBLE_BUILD'' then ''[suppressed]'' else macro_text bd m) in
      in_header ''compiler'' (Inr
       ([C_entry ''name'' ''%s'' [PStr (case compiler_name bd of Some n \<Rightarrow> n | None \<Rightarrow> UNKNOWN_STR)],
         C_entry ''version'' ''%s'' [PStr (case compiler_version bd of Some n \<Rightarrow> n | None \<Rightarrow> UNKNOWN_STR)],
         C_entry ''compile date (__DATE__)'' ''%s'' [PStr (stamp ''__DATE__'')],
         C_entry ''compile time (__TIME__)'' ''%s'' [PStr (stamp ''__TIME__'')]] @
        (if defd bd ''__TIMESTAMP__'' then [C_entry ''timestamp (__TIMESTAMP__)'' ''%s'' [PStr (stamp ''__TIMESTAMP__'')]] else []) @
        [C_entry ''translation unit (__FILE__)'' ''%s'' [PStr (macro_text bd ''__FILE__'')],
         C_entry ''base file (__BASE_FILE__)'' ''%s'' [PStr (macro_text bd ''__BASE_FILE__'')],
         C_section_open ''feature test macros''] @
        map (feature_entry bd) feature_macros @
        [C_section_close])))"

section \<open>Ranges\<close>

text \<open>The range of an unsigned type: the conversions \<open>ud\<close> and \<open>ux\<close> are those of the code, which
  for \<^verbatim>\<open>long int\<close> are the ones of \<^verbatim>\<open>unsigned int\<close>.\<close>

definition unsigned_range :: "build \<Rightarrow> string \<Rightarrow> string \<Rightarrow> string \<Rightarrow> int \<Rightarrow> string \<Rightarrow> string \<Rightarrow> call list" where
  "unsigned_range bd type ud ux max_value max_name max_sci =
     [C_section_open ''unsigned'',
      C_entry ''decimal'' ud [PInt 0, PInt max_value],
      C_entry ''symbolic'' ''%u to %s'' [PInt 0, PStr max_name],
      C_entry ''scientific'' ''%e to %e'' [PFlt ''0.000000e+00'', PFlt max_sci],
      C_entry ''hex'' ux [PInt (int (sizeof bd type * 2)), PInt 0, PInt (int (sizeof bd type * 2)), PInt max_value],
      C_section_close]"

definition signed_range :: "string \<Rightarrow> int \<Rightarrow> int \<Rightarrow> string \<Rightarrow> string \<Rightarrow> call list" where
  "signed_range sd min_value max_value min_name max_name =
     [C_section_open ''signed'',
      C_entry ''decimal'' sd [PInt min_value, PInt max_value],
      C_entry ''symbolic'' ''%s to %s'' [PStr min_name, PStr max_name],
      C_section_close]"

definition int_range_section :: "build \<Rightarrow> string \<Rightarrow> call list \<Rightarrow> call list \<Rightarrow> call list" where
  "int_range_section bd type us ss = [C_section_open type, size_entry bd ''size'' type] @ us @ ss @ [C_section_close]"

definition float_range_section :: "build \<Rightarrow> string \<Rightarrow> string \<Rightarrow> string \<Rightarrow> string \<Rightarrow> string \<Rightarrow> string \<Rightarrow> call list" where
  "float_range_section bd type fmt min_sci max_sci min_name max_name =
     [C_section_open type, size_entry bd ''size'' type,
      C_entry ''signed'' fmt [PFlt min_sci, PFlt max_sci],
      C_entry ''symbolic'' ''%s to %s'' [PStr min_name, PStr max_name],
      C_section_close]"

definition show_ranges :: "build \<Rightarrow> report" where
  "show_ranges bd =
     (let x = ''0x%.*x to 0x%.*x'' in
      in_header ''ranges'' (Inr
       (int_range_section bd ''char''
          (unsigned_range bd ''char'' ''%u to %u'' x 255 ''UCHAR_MAX'' ''2.550000e+02'')
          (signed_range ''%d to %d'' (-128) 127 ''SCHAR_MIN'' ''SCHAR_MAX'') @
        int_range_section bd ''short int''
          (unsigned_range bd ''short int'' ''%u to %u'' x 65535 ''USHRT_MAX'' ''6.553500e+04'')
          (signed_range ''%d to %d'' (-32768) 32767 ''SHRT_MIN'' ''SHRT_MAX'') @
        int_range_section bd ''int''
          (unsigned_range bd ''int'' ''%u to %u'' x (2 ^ 32 - 1) ''UINT_MAX'' ''4.294967e+09'')
          (signed_range ''%d to %d'' (- (2 ^ 31)) (2 ^ 31 - 1) ''INT_MIN'' ''INT_MAX'') @
        int_range_section bd ''long int''
          (unsigned_range bd ''long int'' ''%u to %u'' x (2 ^ 64 - 1) ''ULONG_MAX'' ''1.844674e+19'')
          (signed_range ''%ld to %ld'' (- (2 ^ 63)) (2 ^ 63 - 1) ''LONG_MIN'' ''LONG_MAX'') @
        int_range_section bd ''long long int''
          (unsigned_range bd ''long long int'' ''%llu to %llu'' ''0x%.*llx to 0x%.*llx'' (2 ^ 64 - 1) ''ULLONG_MAX'' ''1.844674e+19'')
          (signed_range ''%lld to %lld'' (- (2 ^ 63)) (2 ^ 63 - 1) ''LLONG_MIN'' ''LLONG_MAX'') @
        float_range_section bd ''float'' ''%e to %e'' ''1.175494e-38'' ''3.402823e+38'' ''FLT_MIN'' ''FLT_MAX'' @
        float_range_section bd ''double'' ''%le to %le'' ''2.225074e-308'' ''1.797693e+308'' ''DBL_MIN'' ''DBL_MAX'' @
        float_range_section bd ''long double'' ''%Le to %Le'' ''3.362103e-4932'' ''1.189731e+4932'' ''LDBL_MIN'' ''LDBL_MAX'')))"

section \<open>The terminal\<close>

definition iflag_consts :: procenv_map where
  "iflag_consts =
     [(''IGNBRK'', 0x1), (''BRKINT'', 0x2), (''IGNPAR'', 0x4), (''PARMRK'', 0x8), (''INPCK'', 0x10), (''ISTRIP'', 0x20),
      (''INLCR'', 0x40), (''IGNCR'', 0x80), (''ICRNL'', 0x100), (''IUCLC'', 0x200), (''IXON'', 0x400), (''IXANY'', 0x800),
      (''IXOFF'', 0x1000), (''IMAXBEL'', 0x2000), (''IUTF8'', 0x4000)]"

definition oflag_consts :: procenv_map where
  "oflag_consts =
     [(''OPOST'', 0x1), (''OLCUC'', 0x2), (''ONLCR'', 0x4), (''OCRNL'', 0x8), (''ONOCR'', 0x10), (''ONLRET'', 0x20),
      (''OFILL'', 0x40), (''OFDEL'', 0x80), (''NLDLY'', 0x100), (''CRDLY'', 0x600), (''TABDLY'', 0x1800),
      (''BSDLY'', 0x2000), (''VTDLY'', 0x4000), (''FFDLY'', 0x8000)]"

definition cflag_consts :: procenv_map where
  "cflag_consts =
     [(''CBAUDEX'', 0x1000), (''CSIZE'', 0x30), (''CSTOPB'', 0x40), (''CREAD'', 0x80), (''PARENB'', 0x100),
      (''PARODD'', 0x200), (''HUPCL'', 0x400), (''CLOCAL'', 0x800), (''CIBAUD'', 0x100F0000), (''CMSPAR'', 0x40000000),
      (''CRTSCTS'', 0x80000000)]"

definition lflag_consts :: procenv_map where
  "lflag_consts =
     [(''ISIG'', 0x1), (''XCASE'', 0x4), (''ICANON'', 0x2), (''ECHO'', 0x8), (''ECHOE'', 0x10), (''ECHOK'', 0x20),
      (''ECHONL'', 0x40), (''ECHOCTL'', 0x200), (''ECHOPRT'', 0x400), (''ECHOKE'', 0x800), (''FLUSHO'', 0x1000),
      (''NOFLSH'', 0x80), (''TOSTOP'', 0x100), (''PENDIN'', 0x4000), (''IEXTEN'', 0x8000)]"

definition cc_names :: "string list" where
  "cc_names =
     [''VINTR'', ''VQUIT'', ''VERASE'', ''VKILL'', ''VEOF'', ''VTIME'', ''VMIN'', ''VSWTC'', ''VSTART'', ''VSTOP'',
      ''VSUSP'', ''VEOL'', ''VREPRINT'', ''VDISCARD'', ''VWERASE'', ''VLNEXT'', ''VEOL2'']"

text \<open>The lock test of the macro looks at the whole flag word, not at the constant.\<close>

definition show_const_tty :: "32 word \<Rightarrow> 32 word \<Rightarrow> string \<times> 32 word \<Rightarrow> call" where
  "show_const_tty flag lock c =
     C_entry (fst c) ''%d%s'' [PInt (if flag AND snd c \<noteq> 0 then 1 else 0), PStr (if lock \<noteq> 0 then '' (locked)'' else [])]"

definition show_cc_tty :: "(string \<Rightarrow> nat) \<Rightarrow> (string \<Rightarrow> nat) \<Rightarrow> string \<Rightarrow> call" where
  "show_cc_tty cc lock n =
     C_entry n ''0x%x%s'' [PInt (int (cc n)), PStr (if lock n \<noteq> 0 then '' (locked)'' else [])]"

definition flag_section :: "string \<Rightarrow> string \<Rightarrow> 32 word \<Rightarrow> 32 word \<Rightarrow> procenv_map \<Rightarrow> call list" where
  "flag_section title value_name flag lock consts =
     [C_section_open title, C_entry value_name ''0x%x'' [PInt (uint flag)]] @
     map (show_const_tty flag lock) consts @ [C_section_close]"

definition unlocked :: termios where
  "unlocked = \<lparr>c_iflag = 0, c_oflag = 0, c_cflag = 0, c_lflag = 0, c_cc = (\<lambda>_. 0), ispeed = 0, ospeed = 0\<rparr>"

text \<open>
  \<open>tcgetattr fd\<close> is \<open>None\<close> unless \<open>fd\<close> is a terminal whose attributes can be read; \<open>winsize\<close> are
  the rows, columns and pixels. The result also says which descriptor is the terminal now.
\<close>

definition show_tty_attrs ::
  "(int \<Rightarrow> termios option) \<Rightarrow> (int \<Rightarrow> (int \<times> int \<times> int \<times> int) option) \<Rightarrow> procenv_ops \<Rightarrow> globals \<Rightarrow> (int \<times> call list) res"
where
  "show_tty_attrs tcgetattr winsize ops g =
     (case find (\<lambda>fd. tcgetattr fd \<noteq> None) [u_tty_fd (user g), 0, 1, 2] of
        None \<Rightarrow> Inr (u_tty_fd (user g), [C_header ''tty'', C_footer])
      | Some fd \<Rightarrow>
          let tty = the (tcgetattr fd) in
          bindE (case get_tty_locked_status ops of None \<Rightarrow> Inr unlocked | Some f \<Rightarrow> f fd unlocked) (\<lambda>lock.
             case winsize fd of
               None \<Rightarrow> Inl (Die ''failed to determine terminal dimensions'')
             | Some (row, col, xp, yp) \<Rightarrow>
                 Inr (fd,
                   [C_header ''tty''] @
                   flag_section ''c_iflag (input)'' ''value'' (c_iflag tty) (c_iflag lock) iflag_consts @
                   flag_section ''c_oflag (output)'' ''c_oflag'' (c_oflag tty) (c_oflag lock) oflag_consts @
                   flag_section ''c_cflag (control)'' ''value'' (c_cflag tty) (c_cflag lock) cflag_consts @
                   flag_section ''c_lflag (local)'' ''value'' (c_lflag tty) (c_lflag lock) lflag_consts @
                   [C_section_open ''c_cc (special)''] @ map (show_cc_tty (c_cc tty) (c_cc lock)) cc_names @ [C_section_close] @
                   [C_section_open ''speed'',
                    C_entry ''input (baud)'' ''%s'' [str_arg (get_speed (ispeed tty))],
                    C_entry ''output (baud)'' ''%s'' [str_arg (get_speed (ospeed tty))],
                    C_section_close,
                    C_section_open ''winsize'',
                    C_entry ''ws_row'' ''%u'' [PInt row], C_entry ''ws_col'' ''%u'' [PInt col],
                    C_entry ''ws_xpixel'' ''%u'' [PInt xp], C_entry ''ws_ypixel'' ''%u'' [PInt yp],
                    C_section_close,
                    C_footer])))"

end
