(* ===== verification/Network.thy ===== *)
theory Network
  imports ShowTables
begin

text \<open>
  \<^verbatim>\<open>show_network\<close> and \<^verbatim>\<open>show_network_if\<close>. \<^verbatim>\<open>getifaddrs\<close> returns one record for the link level of
  an interface and one for each of its addresses. The routine keeps the link-level records in a
  cache (\<^verbatim>\<open>struct network_map\<close>, a doubly linked list behind a dummy head, here the list of its nodes),
  takes the hardware address for an address record from it and finally shows what is left.
\<close>

unbundle bit_operations_syntax

section \<open>One interface\<close>

definition IFF_BROADCAST :: "32 word" where "IFF_BROADCAST = 0x2"
definition IFF_POINTOPOINT :: "32 word" where "IFF_POINTOPOINT = 0x10"
definition PROCENV_LINK_LEVEL_FAMILY :: nat where "PROCENV_LINK_LEVEL_FAMILY = AF_PACKET"

definition address_text :: "sockaddr \<Rightarrow> nat \<Rightarrow> string res" where
  "address_text a family = get_network_address sa_name a family"

text \<open>The value of the extended flags is printed before the driver is asked for them.\<close>

definition show_network_if :: "procenv_ops \<Rightarrow> ifaddrs \<Rightarrow> string option \<Rightarrow> report" where
  "show_network_if ops ifa mac_address =
     (case ifa_addr ifa of
        None \<Rightarrow> Inl NullDeref
      | Some addr \<Rightarrow>
          let family = sa_family addr; flags = ifa_flags ifa;
              mtu = (case get_mtu ops of Some f \<Rightarrow> f ifa | None \<Rightarrow> 0)
          in in_section (ifa_name ifa) (reports
            [Inr [C_entry ''family'' ''%s (0x%x)'' [PStr (get_net_family_name family), PInt (int family)]],
             in_section ''flags'' (reports
               [Inr [C_entry ''value'' ''0x%x'' [PInt (uint flags)]],
                in_container ''fields'' (Inr (decode_if_flags (if_flag_map ops) flags))]),
             in_section ''extended flags'' (reports
               [Inr [C_entry ''value'' ''0x%x'' [PInt 0]],
                in_container ''fields''
                  (case show_extended_if_flags ops of None \<Rightarrow> Inr [] | Some f \<Rightarrow> f (ifa_name ifa))]),
             Inr [C_entry ''mac'' ''%s'' [PStr (case mac_address of Some m \<Rightarrow> m | None \<Rightarrow> NA_STR)],
                  if 0 < mtu then C_entry ''mtu'' ''%d'' [PInt mtu] else C_entry ''mtu'' ''%s'' [PStr UNKNOWN_STR]],
             bindE (address_text addr family) (\<lambda>a. Inr [C_entry ''address'' ''%s'' [PStr a]]),
             (case ifa_netmask ifa of
                None \<Rightarrow> Inr [C_entry ''netmask'' ''%s'' [PStr NA_STR]]
              | Some m \<Rightarrow> bindE (address_text m family) (\<lambda>a. Inr [C_entry ''netmask'' ''%s'' [PStr a]])),
             (if family = PROCENV_LINK_LEVEL_FAMILY then Inr [C_entry ''broadcast'' ''%s'' [PStr NA_STR]]
              else if flags AND IFF_BROADCAST \<noteq> 0 then
                (case ifa_broadaddr ifa of
                   None \<Rightarrow> Inr []
                 | Some b \<Rightarrow> bindE (address_text b family) (\<lambda>a. Inr [C_entry ''broadcast'' ''%s'' [PStr a]]))
              else Inr []),
             (if flags AND IFF_POINTOPOINT \<noteq> 0 then
                (case ifa_dstaddr ifa of
                   None \<Rightarrow> Inr []
                 | Some d \<Rightarrow> bindE (address_text d family) (\<lambda>a. Inr [C_entry ''point-to-point'' ''%s'' [PStr a]]))
              else Inr [])]))"

section \<open>All interfaces\<close>

record network_map =
  ifaddr :: ifaddrs
  mac_address :: "string option"

definition sizeof_network_map :: nat where
  "sizeof_network_map = 80"

text \<open>\<open>q_getifaddrs\<close> is the list of records, \<open>q_hwaddr\<close> the hardware address by the name of an interface.\<close>

record net_queries =
  q_getifaddrs :: "ifaddrs list option"
  q_hwaddr :: "string \<Rightarrow> nat list option"

text \<open>The search of the cache: the copied hardware address, and the list without the first node of that name.\<close>

fun take_node :: "cenv \<Rightarrow> string \<Rightarrow> network_map list \<Rightarrow> string option \<times> network_map list" where
  "take_node env name [] = (None, [])"
| "take_node env name (n # ns) =
     (if ifa_name (ifaddr n) = name then
        ((case mac_address n of
            None \<Rightarrow> None
          | Some m \<Rightarrow> if alloc_ok env (length m + 1) then Some m else None), ns)
      else let (m, rest) = take_node env name ns in (m, n # rest))"

fun show_interfaces ::
  "cenv \<Rightarrow> net_queries \<Rightarrow> procenv_ops \<Rightarrow> network_map list \<Rightarrow> ifaddrs list \<Rightarrow> report"
where
  "show_interfaces env q ops cache [] =
     reports (map (\<lambda>n. show_network_if ops (ifaddr n) (mac_address n)) cache)"
| "show_interfaces env q ops cache (ifa # ifas) =
     (case ifa_addr ifa of
        None \<Rightarrow> show_interfaces env q ops cache ifas
      | Some a \<Rightarrow>
          if sa_family a = PROCENV_LINK_LEVEL_FAMILY then
            bindE (get_mac_address env (q_hwaddr q (ifa_name ifa))) (\<lambda>mac_address.
            guardE (alloc_ok env sizeof_network_map) AssertFail
              (show_interfaces env q ops (\<lparr>ifaddr = ifa, mac_address = mac_address\<rparr> # cache) ifas))
          else
            let (mac, cache') = take_node env (ifa_name ifa) cache
            in reports [show_network_if ops ifa mac, show_interfaces env q ops cache' ifas])"

text \<open>When the interfaces cannot be listed the routine returns with its header open.\<close>

definition show_network :: "cenv \<Rightarrow> net_queries \<Rightarrow> procenv_ops \<Rightarrow> report" where
  "show_network env q ops =
     (case q_getifaddrs q of
        None \<Rightarrow> Inr [C_header ''network'']
      | Some if_addrs \<Rightarrow>
          in_header ''network''
            (guardE (alloc_ok env sizeof_network_map) AssertFail (show_interfaces env q ops [] if_addrs)))"

section \<open>Completeness\<close>

lemma decode_if_flags_objects [complete_intros]: "objects (decode_if_flags m flags)"
  by (auto simp: decode_if_flags_def objects_def intro!: shape_concat)

context platform_driver
begin

lemma show_network_if_complete [complete_intros]: "members_report (show_network_if ops ifa mac)"
  unfolding show_network_if_def Let_def
  by (intro complete_intros) (auto simp: flat_calls intro: if_flags_hook)

lemma show_interfaces_complete: "members_report (show_interfaces env q ops cache ifas)"
proof (induction ifas arbitrary: cache)
  case (Cons ifa ifas)
  show ?case unfolding show_interfaces.simps Let_def by (intro complete_intros Cons.IH)
qed (simp only: show_interfaces.simps, intro complete_intros)

lemma show_network_complete:
  "q_getifaddrs q \<noteq> None \<Longrightarrow> members_report (show_network env q ops)"
  unfolding show_network_def
  by (intro complete_intros show_interfaces_complete) simp

end


section \<open>Which interfaces are shown, and how\<close>

definition is_link :: "ifaddrs \<Rightarrow> bool" where
  "is_link ifa \<longleftrightarrow> (case ifa_addr ifa of None \<Rightarrow> False | Some a \<Rightarrow> sa_family a = PROCENV_LINK_LEVEL_FAMILY)"

definition has_addr :: "ifaddrs \<Rightarrow> bool" where
  "has_addr ifa \<longleftrightarrow> ifa_addr ifa \<noteq> None \<and> \<not> is_link ifa"

text \<open>
  The rows for the address records. \<open>d name\<close> is the number of link-level records of that name
  seen so far whose hardware address no address record has taken.
\<close>

fun addr_rows :: "(string \<Rightarrow> string option) \<Rightarrow> (string \<Rightarrow> nat) \<Rightarrow> ifaddrs list \<Rightarrow> (ifaddrs \<times> string option) list" where
  "addr_rows mac d [] = []"
| "addr_rows mac d (a # as) =
     (if is_link a then addr_rows mac (d(ifa_name a := d (ifa_name a) + 1)) as
      else if has_addr a
      then (a, if 0 < d (ifa_name a) then mac (ifa_name a) else None) # addr_rows mac (d(ifa_name a := d (ifa_name a) - 1)) as
      else addr_rows mac d as)"

text \<open>
  A link-level record is left when no later address record takes its hardware address: each of
  them finds a younger link-level record of the same name (\<open>k\<close> counts those).
\<close>

fun stays :: "string \<Rightarrow> nat \<Rightarrow> ifaddrs list \<Rightarrow> bool" where
  "stays name k [] \<longleftrightarrow> True"
| "stays name k (a # as) \<longleftrightarrow>
     (if ifa_name a \<noteq> name then stays name k as
      else if is_link a then stays name (k + 1) as
      else if has_addr a then 0 < k \<and> stays name (k - 1) as
      else stays name k as)"

fun left_links :: "ifaddrs list \<Rightarrow> ifaddrs list" where
  "left_links [] = []"
| "left_links (a # as) = (if is_link a \<and> stays (ifa_name a) 0 as then a # left_links as else left_links as)"

text \<open>The text of the hardware address, by the name of the interface.\<close>

definition mac_of :: "cenv \<Rightarrow> net_queries \<Rightarrow> string \<Rightarrow> string option" where
  "mac_of env q name = (case get_mac_address env (q_hwaddr q name) of Inr m \<Rightarrow> m | Inl _ \<Rightarrow> None)"

definition link_node :: "cenv \<Rightarrow> net_queries \<Rightarrow> ifaddrs \<Rightarrow> network_map" where
  "link_node env q l = \<lparr>ifaddr = l, mac_address = mac_of env q (ifa_name l)\<rparr>"

definition show_rows :: "procenv_ops \<Rightarrow> (ifaddrs \<times> string option) list \<Rightarrow> report" where
  "show_rows ops rows = reports (map (\<lambda>(i, m). show_network_if ops i m) rows)"

text \<open>A hardware address is six bytes.\<close>

definition hwaddr_ok :: "net_queries \<Rightarrow> bool" where
  "hwaddr_ok q \<longleftrightarrow> (\<forall>name d. q_hwaddr q name = Some d \<longrightarrow> length d = 6 \<and> (\<forall>b \<in> set d. b < 256))"

lemma mac_of_result:
  assumes "hwaddr_ok q" "alloc_ok env 18"
  shows "get_mac_address env (q_hwaddr q name) = Inr (mac_of env q name)"
    and "mac_of env q name = Some m \<Longrightarrow> length m = 17"
proof -
  have "\<exists>r. get_mac_address env (q_hwaddr q name) = Inr r \<and> (\<forall>m. r = Some m \<longrightarrow> length m = 17)"
  proof (cases "q_hwaddr q name")
    case None
    then show ?thesis by (simp add: get_mac_address_def)
  next
    case (Some d)
    then have "length d = 6" "\<forall>b \<in> set d. b < 256" using assms(1) by (auto simp: hwaddr_ok_def)
    then show ?thesis using get_mac_address_text [of d env] assms(2) mac_text_length Some by simp
  qed
  then show "get_mac_address env (q_hwaddr q name) = Inr (mac_of env q name)"
    and "mac_of env q name = Some m \<Longrightarrow> length m = 17" by (auto simp: mac_of_def)
qed

text \<open>The search of the cache takes the youngest record of the name.\<close>

lemma take_node_absent:
  "name \<notin> ifa_name ` set ls \<Longrightarrow> take_node env name (map (link_node env q) ls) = (None, map (link_node env q) ls)"
  by (induction ls) (auto simp: link_node_def)

lemma take_node_youngest:
  assumes "hwaddr_ok q" "alloc_ok env 18" "name \<notin> ifa_name ` set xs" "ifa_name l = name"
  shows "take_node env name (map (link_node env q) (xs @ l # ys)) = (mac_of env q name, map (link_node env q) (xs @ ys))"
  using assms(3)
proof (induction xs)
  case Nil
  then show ?case using assms(2,4) mac_of_result(2) [OF assms(1,2), of name]
    by (auto simp: link_node_def split: option.split)
next
  case (Cons x xs)
  then show ?case by (auto simp: link_node_def)
qed

text \<open>A link-level record and the address record that takes its hardware address cancel out.\<close>

lemma stays_cancel:
  assumes "is_link l" "\<not> is_link a" "has_addr a" "ifa_name l = ifa_name a" "ifa_name a \<notin> ifa_name ` set ys"
  shows "stays n k (xs @ l # ys @ a # as) \<longleftrightarrow> stays n k (xs @ ys @ as)"
proof -
  have skip: "stays (ifa_name a) j (ys @ zs) \<longleftrightarrow> stays (ifa_name a) j zs" for j zs
    using assms(5) by (induction ys) auto
  have other: "n \<noteq> ifa_name a \<Longrightarrow> stays n j (ys @ a # as) \<longleftrightarrow> stays n j (ys @ as)" for j
    by (induction ys arbitrary: j) auto
  have "stays n j (l # ys @ a # as) \<longleftrightarrow> stays n j (ys @ as)" for j
    using assms(1-4) skip other by (cases "n = ifa_name a") auto
  then show ?thesis by (induction xs arbitrary: k) auto
qed

lemma left_links_cancel:
  assumes "is_link l" "\<not> is_link a" "has_addr a" "ifa_name l = ifa_name a" "ifa_name a \<notin> ifa_name ` set ys"
  shows "left_links (xs @ l # ys @ a # as) = left_links (xs @ ys @ as)"
proof -
  have gone: "\<not> stays (ifa_name a) 0 (ys @ a # as)" using assms(2,3,5) by (induction ys) auto
  have "stays n k (ys @ a # as) \<longleftrightarrow> stays n k (ys @ as)" if "n \<noteq> ifa_name a" for n k ys
    using that by (induction ys arbitrary: k) auto
  then have "left_links (ys @ a # as) = left_links (ys @ as)"
    using assms(2,5) by (induction ys) auto
  then have "left_links (l # ys @ a # as) = left_links (ys @ as)" using gone assms(4) by simp
  then show ?thesis using stays_cancel [OF assms] by (induction xs) auto
qed

lemma left_links_unmatched:
  assumes "\<not> is_link a" "ifa_addr a = None \<or> ifa_name a \<notin> ifa_name ` set xs"
  shows "left_links (xs @ a # as) = left_links (xs @ as)"
proof -
  have skip: "stays n k (ys @ a # as) \<longleftrightarrow> stays n k (ys @ as)" if "n \<noteq> ifa_name a \<or> ifa_addr a = None" for n k ys
    using that assms(1) by (induction ys arbitrary: k) (auto simp: has_addr_def)
  from assms show ?thesis
  proof (induction xs)
    case (Cons x xs)
    have "stays (ifa_name x) 0 (xs @ a # as) \<longleftrightarrow> stays (ifa_name x) 0 (xs @ as)"
      using Cons.prems(2) by (intro skip) auto
    with Cons show ?case by auto
  qed simp
qed

lemma left_links_all: "\<forall>l \<in> set ls. is_link l \<Longrightarrow> left_links ls = ls"
proof (induction ls)
  case (Cons l ls)
  have "stays n k ls" for n k using Cons.prems by (induction ls arbitrary: k) auto
  with Cons show ?case by simp
qed simp

abbreviation cached :: "ifaddrs list \<Rightarrow> string \<Rightarrow> nat" where
  "cached ls \<equiv> count_list (map ifa_name ls)"

lemma no_cached: "count_list [] = (\<lambda>_. 0)"
  by (simp add: fun_eq_iff)

lemma show_interfaces_rows:
  assumes "hwaddr_ok q" "alloc_ok env sizeof_network_map" "\<forall>l \<in> set ls. is_link l"
  shows "show_interfaces env q ops (map (link_node env q) ls) ifas =
    show_rows ops (addr_rows (mac_of env q) (cached ls) ifas @
      map (\<lambda>l. (l, mac_of env q (ifa_name l))) (rev (left_links (rev ls @ ifas))))"
  using assms(3)
proof (induction ifas arbitrary: ls)
  case Nil
  then show ?case by (simp add: show_rows_def link_node_def comp_def left_links_all)
next
  case (Cons a ifas)
  let ?n = "ifa_name a"
  have m: "alloc_ok env 18" using assms(2) by (simp add: alloc_ok_def sizeof_network_map_def)
  consider (none) "ifa_addr a = None" "\<not> is_link a" "\<not> has_addr a" | (link) "is_link a"
    | (first) xs l ys where "has_addr a" "\<not> is_link a" "ls = xs @ l # ys" "?n \<notin> ifa_name ` set xs" "ifa_name l = ?n"
    | (unmatched) "has_addr a" "\<not> is_link a" "?n \<notin> ifa_name ` set ls"
  proof -
    have "\<exists>xs l ys. ls = xs @ l # ys \<and> ?n \<notin> ifa_name ` set xs \<and> ifa_name l = ?n" if "?n \<in> ifa_name ` set ls"
      using split_list_first_prop [of ls "\<lambda>l. ifa_name l = ?n"] that by fastforce
    then show ?thesis using that by (cases "ifa_addr a") (auto simp: has_addr_def is_link_def)
  qed
  then show ?case
  proof cases
    case none
    then show ?thesis using Cons by (simp add: left_links_unmatched)
  next
    case link
    have c: "cached (a # ls) = (cached ls)(?n := cached ls ?n + 1)" by (auto simp: fun_eq_iff)
    from link Cons.IH [of "a # ls", unfolded c] Cons.prems assms(2) show ?thesis
      by (auto simp: fun_upd_def is_link_def link_node_def mac_of_result [OF assms(1) m] split: option.splits)
  next
    case first
    have "cached ls = (cached (xs @ ys))(?n := cached (xs @ ys) ?n + 1)"
      using first(3,5) by (auto simp: fun_eq_iff)
    then have c: "0 < cached ls ?n" "(cached ls)(?n := cached ls ?n - 1) = cached (xs @ ys)" by (simp_all add: fun_eq_iff)
    have l: "left_links (rev ls @ a # ifas) = left_links (rev (xs @ ys) @ ifas)"
      using left_links_cancel [of l a "rev xs" "rev ys" ifas] first Cons.prems by simp
    have "show_interfaces env q ops (map (link_node env q) ls) (a # ifas) =
        reports [show_network_if ops a (mac_of env q ?n), show_interfaces env q ops (map (link_node env q) (xs @ ys)) ifas]"
      using take_node_youngest [OF assms(1) m first(4,5)] first(1-3)
      by (auto simp: has_addr_def is_link_def)
    also have "\<dots> = show_rows ops ((a, mac_of env q ?n) # addr_rows (mac_of env q) (cached (xs @ ys)) ifas @
        map (\<lambda>l. (l, mac_of env q (ifa_name l))) (rev (left_links (rev (xs @ ys) @ ifas))))"
      by (subst Cons.IH) (use Cons.prems first(3) in \<open>auto simp: show_rows_def\<close>)
    finally show ?thesis using first(1,2) c l by simp
  next
    case unmatched
    have c: "cached ls ?n = 0" "(cached ls)(?n := cached ls ?n - 1) = cached ls"
      using unmatched(3) by (auto simp: count_list_0_iff)
    show ?thesis
      using Cons.IH [of ls] Cons.prems unmatched c take_node_absent [OF unmatched(3), of env q]
      by (auto simp: has_addr_def is_link_def show_rows_def left_links_unmatched [OF unmatched(2)])
  qed
qed

section \<open>Properties\<close>

text \<open>
  C24: the network report, whatever the order of the records. Every address record is shown, in
  the order of the list, and with the hardware address exactly when a link-level record of its
  name came before it that no earlier address record has used; then the link-level records that
  no address record has used follow, the last one first.
\<close>

theorem show_network_correct:
  assumes "q_getifaddrs q = Some ifas" "hwaddr_ok q" "alloc_ok env sizeof_network_map"
  shows "show_network env q ops = in_header ''network'' (show_rows ops
    (addr_rows (mac_of env q) (\<lambda>_. 0) ifas @ map (\<lambda>l. (l, mac_of env q (ifa_name l))) (rev (left_links ifas))))"
  using show_interfaces_rows [OF assms(2,3), of "[]" ops ifas] assms(1,3)
  by (simp add: show_network_def no_cached)

definition example_if :: "string \<Rightarrow> nat \<Rightarrow> string \<Rightarrow> ifaddrs" where
  "example_if name family text = \<lparr>ifa_name = name, ifa_flags = 0x1, ifa_addr = Some \<lparr>sa_family = family, sa_name = (0, text)\<rparr>,
     ifa_netmask = None, ifa_broadaddr = None, ifa_dstaddr = None\<rparr>"

text \<open>An interface without an address, one with two, and one whose address comes before its link level.\<close>

definition example_ifas :: "ifaddrs list" where
  "example_ifas = [example_if ''lo'' 17 [], example_if ''eth0'' 17 [], example_if ''wg0'' 2 ''10.9.0.1'',
     example_if ''eth0'' 2 ''10.0.0.1'', example_if ''wg0'' 17 [], example_if ''eth0'' 10 ''fe80::1'']"

definition example_net :: net_queries where
  "example_net = \<lparr>q_getifaddrs = Some example_ifas, q_hwaddr = (\<lambda>_. Some [0, 22, 62, 17, 2, 3])\<rparr>"

theorem show_network_correct_witness:
  "\<forall>ops. show_network ascii_env example_net ops = in_header ''network'' (show_rows ops
     [(example_if ''wg0'' 2 ''10.9.0.1'', None), (example_if ''eth0'' 2 ''10.0.0.1'', Some ''00:16:3e:11:02:03''),
      (example_if ''eth0'' 10 ''fe80::1'', None), (example_if ''wg0'' 17 [], Some ''00:16:3e:11:02:03''),
      (example_if ''lo'' 17 [], Some ''00:16:3e:11:02:03'')])"
proof
  fix ops
  have h: "q_hwaddr example_net name = Some [0, 22, 62, 17, 2, 3]" "hwaddr_ok example_net" for name
    by (simp_all add: example_net_def hwaddr_ok_def)
  have a: "alloc_ok ascii_env sizeof_network_map" "alloc_ok ascii_env 18" by (simp_all add: alloc_ok_def ascii_env_def sizeof_network_map_def)
  have "get_mac_address ascii_env (Some [0, 22, 62, 17, 2, 3]) = Inr (Some ''00:16:3e:11:02:03'')"
    by (subst get_mac_address_text [OF _ _ a(2)])
      (auto simp: mac_text_def digit_char_def char_of_def bit_iff_odd dest: arg_cong [of _ _ "\<lambda>d. d ! 1"])
  then have mac: "mac_of ascii_env example_net name = Some ''00:16:3e:11:02:03''" for name
    by (simp add: mac_of_def h)
  have n: "is_link (example_if name f t) \<longleftrightarrow> f = 17" "has_addr (example_if name f t) \<longleftrightarrow> f \<noteq> 17" "ifa_name (example_if name f t) = name"
    for name f t by (simp_all add: is_link_def has_addr_def example_if_def PROCENV_LINK_LEVEL_FAMILY_def AF_PACKET_def)
  show "show_network ascii_env example_net ops = in_header ''network'' (show_rows ops
     [(example_if ''wg0'' 2 ''10.9.0.1'', None), (example_if ''eth0'' 2 ''10.0.0.1'', Some ''00:16:3e:11:02:03''),
      (example_if ''eth0'' 10 ''fe80::1'', None), (example_if ''wg0'' 17 [], Some ''00:16:3e:11:02:03''),
      (example_if ''lo'' 17 [], Some ''00:16:3e:11:02:03'')])"
    using show_network_correct [of example_net "example_ifas" ascii_env ops] h(2) a(1)
    by (simp add: example_ifas_def n mac) (simp add: example_net_def example_ifas_def)
qed

end
