(* ===== verification/Generic.thy ===== *)
theory Generic
  imports Network
begin

text \<open>
  \<^verbatim>\<open>platform-generic.c\<close>: the routines the platform drivers share. The results of the system calls
  are the fields of \<open>generic_queries\<close>; a constant of the system is known by its name, and
  \<open>gq_defd\<close> says which of them are defined.
\<close>

unbundle bit_operations_syntax

section \<open>What the system answers\<close>

record sysinfo =
  si_totalram :: "64 word"
  si_freeram :: "64 word"
  si_sharedram :: "64 word"
  si_bufferram :: "64 word"
  si_totalswap :: "64 word"
  si_freeswap :: "64 word"
  si_mem_unit :: "32 word"

record mntent =
  mnt_fsname :: string
  mnt_dir :: string
  mnt_type :: string
  mnt_opts :: string
  mnt_freq :: int
  mnt_passno :: int

record statvfs =
  f_bsize :: "64 word"
  f_blocks :: "64 word"
  f_bfree :: "64 word"
  f_bavail :: "64 word"
  f_files :: "64 word"
  f_ffree :: "64 word"
  f_fsid :: "64 word"

record dl_phdr_info =
  dlpi_name :: "string option"
  dlpi_addr :: nat

text \<open>
  \<open>gq_sysconf\<close> is \<open>None\<close> for -1 with \<^verbatim>\<open>errno\<close> set; \<open>gq_pathconf\<close> is \<open>None\<close> for -1 without it.
  \<open>gq_confstr\<close> is the value, \<open>None\<close> when there is none. \<open>gq_readlink\<close> is the whole target of a link.
  \<open>gq_human\<close> is the text of \<^verbatim>\<open>%2.2f\<close> for a quotient of floating-point numbers.
\<close>

record generic_queries =
  gq_defd :: "string \<Rightarrow> bool"
  gq_getrlimit :: "string \<Rightarrow> (nat \<times> nat) option"
  gq_clock_getres :: "string \<Rightarrow> (int \<times> int) option"
  gq_sysconf :: "string \<Rightarrow> int option"
  gq_mtu :: "(string \<Rightarrow> int option) option"
  gq_clock_gettime :: "(int \<times> int) option"
  gq_fcntl_getfl :: "int \<Rightarrow> int \<times> bool"
  gq_isatty :: "int \<Rightarrow> bool"
  gq_ttyname :: "int \<Rightarrow> string option"
  gq_confstr :: "string \<Rightarrow> string option"
  gq_pathconf :: "string \<Rightarrow> string \<Rightarrow> int option"
  gq_sysinfo :: "sysinfo option"
  gq_human :: "nat \<Rightarrow> nat \<Rightarrow> string"
  gq_mounts :: "mntent list option"
  gq_statvfs :: "string \<Rightarrow> statvfs option"
  gq_stat :: statfun
  gq_readlink :: "string \<Rightarrow> string option"
  gq_tz :: "string \<times> string \<times> int \<times> int"
  gq_phdrs :: "dl_phdr_info list"

section \<open>Limits, clocks, configuration strings\<close>

definition limit_max :: int where
  "limit_max = 2 ^ 64 - 1"

definition show_limit :: "generic_queries \<Rightarrow> string \<Rightarrow> report" where
  "show_limit q limit =
     (case gq_getrlimit q limit of
        None \<Rightarrow> Inl (Die ''failed to query rlimit'')
      | Some (cur, mx) \<Rightarrow>
          in_section limit (reports
            [in_section ''soft'' (Inr
               [C_entry ''current'' ''%lu'' [PInt (int cur)], C_entry ''max'' ''%lu'' [PInt limit_max]]),
             in_section ''hard'' (Inr
               [C_entry ''current'' ''%lu'' [PInt (int mx)], C_entry ''max'' ''%lu'' [PInt limit_max]])]))"

definition limit_names :: "(string \<Rightarrow> bool) \<Rightarrow> string list" where
  "limit_names defd_macro =
     (if defd_macro ''RLIMIT_AS'' then [''RLIMIT_AS''] else []) @
     [''RLIMIT_CORE'', ''RLIMIT_CPU'', ''RLIMIT_DATA'', ''RLIMIT_FSIZE'', ''RLIMIT_MEMLOCK'', ''RLIMIT_NOFILE'',
      ''RLIMIT_NPROC'', ''RLIMIT_RSS'', ''RLIMIT_STACK'']"

definition show_rlimits_generic :: "generic_queries \<Rightarrow> report" where
  "show_rlimits_generic q = reports (map (show_limit q) (limit_names (gq_defd q)))"

definition show_clock_res :: "generic_queries \<Rightarrow> string \<Rightarrow> report" where
  "show_clock_res q clock =
     in_section clock (Inr
       [case gq_clock_getres q clock of
          None \<Rightarrow> C_entry ''resolution'' ''%s'' [PStr UNKNOWN_STR]
        | Some (sec, nsec) \<Rightarrow> C_entry ''resolution'' ''%ld.%09lds'' [PInt sec, PInt nsec]])"

text \<open>In the order of the code, which has one clock twice.\<close>

definition clock_names :: "string list" where
  "clock_names =
     [''CLOCK_BOOTTIME'', ''CLOCK_BOOTTIME_ALARM'', ''CLOCK_MONOTONIC'', ''CLOCK_MONOTONIC_COARSE'',
      ''CLOCK_MONOTONIC_RAW'', ''CLOCK_MONOTONIC_RAW_APPROX'', ''CLOCK_PROCESS_CPUTIME_ID'',
      ''CLOCK_REALTIME'', ''CLOCK_REALTIME_ALARM'', ''CLOCK_REALTIME_COARSE'', ''CLOCK_REALTIME_HR'',
      ''CLOCK_TAI'', ''CLOCK_PROCESS_CPUTIME_ID'', ''CLOCK_THREAD_CPUTIME_ID'', ''CLOCK_UPTIME_RAW'',
      ''CLOCK_UPTIME_RAW_APPROX'']"

definition show_clocks_generic :: "generic_queries \<Rightarrow> report" where
  "show_clocks_generic q = reports (map (show_clock_res q) (filter (gq_defd q) clock_names))"

definition get_kernel_bits_generic :: "generic_queries \<Rightarrow> int" where
  "get_kernel_bits_generic q =
     (if gq_defd q ''_SC_LONG_BIT'' then (case gq_sysconf q ''_SC_LONG_BIT'' of None \<Rightarrow> -1 | Some v \<Rightarrow> v) else 64)"

text \<open>\<open>gq_mtu\<close> is \<open>None\<close> when no socket can be made; the name is cut to \<^verbatim>\<open>IFNAMSIZ - 1\<close> characters.\<close>

definition IFNAMSIZ :: nat where "IFNAMSIZ = 16"

definition get_mtu_generic :: "generic_queries \<Rightarrow> ifaddrs \<Rightarrow> int" where
  "get_mtu_generic q ifa =
     (case gq_mtu q of
        None \<Rightarrow> -1
      | Some f \<Rightarrow> (case f (take (IFNAMSIZ - 1) (ifa_name ifa)) of None \<Rightarrow> 0 | Some mtu \<Rightarrow> mtu))"

definition get_time_generic :: "generic_queries \<Rightarrow> (int \<times> int) option" where
  "get_time_generic q = gq_clock_gettime q"

section \<open>File descriptors\<close>

definition show_fd :: "cenv \<Rightarrow> generic_queries \<Rightarrow> (int \<Rightarrow> report) option \<Rightarrow> int \<Rightarrow> report" where
  "show_fd env q fd_capabilities fd =
     (if \<not> fd_valid (gq_fcntl_getfl q) fd then Inr []
      else bindE (appendf env None ''%d'' [PInt fd]) (\<lambda>b.
        bindE (buf_str b) (\<lambda>num.
          in_object (in_section num (reports
            [Inr [C_entry ''terminal'' ''%s'' [yes_no (gq_isatty q fd)],
                  C_entry ''valid'' ''%s'' [yes_no (fd_valid (gq_fcntl_getfl q) fd)],
                  C_entry ''device'' ''%s'' [PStr (case gq_ttyname q fd of Some n \<Rightarrow> n | None \<Rightarrow> NA_STR)]],
             in_section ''capabilities'' (case fd_capabilities of None \<Rightarrow> Inr [] | Some h \<Rightarrow> h fd)])))))"

definition show_fds_generic :: "cenv \<Rightarrow> generic_queries \<Rightarrow> (int \<Rightarrow> report) option \<Rightarrow> report" where
  "show_fds_generic env q fd_capabilities =
     (let max = (case gq_sysconf q ''_SC_OPEN_MAX'' of None \<Rightarrow> -1 | Some v \<Rightarrow> signed_take_bit 31 v)
      in reports (map (show_fd env q fd_capabilities) (map int [0..<nat max])))"

section \<open>Configuration strings\<close>

text \<open>The value with blanks for line ends; an empty value shows as not applicable.\<close>

definition show_confstr :: "cenv \<Rightarrow> generic_queries \<Rightarrow> string \<times> string \<Rightarrow> report" where
  "show_confstr env q c =
     (case gq_confstr q (fst c) of
        None \<Rightarrow> Inr []
      | Some v \<Rightarrow>
          guardE (alloc_ok env (length v + 1)) (Die ''failed to allocate space for confstr'')
            (let buffer = map (\<lambda>ch. if ch = CHR 0x0A then CHR '' '' else ch) v;
                 quote = (if buffer \<noteq> [] then [CHR 0x27] else [])
             in Inr [C_entry (snd c) ''%s%s%s'' [PStr quote, PStr (if buffer \<noteq> [] then buffer else NA_STR), PStr quote]]))"

text \<open>The names in the order of the code, in three parts.\<close>

definition confstr_names_v6 :: "string list" where
  "confstr_names_v6 =
     [''_CS_GNU_LIBC_VERSION'', ''_CS_GNU_LIBPTHREAD_VERSION'', ''_CS_LFS64_CFLAGS'',
      ''_CS_LFS64_LDFLAGS'', ''_CS_LFS64_LIBS'', ''_CS_LFS64_LINTFLAGS'', ''_CS_LFS_CFLAGS'',
      ''_CS_LFS_LDFLAGS'', ''_CS_LFS_LIBS'', ''_CS_LFS_LINTFLAGS'', ''_CS_PATH'',
      ''_CS_POSIX_V5_WIDTH_RESTRICTED_ENVS'', ''_CS_POSIX_V6_ILP32_OFF32'',
      ''_CS_POSIX_V6_ILP32_OFF32_CFLAGS'', ''_CS_POSIX_V6_ILP32_OFF32_LDFLAGS'',
      ''_CS_POSIX_V6_ILP32_OFF32_LIBS'', ''_CS_POSIX_V6_ILP32_OFF32_LINTFLAGS'',
      ''_CS_POSIX_V6_ILP32_OFFBIG_CFLAGS'', ''_CS_POSIX_V6_ILP32_OFFBIG_LDFLAGS'',
      ''_CS_POSIX_V6_ILP32_OFFBIG_LIBS'', ''_CS_POSIX_V6_ILP32_OFFBIG_LINTFLAGS'',
      ''_CS_POSIX_V6_LP64_OFF64_CFLAGS'', ''_CS_POSIX_V6_LP64_OFF64_LDFLAGS'',
      ''_CS_POSIX_V6_LP64_OFF64_LIBS'', ''_CS_POSIX_V6_LP64_OFF64_LINTFLAGS'',
      ''_CS_POSIX_V6_LPBIG_OFFBIG_CFLAGS'', ''_CS_POSIX_V6_LPBIG_OFFBIG_LDFLAGS'',
      ''_CS_POSIX_V6_LPBIG_OFFBIG_LIBS'', ''_CS_POSIX_V6_LPBIG_OFFBIG_LINTFLAGS'',
      ''_CS_POSIX_V6_WIDTH_RESTRICTED_ENVS'']"

definition confstr_names_v7 :: "string list" where
  "confstr_names_v7 =
     [''_CS_POSIX_V7_ILP32_OFF32_CFLAGS'', ''_CS_POSIX_V7_ILP32_OFF32_LDFLAGS'',
      ''_CS_POSIX_V7_ILP32_OFF32_LIBS'', ''_CS_POSIX_V7_ILP32_OFF32_LINTFLAGS'',
      ''_CS_POSIX_V7_ILP32_OFFBIG_CFLAGS'', ''_CS_POSIX_V7_ILP32_OFFBIG_LDFLAGS'',
      ''_CS_POSIX_V7_ILP32_OFFBIG_LIBS'', ''_CS_POSIX_V7_ILP32_OFFBIG_LINTFLAGS'',
      ''_CS_POSIX_V7_LP64_OFF64_CFLAGS'', ''_CS_POSIX_V7_LP64_OFF64_LDFLAGS'',
      ''_CS_POSIX_V7_LP64_OFF64_LIBS'', ''_CS_POSIX_V7_LP64_OFF64_LINTFLAGS'',
      ''_CS_POSIX_V7_LPBIG_OFFBIG_CFLAGS'', ''_CS_POSIX_V7_LPBIG_OFFBIG_LDFLAGS'',
      ''_CS_POSIX_V7_LPBIG_OFFBIG_LIBS'', ''_CS_POSIX_V7_LPBIG_OFFBIG_LINTFLAGS'',
      ''_CS_POSIX_V7_WIDTH_RESTRICTED_ENVS'']"

definition confstr_names_env :: "(string \<times> string) list" where
  "confstr_names_env =
     map (\<lambda>c. (c, c)) [''_CS_V5_WIDTH_RESTRICTED_ENVS''] @
     [(''_CS_V5_WIDTH_RESTRICTED_ENVS'', ''_XBS5_WIDTH_RESTRICTED_ENVS''),
      (''_CS_V5_WIDTH_RESTRICTED_ENVS'', ''XBS5_WIDTH_RESTRICTED_ENVS'')] @
     map (\<lambda>c. (c, c))
     [''_CS_V6_ENV'', ''_CS_V6_WIDTH_RESTRICTED_ENVS''] @
     [(''_CS_V6_WIDTH_RESTRICTED_ENVS'', ''POSIX_V6_WIDTH_RESTRICTED_ENVS,_POSIX_V6_WIDTH_RESTRICTED_ENVS'')] @
     map (\<lambda>c. (c, c))
     [''_CS_V7_ENV'', ''_CS_V7_WIDTH_RESTRICTED_ENVS'', ''_CS_XBS5_ILP32_OFF32_CFLAGS'',
      ''_CS_XBS5_ILP32_OFF32_LDFLAGS'', ''_CS_XBS5_ILP32_OFF32_LIBS'', ''_CS_XBS5_ILP32_OFF32_LINTFLAGS'',
      ''_CS_XBS5_ILP32_OFFBIG_CFLAGS'', ''_CS_XBS5_ILP32_OFFBIG_LDFLAGS'', ''_CS_XBS5_ILP32_OFFBIG_LIBS'',
      ''_CS_XBS5_ILP32_OFFBIG_LINTFLAGS'', ''_CS_XBS5_LP64_OFF64_CFLAGS'', ''_CS_XBS5_LP64_OFF64_LDFLAGS'',
      ''_CS_XBS5_LP64_OFF64_LIBS'', ''_CS_XBS5_LP64_OFF64_LINTFLAGS'', ''_CS_XBS5_LPBIG_OFFBIG_CFLAGS'',
      ''_CS_XBS5_LPBIG_OFFBIG_LDFLAGS'', ''_CS_XBS5_LPBIG_OFFBIG_LIBS'', ''_CS_XBS5_LPBIG_OFFBIG_LINTFLAGS'']"

definition confstr_names :: "(string \<times> string) list" where
  "confstr_names = map (\<lambda>c. (c, c)) (confstr_names_v6 @ confstr_names_v7) @ confstr_names_env"

definition show_confstrs_generic :: "cenv \<Rightarrow> generic_queries \<Rightarrow> report" where
  "show_confstrs_generic env q = reports (map (show_confstr env q) (filter (\<lambda>c. gq_defd q (fst c)) confstr_names))"

section \<open>CPU affinity\<close>

text \<open>The state of the loop over the CPUs: the list so far, and the current range.\<close>

record affinity =
  cpu_list :: "string option"
  displayed :: bool
  count :: nat
  range_first :: nat
  range_last :: nat

definition append_range :: "cenv \<Rightarrow> affinity \<Rightarrow> affinity res" where
  "append_range env a =
     (let comma = PStr (if displayed a then '','' else []) in
      bindE (if range_first a = range_last a
             then appendf env (cpu_list a) ''%s%d'' [comma, as_int (int (range_first a))]
             else appendf env (cpu_list a) ''%s%d-%d'' [comma, as_int (int (range_first a)), as_int (int (range_last a))])
        (\<lambda>l. Inr (a\<lparr>cpu_list := l\<rparr>)))"

fun affinity_loop :: "cenv \<Rightarrow> (nat \<Rightarrow> bool) \<Rightarrow> nat list \<Rightarrow> affinity \<Rightarrow> affinity res" where
  "affinity_loop env has_cpu [] a = Inr a"
| "affinity_loop env has_cpu (cpu # cpus) a =
     (if has_cpu cpu then
        affinity_loop env has_cpu cpus
          (a\<lparr>range_first := (if count a = 0 then cpu else range_first a), range_last := cpu, count := count a + 1\<rparr>)
      else if count a \<noteq> 0 then
        bindE (append_range env a) (\<lambda>a'. affinity_loop env has_cpu cpus (a'\<lparr>displayed := True, count := 0\<rparr>))
      else affinity_loop env has_cpu cpus (a\<lparr>count := 0\<rparr>))"

definition show_cpu_affinities_generic ::
  "cenv \<Rightarrow> generic_queries \<Rightarrow> (nat \<Rightarrow> bool) option res option \<Rightarrow> ((nat \<Rightarrow> bool) \<Rightarrow> nat \<Rightarrow> bool) option \<Rightarrow> report"
where
  "show_cpu_affinities_generic env q cpuset has_cpu =
     (case (cpuset, has_cpu) of
        (Some get, Some has) \<Rightarrow>
          bindE get (\<lambda>cpu_set.
          case cpu_set of
            None \<Rightarrow> Inr []
          | Some cs \<Rightarrow>
              let max = (case gq_sysconf q ''_SC_NPROCESSORS_ONLN'' of None \<Rightarrow> -1 | Some v \<Rightarrow> signed_take_bit 31 v) in
              bindE (affinity_loop env (has cs) [0..<nat max]
                       \<lparr>cpu_list = None, displayed = False, count = 0, range_first = 0, range_last = 0\<rparr>) (\<lambda>a.
              bindE (if count a \<noteq> 0 then append_range env a else Inr a) (\<lambda>a'.
              bindE (case cpu_list a' of None \<Rightarrow> Inr ''-1'' | Some b \<Rightarrow> str_at nul b 0) (\<lambda>str.
              Inr [C_entry ''affinity list'' ''%s'' [PStr str]]))))
      | _ \<Rightarrow> Inr [])"

section \<open>Memory\<close>

definition PROCENV_KB :: nat where "PROCENV_KB = 1024"
definition PROCENV_MB :: nat where "PROCENV_MB = 1024 * PROCENV_KB"
definition PROCENV_GB :: nat where "PROCENV_GB = 1024 * PROCENV_MB"

definition show_human_size_entry :: "(nat \<Rightarrow> nat \<Rightarrow> string) \<Rightarrow> nat \<Rightarrow> call" where
  "show_human_size_entry human value =
     (let (unit, units) = (if value > PROCENV_GB then (PROCENV_GB, ''GB'')
                           else if value > PROCENV_MB then (PROCENV_MB, ''MB'')
                           else if value > PROCENV_KB then (PROCENV_KB, ''KB'')
                           else (1, ''bytes''))
      in C_entry ''human'' ''%2.2f %s'' [PFlt (human value unit), PStr units])"

definition mk_mem_section :: "(nat \<Rightarrow> nat \<Rightarrow> string) \<Rightarrow> string \<Rightarrow> 64 word \<Rightarrow> report" where
  "mk_mem_section human name value =
     in_section name (Inr [C_entry ''bytes'' ''%lu'' [PInt (uint value)], show_human_size_entry human (unat value)])"

text \<open>The unit is an \<^verbatim>\<open>int\<close> and is extended with its sign; the products wrap.\<close>

definition show_memory_generic :: "generic_queries \<Rightarrow> report" where
  "show_memory_generic q =
     (case gq_sysinfo q of
        None \<Rightarrow> Inr []
      | Some info \<Rightarrow>
          let multiplier = (scast (si_mem_unit info) :: 64 word); sec = (\<lambda>name v. mk_mem_section (gq_human q) name (v * multiplier))
          in reports
            [in_section ''ram'' (reports
               [sec ''total'' (si_totalram info), sec ''free'' (si_freeram info),
                sec ''shared'' (si_sharedram info), sec ''buffer'' (si_bufferram info)]),
             in_section ''swap'' (reports [sec ''total'' (si_totalswap info), sec ''free'' (si_freeswap info)])])"

section \<open>Mounts\<close>

definition show_pathconf :: "generic_queries \<Rightarrow> string \<Rightarrow> string \<Rightarrow> call" where
  "show_pathconf q dir name =
     (case gq_pathconf q dir name of
        None \<Rightarrow> C_entry name ''%s'' [PStr NA_STR]
      | Some conf \<Rightarrow> C_entry name ''%d'' [as_int conf])"

definition pathconf_names :: "string list" where
  "pathconf_names =
     [''_PC_2_SYMLINKS'', ''_PC_ALLOC_SIZE_MIN'', ''_PC_ASYNC_IO'', ''_PC_CHOWN_RESTRICTED'',
      ''_PC_FILESIZEBITS'', ''_PC_LINK_MAX'', ''_PC_MAX_CANON'', ''_PC_MAX_INPUT'', ''_PC_NAME_MAX'',
      ''_PC_NO_TRUNC'', ''_PC_PATH_MAX'', ''_PC_PIPE_BUF'', ''_PC_PRIO_IO'', ''_PC_REC_INCR_XFER_SIZE'',
      ''_PC_REC_MAX_XFER_SIZE'', ''_PC_REC_MIN_XFER_SIZE'', ''_PC_REC_XFER_ALIGN'', ''_PC_SOCK_MAXBUF'',
      ''_PC_SYMLINK_MAX'', ''_PC_SYNC_IO'', ''_PC_VDISABLE'']"

definition show_pathconfs :: "generic_queries \<Rightarrow> ShowMountType \<Rightarrow> string \<Rightarrow> report" where
  "show_pathconfs q what dir =
     in_header (if what = SHOW_PATHCONF then dir else ''pathconf'')
       (Inr (map (show_pathconf q dir) (filter (gq_defd q) pathconf_names)))"

type_synonym procenv_map64 = "(string \<times> 64 word) list"

text \<open>The first pass counts the options and their characters, the second writes them.\<close>

fun count_opts :: "procenv_map64 \<Rightarrow> 64 word \<Rightarrow> nat \<times> nat \<Rightarrow> nat \<times> nat" where
  "count_opts [] flags cl = cl"
| "count_opts ((name, num) # opts) flags cl =
     count_opts opts flags (if flags AND num \<noteq> 0 then (fst cl + 1, snd cl + length name) else cl)"

fun write_opts :: "procenv_map64 \<Rightarrow> 64 word \<Rightarrow> nat \<Rightarrow> string \<Rightarrow> string res" where
  "write_opts [] flags cnt str = Inr str"
| "write_opts ((name, num) # opts) flags cnt str =
     (if flags AND num \<noteq> 0 then
        bindE (ncat_at nul str 0 name (length name)) (\<lambda>s1.
        bindE (if cnt > 1 then ncat_at nul s1 0 '','' 1 else Inr s1) (\<lambda>s2.
        write_opts opts flags (cnt - 1) s2))
      else write_opts opts flags cnt str)"

definition get_mount_opts_generic_bsd :: "cenv \<Rightarrow> procenv_map64 \<Rightarrow> 64 word \<Rightarrow> string option res" where
  "get_mount_opts_generic_bsd env opts flags =
     (if flags = 0 then Inr (if alloc_ok env 1 then Some [] else None)
      else let (cnt, chars) = count_opts opts flags (0, 0); total = (if cnt > 1 then chars + (cnt - 1) + 1 else chars + 1)
        in guardE (alloc_ok env total) (Die ''failed to allocate space for mount options'')
          (bindE (write_opts opts flags cnt (replicate total nul)) (\<lambda>str. map_sum id Some (str_at nul str 0))))"

text \<open>
  \<^verbatim>\<open>readlink\<close> stores at most \<open>n\<close> bytes and no terminator; the code puts one behind them, which
  is outside the buffer when it is full. On failure the buffer holds the word for unknown.
\<close>

definition get_canonical_generic_linux :: "generic_queries \<Rightarrow> string \<Rightarrow> nat \<Rightarrow> (bool \<times> string) res" where
  "get_canonical_generic_linux q file n =
     guardE (0 < n) AssertFail
       (let canonical = replicate n (CHR ''?'') in
        case gq_readlink q file of
          None \<Rightarrow> bindE (wr_list canonical 0 (UNKNOWN_STR @ [nul])) (\<lambda>b. bindE (str_at nul b 0) (\<lambda>s. Inr (False, s)))
        | Some target \<Rightarrow>
            let stored = take n target; bytes = length stored in
            bindE (wr_list canonical 0 stored) (\<lambda>b1.
            bindE (wr b1 (if bytes \<le> n then bytes else n) nul) (\<lambda>b2.
            bindE (str_at nul b2 0) (\<lambda>s. Inr (True, s)))))"

definition DF_BLOCK_SIZE :: "64 word" where "DF_BLOCK_SIZE = 1024"

definition lu_entry :: "string \<Rightarrow> 64 word option \<Rightarrow> call" where
  "lu_entry name v = (case v of None \<Rightarrow> C_entry name ''%s'' [PStr UNKNOWN_STR] | Some n \<Rightarrow> C_entry name ''%lu'' [PInt (uint n)])"

text \<open>The multiplier is an \<^verbatim>\<open>unsigned\<close>.\<close>

definition df_multiplier :: "statvfs \<Rightarrow> 64 word" where
  "df_multiplier fs = ucast (ucast (f_bsize fs div DF_BLOCK_SIZE) :: 32 word)"

definition show_mount :: "generic_queries \<Rightarrow> ShowMountType \<Rightarrow> mntent \<Rightarrow> report" where
  "show_mount q what mnt =
     (if what = SHOW_ALL \<or> what = SHOW_MOUNTS then
        let fs = gq_statvfs q (mnt_dir mnt); val = (\<lambda>f. map_option f fs);
            (_, maj, min) = get_major_minor (gq_stat q) (mnt_dir mnt);
            blocks = (\<lambda>f v. f v * df_multiplier v)
        in bindE (get_canonical_generic_linux q (mnt_fsname mnt) PATH_MAX) (\<lambda>(ret, canonical).
          let quote = (if ret then [CHR 0x27] else []) in
          in_section (mnt_dir mnt) (reports
            [Inr [C_entry ''filesystem'' quoted_s [PStr (mnt_fsname mnt)],
                  C_entry ''canonical'' ''%s%s%s'' [PStr quote, PStr canonical, PStr quote],
                  C_entry ''type'' quoted_s [PStr (mnt_type mnt)],
                  C_entry ''options'' quoted_s [PStr (mnt_opts mnt)]],
             show_pathconfs q what (mnt_dir mnt),
             in_section ''device'' (Inr [C_entry ''major'' ''%u'' [PInt (int maj)], C_entry ''minor'' ''%u'' [PInt (int min)]]),
             Inr [C_entry ''dump frequency'' ''%d'' [PInt (mnt_freq mnt)],
                  C_entry ''fsck pass number'' ''%d'' [PInt (mnt_passno mnt)],
                  (case fs of
                     None \<Rightarrow> C_entry ''fsid'' ''%s'' [PStr UNKNOWN_STR]
                   | Some v \<Rightarrow> C_entry ''fsid'' ''%.*x%.*x''
                       [PInt 8, PInt (uint (take_bit 32 (f_fsid v))), PInt 8, PInt (uint (drop_bit 32 (f_fsid v)))]),
                  lu_entry ''optimal block size'' (val f_bsize)],
             in_section ''blocks'' (Inr
               [C_entry ''size'' ''%lu bytes'' [PInt (uint DF_BLOCK_SIZE)],
                lu_entry ''total'' (val (blocks f_blocks)),
                lu_entry ''used'' (val (\<lambda>v. blocks f_blocks v - blocks f_bfree v)),
                lu_entry ''free'' (val (blocks f_bfree)),
                lu_entry ''available'' (val (blocks f_bavail))]),
             in_section ''files/inodes'' (Inr
               [lu_entry ''total'' (val f_files),
                lu_entry ''used'' (val (\<lambda>v. f_files v - f_ffree v)),
                lu_entry ''free'' (val f_ffree)])]))
      else show_pathconfs q what (mnt_dir mnt))"

definition show_mounts_generic_linux :: "generic_queries \<Rightarrow> ShowMountType \<Rightarrow> report" where
  "show_mounts_generic_linux q what =
     (case gq_mounts q of None \<Rightarrow> Inr [] | Some mtab \<Rightarrow> reports (map (show_mount q what) mtab))"

record statfs =
  f_mntonname :: string
  f_mntfromname :: string
  f_fstypename :: string
  f_flags :: "64 word"
  f_fsid_val :: "32 word \<times> 32 word"
  f_stats :: statvfs

definition show_mount_bsd :: "cenv \<Rightarrow> generic_queries \<Rightarrow> ShowMountType \<Rightarrow> procenv_map64 \<Rightarrow> statfs \<Rightarrow> report" where
  "show_mount_bsd env q what mntopt_map mnt =
     bindE (get_mount_opts_generic_bsd env mntopt_map (f_flags mnt)) (\<lambda>res.
     case res of
       None \<Rightarrow> Inl (Die ''cannot determine FS flags for mountpoint'')
     | Some opts \<Rightarrow>
         let fs = f_stats mnt; (_, maj, min) = get_major_minor (gq_stat q) (f_mntonname mnt);
             blocks = f_blocks fs * df_multiplier fs; bfree = f_bfree fs * df_multiplier fs;
             bavail = f_bavail fs * df_multiplier fs
         in reports
           [(if what = SHOW_ALL \<or> what = SHOW_MOUNTS then
               in_section (f_mntfromname mnt) (reports
                 [Inr [C_entry ''dir'' quoted_s [PStr (f_mntonname mnt)],
                       C_entry ''type'' ''%s'' [PStr (f_fstypename mnt)],
                       C_entry ''options'' quoted_s [PStr opts]],
                  in_section ''device'' (Inr [C_entry ''major'' ''%u'' [PInt (int maj)], C_entry ''minor'' ''%u'' [PInt (int min)]]),
                  Inr [C_entry ''fsid'' ''%.*x%.*x''
                         [PInt 8, PInt (uint (fst (f_fsid_val mnt))), PInt 8, PInt (uint (snd (f_fsid_val mnt)))],
                       lu_entry ''optimal block size'' (Some (f_bsize fs))],
                  in_section ''blocks'' (Inr
                    [C_entry ''size'' ''%lu bytes'' [PInt (uint DF_BLOCK_SIZE)],
                     lu_entry ''total'' (Some blocks), lu_entry ''used'' (Some (blocks - bfree)),
                     lu_entry ''free'' (Some bfree), lu_entry ''available'' (Some bavail)]),
                  in_section ''files/inodes'' (Inr
                    [lu_entry ''total'' (Some (f_files fs)), lu_entry ''used'' (Some (f_files fs - f_ffree fs)),
                     lu_entry ''free'' (Some (f_ffree fs))])])
             else Inr []),
            (if what = SHOW_ALL \<or> what = SHOW_PATHCONF then show_pathconfs q what (f_mntonname mnt) else Inr [])])"

definition show_mounts_generic_bsd ::
  "cenv \<Rightarrow> generic_queries \<Rightarrow> statfs list \<Rightarrow> ShowMountType \<Rightarrow> procenv_map64 \<Rightarrow> report"
where
  "show_mounts_generic_bsd env q mounts what mntopt_map =
     guardE (mounts \<noteq> []) (Die ''unable to query mount info'')
       (reports (map (show_mount_bsd env q what mntopt_map) mounts))"

section \<open>Time zone and libraries\<close>

definition show_timezone_generic :: "generic_queries \<Rightarrow> report" where
  "show_timezone_generic q =
     (let (tz0, tz1, zone, daylight) = gq_tz q in
      Inr [C_entry ''tzname[0]'' quoted_s [PStr tz0],
           C_entry ''tzname[1]'' quoted_s [PStr tz1],
           C_entry ''timezone'' ''%ld'' [PInt zone],
           C_entry ''daylight'' ''%d'' [PInt daylight]])"

text \<open>The part behind the last slash.\<close>

definition base_name :: "string \<Rightarrow> string" where
  "base_name p = rev (takeWhile (\<lambda>c. c \<noteq> CHR ''/'') (rev p))"

definition libs_callback :: "dl_phdr_info \<Rightarrow> report" where
  "libs_callback info =
     (case dlpi_name info of
        None \<Rightarrow> Inr []
      | Some p \<Rightarrow>
          if p = [] then Inr []
          else in_object (in_section (base_name p) (Inr
            [C_entry ''path'' ''%s'' [PStr p], C_entry ''address'' ''%p'' [PInt (int (dlpi_addr info))]])))"

definition show_libs_generic :: "generic_queries \<Rightarrow> report" where
  "show_libs_generic q = reports (map libs_callback (gq_phdrs q))"

section \<open>Completeness\<close>

lemma shape_entry_like [simp]:
  "\<not> in_con stk \<Longrightarrow> step_shape (lu_entry n v) stk = Some stk"
  "\<not> in_con stk \<Longrightarrow> step_shape (show_human_size_entry human b) stk = Some stk"
  by (simp_all add: lu_entry_def show_human_size_entry_def split: option.split)

lemma show_pathconfs_complete [complete_intros]: "members_report (show_pathconfs q what dir)"
proof -
  have "members (map (show_pathconf q dir) ns)" for ns
    by (induction ns) (auto simp: show_pathconf_def members_def split: option.split)
  then show ?thesis unfolding show_pathconfs_def by (intro complete_intros) simp
qed

lemma show_fd_complete [complete_intros]:
  "(\<And>h fd. caps = Some h \<Longrightarrow> members_report (h fd)) \<Longrightarrow> objects_report (show_fd env q caps fd)"
  unfolding show_fd_def by (intro complete_intros) (auto simp: flat_calls)

lemma show_limit_complete [complete_intros]: "members_report (show_limit q l)"
  unfolding show_limit_def by (intro complete_intros; simp add: flat_calls)+

lemma show_clock_res_complete [complete_intros]: "members_report (show_clock_res q c)"
  unfolding show_clock_res_def by (intro complete_intros) (simp add: flat_calls split: option.split)

lemma show_confstr_complete [complete_intros]: "members_report (show_confstr env q c)"
  unfolding show_confstr_def Let_def by (intro complete_intros; simp add: flat_calls)+

lemma mk_mem_section_complete [complete_intros]: "members_report (mk_mem_section human n v)"
  unfolding mk_mem_section_def by (intro complete_intros) (simp add: flat_calls)

lemma show_mount_complete [complete_intros]:
  "members_report (show_mount q what mnt)" "members_report (show_mount_bsd env q what opts m)"
  unfolding show_mount_def show_mount_bsd_def Let_def
  by (intro complete_intros; simp add: flat_calls split: option.split)+

lemma libs_callback_complete [complete_intros]: "objects_report (libs_callback info)"
  unfolding libs_callback_def by (intro complete_intros; simp add: flat_calls)+

lemma generic_members [complete_intros]:
  "members_report (show_rlimits_generic q)" "members_report (show_clocks_generic q)"
  "members_report (show_confstrs_generic env q)" "members_report (show_memory_generic q)"
  "members_report (show_mounts_generic_linux q what)" "members_report (show_timezone_generic q)"
  "members_report (show_mounts_generic_bsd env q mounts what opts)"
  unfolding show_rlimits_generic_def show_clocks_generic_def show_confstrs_generic_def show_memory_generic_def
    show_mounts_generic_linux_def show_timezone_generic_def show_mounts_generic_bsd_def Let_def
  by (intro complete_intros; simp add: flat_calls)+

lemma show_cpu_affinities_complete [complete_intros]: "members_report (show_cpu_affinities_generic env q cs has)"
proof (cases "\<exists>s h. cs = Some s \<and> has = Some h")
  case True
  then obtain s h where "cs = Some s" "has = Some h" by blast
  then show ?thesis
    by (simp only: show_cpu_affinities_generic_def Let_def option.case prod.case) (intro complete_intros; simp add: flat_calls)+
next
  case False
  then show ?thesis
    by (auto simp: show_cpu_affinities_generic_def flat_calls intro!: complete_intros split: option.split)
qed

lemma generic_objects [complete_intros]:
  "objects_report (show_libs_generic q)"
  "(\<And>h fd. caps = Some h \<Longrightarrow> members_report (h fd)) \<Longrightarrow> objects_report (show_fds_generic env q caps)"
  unfolding show_libs_generic_def show_fds_generic_def Let_def
  by (intro complete_intros; simp add: flat_calls)+


section \<open>Lemmas on mounts\<close>

definition comma_list :: "string list \<Rightarrow> string" where
  "comma_list xs = (case xs of [] \<Rightarrow> [] | x # r \<Rightarrow> x @ concat (map (\<lambda>y. '','' @ y) r))"

lemma comma_list_simps [simp]:
  "comma_list [] = []" "comma_list [x] = x" "comma_list (x # y # ys) = x @ '','' @ comma_list (y # ys)"
  by (simp_all add: comma_list_def)

lemma comma_list_length: "xs \<noteq> [] \<Longrightarrow> length (comma_list xs) = sum_list (map length xs) + (length xs - 1)"
  by (induction xs rule: induct_list012) auto

lemma comma_list_set: "set (comma_list xs) \<subseteq> insert (CHR '','') (\<Union> (set ` set xs))"
  by (induction xs rule: induct_list012) auto

definition mount_names :: "procenv_map64 \<Rightarrow> 64 word \<Rightarrow> string list" where
  "mount_names opts flags = map fst (filter (\<lambda>p. flags AND snd p \<noteq> 0) opts)"

lemma count_opts_names:
  "count_opts opts flags cl =
     (fst cl + length (mount_names opts flags), snd cl + sum_list (map length (mount_names opts flags)))"
  by (induction opts flags cl rule: count_opts.induct) (auto simp: mount_names_def)

lemma write_opts_names:
  assumes "nul \<notin> set s" "\<forall>p \<in> set opts. nul \<notin> set (fst p)" "length (comma_list (mount_names opts flags)) < k"
  shows "write_opts opts flags (length (mount_names opts flags)) (s @ replicate k nul) =
    Inr ((s @ comma_list (mount_names opts flags)) @ replicate (k - length (comma_list (mount_names opts flags))) nul)"
  using assms
proof (induction opts arbitrary: s k)
  case (Cons p opts)
  obtain name num where p: "p = (name, num)" by (cases p)
  show ?case
  proof (cases "flags AND num \<noteq> 0")
    case False
    then have "mount_names (p # opts) flags = mount_names opts flags" by (simp add: mount_names_def p)
    then show ?thesis using Cons.IH Cons.prems False p by simp
  next
    case True
    let ?ns = "mount_names opts flags"
    have n: "mount_names (p # opts) flags = name # ?ns" using True by (simp add: mount_names_def p)
    have nn: "nul \<notin> set name" "nul \<notin> set (s @ name)" using Cons.prems p by auto
    have w: "ncat_at nul (s @ replicate k nul) 0 name (length name) =
        Inr ((s @ name) @ replicate (k - length name) nul)" if "length name < k" for k
      using ncat_zeros_nul [OF Cons.prems(1), of "length name" name k] that by simp
    show ?thesis
    proof (cases ?ns)
      case Nil
      then have "write_opts opts flags 0 t = Inr t" for t
        by (induction opts) (auto simp: mount_names_def split: if_splits)
      then show ?thesis using w Cons.prems(3) True n Nil by (simp add: p del: append_assoc)
    next
      case (Cons y ys)
      have l: "length name + (1 + length (comma_list ?ns)) < k" using Cons.prems(3) n Cons by simp
      have c: "ncat_at nul ((s @ name) @ replicate (k - length name) nul) 0 '','' 1 =
          Inr ((s @ name @ '','') @ replicate (k - length name - 1) nul)"
        using ncat_zeros_nul [OF nn(2), of 1 "'',''" "k - length name"] l by simp
      have "write_opts opts flags (length ?ns) ((s @ name @ '','') @ replicate (k - length name - 1) nul) =
          Inr (((s @ name @ '','') @ comma_list ?ns) @ replicate (k - length name - 1 - length (comma_list ?ns)) nul)"
        by (rule Cons.IH) (use Cons.prems p l in auto)
      then show ?thesis using w c l True n Cons by (simp add: p)
    qed
  qed
qed (simp add: mount_names_def)

section \<open>Properties\<close>

text \<open>The text is the list of the set options with a bare comma between two of them.\<close>

lemma get_mount_opts_text:
  assumes "\<forall>p \<in> set opts. nul \<notin> set (fst p)" "alloc_ok env (length (comma_list (mount_names opts flags)) + 1)"
  shows "get_mount_opts_generic_bsd env opts flags = Inr (Some (comma_list (mount_names opts flags)))"
proof (cases "flags = 0")
  case True
  then show ?thesis using assms(2) by (simp add: get_mount_opts_generic_bsd_def mount_names_def)
next
  case False
  let ?ns = "mount_names opts flags"
  let ?total = "if 1 < length ?ns then sum_list (map length ?ns) + (length ?ns - 1) + 1 else sum_list (map length ?ns) + 1"
  have t: "?total = length (comma_list ?ns) + 1"
    by (cases "?ns = []") (auto simp: comma_list_length)
  have "nul \<notin> set (comma_list ?ns)"
    using assms(1) comma_list_set [of ?ns] by (auto simp: mount_names_def)
  moreover have "count_opts opts flags (0, 0) = (length ?ns, sum_list (map length ?ns))" by (simp add: count_opts_names)
  ultimately show ?thesis
    unfolding get_mount_opts_generic_bsd_def Let_def
    using assms False write_opts_names [of "[]" opts flags "length (comma_list ?ns) + 1"]
    by (simp only: t prod.case) (simp add: mem_simps)
qed

text \<open>The reading of such a list: the fields between the commas, without the blanks in front of them.\<close>

definition read_opts :: "string \<Rightarrow> string list" where
  "read_opts s = (if s = [] then [] else map (dropWhile (\<lambda>c. c = CHR '' '')) (split_on CHR '','' s))"

lemma split_comma_list:
  "xs \<noteq> [] \<Longrightarrow> \<forall>x \<in> set xs. CHR '','' \<notin> set x \<Longrightarrow> split_on (CHR '','') (comma_list xs) = xs"
  by (induction xs rule: induct_list012) (auto simp: split_on_none split_on_append)

lemma comma_list_Nil: "\<forall>x \<in> set xs. x \<noteq> [] \<Longrightarrow> comma_list xs = [] \<longleftrightarrow> xs = []"
  by (induction xs rule: induct_list012) auto

text \<open>
  C32: for a table of names without commas and blanks, the mount options that are set are exactly the
  entries of the comma-separated list that \<open>get_mount_opts_generic_bsd\<close> returns, in the order of the
  table, and the list is written inside the buffer whose size the first pass has computed.
\<close>

theorem get_mount_opts_correct:
  assumes "\<forall>p \<in> set opts. fst p \<noteq> [] \<and> set (fst p) \<inter> {nul, CHR '','', CHR '' ''} = {}"
    "alloc_ok env (sum_list (map length (mount_names opts flags)) + length (mount_names opts flags) + 1)"
  shows "\<exists>s. get_mount_opts_generic_bsd env opts flags = Inr (Some s) \<and> read_opts s = mount_names opts flags"
proof -
  let ?ns = "mount_names opts flags"
  have n: "n \<noteq> []" "CHR '','' \<notin> set n" "CHR '' '' \<notin> set n" if "n \<in> set ?ns" for n
    using that assms(1) by (auto simp: mount_names_def)
  have "alloc_ok env (length (comma_list ?ns) + 1)"
    using assms(2) by (cases "?ns = []") (simp_all add: alloc_ok_def comma_list_length)
  then have "get_mount_opts_generic_bsd env opts flags = Inr (Some (comma_list ?ns))"
    using assms(1) by (intro get_mount_opts_text) auto
  moreover have "dropWhile (\<lambda>c. c = CHR '' '') x = x" if "x \<in> set ?ns" for x
    using n(3) [OF that] by (cases x) auto
  then have "read_opts (comma_list ?ns) = ?ns"
    using n(1,2) comma_list_Nil [of ?ns] split_comma_list [of ?ns] by (auto simp: read_opts_def intro!: map_idI)
  ultimately show ?thesis by blast
qed

theorem get_mount_opts_correct_witness:
  "\<exists>s. get_mount_opts_generic_bsd ascii_env [(''asynchronous'', 0x40), (''local'', 0x1000), (''noexec'', 0x4)] 0x1004 =
     Inr (Some s) \<and> read_opts s = [''local'', ''noexec'']"
  using get_mount_opts_correct [of "[(''asynchronous'', 0x40), (''local'', 0x1000), (''noexec'', 0x4)]" ascii_env "0x1004"]
  by (simp add: mount_names_def alloc_ok_def ascii_env_def)

lemma get_canonical_answers:
  assumes "length UNKNOWN_STR < n"
  shows "(\<forall>target. gq_readlink q file = Some target \<longrightarrow> nul \<notin> set target \<longrightarrow>
      get_canonical_generic_linux q file n = (if length target < n then Inr (True, target) else Inl OutOfBounds)) \<and>
    (gq_readlink q file = None \<longrightarrow> get_canonical_generic_linux q file n = Inr (False, UNKNOWN_STR))"
proof (intro conjI allI impI)
  let ?b = "replicate n (CHR ''?'')"
  have w: "wr_list ?b 0 s = Inr (s @ drop (length s) ?b)" if "length s \<le> n" for s
    using wr_list_append [of s ?b "[]"] that by simp
  show "get_canonical_generic_linux q file n = Inr (False, UNKNOWN_STR)" if "gq_readlink q file = None"
  proof -
    have "nul \<notin> set UNKNOWN_STR" by (simp add: UNKNOWN_STR_def)
    then show ?thesis using that assms w [of "UNKNOWN_STR @ [nul]"]
      by (simp add: get_canonical_generic_linux_def str_at_0)
  qed
  show "get_canonical_generic_linux q file n = (if length target < n then Inr (True, target) else Inl OutOfBounds)"
    if t: "gq_readlink q file = Some target" "nul \<notin> set target" for target
  proof (cases "length target < n")
    case True
    have "n - length target = Suc (n - length target - 1)" using True by simp
    then have "wr (target @ replicate (n - length target) (CHR ''?'')) (length target) nul =
        Inr (target @ nul # replicate (n - length target - 1) (CHR ''?''))"
      by (metis replicate_Suc wr_append)
    then show ?thesis using True t w [of target]
      by (simp add: get_canonical_generic_linux_def mem_simps)
  next
    case False
    then show ?thesis using t(1) assms w [of "take n target"]
      by (simp add: get_canonical_generic_linux_def Let_def wr_def min_def)
  qed
qed

text \<open>
  C33: \<open>get_canonical_generic_linux\<close> returns the target of the link when it is shorter than the buffer;
  a longer target makes it write its terminator behind the buffer. Without a link the answer is the
  word for unknown.
\<close>

theorem get_canonical_correct:
  assumes "length UNKNOWN_STR < n"
  shows "(\<forall>target. gq_readlink q file = Some target \<longrightarrow> nul \<notin> set target \<longrightarrow>
      get_canonical_generic_linux q file n = (if length target < n then Inr (True, target) else Inl OutOfBounds)) \<and>
    (gq_readlink q file = None \<longrightarrow> get_canonical_generic_linux q file n = Inr (False, UNKNOWN_STR))"
  by (rule get_canonical_answers [OF assms])

definition example_queries :: generic_queries where
  "example_queries = \<lparr>gq_defd = (\<lambda>_. True), gq_getrlimit = (\<lambda>_. Some (0, 0)), gq_clock_getres = (\<lambda>_. None),
     gq_sysconf = (\<lambda>_. Some 6), gq_mtu = None, gq_clock_gettime = Some (0, 0), gq_fcntl_getfl = (\<lambda>_. (-1, True)),
     gq_isatty = (\<lambda>_. False), gq_ttyname = (\<lambda>_. None), gq_confstr = (\<lambda>_. None), gq_pathconf = (\<lambda>_ _. None),
     gq_sysinfo = None, gq_human = (\<lambda>_ _. ''0.00''), gq_mounts = None, gq_statvfs = (\<lambda>_. None), gq_stat = (\<lambda>_. None),
     gq_readlink = (\<lambda>f. if f = ''/dev/root'' then Some ''/dev/sda1'' else None), gq_tz = (''UTC'', ''UTC'', 0, 0), gq_phdrs = []\<rparr>"

theorem get_canonical_correct_witness:
  "get_canonical_generic_linux example_queries ''/dev/root'' 10 = Inr (True, ''/dev/sda1'') \<and>
   get_canonical_generic_linux example_queries ''/dev/root'' 9 = Inl OutOfBounds \<and>
   get_canonical_generic_linux example_queries ''proc'' 9 = Inr (False, ''unknown'')"
  using get_canonical_correct [of 10 example_queries "''/dev/root''"] get_canonical_correct [of 9 example_queries "''/dev/root''"]
    get_canonical_correct [of 9 example_queries "''proc''"]
  by (auto simp: example_queries_def UNKNOWN_STR_def)

end
