(* ===== verification/Affinity.thy ===== *)
theory Affinity
  imports Generic
begin

text \<open>
  The list of CPUs that \<open>show_cpu_affinities_generic\<close> prints: the maximal runs of the set, in order,
  from which the set can be read back.
\<close>

section \<open>The runs of a set\<close>

definition dec :: "nat \<Rightarrow> string" where
  "dec n = map char_of (nat_digits 10 n)"

definition range_text :: "nat \<times> nat \<Rightarrow> string" where
  "range_text r = (if fst r = snd r then dec (fst r) else dec (fst r) @ ''-'' @ dec (snd r))"

fun extend_run :: "nat \<Rightarrow> (nat \<times> nat) option \<Rightarrow> nat \<times> nat" where
  "extend_run c None = (c, c)"
| "extend_run c (Some r) = (fst r, c)"

fun cpu_ranges :: "(nat \<Rightarrow> bool) \<Rightarrow> nat list \<Rightarrow> (nat \<times> nat) option \<Rightarrow> (nat \<times> nat) list" where
  "cpu_ranges has [] cur = (case cur of None \<Rightarrow> [] | Some r \<Rightarrow> [r])"
| "cpu_ranges has (c # cs) cur =
     (if has c then cpu_ranges has cs (Some (extend_run c cur))
      else (case cur of None \<Rightarrow> [] | Some r \<Rightarrow> [r]) @ cpu_ranges has cs None)"

definition affinity_text :: "(nat \<Rightarrow> bool) \<Rightarrow> nat \<Rightarrow> string" where
  "affinity_text has n =
     (let rs = cpu_ranges has [0..<n] None in if rs = [] then ''-1'' else comma_list (map range_text rs))"

text \<open>Reading the list: fields between commas, each a number or two around a dash.\<close>

definition dec_number :: "string \<Rightarrow> nat" where
  "dec_number s = foldl (\<lambda>n c. 10 * n + (of_char c - 48)) 0 s"

definition read_range :: "string \<Rightarrow> nat set" where
  "read_range s =
     (case dropWhile (\<lambda>c. c \<noteq> CHR ''-'') s of
        [] \<Rightarrow> {dec_number s}
      | _ # t \<Rightarrow> {dec_number (takeWhile (\<lambda>c. c \<noteq> CHR ''-'') s)..dec_number t})"

definition read_cpu_list :: "string \<Rightarrow> nat set" where
  "read_cpu_list s = (if s = ''-1'' then {} else \<Union> (read_range ` set (split_on (CHR '','') s)))"

section \<open>Lemmas on the text\<close>

lemma digit_chars: "c \<in> set (dec n) \<Longrightarrow> \<exists>d < 10. c = char_of (48 + d :: nat)"
proof -
  have "x \<in> set (nat_digits 10 n) \<Longrightarrow> \<exists>d < 10. x = 48 + d" for x
  proof (induction n rule: less_induct)
    case (less n)
    show ?case
    proof (cases "n < 10")
      case True
      then show ?thesis using less.prems by (subst (asm) nat_digits.simps) (auto simp: digit_char_def)
    next
      case False
      then show ?thesis using less.prems less.IH [of "n div 10"]
        by (subst (asm) nat_digits.simps) (auto simp: digit_char_def)
    qed
  qed
  then show "c \<in> set (dec n) \<Longrightarrow> \<exists>d < 10. c = char_of (48 + d :: nat)" by (auto simp: dec_def)
qed

lemma digit_plain: "d < 10 \<Longrightarrow> char_of (48 + d :: nat) \<noteq> nul \<and> char_of (48 + d :: nat) \<noteq> CHR '','' \<and> char_of (48 + d :: nat) \<noteq> CHR ''-''"
  by (auto simp: char_of_eq_iff take_bit_nat_eq_self)

lemma dec_plain: "nul \<notin> set (dec n)" "CHR '','' \<notin> set (dec n)" "CHR ''-'' \<notin> set (dec n)" "dec n \<noteq> []"
proof -
  show "dec n \<noteq> []" by (subst dec_def, subst nat_digits.simps) simp
  have "c \<noteq> nul \<and> c \<noteq> CHR '','' \<and> c \<noteq> CHR ''-''" if "c \<in> set (dec n)" for c
    using digit_chars [OF that] digit_plain by fastforce
  then show "nul \<notin> set (dec n)" "CHR '','' \<notin> set (dec n)" "CHR ''-'' \<notin> set (dec n)" by blast+
qed

lemma dec_number_dec [simp]: "dec_number (dec n) = n"
proof (induction n rule: less_induct)
  case (less n)
  have d: "of_char (char_of (48 + k :: nat)) = 48 + k" if "k < 10" for k using that by simp
  show ?case
  proof (cases "n < 10")
    case True
    then show ?thesis using d [of n] by (simp add: dec_def dec_number_def nat_digits.simps [of _ n] digit_char_def)
  next
    case False
    then have "dec n = dec (n div 10) @ [char_of (48 + n mod 10)]"
      by (simp add: dec_def nat_digits.simps [of _ n] digit_char_def)
    then show ?thesis using less [of "n div 10"] False d [of "n mod 10"] by (simp add: dec_number_def)
  qed
qed

lemma range_text_plain: "nul \<notin> set (range_text r)" "CHR '','' \<notin> set (range_text r)"
  using dec_plain by (auto simp: range_text_def)

lemma read_range_text: "fst r \<le> snd r \<Longrightarrow> read_range (range_text r) = {fst r..snd r}"
proof -
  have d: "dropWhile (\<lambda>c. c \<noteq> CHR ''-'') (dec n) = []" "dropWhile (\<lambda>c. c \<noteq> CHR ''-'') (dec n @ CHR ''-'' # t) = CHR ''-'' # t"
    "takeWhile (\<lambda>c. c \<noteq> CHR ''-'') (dec n @ CHR ''-'' # t) = dec n" for n t
    using dec_plain(3) [of n] by (auto intro: takeWhile_upto dropWhile_upto)
  show ?thesis if "fst r \<le> snd r" by (cases "fst r = snd r") (simp_all add: read_range_def range_text_def d)
qed

lemma range_text_first: "comma_list (map range_text (r # rs)) \<noteq> ''-1''"
proof -
  obtain c s where c: "dec (fst r) = c # s" using dec_plain(4) by (cases "dec (fst r)") auto
  then have "c \<noteq> CHR ''-''" using dec_plain(3) [of "fst r"] by auto
  moreover have "\<exists>t. comma_list (map range_text (r # rs)) = c # t"
    using c by (cases rs) (auto simp: range_text_def)
  ultimately show ?thesis by auto
qed

section \<open>Lemmas on the runs\<close>

text \<open>A run that is open when the loop is at \<open>k\<close> ends just before \<open>k\<close>.\<close>

definition open_run :: "nat \<Rightarrow> (nat \<times> nat) option \<Rightarrow> bool" where
  "open_run k cur \<longleftrightarrow> (\<forall>r. cur = Some r \<longrightarrow> fst r \<le> snd r \<and> k = Suc (snd r))"

definition run_set :: "(nat \<times> nat) option \<Rightarrow> nat set" where
  "run_set cur = (case cur of None \<Rightarrow> {} | Some r \<Rightarrow> {fst r..snd r})"

lemma upt_step: "k < n \<Longrightarrow> [k..<n] = k # [Suc k..<n]"
  by (rule upt_conv_Cons)

lemma cpu_ranges_set:
  assumes "open_run k cur" "k \<le> n"
  shows "(\<Union>r \<in> set (cpu_ranges has [k..<n] cur). {fst r..snd r}) = run_set cur \<union> {c. k \<le> c \<and> c < n \<and> has c} \<and>
    (\<forall>r \<in> set (cpu_ranges has [k..<n] cur). fst r \<le> snd r \<and> snd r < n)"
  using assms
proof (induction "n - k" arbitrary: k cur)
  case 0
  then show ?case by (auto simp: run_set_def open_run_def split: option.splits)
next
  case (Suc m)
  then have k: "k < n" by simp
  have e: "{c. k \<le> c \<and> c < n \<and> has c} = (if has k then {k} else {}) \<union> {c. Suc k \<le> c \<and> c < n \<and> has c}"
    using k by (auto simp: Suc_le_eq le_less)
  have o: "open_run (Suc k) (Some (extend_run k cur))" "open_run (Suc k) None"
    using Suc.prems(1) by (cases cur; auto simp: open_run_def)+
  have s: "run_set (Some (extend_run k cur)) = insert k (run_set cur)"
    using Suc.prems(1) by (cases cur) (auto simp: open_run_def run_set_def)
  have m: "m = n - Suc k" "Suc k \<le> n" using Suc.hyps(2) k by simp_all
  note IH = Suc.hyps(1) [OF m(1) _ m(2)]
  show ?case
  proof (cases "has k")
    case True
    then show ?thesis using IH [OF o(1)] by (simp add: upt_step [OF k] e s)
  next
    case False
    let ?rs = "cpu_ranges has [Suc k..<n] None"
    have r: "cpu_ranges has [k..<n] cur = (case cur of None \<Rightarrow> [] | Some r \<Rightarrow> [r]) @ ?rs"
      using False by (simp add: upt_step [OF k])
    have "\<forall>r. cur = Some r \<longrightarrow> fst r \<le> snd r \<and> snd r < n" using Suc.prems k by (auto simp: open_run_def)
    then show ?thesis using IH [OF o(2)] False unfolding r e
      by (cases cur) (simp_all add: run_set_def)
  qed
qed


section \<open>The loop computes the runs\<close>

text \<open>What the remaining ranges add to the text, with or without a comma in front.\<close>

fun more_text :: "bool \<Rightarrow> (nat \<times> nat) list \<Rightarrow> string" where
  "more_text d [] = []"
| "more_text d (r # rs) = (if d then '','' else []) @ range_text r @ more_text True rs"

lemma more_text_comma: "more_text False rs = comma_list (map range_text rs)"
proof -
  have "more_text True rs = concat (map (\<lambda>y. '','' @ y) (map range_text rs))" for rs by (induction rs) auto
  then show ?thesis by (cases rs) (simp_all add: comma_list_def comp_def)
qed

definition list_holds :: "string option \<Rightarrow> string \<Rightarrow> bool" where
  "list_holds l s \<longleftrightarrow> (case l of None \<Rightarrow> s = [] | Some b \<Rightarrow> cbuf b s)"

lemma appendf_list:
  assumes "list_holds l s" "format fmt args = Some t" "nul \<notin> set t" "alloc_ok env (length s + length t + 9)"
  shows "\<exists>b. appendf env l fmt args = Inr (Some b) \<and> cbuf b (s @ t)"
proof (cases l)
  case None
  then show ?thesis using appendf_new [OF assms(2,3)] assms(1,4) by (simp add: list_holds_def)
next
  case (Some b)
  then show ?thesis using appendf_more [OF _ assms(2,3)] assms(1,4) by (simp add: list_holds_def)
qed

lemma format_run:
  assumes "f < 2 ^ 31" "l < 2 ^ 31"
  shows "format ''%s%d'' [PStr c, as_int (int f)] = Some (c @ dec f)"
    "format ''%s%d-%d'' [PStr c, as_int (int f), as_int (int l)] = Some (c @ dec f @ ''-'' @ dec l)"
proof -
  have a: "as_int (int n) = PInt (int n)" if "n < 2 ^ 31" for n
    using that by (simp add: as_int_def signed_take_bit_int_eq_self)
  have c: "char_of (45 :: nat) = CHR ''-''" by (simp add: char_of_def bit_iff_odd)
  show "format ''%s%d'' [PStr c, as_int (int f)] = Some (c @ dec f)"
    "format ''%s%d-%d'' [PStr c, as_int (int f), as_int (int l)] = Some (c @ dec f @ ''-'' @ dec l)"
    unfolding a [OF assms(1)] a [OF assms(2)] by (simp_all add: format_def fmt_eval dec_def c comp_def)
qed

lemma append_range_ok:
  assumes "list_holds (cpu_list a) s" "range_first a < 2 ^ 31" "range_last a < 2 ^ 31"
    "alloc_ok env (length s + length (more_text (displayed a) [(range_first a, range_last a)]) + 9)"
  shows "\<exists>b. append_range env a = Inr (a\<lparr>cpu_list := Some b\<rparr>) \<and>
    cbuf b (s @ more_text (displayed a) [(range_first a, range_last a)])"
proof -
  let ?c = "if displayed a then '','' else []"
  have c: "nul \<notin> set ?c" by simp
  show ?thesis
  proof (cases "range_first a = range_last a")
    case True
    then show ?thesis
      using appendf_list [OF assms(1) format_run(1) [OF assms(2,3)], of ?c env] assms(4) c dec_plain(1)
      by (auto simp: append_range_def range_text_def)
  next
    case False
    then show ?thesis
      using appendf_list [OF assms(1) format_run(2) [OF assms(2,3)], of ?c env] assms(4) c dec_plain(1)
      by (auto simp: append_range_def range_text_def)
  qed
qed

definition run_of :: "affinity \<Rightarrow> (nat \<times> nat) option" where
  "run_of a = (if count a = 0 then None else Some (range_first a, range_last a))"

lemma run_of_extend [simp]:
  "run_of (a\<lparr>range_first := if count a = 0 then c else range_first a, range_last := c, count := count a + 1\<rparr>) =
     Some (extend_run c (run_of a))"
  by (simp add: run_of_def)

lemma run_of_0: "count a = 0 \<Longrightarrow> run_of a = None"
  by (simp add: run_of_def)

text \<open>The loop and the last append together.\<close>

definition finish :: "cenv \<Rightarrow> (nat \<Rightarrow> bool) \<Rightarrow> nat list \<Rightarrow> affinity \<Rightarrow> affinity res" where
  "finish env has cs a = bindE (affinity_loop env has cs a) (\<lambda>a. if count a \<noteq> 0 then append_range env a else Inr a)"

lemma finish_simps:
  "finish env has [] a = (if count a \<noteq> 0 then append_range env a else Inr a)"
  "has c \<Longrightarrow> finish env has (c # cs) a = finish env has cs
     (a\<lparr>range_first := if count a = 0 then c else range_first a, range_last := c, count := count a + 1\<rparr>)"
  "\<not> has c \<Longrightarrow> count a \<noteq> 0 \<Longrightarrow> finish env has (c # cs) a =
     bindE (append_range env a) (\<lambda>a'. finish env has cs (a'\<lparr>displayed := True, count := 0\<rparr>))"
  "\<not> has c \<Longrightarrow> count a = 0 \<Longrightarrow> finish env has (c # cs) a = finish env has cs (a\<lparr>count := 0\<rparr>)"
  by (simp_all add: finish_def)

lemma finish_ok:
  assumes "list_holds (cpu_list a) s" "displayed a \<longleftrightarrow> cpu_list a \<noteq> None" "\<forall>c \<in> set cs. c < 2 ^ 31"
    "count a \<noteq> 0 \<longrightarrow> range_first a < 2 ^ 31 \<and> range_last a < 2 ^ 31"
    "alloc_ok env (length s + length (more_text (displayed a) (cpu_ranges has cs (run_of a))) + 9)"
  shows "\<exists>a'. finish env has cs a = Inr a' \<and>
    list_holds (cpu_list a') (s @ more_text (displayed a) (cpu_ranges has cs (run_of a))) \<and>
    (cpu_list a' = None \<longleftrightarrow> cpu_list a = None \<and> cpu_ranges has cs (run_of a) = [])"
  using assms
proof (induction cs arbitrary: a s)
  case Nil
  show ?case
  proof (cases "count a = 0")
    case True
    then show ?thesis using Nil by (simp add: finish_simps run_of_def)
  next
    case False
    then show ?thesis using Nil append_range_ok [of a s env] by (auto simp: finish_simps run_of_def list_holds_def)
  qed
next
  case (Cons c cs)
  show ?case
  proof (cases "has c")
    case True
    define a2 where "a2 = a\<lparr>range_first := if count a = 0 then c else range_first a, range_last := c, count := count a + 1\<rparr>"
    have r: "run_of a2 = Some (extend_run c (run_of a))" unfolding a2_def by (rule run_of_extend)
    have a2: "cpu_list a2 = cpu_list a" "displayed a2 = displayed a" "range_first a2 < 2 ^ 31" "range_last a2 < 2 ^ 31"
      using Cons.prems by (auto simp: a2_def)
    have "\<exists>a'. finish env has cs a2 = Inr a' \<and>
        list_holds (cpu_list a') (s @ more_text (displayed a2) (cpu_ranges has cs (run_of a2))) \<and>
        (cpu_list a' = None \<longleftrightarrow> cpu_list a2 = None \<and> cpu_ranges has cs (run_of a2) = [])"
      by (rule Cons.IH) (use Cons.prems True a2 in \<open>simp_all add: r\<close>)
    moreover have "finish env has (c # cs) a = finish env has cs a2" using True by (simp only: finish_simps(2) a2_def)
    ultimately show ?thesis unfolding r a2 using True by simp
  next
    case n: False
    show ?thesis
    proof (cases "count a = 0")
      case True
      have "\<exists>a'. finish env has cs (a\<lparr>count := 0\<rparr>) = Inr a' \<and>
          list_holds (cpu_list a') (s @ more_text (displayed (a\<lparr>count := 0\<rparr>)) (cpu_ranges has cs (run_of (a\<lparr>count := 0\<rparr>)))) \<and>
          (cpu_list a' = None \<longleftrightarrow> cpu_list (a\<lparr>count := 0\<rparr>) = None \<and> cpu_ranges has cs (run_of (a\<lparr>count := 0\<rparr>)) = [])"
        by (rule Cons.IH) (use Cons.prems True n in \<open>auto simp: run_of_0\<close>)
      then show ?thesis using True n by (simp add: finish_simps run_of_0)
    next
      case False
      let ?r = "(range_first a, range_last a)"
      have r: "run_of a = Some ?r" using False by (simp add: run_of_def)
      have al: "alloc_ok env (length s + length (more_text (displayed a) [?r]) + length (more_text True (cpu_ranges has cs None)) + 9)"
        using Cons.prems(5) n by (simp add: r add.assoc)
      then have "alloc_ok env (length s + length (more_text (displayed a) [?r]) + 9)" by (simp add: alloc_ok_def)
      then obtain b where b: "append_range env a = Inr (a\<lparr>cpu_list := Some b\<rparr>)" "cbuf b (s @ more_text (displayed a) [?r])"
        using append_range_ok [of a s env] Cons.prems False by blast
      let ?a = "a\<lparr>cpu_list := Some b, displayed := True, count := 0\<rparr>"
      have "\<exists>a'. finish env has cs ?a = Inr a' \<and>
          list_holds (cpu_list a') ((s @ more_text (displayed a) [?r]) @ more_text (displayed ?a) (cpu_ranges has cs (run_of ?a))) \<and>
          (cpu_list a' = None \<longleftrightarrow> cpu_list ?a = None \<and> cpu_ranges has cs (run_of ?a) = [])"
        by (rule Cons.IH) (use Cons.prems b al in \<open>auto simp: list_holds_def run_of_0 add.assoc\<close>)
      then show ?thesis using n False b by (simp add: finish_simps r run_of_0)
    qed
  qed
qed

section \<open>Properties\<close>

text \<open>
  C14: the affinity list is a faithful picture of the CPU set: the routine succeeds, and reading its
  list back (commas between fields, a dash inside a range) gives exactly the online CPUs that are in the set.
\<close>

theorem show_cpu_affinities_roundtrip:
  assumes "gq_sysconf q ''_SC_NPROCESSORS_ONLN'' = Some (int n)" "n < 2 ^ 31"
    "alloc_ok env (length (affinity_text (has cs) n) + 9)"
  shows "\<exists>text. show_cpu_affinities_generic env q (Some (Inr (Some cs))) (Some has) =
      Inr [C_entry ''affinity list'' ''%s'' [PStr text]] \<and> read_cpu_list text = {c. c < n \<and> has cs c}"
proof -
  let ?rs = "cpu_ranges (has cs) [0..<n] None"
  let ?a = "\<lparr>cpu_list = None, displayed = False, count = 0, range_first = 0, range_last = 0\<rparr>"
  have a: "alloc_ok env (length (comma_list (map range_text ?rs)) + 9)"
    using assms(3) by (cases "?rs = []") (auto simp: affinity_text_def Let_def alloc_ok_def)
  have n: "signed_take_bit 31 (int n) = int n" using assms(2) by (simp add: signed_take_bit_int_eq_self)
  obtain a' where a': "finish env (has cs) [0..<n] ?a = Inr a'" "list_holds (cpu_list a') (comma_list (map range_text ?rs))"
    "cpu_list a' = None \<longleftrightarrow> ?rs = []"
    using finish_ok [of ?a "[]" "[0..<n]" env "has cs"] assms(2) a by (auto simp: list_holds_def run_of_0 more_text_comma)
  have "show_cpu_affinities_generic env q (Some (Inr (Some cs))) (Some has) =
      bindE (finish env (has cs) [0..<n] ?a) (\<lambda>a'.
      bindE (case cpu_list a' of None \<Rightarrow> Inr ''-1'' | Some b \<Rightarrow> str_at nul b 0) (\<lambda>str.
      Inr [C_entry ''affinity list'' ''%s'' [PStr str]]))"
    using assms(1) by (simp add: show_cpu_affinities_generic_def finish_def n)
  then have "show_cpu_affinities_generic env q (Some (Inr (Some cs))) (Some has) =
      Inr [C_entry ''affinity list'' ''%s'' [PStr (affinity_text (has cs) n)]]"
    using a' by (auto simp: affinity_text_def list_holds_def split: option.splits)
  moreover have "read_cpu_list (affinity_text (has cs) n) = {c. c < n \<and> has cs c}"
  proof -
    have s: "(\<Union>r \<in> set ?rs. {fst r..snd r}) = {c. c < n \<and> has cs c}" "\<forall>r \<in> set ?rs. fst r \<le> snd r"
      using cpu_ranges_set [of 0 None n "has cs"] by (auto simp: open_run_def run_set_def)
    show ?thesis
    proof (cases ?rs)
      case Nil
      then show ?thesis using s(1) by (simp add: affinity_text_def read_cpu_list_def)
    next
      case (Cons r rs)
      have "\<Union> (read_range ` set (map range_text ?rs)) = (\<Union>r \<in> set ?rs. {fst r..snd r})"
        using s(2) by (simp add: read_range_text image_image)
      then show ?thesis
        using Cons s(1) range_text_first [of r rs] split_comma_list [of "map range_text ?rs"] range_text_plain(2)
        by (simp add: affinity_text_def read_cpu_list_def)
    qed
  qed
  ultimately show ?thesis by blast
qed

theorem show_cpu_affinities_roundtrip_witness:
  "\<exists>text. show_cpu_affinities_generic ascii_env example_queries (Some (Inr (Some (\<lambda>c. c \<noteq> 3)))) (Some (\<lambda>s c. s c)) =
      Inr [C_entry ''affinity list'' ''%s'' [PStr text]] \<and> read_cpu_list text = {0, 1, 2, 4, 5}"
proof -
  have "alloc_ok ascii_env (length (affinity_text (\<lambda>c. c \<noteq> 3) 6) + 9)"
    by (simp add: alloc_ok_def ascii_env_def affinity_text_def upt_rec range_text_def dec_def nat_digits.simps)
  moreover have "{c. c < 6 \<and> c \<noteq> 3} = {0, 1, 2, 4, 5 :: nat}" by auto
  ultimately show ?thesis
    using show_cpu_affinities_roundtrip [of example_queries 6 ascii_env "\<lambda>s c. s c" "\<lambda>c. c \<noteq> 3"]
    by (simp add: example_queries_def)
qed

end
