(* ===== verification/LinuxProc.thy ===== *)
theory LinuxProc
  imports Affinity "HOL-Library.Sublist"
begin

text \<open>
  The Linux driver (\<^verbatim>\<open>platform/linux/platform.c\<close>), first part: the kernel version and what is read
  from \<^verbatim>\<open>/proc\<close>: control groups, file descriptors, namespaces, the ancestry of the process.
\<close>

unbundle bit_operations_syntax

section \<open>What the system answers\<close>

text \<open>
  \<open>lx_files\<close> are the files that can be read, \<open>lx_dirs\<close> the entries of a directory in the order
  of \<^verbatim>\<open>readdir\<close>. The remaining questions of the driver are the fields of \<open>linux_queries\<close>.
\<close>

record linux_queries =
  lx_generic :: generic_queries
  lx_files :: "string \<Rightarrow> string option"
  lx_dirs :: "string \<Rightarrow> string list option"
  lx_user_name :: "nat \<Rightarrow> string option"
  lx_group_name :: "nat \<Rightarrow> string option"
  lx_getpid :: int
  lx_heap :: sheap

definition PROCENV_BUFFER :: nat where "PROCENV_BUFFER = 1024"

text \<open>\<^verbatim>\<open>sprintf\<close> into an array of \<open>n\<close> bytes.\<close>

definition sprintf_buf :: "nat \<Rightarrow> string \<Rightarrow> string res" where
  "sprintf_buf n s = guardE (length s < n) OutOfBounds (Inr s)"

text \<open>\<^verbatim>\<open>readlink\<close> into an array of \<^verbatim>\<open>MAXPATHLEN\<close> bytes, with room for the terminator.\<close>

definition read_link :: "linux_queries \<Rightarrow> string \<Rightarrow> string option" where
  "read_link q file = map_option (take (PATH_MAX - 1)) (gq_readlink (lx_generic q) file)"

section \<open>Numbers in texts\<close>

definition is_digit :: "char \<Rightarrow> bool" where
  "is_digit c \<longleftrightarrow> 48 \<le> (of_char c :: nat) \<and> (of_char c :: nat) \<le> 57"

definition is_space :: "char \<Rightarrow> bool" where
  "is_space c \<longleftrightarrow> c = CHR '' '' \<or> (9 \<le> (of_char c :: nat) \<and> (of_char c :: nat) \<le> 13)"

text \<open>A decimal number as \<^verbatim>\<open>%d\<close> of \<^verbatim>\<open>sscanf\<close> reads it, and what follows.\<close>

definition scan_int :: "string \<Rightarrow> (int \<times> string) option" where
  "scan_int s =
     (let s1 = dropWhile is_space s;
          neg = (case s1 of c # _ \<Rightarrow> c = CHR ''-'' | [] \<Rightarrow> False);
          s2 = (case s1 of c # r \<Rightarrow> if c = CHR ''-'' \<or> c = CHR ''+'' then r else s1 | [] \<Rightarrow> []);
          ds = takeWhile is_digit s2
      in if ds = [] then None
         else Some (if neg then - int (dec_number ds) else int (dec_number ds), dropWhile is_digit s2))"

definition atoi :: "string \<Rightarrow> int" where
  "atoi s = (case scan_int s of None \<Rightarrow> 0 | Some (v, _) \<Rightarrow> signed_take_bit 31 v)"

fun scan_dotted :: "nat \<Rightarrow> string \<Rightarrow> int list" where
  "scan_dotted 0 s = []"
| "scan_dotted (Suc k) s =
     (case scan_int s of
        None \<Rightarrow> []
      | Some (v, r) \<Rightarrow> v # (case r of c # t \<Rightarrow> if c = CHR ''.'' then scan_dotted k t else [] | [] \<Rightarrow> []))"

section \<open>The kernel version\<close>

text \<open>The three parts packed into 24 bits; a part that is -1 is left out.\<close>

definition pack_version :: "int \<Rightarrow> int \<Rightarrow> int \<Rightarrow> 32 word" where
  "pack_version major minor revision =
     (0xFF0000 AND push_bit 16 (word_of_int major)) OR
     (if minor = -1 then 0 else 0x00FF00 AND push_bit 8 (word_of_int minor)) OR
     (if revision = -1 then 0 else 0x0000FF AND word_of_int revision)"

definition linux_kernel_version :: "string \<Rightarrow> int \<Rightarrow> int \<Rightarrow> int \<Rightarrow> bool res" where
  "linux_kernel_version rel major minor revision =
     (let actual = scan_dotted 3 rel; part = (\<lambda>i. if i < length actual then actual ! i else -1) in
      guardE (0 < major) AssertFail
        (guardE (actual \<noteq> [] \<and> part 0 \<noteq> -1) AssertFail
          (Inr (pack_version major minor (if minor = -1 then -1 else revision) \<le> pack_version (part 0) (part 1) (part 2)))))"

definition LINUX_KERNEL_MM :: "globals \<Rightarrow> int \<Rightarrow> int \<Rightarrow> bool res" where
  "LINUX_KERNEL_MM g major minor = linux_kernel_version (release (uts g)) major minor (-1)"

definition LINUX_KERNEL_MMR :: "globals \<Rightarrow> int \<Rightarrow> int \<Rightarrow> int \<Rightarrow> bool res" where
  "LINUX_KERNEL_MMR g major minor revision = linux_kernel_version (release (uts g)) major minor revision"

text \<open>A part that is shown only by a kernel that is new enough.\<close>

definition since :: "bool res \<Rightarrow> report \<Rightarrow> report" where
  "since new r = bindE new (\<lambda>b. if b then r else Inr [])"

lemma members_since [complete_intros]: "members_report r \<Longrightarrow> members_report (since new r)"
  unfolding since_def by (intro complete_intros) (simp_all add: flat_calls)

section \<open>Names of processes\<close>

text \<open>\<open>append\<close> into a null string: the name is kept unless memory is exhausted.\<close>

definition pid_to_name :: "cenv \<Rightarrow> linux_queries \<Rightarrow> int \<Rightarrow> string option res" where
  "pid_to_name env q p =
     (case format ''/proc/%d/cmdline'' [PInt p] of
        None \<Rightarrow> Inr None
      | Some file \<Rightarrow>
          (case lx_files q file of
             None \<Rightarrow> Inr None
           | Some content \<Rightarrow>
               (case fgets_all PATH_MAX content of
                  [] \<Rightarrow> Inr None
                | line # _ \<Rightarrow> bindE (append_c env None line) (\<lambda>b. bindE (buf_str b) (\<lambda>s. Inr (Some s))))))"

section \<open>Control groups\<close>

text \<open>\<^verbatim>\<open>strsep\<close> with one delimiter: the field and what is left, nothing once the string is used up.\<close>

definition strsep :: "char \<Rightarrow> string option \<Rightarrow> string option \<times> string option" where
  "strsep d s =
     (case s of
        None \<Rightarrow> (None, None)
      | Some t \<Rightarrow> (Some (takeWhile (\<lambda>c. c \<noteq> d) t),
                  (case dropWhile (\<lambda>c. c \<noteq> d) t of [] \<Rightarrow> None | _ # r \<Rightarrow> Some r)))"

definition show_cgroup :: "cenv \<Rightarrow> string \<Rightarrow> report" where
  "show_cgroup env line =
     bindE (drop_last line) (\<lambda>buffer.
     guardE (alloc_ok env (length buffer + 1)) (Die ''failed to allocate storage'')
       (let (hierarchy, b1) = strsep (CHR '':'') (Some buffer);
            (subsystems, b2) = strsep (CHR '':'') b1;
            (file, b3) = strsep (CHR '':'') b2
        in case (hierarchy, file) of
             (Some h, Some f) \<Rightarrow>
               in_container h (in_object (Inr
                 ((case subsystems of
                     Some s \<Rightarrow> if s \<noteq> [] then [C_entry ''subsystems'' ''%s'' [PStr s]] else []
                   | None \<Rightarrow> []) @
                  [C_entry ''path'' ''%s'' [PStr f]])))
           | _ \<Rightarrow> Inr []))"

definition show_cgroups_linux :: "cenv \<Rightarrow> linux_queries \<Rightarrow> report" where
  "show_cgroups_linux env q =
     (case lx_files q ''/proc/self/cgroup'' of
        None \<Rightarrow> Inr []
      | Some content \<Rightarrow> reports (map (show_cgroup env) (fgets_all PROCENV_BUFFER content)))"

section \<open>File descriptors\<close>

definition S_ISDIR :: "32 word \<Rightarrow> bool" where
  "S_ISDIR m = (m AND S_IFMT = 0x4000)"

text \<open>The group is looked up with the user id, as the code has it.\<close>

definition show_tty_device :: "cenv \<Rightarrow> linux_queries \<Rightarrow> string \<Rightarrow> statbuf \<Rightarrow> report" where
  "show_tty_device env q link st =
     (case format_perms env (st_mode st) of
        None \<Rightarrow> Inl (Die ''failed to allocate space for permissions string'')
      | Some modestr \<Rightarrow>
          let (_, maj, min) = get_major_minor (gq_stat (lx_generic q)) link; id_name = ''%d ('' @ quoted_s @ '')'' in
          reports
            [in_section ''permissions'' (Inr
               [C_entry ''octal'' ''%4.4o'' [PInt (uint (st_mode st AND NOT S_IFMT))],
                C_entry ''symbolic'' ''%s'' [PStr modestr]]),
             Inr [C_entry ''major'' ''%u'' [PInt (int maj)], C_entry ''minor'' ''%u'' [PInt (int min)]],
             in_section ''owner'' (Inr
               [C_entry ''user (uid)'' id_name [as_int (int (st_uid st)), str_arg (lx_user_name q (st_uid st))],
                C_entry ''group (gid)'' id_name [as_int (int (st_gid st)), str_arg (lx_group_name q (st_uid st))]])])"

definition show_fd_linux :: "cenv \<Rightarrow> linux_queries \<Rightarrow> string \<Rightarrow> report" where
  "show_fd_linux env q d_name =
     (if d_name = ''.'' \<or> d_name = ''..'' then Inr []
      else bindE (sprintf_buf PATH_MAX (''/proc/self/fd/'' @ d_name)) (\<lambda>file.
        let fd = atoi d_name in
        case read_link q file of
          None \<Rightarrow> Inr []
        | Some target \<Rightarrow>
            bindE (appendf env None ''%d'' [PInt fd]) (\<lambda>b.
            guardE (target \<noteq> []) AssertFail
              (let link = cstr target in
               case gq_stat (lx_generic q) link of
                 None \<Rightarrow> Inr []
               | Some st \<Rightarrow>
                   if starts_with ''/'' link \<and> S_ISDIR (st_mode st) then Inr []
                   else bindE (buf_str b) (\<lambda>num.
                     let is_tty = gq_isatty (lx_generic q) fd in
                     in_object (in_section num (reports
                       [Inr [C_entry ''terminal'' ''%s'' [yes_no is_tty],
                             C_entry ''valid'' ''%s'' [yes_no (fd_valid (gq_fcntl_getfl (lx_generic q)) fd)]],
                        in_section ''device'' (reports
                          [Inr [C_entry ''name'' ''%s'' [PStr link]],
                           (if is_tty then show_tty_device env q link st else Inr [])])])))))))"

definition show_fds_linux :: "cenv \<Rightarrow> linux_queries \<Rightarrow> report" where
  "show_fds_linux env q =
     (case lx_dirs q ''/proc/self/fd'' of
        None \<Rightarrow> Inr []
      | Some ents \<Rightarrow> reports (map (show_fd_linux env q) ents))"


section \<open>Namespaces\<close>

text \<open>
  The links of \<^verbatim>\<open>/proc/self/ns\<close> are collected in a sorted \<^verbatim>\<open>PRList\<close>, then the list is taken apart.
  \<^verbatim>\<open>strdup\<close> gives a null pointer when memory is exhausted.
\<close>

definition strdup_heap :: "string \<Rightarrow> sheap \<Rightarrow> string option" where
  "strdup_heap s h = (if brk h < lim h then Some s else None)"

fun ns_collect :: "linux_queries \<Rightarrow> addr \<Rightarrow> string list \<Rightarrow> sheap \<Rightarrow> sheap res" where
  "ns_collect q list [] h = Inr h"
| "ns_collect q list (d_name # ents) h =
     (if d_name = ''.'' \<or> d_name = ''..'' then ns_collect q list ents h
      else bindE (sprintf_buf (2 * PATH_MAX + 2) (''/proc/self/ns/'' @ d_name)) (\<lambda>file.
        case read_link q file of
          None \<Rightarrow> ns_collect q list ents h
        | Some link \<Rightarrow>
            guardE (link \<noteq> []) AssertFail
              (bindE (sprintf_buf (2 * PATH_MAX + 2) (d_name @ '' '' @ cstr link)) (\<lambda>text.
               let (entry, h1) = pr_list_new (strdup_heap text h) h in
               guardE (entry \<noteq> 0) AssertFail
                 (bindE (pr_list_prepend_str_sorted list entry h1) (\<lambda>(res, h2).
                  guardE (res \<noteq> 0) AssertFail (ns_collect q list ents h2)))))))"

definition ns_entry :: "string option \<Rightarrow> report" where
  "ns_entry data =
     (case strsep (CHR '' '') data of
        (Some name, Some value) \<Rightarrow> in_object (Inr [C_entry name ''%s'' [PStr value]])
      | _ \<Rightarrow> Inr [])"

text \<open>\<^verbatim>\<open>PR_LIST_FOREACH_SAFE\<close>: the next node is read before the body removes and frees its node;
  behind the loop the list itself is freed.\<close>

fun ns_show :: "nat \<Rightarrow> addr \<Rightarrow> addr \<Rightarrow> addr \<Rightarrow> sheap \<Rightarrow> report" where
  "ns_show 0 list iter tmp h = Inl Diverges"
| "ns_show (Suc f) list iter tmp h =
     (if iter = list then bindE (free_node list h) (\<lambda>_. Inr [])
      else bindE (pr_list_remove iter h) (\<lambda>(_, h1).
        bindE (get_node h1 iter) (\<lambda>n.
        bindE (ns_entry (ldata n)) (\<lambda>cs.
        bindE (free_node iter h1) (\<lambda>h2.
        bindE (get_node h2 tmp) (\<lambda>t.
        bindE (ns_show f list tmp (nxt t) h2) (\<lambda>ds. Inr (cs @ ds))))))))"

definition show_namespaces_linux :: "linux_queries \<Rightarrow> report" where
  "show_namespaces_linux q =
     (case lx_dirs q ''/proc/self/ns'' of
        None \<Rightarrow> Inr []
      | Some ents \<Rightarrow>
          let (list, h0) = pr_list_new None (lx_heap q) in
          guardE (list \<noteq> 0) AssertFail
            (bindE (ns_collect q list ents h0) (\<lambda>h.
             bindE (get_node h list) (\<lambda>n.
             bindE (get_node h (nxt n)) (\<lambda>m. ns_show (brk h) list (nxt n) (nxt m) h)))))"

section \<open>Out of memory, CPU\<close>

text \<open>When none of the files can be read the word for unknown is passed as the format.\<close>

definition oom_entries :: "linux_queries \<Rightarrow> string \<Rightarrow> report" where
  "oom_entries q file =
     (case lx_files q (''/proc/self/'' @ file) of
        None \<Rightarrow> Inr []
      | Some content \<Rightarrow>
          reports (map (\<lambda>line. bindE (drop_last line) (\<lambda>b. Inr [C_entry file ''%s'' [PStr b]]))
                       (fgets_all PROCENV_BUFFER content)))"

definition show_oom_linux :: "linux_queries \<Rightarrow> report" where
  "show_oom_linux q =
     (let files = [''oom_score'', ''oom_adj'', ''oom_score_adj''] in
      reports [reports (map (oom_entries q) files),
        (if \<forall>f \<in> set files. lx_files q (''/proc/self/'' @ f) = None then Inr [C_entry ''%s'' UNKNOWN_STR []] else Inr [])])"

text \<open>The substitute for \<^verbatim>\<open>sched_getcpu\<close>: it wants 42 fields and takes the last.\<close>

definition procenv_getcpu :: "linux_queries \<Rightarrow> int res" where
  "procenv_getcpu q =
     (case lx_files q ''/proc/self/stat'' of
        None \<Rightarrow> Inr (-1)
      | Some content \<Rightarrow>
          (case fgets_all PROCENV_BUFFER content of
             [] \<Rightarrow> Inr (-1)
           | line # _ \<Rightarrow>
               bindE (drop_last line) (\<lambda>buffer.
               bindE (split_fields buffer (CHR '' '') True) (\<lambda>(count, fields).
               Inr (if count = 42 then atoi (fields ! 41) else -1)))))"

definition show_cpu_linux :: "int res \<Rightarrow> generic_queries \<Rightarrow> report" where
  "show_cpu_linux getcpu q =
     (let max = (case gq_sysconf q ''_SC_NPROCESSORS_ONLN'' of None \<Rightarrow> -1 | Some v \<Rightarrow> v) in
      bindE getcpu (\<lambda>cpu.
      Inr [if cpu < 0 then C_entry ''number'' ''%s of %ld'' [PStr UNKNOWN_STR, PInt max]
           else C_entry ''number'' ''%u of %ld'' [PInt (cpu + 1), PInt max]]))"

section \<open>Ancestry\<close>

definition PROCENV_TASK_COMM_NAME_LEN :: nat where "PROCENV_TASK_COMM_NAME_LEN = 15"

text \<open>The value behind a key and one tab.\<close>

definition field_value :: "string \<Rightarrow> string \<Rightarrow> string res" where
  "field_value key b =
     guardE (length key < length b) OutOfBounds (Inr (take PROCENV_TASK_COMM_NAME_LEN (drop (1 + length key) b)))"

text \<open>The scan of a status file: the arrays \<open>name\<close> and \<open>ppid\<close>, \<open>None\<close> while nothing was stored.\<close>

fun status_scan :: "string list \<Rightarrow> string option \<times> string option \<Rightarrow> (string option \<times> string option) res" where
  "status_scan [] np = Inr np"
| "status_scan (line # lines) np =
     bindE (drop_last line) (\<lambda>b.
     bindE (if starts_with ''Name:'' b then bindE (field_value ''Name:'' b) (\<lambda>v. Inr (Some v)) else Inr (fst np)) (\<lambda>name.
     if starts_with ''PPid:'' b then bindE (field_value ''PPid:'' b) (\<lambda>v. Inr (name, Some v))
     else status_scan lines (name, snd np)))"

definition stored :: "string option \<Rightarrow> string res" where
  "stored s = (case s of None \<Rightarrow> Inl OutOfBounds | Some t \<Rightarrow> Inr t)"

text \<open>
  One round of the loop: the text with this process added, and the next process to look at, if any.
\<close>

definition branch_step ::
  "cenv \<Rightarrow> linux_queries \<Rightarrow> string \<Rightarrow> string option \<times> string option \<Rightarrow> string option \<Rightarrow>
   (string option \<times> (string \<times> string option \<times> string option) option) res"
where
  "branch_step env q p np str =
     (case lx_files q (''/proc/'' @ p @ ''/status'') of
        None \<Rightarrow> bindE (appendf env str ''%s'' [PStr UNKNOWN_STR]) (\<lambda>str'. Inr (str', None))
      | Some content \<Rightarrow>
          bindE (status_scan (fgets_all PROCENV_BUFFER content) np) (\<lambda>np'.
          bindE (stored (fst np')) (\<lambda>name.
          if p = ''1'' then bindE (appendf env str (''%s ('' @ quoted_s @ '')'') [PStr p, PStr name]) (\<lambda>str'. Inr (str', None))
          else bindE (appendf env str (''%s ('' @ quoted_s @ ''), '') [PStr p, PStr name]) (\<lambda>str'.
               bindE (stored (snd np')) (\<lambda>ppid. Inr (str', Some (ppid, np')))))))"

partial_function (option) proc_branch ::
  "cenv \<Rightarrow> linux_queries \<Rightarrow> string \<Rightarrow> string option \<times> string option \<Rightarrow> string option \<Rightarrow> string option res option"
where
  "proc_branch env q p np str =
     (case branch_step env q p np str of
        Inl e \<Rightarrow> Some (Inl e)
      | Inr (str', next) \<Rightarrow>
          (case next of
             None \<Rightarrow> Some (Inr str')
           | Some (p', np') \<Rightarrow> proc_branch env q p' np' str'))"

text \<open>A chain of parents that never reaches the first process keeps the loop running.\<close>

definition handle_proc_branch_linux :: "cenv \<Rightarrow> linux_queries \<Rightarrow> report" where
  "handle_proc_branch_linux env q =
     (case format ''%d'' [PInt (lx_getpid q)] of
        None \<Rightarrow> Inl AssertFail
      | Some p \<Rightarrow>
          (case proc_branch env q p (None, None) None of
             None \<Rightarrow> Inl Diverges
           | Some r \<Rightarrow> bindE r (\<lambda>b. bindE (buf_str b) (\<lambda>str. Inr [C_entry ''ancestry'' ''%s'' [PStr str]]))))"

section \<open>Virtual machines\<close>

fun vm_scan :: "string list \<Rightarrow> bool" where
  "vm_scan [] = False"
| "vm_scan (line # lines) =
     (if \<not> starts_with ''flags'' line then vm_scan lines else sublist ''hypervisor'' line)"

definition in_vm_linux :: "linux_queries \<Rightarrow> bool" where
  "in_vm_linux q =
     (case lx_files q ''/proc/cpuinfo'' of
        None \<Rightarrow> False
      | Some content \<Rightarrow> vm_scan (fgets_all PROCENV_BUFFER content))"

section \<open>Completeness\<close>

lemma show_cgroup_complete [complete_intros]: "members_report (show_cgroup env line)"
  unfolding show_cgroup_def Let_def
  by (intro complete_intros) (auto simp: flat_calls intro!: complete_intros split: option.split)

lemma show_tty_device_complete [complete_intros]: "members_report (show_tty_device env q link st)"
  unfolding show_tty_device_def Let_def by (intro complete_intros; simp add: flat_calls)+

lemma show_fd_linux_complete [complete_intros]: "objects_report (show_fd_linux env q d)"
  unfolding show_fd_linux_def Let_def by (intro complete_intros; simp add: flat_calls)+

lemma ns_entry_objects [complete_intros]: "objects_report (ns_entry data)"
  unfolding ns_entry_def by (auto simp: flat_calls intro!: complete_intros split: option.split)

lemma ns_show_objects [complete_intros]: "objects_report (ns_show f list iter tmp h)"
proof (induction f arbitrary: iter tmp h)
  case (Suc f)
  have "objects (cs @ ds)" if "ns_entry d = Inr cs" "ns_show f list i t h = Inr ds" for cs ds d i t h
    using that Suc [of i t h] ns_entry_objects [of d] by (auto simp: objects_report_def intro: objects_append)
  then show ?case unfolding ns_show.simps by (intro complete_intros) (auto simp: flat_calls)
qed simp

lemma oom_entries_complete [complete_intros]: "members_report (oom_entries q file)"
  unfolding oom_entries_def by (intro complete_intros; simp add: flat_calls)+

lemma linux_proc_members [complete_intros]:
  "members_report (show_cgroups_linux env q)" "members_report (show_oom_linux q)"
  "members_report (show_cpu_linux c gq)" "members_report (handle_proc_branch_linux env q)"
  unfolding show_cgroups_linux_def show_oom_linux_def show_cpu_linux_def handle_proc_branch_linux_def Let_def
  by (intro complete_intros; simp add: flat_calls)+

lemma linux_proc_objects [complete_intros]:
  "objects_report (show_fds_linux env q)" "objects_report (show_namespaces_linux q)"
  unfolding show_fds_linux_def show_namespaces_linux_def Let_def
  by (intro complete_intros; simp add: flat_calls)+


section \<open>Lemmas on the kernel version\<close>

lemma dec_digits: "c \<in> set (dec n) \<Longrightarrow> is_digit c"
  using digit_chars [of c n] by (auto simp: is_digit_def take_bit_nat_eq_self)

lemma is_digit_plain: "is_digit c \<Longrightarrow> \<not> is_space c \<and> c \<noteq> CHR ''-'' \<and> c \<noteq> CHR ''+''"
  by (auto simp: is_digit_def is_space_def)

definition no_digit_next :: "string \<Rightarrow> bool" where
  "no_digit_next s \<longleftrightarrow> (case s of [] \<Rightarrow> True | c # _ \<Rightarrow> \<not> is_digit c)"

lemma scan_int_dec: "no_digit_next r \<Longrightarrow> scan_int (dec n @ r) = Some (int n, r)"
proof -
  assume r: "no_digit_next r"
  obtain c s where d: "dec n = c # s" using dec_plain(4) by (cases "dec n") auto
  have c: "is_digit c" "\<not> is_space c" "c \<noteq> CHR ''-''" "c \<noteq> CHR ''+''"
    using dec_digits [of c n] is_digit_plain d by auto
  have "takeWhile is_digit r = []" "dropWhile is_digit r = r"
    using r by (cases r; simp add: no_digit_next_def)+
  then have "takeWhile is_digit (dec n @ r) = dec n" "dropWhile is_digit (dec n @ r) = r"
    using dec_digits [of _ n] by (simp_all add: takeWhile_append2 dropWhile_append2 list_all_iff)
  then show ?thesis using c d dec_number_dec [of n] by (simp add: scan_int_def)
qed

lemma scan_version:
  assumes "no_digit_next r"
  shows "scan_dotted 3 (dec a @ ''.'' @ dec b @ ''.'' @ dec c @ r) = [int a, int b, int c]"
proof -
  have dot: "no_digit_next (''.'' @ s)" for s by (simp add: no_digit_next_def is_digit_def)
  show ?thesis
    using scan_int_dec [OF dot, of a "dec b @ ''.'' @ dec c @ r"] scan_int_dec [OF dot, of b "dec c @ r"]
      scan_int_dec [OF assms, of c]
    by (simp add: numeral_3_eq_3 split: list.split)
qed

lemma masked_part:
  fixes a :: nat
  assumes "a < 256"
  shows "0xFF0000 AND push_bit 16 (int a) = push_bit 16 (int a)" "0x00FF00 AND push_bit 8 (int a) = push_bit 8 (int a)"
    "0x0000FF AND int a = int a"
proof -
  have m: "take_bit 8 (int a) = int a" using assms by (simp add: take_bit_int_eq_self)
  have t: "0xFF AND int a = int a"
    using m by (simp add: take_bit_eq_mask mask_eq_exp_minus_1 and.commute)
  then show "0x0000FF AND int a = int a" .
  have "0xFF0000 = push_bit 16 (0xFF :: int)" "0x00FF00 = push_bit 8 (0xFF :: int)" by (simp_all add: push_bit_eq_mult)
  then show "0xFF0000 AND push_bit 16 (int a) = push_bit 16 (int a)" "0x00FF00 AND push_bit 8 (int a) = push_bit 8 (int a)"
    using t by (simp_all only: push_bit_and [symmetric])
qed

lemma pack_value:
  assumes "a < 256" "b < 256" "c < 256"
  shows "uint (pack_version (int a) (int b) (int c)) = int (65536 * a + 256 * b + c)"
proof -
  have "m AND push_bit k (word_of_int x) = (word_of_int (uint m AND push_bit k x) :: 32 word)" for m k x
    by (simp only: of_int_and_eq push_bit_of_int of_int_uint ucast_id)
  from this [of "0xFF0000" 16] this [of "0x00FF00" 8] this [of "0x0000FF" 0]
  have "pack_version (int a) (int b) (int c) =
      word_of_int (push_bit 16 (int a) OR push_bit 8 (int b) OR int c)"
    using masked_part [OF assms(1)] masked_part [OF assms(2)] masked_part [OF assms(3)]
    by (simp add: pack_version_def of_int_or_eq del: of_int_of_nat_eq)
  moreover have "push_bit 16 (int a) OR push_bit 8 (int b) OR int c = concat_bit 8 (int c) (concat_bit 8 (int b) (int a))"
    using assms by (simp add: concat_bit_def take_bit_int_eq_self push_bit_or ac_simps)
  moreover have "\<dots> = int (65536 * a + 256 * b + c)"
    using assms by (simp add: concat_bit_eq take_bit_int_eq_self push_bit_eq_mult)
  ultimately have "pack_version (int a) (int b) (int c) = word_of_int (int (65536 * a + 256 * b + c))" by (simp only:)
  moreover have "take_bit 32 (int (65536 * a + 256 * b + c)) = int (65536 * a + 256 * b + c)"
    using assms by (intro take_bit_int_eq_self) auto
  ultimately show ?thesis by (simp only: uint_word_of_int_eq len_bit0 len_num1 mult_1_right) simp
qed

lemma pack_omits_revision: "pack_version (int a) (int b) (-1) = pack_version (int a) (int b) (int 0)"
  by (simp add: pack_version_def)

lemma pack_less_eq:
  assumes "a < 256" "b < 256" "c < 256" "a' < 256" "b' < 256" "c' < 256"
  shows "pack_version (int a) (int b) (int c) \<le> pack_version (int a') (int b') (int c') \<longleftrightarrow>
    a < a' \<or> a = a' \<and> (b < b' \<or> b = b' \<and> c \<le> c')"
proof -
  have "pack_version (int a) (int b) (int c) \<le> pack_version (int a') (int b') (int c') \<longleftrightarrow>
      65536 * a + 256 * b + c \<le> 65536 * a' + 256 * b' + c'"
    by (simp only: word_le_def pack_value assms of_nat_le_iff)
  also have "\<dots> \<longleftrightarrow> a < a' \<or> a = a' \<and> (b < b' \<or> b = b' \<and> c \<le> c')"
    using assms by linarith
  finally show ?thesis .
qed


section \<open>Lemmas on the namespaces\<close>

text \<open>The texts that are collected: one for each link that can be read.\<close>

definition ns_text :: "linux_queries \<Rightarrow> string \<Rightarrow> string" where
  "ns_text q d = d @ '' '' @ cstr (the (read_link q (''/proc/self/ns/'' @ d)))"

definition ns_names :: "linux_queries \<Rightarrow> string list \<Rightarrow> string list" where
  "ns_names q ents = filter (\<lambda>d. d \<noteq> ''.'' \<and> d \<noteq> ''..'' \<and> read_link q (''/proc/self/ns/'' @ d) \<noteq> None) ents"

definition ns_ok :: "linux_queries \<Rightarrow> string list \<Rightarrow> bool" where
  "ns_ok q ents \<longleftrightarrow> (\<forall>d \<in> set ents. nul \<notin> set d \<and> CHR '' '' \<notin> set d \<and> length d < 256 \<and>
     read_link q (''/proc/self/ns/'' @ d) \<noteq> Some [])"

lemma cstr_plain: "nul \<notin> set (cstr s)"
  by (auto simp: cstr_def dest: set_takeWhileD)

lemma read_link_length: "read_link q f = Some l \<Longrightarrow> length (cstr l) < PATH_MAX"
proof -
  assume "read_link q f = Some l"
  then have "length l < PATH_MAX" by (auto simp: read_link_def PATH_MAX_def min_def)
  with length_takeWhile_le [of "\<lambda>c. c \<noteq> nul" l] show "length (cstr l) < PATH_MAX"
    by (simp add: cstr_def)
qed

lemma ns_collect_step:
  assumes "str_ring h l as" "sorted (items h as)" "nul \<notin> set text" "brk h < lim h"
  shows "\<exists>e h1 h2 bs. pr_list_new (strdup_heap text h) h = (e, h1) \<and> e \<noteq> 0 \<and>
    pr_list_prepend_str_sorted l e h1 = Inr (e, h2) \<and> str_ring h2 l bs \<and>
    items h2 bs = insort (Some text) (items h as) \<and> brk h2 = Suc (brk h) \<and> lim h2 = lim h"
proof -
  obtain e h1 where e: "pr_list_new (strdup_heap text h) h = (e, h1)" by (cases "pr_list_new (strdup_heap text h) h")
  have w: "wf_heap h" "cdll h l as" using assms(1) by (simp_all add: str_ring_def)
  note n = pr_list_new_ring [OF w(1) assms(4) e] and f = cdll_new_frame [OF w(1) assms(4) e w(2)]
  have "str_ring h1 l as" using assms(1) n(4) f by (simp add: str_ring_def)
  moreover have "detached h1 l as e (Some text)"
    using n(3,6) f(2) assms(3,4) by (simp add: detached_def str_ok_def strdup_heap_def)
  moreover have "sorted (items h1 as)" using assms(2) f(3) by simp
  ultimately obtain h2 bs where "pr_list_prepend_str_sorted l e h1 = Inr (e, h2)" "str_ring h2 l bs"
      "items h2 bs = insort (Some text) (items h1 as)" "brk h2 = brk h1" "lim h2 = lim h1"
    using pr_list_prepend_str_sorted_insort by blast
  with e n f show ?thesis by auto
qed

lemma ns_collect_sorts:
  assumes "str_ring h l as" "sorted (items h as)" "ns_ok q ents" "brk h + length ents \<le> lim h"
  shows "\<exists>h' bs. ns_collect q l ents h = Inr h' \<and> str_ring h' l bs \<and>
    items h' bs = fold (\<lambda>d. insort (Some (ns_text q d))) (ns_names q ents) (items h as)"
  using assms
proof (induction ents arbitrary: h as)
  case Nil
  then show ?case by (auto simp: ns_names_def)
next
  case (Cons d ents)
  have d: "nul \<notin> set d" "length d < 256" "read_link q (''/proc/self/ns/'' @ d) \<noteq> Some []" "ns_ok q ents"
    using Cons.prems(3) by (simp_all add: ns_ok_def)
  have s: "sprintf_buf (2 * PATH_MAX + 2) (''/proc/self/ns/'' @ d) = Inr (''/proc/self/ns/'' @ d)"
    using d(2) by (simp add: sprintf_buf_def PATH_MAX_def)
  show ?case
  proof (cases "d = ''.'' \<or> d = ''..'' \<or> read_link q (''/proc/self/ns/'' @ d) = None")
    case True
    then have "ns_collect q l (d # ents) h = ns_collect q l ents h" "ns_names q (d # ents) = ns_names q ents"
      using s by (auto simp: ns_names_def)
    with Cons.IH [OF Cons.prems(1,2) d(4)] Cons.prems(4) show ?thesis by simp
  next
    case False
    then obtain link where link: "read_link q (''/proc/self/ns/'' @ d) = Some link" "link \<noteq> []" using d(3) by auto
    let ?t = "d @ '' '' @ cstr link"
    have t: "ns_text q d = ?t" "nul \<notin> set ?t" using link d(1) cstr_plain by (auto simp: ns_text_def)
    have "sprintf_buf (2 * PATH_MAX + 2) ?t = Inr ?t"
      using d(2) read_link_length [OF link(1)] by (simp add: sprintf_buf_def PATH_MAX_def)
    moreover obtain e h1 h2 bs where e: "pr_list_new (strdup_heap ?t h) h = (e, h1)" "e \<noteq> 0"
        "pr_list_prepend_str_sorted l e h1 = Inr (e, h2)" "str_ring h2 l bs"
        "items h2 bs = insort (Some ?t) (items h as)" "brk h2 = Suc (brk h)" "lim h2 = lim h"
      using ns_collect_step [OF Cons.prems(1,2) t(2)] Cons.prems(4) by auto
    ultimately have c: "ns_collect q l (d # ents) h = ns_collect q l ents h2"
      using False s link by simp
    have "sorted (items h2 bs)" using e(5) Cons.prems(2) by (simp add: sorted_insort)
    moreover have "ns_names q (d # ents) = d # ns_names q ents" using False by (simp add: ns_names_def)
    moreover have "brk h2 + length ents \<le> lim h2" using e(6,7) Cons.prems(4) by simp
    ultimately show ?thesis using Cons.IH [OF e(4) _ d(4)] e(5) unfolding c t(1) [symmetric] by (simp only: fold.simps comp_apply)
  qed
qed


definition ns_calls :: "string option \<Rightarrow> call list" where
  "ns_calls data =
     (case strsep (CHR '' '') data of
        (Some name, Some value) \<Rightarrow> [C_object_open, C_entry name ''%s'' [PStr value], C_object_close]
      | _ \<Rightarrow> [])"

lemma ns_entry_calls: "ns_entry data = Inr (ns_calls data)"
  by (auto simp: ns_entry_def ns_calls_def in_object_def split: option.split prod.split)

lemma ring_step: "cdll h l (a # as) \<Longrightarrow> \<exists>n. get_node h a = Inr n \<and> nxt n = hd (as @ [l])"
proof -
  assume "cdll h l (a # as)"
  then have "chain (cells h) a as l" by (simp add: cdll_def)
  from chain_ends [OF this] show ?thesis using get_node_nx by blast
qed

lemma remove_first:
  assumes "cdll h l (a # as)"
  shows "\<exists>h1 h2 n. pr_list_remove a h = Inr (a, h1) \<and> get_node h1 a = Inr n \<and> ldata n = ldata (the (cells h a)) \<and>
    free_node a h1 = Inr h2 \<and> cdll h2 l as \<and> items h2 as = items h as"
proof -
  have "removed h l (a # as) a as (pr_list_remove a h)"
    using pr_list_remove_at [of h l "[]" a as] assms by simp
  then obtain h1 where h1: "pr_list_remove a h = Inr (a, h1)" "cdll h1 l as" "cdll h1 a []" "relinked h h1"
    by (auto simp: removed_def)
  obtain n where n: "cells h1 a = Some n" using cdll_alloc [OF h1(3)] by auto
  obtain m where m: "cells h a = Some m" using cdll_alloc [OF assms] by auto
  have a: "a \<noteq> 0" "a \<notin> set (l # as)" using assms by (auto simp: cdll_def)
  let ?h2 = "h1\<lparr>cells := (cells h1)(a := None)\<rparr>"
  have "cdll ?h2 l as" using a by (intro cdll_frame [OF h1(2)]) (auto simp: nx_def pv_def)
  moreover have "items ?h2 as = items h1 as" using a by (auto simp: items_def)
  moreover have "items h1 as = items h as"
    using cdll_alloc [OF assms] by (intro relinked_items [OF h1(4)]) auto
  moreover have "ldata n = ldata m" using relinked_data [OF h1(4) m] n by simp
  ultimately show ?thesis using h1(1) n m a by (simp add: get_node_def free_node_def)
qed

lemma ns_show_ring:
  assumes "cdll h l as" "length as < f" "iter = hd (as @ [l])" "as \<noteq> [] \<Longrightarrow> tmp = hd (tl as @ [l])"
  shows "ns_show f l iter tmp h = Inr (concat (map ns_calls (items h as)))"
  using assms
proof (induction as arbitrary: h f iter tmp)
  case Nil
  then show ?case using cdll_alloc [OF Nil(1), of l] by (cases f) (auto simp: items_def free_node_def get_node_def)
next
  case (Cons a as)
  then obtain k where k: "f = Suc k" by (cases f) auto
  have a: "a \<noteq> l" using Cons.prems(1) by (auto simp: cdll_def)
  obtain h1 h2 n where h: "pr_list_remove a h = Inr (a, h1)" "get_node h1 a = Inr n" "ldata n = ldata (the (cells h a))"
      "free_node a h1 = Inr h2" "cdll h2 l as" "items h2 as = items h as"
    using remove_first [OF Cons.prems(1)] by blast
  have t: "tmp = hd (as @ [l])" using Cons.prems(4) by simp
  obtain m where m: "get_node h2 tmp = Inr m" "as \<noteq> [] \<Longrightarrow> nxt m = hd (tl as @ [l])"
  proof (cases as)
    case Nil
    then obtain m where "get_node h2 tmp = Inr m"
      using cdll_alloc [OF h(5), of l] t by (auto simp: get_node_def)
    then show ?thesis using Nil that by blast
  next
    case (Cons b bs)
    then show ?thesis using ring_step [of h2 l b bs] h(5) t that by auto
  qed
  have "ns_show k l tmp (nxt m) h2 = Inr (concat (map ns_calls (items h2 as)))"
    using Cons.IH [OF h(5), of k tmp "nxt m"] Cons.prems(2) k t m(2) by simp
  moreover have "items h (a # as) = ldata (the (cells h a)) # items h as" by (simp add: items_def)
  ultimately show ?case using h m a k Cons.prems(3) by (simp add: ns_entry_calls)
qed

lemma fold_insort_sort:
  "fold (\<lambda>d. insort (Some (f d))) ds [] = map Some (sort (map f ds))" for f :: "'a \<Rightarrow> string"
proof -
  have "fold (\<lambda>d. insort (Some (f d))) ds [] = fold insort (map (\<lambda>d. Some (f d)) ds) []"
    by (simp add: fold_map comp_def)
  also have "\<dots> = sort (map Some (map f ds))" by (simp add: sort_conv_fold comp_def)
  also have "\<dots> = map Some (sort (map f ds))"
  proof -
    have "insort (Some x) (map Some ys) = map Some (insort x ys)" for x and ys :: "string list" by (induction ys) auto
    then show ?thesis by (induction ds) auto
  qed
  finally show ?thesis .
qed

section \<open>Properties\<close>

text \<open>
  C15: \<open>show_namespaces_linux\<close>, which sorts through a linked list on the heap, frees every node it
  visits and never touches a freed one, prints one object for each namespace link that can be read, in the
  order of \<^verbatim>\<open>strcmp\<close> on the texts, whatever the order of the directory.
\<close>

theorem show_namespaces_sorted:
  assumes "lx_dirs q ''/proc/self/ns'' = Some ents" "ns_ok q ents" "wf_heap (lx_heap q)"
    "brk (lx_heap q) + length ents < lim (lx_heap q)"
  shows "show_namespaces_linux q =
    Inr (concat (map (ns_calls \<circ> Some) (sort (map (ns_text q) (ns_names q ents)))))"
proof -
  obtain l h0 where l: "pr_list_new None (lx_heap q) = (l, h0)" by (cases "pr_list_new None (lx_heap q) :: addr \<times> sheap")
  have b: "brk (lx_heap q) < lim (lx_heap q)" using assms(4) by simp
  note n = pr_list_new_ring [OF assms(3) b l]
  have r: "str_ring h0 l []" "sorted (items h0 [])" using n(1,4) by (simp_all add: str_ring_def items_def)
  have "brk h0 + length ents \<le> lim h0" using n(8,9) assms(4) by simp
  then obtain h as where h: "ns_collect q l ents h0 = Inr h" "str_ring h l as"
      "items h as = map Some (sort (map (ns_text q) (ns_names q ents)))"
    using ns_collect_sorts [OF r assms(2)] fold_insort_sort [of "ns_text q" "ns_names q ents"]
    by (auto simp: items_def [of h0])
  have c: "wf_heap h" "cdll h l as" using h(2) by (simp_all add: str_ring_def)
  obtain a where a: "get_node h l = Inr a" "nxt a = hd (as @ [l])"
    using c(2) chain_ends [of "cells h" l as l] get_node_nx [of h l] by (auto simp: cdll_def)
  obtain m where m: "get_node h (nxt a) = Inr m" "as \<noteq> [] \<Longrightarrow> nxt m = hd (tl as @ [l])"
  proof (cases as)
    case Nil
    then show ?thesis using a that by simp
  next
    case (Cons x xs)
    then show ?thesis using ring_step [of h l x xs] c(2) a(2) that by auto
  qed
  have "length as < brk h" using cdll_bound [OF c] by simp
  then have "ns_show (brk h) l (nxt a) (nxt m) h = Inr (concat (map ns_calls (items h as)))"
    using ns_show_ring [OF c(2) _ a(2)] m(2) by simp
  then show ?thesis using assms(1) l n(3) h a m by (simp add: show_namespaces_linux_def)
qed

definition example_linux :: linux_queries where
  "example_linux = \<lparr>lx_generic = example_queries\<lparr>gq_readlink := (\<lambda>f. if f = ''/proc/self/ns/uts'' then Some ''uts:[7]''
       else if f = ''/proc/self/ns/net'' then Some ''net:[5]'' else None)\<rparr>,
     lx_files = (\<lambda>f. if f = ''/proc/30/status'' then Some (unlines [''Name:'' @ [CHR 0x09] @ ''sh'', ''PPid:'' @ [CHR 0x09] @ ''1''])
       else if f = ''/proc/1/status'' then Some (unlines [''Name:'' @ [CHR 0x09] @ ''init'', ''PPid:'' @ [CHR 0x09] @ ''0'']) else None),
     lx_dirs = (\<lambda>d. if d = ''/proc/self/ns'' then Some [''.'', ''..'', ''uts'', ''net'', ''ipc''] else None),
     lx_user_name = (\<lambda>_. None), lx_group_name = (\<lambda>_. None), lx_getpid = 30,
     lx_heap = \<lparr>cells = Map.empty, brk = 1, lim = 100\<rparr>\<rparr>"

theorem show_namespaces_sorted_witness:
  "show_namespaces_linux example_linux =
   Inr [C_object_open, C_entry ''net'' ''%s'' [PStr ''net:[5]''], C_object_close,
        C_object_open, C_entry ''uts'' ''%s'' [PStr ''uts:[7]''], C_object_close]"
proof -
  let ?e = "[''.'', ''..'', ''uts'', ''net'', ''ipc'']"
  have r: "read_link example_linux f = (if f = ''/proc/self/ns/uts'' then Some ''uts:[7]''
      else if f = ''/proc/self/ns/net'' then Some ''net:[5]'' else None)" for f
    by (simp add: read_link_def example_linux_def PATH_MAX_def)
  have t: "ns_text example_linux ''uts'' = ''uts uts:[7]''" "ns_text example_linux ''net'' = ''net net:[5]''"
    by (simp_all add: ns_text_def r cstr_def)
  have "sort [''uts uts:[7]'', ''net net:[5]''] = [''net net:[5]'', ''uts uts:[7]'']" by (simp add: less_eq_char_def)
  then show ?thesis
    using show_namespaces_sorted [of example_linux ?e]
    by (simp add: ns_names_def ns_ok_def r t ns_calls_def strsep_def) (simp add: example_linux_def wf_heap_def)
qed


text \<open>
  C34: \<open>linux_kernel_version\<close> compares versions in the lexicographic order, the parts the caller
  leaves out not counted, as long as every part is below 256.
\<close>

theorem kernel_version_correct:
  assumes "a < 256" "b < 256" "c < 256" "0 < major" "major < 256" "minor < 256" "revision < 256" "no_digit_next rest"
  shows "linux_kernel_version (dec a @ ''.'' @ dec b @ ''.'' @ dec c @ rest) (int major) (int minor) (int revision) =
      Inr (major < a \<or> major = a \<and> (minor < b \<or> minor = b \<and> revision \<le> c)) \<and>
    linux_kernel_version (dec a @ ''.'' @ dec b @ ''.'' @ dec c @ rest) (int major) (int minor) (-1) =
      Inr (major < a \<or> major = a \<and> minor \<le> b)"
proof -
  have "[int a, int b, int c] ! 2 = int c" by simp
  then show ?thesis
    using assms pack_less_eq [of major minor revision a b c] pack_less_eq [of major minor 0 a b c]
    by (auto simp: linux_kernel_version_def scan_version pack_omits_revision simp del: append.simps append_assoc)
qed

theorem kernel_version_correct_witness:
  "linux_kernel_version (dec 5 @ ''.'' @ dec 15 @ ''.'' @ dec 0 @ ''-91-generic'') (int 2) (int 6) (int 25) = Inr True \<and>
   linux_kernel_version (dec 5 @ ''.'' @ dec 15 @ ''.'' @ dec 0 @ ''-91-generic'') (int 5) (int 16) (-1) = Inr False"
proof -
  have "no_digit_next ''-91-generic''" by (simp add: no_digit_next_def is_digit_def)
  with kernel_version_correct [of 5 15 0 2 6 25 "''-91-generic''"] kernel_version_correct [of 5 15 0 5 16 0 "''-91-generic''"]
  show ?thesis by (simp del: append.simps)
qed

text \<open>The parts are cut to eight bits: revision 256 of a long-term kernel counts as revision 0.\<close>

lemma kernel_version_wraps: "linux_kernel_version ''4.9.256'' 4 9 1 = Inr False"
  by code_simp

section \<open>The chain of parents\<close>

text \<open>A status file: the name first, the parent later, other lines around them.\<close>

definition status_file :: "linux_queries \<Rightarrow> string \<Rightarrow> string \<Rightarrow> string \<Rightarrow> bool" where
  "status_file q p name pp \<longleftrightarrow> (\<exists>mid post.
     let ls = (''Name:'' @ [CHR 0x09] @ name) # mid @ (''PPid:'' @ [CHR 0x09] @ pp) # post in
     lx_files q (''/proc/'' @ p @ ''/status'') = Some (unlines ls) \<and> text_lines PROCENV_BUFFER ls \<and>
     (\<forall>l \<in> set mid. \<not> starts_with ''Name:'' l \<and> \<not> starts_with ''PPid:'' l) \<and>
     length name \<le> PROCENV_TASK_COMM_NAME_LEN \<and> length pp \<le> PROCENV_TASK_COMM_NAME_LEN)"

definition ancestor_text :: "string \<Rightarrow> string \<Rightarrow> string" where
  "ancestor_text p name = p @ '' ('' @ [CHR 0x27] @ name @ [CHR 0x27] @ '')''"

text \<open>The text for a process: up to the first process, or to one whose status cannot be read.\<close>

inductive ancestors :: "linux_queries \<Rightarrow> string \<Rightarrow> string \<Rightarrow> bool" for q where
  unreadable: "lx_files q (''/proc/'' @ p @ ''/status'') = None \<Longrightarrow> ancestors q p UNKNOWN_STR"
| init: "status_file q ''1'' name pp \<Longrightarrow> ancestors q ''1'' (ancestor_text ''1'' name)"
| step: "p \<noteq> ''1'' \<Longrightarrow> nul \<notin> set p \<Longrightarrow> status_file q p name p' \<Longrightarrow> ancestors q p' t \<Longrightarrow>
    ancestors q p (ancestor_text p name @ '', '' @ t)"

lemma status_scan_skip:
  "\<forall>l \<in> set mid. \<not> starts_with ''Name:'' l \<and> \<not> starts_with ''PPid:'' l \<Longrightarrow>
   status_scan (map (\<lambda>l. l @ [CHR 0x0A]) mid @ rest) np = status_scan rest np"
  by (induction mid arbitrary: np) auto

lemma status_file_scan:
  assumes "status_file q p name pp"
  shows "\<exists>content. lx_files q (''/proc/'' @ p @ ''/status'') = Some content \<and>
    status_scan (fgets_all PROCENV_BUFFER content) np = Inr (Some name, Some pp) \<and> nul \<notin> set name"
proof -
  obtain mid post where f: "lx_files q (''/proc/'' @ p @ ''/status'') =
      Some (unlines ((''Name:'' @ [CHR 0x09] @ name) # mid @ (''PPid:'' @ [CHR 0x09] @ pp) # post))"
    and t: "text_lines PROCENV_BUFFER ((''Name:'' @ [CHR 0x09] @ name) # mid @ (''PPid:'' @ [CHR 0x09] @ pp) # post)"
    and m: "\<forall>l \<in> set mid. \<not> starts_with ''Name:'' l \<and> \<not> starts_with ''PPid:'' l"
    and l: "length name \<le> PROCENV_TASK_COMM_NAME_LEN" "length pp \<le> PROCENV_TASK_COMM_NAME_LEN"
    using assms by (auto simp: status_file_def Let_def)
  have n: "starts_with ''Name:'' (''Name:'' @ [CHR 0x09] @ name)" "\<not> starts_with ''PPid:'' (''Name:'' @ [CHR 0x09] @ name)"
    "starts_with ''PPid:'' (''PPid:'' @ [CHR 0x09] @ pp)" "\<not> starts_with ''Name:'' (''PPid:'' @ [CHR 0x09] @ pp)"
    by (simp_all add: starts_with_def)
  have v: "field_value ''Name:'' (''Name:'' @ [CHR 0x09] @ name) = Inr name" "field_value ''PPid:'' (''PPid:'' @ [CHR 0x09] @ pp) = Inr pp"
    using l by (simp_all add: field_value_def)
  have d: "drop_last ((''Name:'' @ [CHR 0x09] @ name) @ [CHR 0x0A]) = Inr (''Name:'' @ [CHR 0x09] @ name)"
    "drop_last ((''PPid:'' @ [CHR 0x09] @ pp) @ [CHR 0x0A]) = Inr (''PPid:'' @ [CHR 0x09] @ pp)" by (rule drop_last_line)+
  have "status_scan (map (\<lambda>l. l @ [CHR 0x0A]) ((''Name:'' @ [CHR 0x09] @ name) # mid @ (''PPid:'' @ [CHR 0x09] @ pp) # post)) np =
      Inr (Some name, Some pp)"
    using n v by (simp only: list.map map_append status_scan.simps status_scan_skip [OF m] d bindE_simps if_True if_False fst_conv snd_conv)
  moreover have "nul \<notin> set name" using t by (simp add: text_lines_def)
  ultimately show ?thesis using f fgets_all_lines [OF t] by metis
qed

lemma format_ancestor:
  "format (''%s ('' @ quoted_s @ '')'') [PStr p, PStr name] = Some (ancestor_text p name)"
  "format (''%s ('' @ quoted_s @ ''), '') [PStr p, PStr name] = Some (ancestor_text p name @ '', '')"
  "format ''%s'' [PStr p] = Some p"
proof -
  have c: "char_of (32 :: nat) = CHR '' ''" "char_of (40 :: nat) = CHR ''(''" "char_of (41 :: nat) = CHR '')''"
    "char_of (39 :: nat) = CHR 0x27" "char_of (44 :: nat) = CHR '',''"
    by (simp_all add: char_of_def bit_iff_odd)
  show "format (''%s ('' @ quoted_s @ '')'') [PStr p, PStr name] = Some (ancestor_text p name)"
    "format (''%s ('' @ quoted_s @ ''), '') [PStr p, PStr name] = Some (ancestor_text p name @ '', '')"
    "format ''%s'' [PStr p] = Some p"
    by (simp_all add: format_def quoted_s_def fmt_eval ancestor_text_def c comp_def)
qed

lemma proc_branch_text:
  assumes "ancestors q p t"
  shows "list_holds str s \<Longrightarrow> alloc_ok env (length s + length t + 9) \<Longrightarrow>
    \<exists>b. proc_branch env q p np str = Some (Inr (Some b)) \<and> cbuf b (s @ t)"
  using assms
proof (induction arbitrary: np str s rule: ancestors.induct)
  case (unreadable p)
  have "nul \<notin> set UNKNOWN_STR" by (simp add: UNKNOWN_STR_def)
  from appendf_list [OF unreadable(2) format_ancestor(3) this unreadable(3)] obtain b
    where "appendf env str ''%s'' [PStr UNKNOWN_STR] = Inr (Some b)" "cbuf b (s @ UNKNOWN_STR)" by blast
  then show ?case using unreadable(1) by (subst proc_branch.simps) (simp add: branch_step_def)
next
  case (init name pp)
  obtain content where c: "lx_files q (''/proc/'' @ ''1'' @ ''/status'') = Some content"
      "status_scan (fgets_all PROCENV_BUFFER content) np = Inr (Some name, Some pp)" "nul \<notin> set name"
    using status_file_scan [OF init(1)] by blast
  then have "nul \<notin> set (ancestor_text ''1'' name)" by (simp add: ancestor_text_def)
  from appendf_list [OF init(2) format_ancestor(1) this init(3)] obtain b
    where "appendf env str (''%s ('' @ quoted_s @ '')'') [PStr ''1'', PStr name] = Inr (Some b)"
      "cbuf b (s @ ancestor_text ''1'' name)" by blast
  then show ?case using c by (subst proc_branch.simps) (simp add: branch_step_def stored_def)
next
  case (step p name p' t)
  obtain content where c: "lx_files q (''/proc/'' @ p @ ''/status'') = Some content"
      "status_scan (fgets_all PROCENV_BUFFER content) np = Inr (Some name, Some p')" "nul \<notin> set name"
    using status_file_scan [OF step(3)] by blast
  let ?e = "ancestor_text p name @ '', ''"
  have "nul \<notin> set ?e" using c(3) step(2) by (simp add: ancestor_text_def)
  moreover have "alloc_ok env (length s + length ?e + 9)" using step(7) by (simp add: alloc_ok_def)
  ultimately obtain b where b: "appendf env str (''%s ('' @ quoted_s @ ''), '') [PStr p, PStr name] = Inr (Some b)" "cbuf b (s @ ?e)"
    using appendf_list [OF step(6) format_ancestor(2)] by blast
  then have "list_holds (Some b) (s @ ?e)" by (simp add: list_holds_def)
  moreover have "alloc_ok env (length (s @ ?e) + length t + 9)" using step(7) by (simp add: add.assoc)
  ultimately obtain b' where "proc_branch env q p' (Some name, Some p') (Some b) = Some (Inr (Some b'))" "cbuf b' ((s @ ?e) @ t)"
    using step.IH by blast
  then show ?case using b c step(1) by (subst proc_branch.simps) (simp add: branch_step_def stored_def)
qed

text \<open>
  C16: the ancestry of the process is found: for every chain of readable status files that ends at the
  first process or at a process whose file cannot be read, the loop over the parents ends and prints the
  whole chain.
\<close>

theorem ancestry_found:
  assumes "format ''%d'' [PInt (lx_getpid q)] = Some p" "ancestors q p t" "alloc_ok env (length t + 9)"
  shows "handle_proc_branch_linux env q = Inr [C_entry ''ancestry'' ''%s'' [PStr t]]"
proof -
  obtain b where "proc_branch env q p (None, None) None = Some (Inr (Some b))" "cbuf b t"
    using proc_branch_text [OF assms(2), of None "[]" env] assms(3) by (auto simp: list_holds_def)
  then show ?thesis using assms(1) by (simp add: handle_proc_branch_linux_def buf_str_def)
qed

theorem ancestry_found_witness:
  "handle_proc_branch_linux ascii_env example_linux = Inr [C_entry ''ancestry'' ''%s''
     [PStr (''30 ('' @ [CHR 0x27] @ ''sh'' @ [CHR 0x27] @ ''), 1 ('' @ [CHR 0x27] @ ''init'' @ [CHR 0x27] @ '')'')]]"
proof -
  have "status_file example_linux ''30'' ''sh'' ''1''"
    unfolding status_file_def Let_def
    by (rule exI [of _ "[]"], rule exI [of _ "[]"])
      (simp add: example_linux_def text_lines_def PROCENV_BUFFER_def PROCENV_TASK_COMM_NAME_LEN_def)
  moreover have "status_file example_linux ''1'' ''init'' ''0''"
    unfolding status_file_def Let_def
    by (rule exI [of _ "[]"], rule exI [of _ "[]"])
      (simp add: example_linux_def text_lines_def PROCENV_BUFFER_def PROCENV_TASK_COMM_NAME_LEN_def)
  ultimately have a: "ancestors example_linux ''30'' (ancestor_text ''30'' ''sh'' @ '', '' @ ancestor_text ''1'' ''init'')"
    using ancestors.step [OF _ _ _ ancestors.init, of "''30''" example_linux "''sh''"] by simp
  have f: "format ''%d'' [PInt (lx_getpid example_linux)] = Some ''30''" by code_simp
  show ?thesis
    using ancestry_found [OF f a, of ascii_env] by (simp add: ancestor_text_def alloc_ok_def ascii_env_def)
qed

end
