(* ===== verification/LinuxSys.thy ===== *)
theory LinuxSys
  imports LinuxProc
begin

text \<open>
  The Linux driver (\<^verbatim>\<open>platform/linux/platform.c\<close>), second part: interprocess communication,
  \<^verbatim>\<open>prctl\<close>, capabilities, priorities, limits, NUMA memory, the scheduler and the CPU set.
\<close>

unbundle bit_operations_syntax

section \<open>What the system answers\<close>

record ipc_perm =
  ip_key :: int
  ip_seq :: nat
  ip_mode :: "32 word"
  ip_cuid :: nat
  ip_cgid :: nat
  ip_uid :: nat
  ip_gid :: nat

record msqid_ds =
  msg_perm :: ipc_perm
  msg_stime :: int
  msg_rtime :: int
  msg_ctime :: int
  msg_cbytes :: nat
  msg_qnum :: nat
  msg_qbytes :: nat
  msg_lspid :: int
  msg_lrpid :: int

record semid_ds =
  sem_perm :: ipc_perm
  sem_otime :: int
  sem_ctime :: int
  sem_nsems :: nat

record shmid_ds =
  shm_perm :: ipc_perm
  shm_segsz :: nat
  shm_atime :: int
  shm_dtime :: int
  shm_ctime :: int
  shm_cpid :: int
  shm_lpid :: int
  shm_nattch :: nat

text \<open>
  \<open>sy_*_info\<close>: the highest index and the numbers of the summary, by name. \<open>sy_prctl\<close>: the result of a
  query and the number it stored. \<open>sy_caps\<close>: the flags of the process, by kind and number.
  \<open>sy_const\<close>: the value of a constant of the system headers.
\<close>

record sys_queries =
  sy_linux :: linux_queries
  sy_const :: "string \<Rightarrow> int"
  sy_ctime :: "int \<Rightarrow> string option"
  sy_msg_info :: "(nat \<times> (string \<Rightarrow> int)) option"
  sy_msg_stat :: "nat \<Rightarrow> (int \<times> msqid_ds) option"
  sy_sem_info :: "(nat \<times> (string \<Rightarrow> int)) option"
  sy_sem_stat :: "nat \<Rightarrow> (int \<times> semid_ds) option"
  sy_shm_info :: "(nat \<times> (string \<Rightarrow> int)) option"
  sy_shm_stat :: "nat \<Rightarrow> (int \<times> shmid_ds) option"
  sy_prctl :: "string \<Rightarrow> int \<times> int"
  sy_prctl_name :: string
  sy_caps :: "(string \<Rightarrow> int \<Rightarrow> int) option"
  sy_cap_bound :: "int \<Rightarrow> int"
  sy_cap_ambient :: "int \<Rightarrow> int"
  sy_aa_context :: "(string \<times> string option) option option"
  sy_selinux :: "int \<times> int"
  sy_selinux_context :: "string option"
  sy_ioprio :: "int \<Rightarrow> int"
  sy_scheduler :: int
  sy_numa :: "(int option \<times> int \<times> int \<times> (nat \<times> (nat \<Rightarrow> bool)) option) option"
  sy_lock_status :: "int \<Rightarrow> termios option"
  sy_pflags :: "string \<Rightarrow> 32 word option"
  sy_getcpu :: int
  sy_affinity :: "nat \<Rightarrow> (nat \<Rightarrow> bool) option option"

abbreviation sy_defd :: "sys_queries \<Rightarrow> string \<Rightarrow> bool" where
  "sy_defd q \<equiv> gq_defd (lx_generic (sy_linux q))"

section \<open>Interprocess communication\<close>

definition CTIME_BUFFER :: nat where "CTIME_BUFFER = 32"

definition time_text :: "sys_queries \<Rightarrow> int \<Rightarrow> string res" where
  "time_text q t = format_time (sy_ctime q t) (replicate CTIME_BUFFER (CHR ''?'')) CTIME_BUFFER"

definition time_or_na :: "sys_queries \<Rightarrow> int \<Rightarrow> string res" where
  "time_or_na q t = (if t \<noteq> 0 then time_text q t else Inr NA_STR)"

definition mode_text :: "cenv \<Rightarrow> ipc_perm \<Rightarrow> string res" where
  "mode_text env p =
     (case format_perms env (ip_mode p) of
        None \<Rightarrow> Inl (Die ''failed to allocate space for permissions string'')
      | Some s \<Rightarrow> Inr s)"

definition id_text :: "cenv \<Rightarrow> int \<Rightarrow> string res" where
  "id_text env i = bindE (appendf env None ''%d'' [PInt i]) buf_str"

definition info_section :: "(string \<times> string) list \<Rightarrow> (string \<Rightarrow> int) \<Rightarrow> report" where
  "info_section flds info = in_section ''info'' (Inr (map (\<lambda>f. C_entry (fst f) (snd f) [PInt (info (fst f))]) flds))"

definition key_entries :: "ipc_perm \<Rightarrow> call list" where
  "key_entries p = [C_entry ''key'' ''0x%.*x'' [PInt 16, PInt (ip_key p)], C_entry ''sequence'' ''%u'' [PInt (int (ip_seq p))]]"

definition perm_section :: "ipc_perm \<Rightarrow> string \<Rightarrow> report" where
  "perm_section p modestr =
     in_section ''permissions'' (Inr
       [C_entry ''octal'' ''%4.4o'' [PInt (uint (ip_mode p))], C_entry ''symbolic'' ''%s'' [PStr modestr]])"

definition owner_sections :: "linux_queries \<Rightarrow> ipc_perm \<Rightarrow> report" where
  "owner_sections q p =
     (let id_name = ''%u ('' @ quoted_s @ '')''; ent = (\<lambda>n f i. C_entry n id_name [PInt (int i), str_arg (f i)]) in
      reports
       [in_section ''creator'' (Inr [ent ''euid'' (lx_user_name q) (ip_cuid p), ent ''egid'' (lx_group_name q) (ip_cgid p)]),
        in_section ''owner'' (Inr [ent ''uid'' (lx_user_name q) (ip_uid p), ent ''gid'' (lx_group_name q) (ip_gid p)])])"

definition stamp :: "string \<Rightarrow> int \<Rightarrow> string \<Rightarrow> call" where
  "stamp name t text = C_entry name ''%lu (%s)'' [PInt t, PStr text]"

definition pid_entry :: "string \<Rightarrow> int \<Rightarrow> string option \<Rightarrow> call" where
  "pid_entry name p pname = C_entry name ''%d (%s)'' [PInt p, PStr (case pname of Some n \<Rightarrow> n | None \<Rightarrow> UNKNOWN_STR)]"

text \<open>The frame the three routines share: a summary, then a container with one object around everything.\<close>

definition ipc_report ::
  "(nat \<times> (string \<Rightarrow> int)) option \<Rightarrow> (string \<times> string) list \<Rightarrow> string \<Rightarrow> (nat \<Rightarrow> report) \<Rightarrow> report"
where
  "ipc_report info flds name one =
     (case info of
        None \<Rightarrow> Inr []
      | Some (mx, values) \<Rightarrow>
          reports [info_section flds values,
            in_container name (in_object (reports (map one [0..<Suc mx])))])"

definition show_msg_queue :: "cenv \<Rightarrow> sys_queries \<Rightarrow> nat \<Rightarrow> report" where
  "show_msg_queue env q i =
     (case sy_msg_stat q i of
        None \<Rightarrow> Inr []
      | Some (ident, ds) \<Rightarrow>
          let p = msg_perm ds in
          bindE (mode_text env p) (\<lambda>modestr.
          bindE (time_or_na q (msg_stime ds)) (\<lambda>stime.
          bindE (time_or_na q (msg_rtime ds)) (\<lambda>rtime.
          bindE (time_or_na q (msg_ctime ds)) (\<lambda>ctime.
          bindE (pid_to_name env (sy_linux q) (msg_lspid ds)) (\<lambda>lspid.
          bindE (pid_to_name env (sy_linux q) (msg_lrpid ds)) (\<lambda>lrpid.
          bindE (id_text env ident) (\<lambda>id_str.
          in_container id_str (in_object (reports
            [Inr (key_entries p),
             perm_section p modestr,
             owner_sections (sy_linux q) p,
             in_section ''times'' (Inr
               [stamp ''last send (stime)'' (msg_stime ds) stime,
                stamp ''last receive (rtime)'' (msg_rtime ds) rtime,
                stamp ''last change (ctime)'' (msg_ctime ds) ctime]),
             Inr [C_entry ''queue_bytes'' ''%lu'' [PInt (int (msg_cbytes ds))],
                  C_entry ''msg_qnum'' ''%lu'' [PInt (int (msg_qnum ds))],
                  C_entry ''msg_qbytes'' ''%lu'' [PInt (int (msg_qbytes ds))],
                  pid_entry ''last msgsnd pid'' (msg_lspid ds) lspid,
                  pid_entry ''last msgrcv pid'' (msg_lrpid ds) lrpid]]))))))))))"

definition show_msg_queues_linux :: "cenv \<Rightarrow> sys_queries \<Rightarrow> report" where
  "show_msg_queues_linux env q =
     ipc_report (sy_msg_info q)
       (map (\<lambda>n. (n, ''%d'')) [''msgpool'', ''msgmap'', ''msgmax'', ''msgmnb'', ''msgmni'', ''msgssz'', ''msgtql'', ''msgseg''])
       ''sets'' (show_msg_queue env q)"

definition show_semaphore :: "cenv \<Rightarrow> sys_queries \<Rightarrow> nat \<Rightarrow> report" where
  "show_semaphore env q i =
     (case sy_sem_stat q i of
        None \<Rightarrow> Inr []
      | Some (ident, ds) \<Rightarrow>
          let p = sem_perm ds in
          bindE (mode_text env p) (\<lambda>modestr.
          bindE (time_or_na q (sem_otime ds)) (\<lambda>otime.
          bindE (time_text q (sem_ctime ds)) (\<lambda>ctime.
          bindE (id_text env ident) (\<lambda>id_str.
          in_container id_str (in_object (reports
            [Inr (key_entries p @ [C_entry ''number in set'' ''%lu'' [PInt (int (sem_nsems ds))]]),
             perm_section p modestr,
             owner_sections (sy_linux q) p,
             in_section ''times'' (Inr
               [stamp ''last semop (otime)'' (sem_otime ds) otime,
                stamp ''last change (ctime)'' (sem_ctime ds) ctime])])))))))"

definition show_semaphores_linux :: "cenv \<Rightarrow> sys_queries \<Rightarrow> report" where
  "show_semaphores_linux env q =
     ipc_report (sy_sem_info q)
       (map (\<lambda>n. (n, ''%d'')) [''semmap'', ''semmni'', ''semmns'', ''semmnu'', ''semmsl'', ''semopm'', ''semume'', ''semusz'', ''semvmx'', ''semaem''])
       ''set'' (show_semaphore env q)"

definition SHM_LOCKED :: "32 word" where "SHM_LOCKED = 0x400"
definition SHM_DEST :: "32 word" where "SHM_DEST = 0x200"

definition show_segment :: "cenv \<Rightarrow> sys_queries \<Rightarrow> nat \<Rightarrow> report" where
  "show_segment env q i =
     (case sy_shm_stat q i of
        None \<Rightarrow> Inr []
      | Some (ident, ds) \<Rightarrow>
          let p = shm_perm ds in
          bindE (mode_text env p) (\<lambda>modestr.
          bindE (time_text q (shm_atime ds)) (\<lambda>atime.
          bindE (time_text q (shm_ctime ds)) (\<lambda>ctime.
          bindE (time_text q (shm_dtime ds)) (\<lambda>dtime.
          bindE (pid_to_name env (sy_linux q) (shm_cpid ds)) (\<lambda>cpid.
          bindE (pid_to_name env (sy_linux q) (shm_lpid ds)) (\<lambda>lpid.
          bindE (id_text env ident) (\<lambda>id_str.
          in_container id_str (in_object (reports
            [Inr (key_entries p),
             perm_section p modestr,
             in_section ''pids'' (Inr [pid_entry ''create'' (shm_cpid ds) cpid, pid_entry ''last'' (shm_lpid ds) lpid]),
             Inr [C_entry ''attachers'' ''%lu'' [PInt (int (shm_nattch ds))]],
             owner_sections (sy_linux q) p,
             Inr [C_entry ''segment size'' ''%lu'' [PInt (int (shm_segsz ds))]],
             in_section ''times'' (Inr
               [stamp ''last attach (atime)'' (shm_atime ds) atime,
                stamp ''last detach (dtime)'' (shm_dtime ds) dtime,
                stamp ''last change (ctime)'' (shm_ctime ds) ctime]),
             Inr [C_entry ''locked'' ''%s'' [yes_no (ip_mode p AND SHM_LOCKED \<noteq> 0)],
                  C_entry ''destroy'' ''%s'' [yes_no (ip_mode p AND SHM_DEST \<noteq> 0)]]]))))))))))"

definition show_shared_mem_linux :: "cenv \<Rightarrow> sys_queries \<Rightarrow> report" where
  "show_shared_mem_linux env q =
     ipc_report (sy_shm_info q)
       [(''segments'', ''%u''), (''pages'', ''%lu''), (''shm_rss'', ''%lu''), (''shm_swp'', ''%lu''),
        (''swap_attempts'', ''%lu''), (''swap_successes'', ''%lu'')]
       ''segments'' (show_segment env q)"

section \<open>Completeness of the communication part\<close>

lemma shape_entry_like_ipc [simp]:
  "\<not> in_con stk \<Longrightarrow> step_shape (stamp n t x) stk = Some stk"
  "\<not> in_con stk \<Longrightarrow> step_shape (pid_entry n p y) stk = Some stk"
  "\<not> in_con stk \<Longrightarrow> shape (key_entries perm @ cs) stk = shape cs stk"
  "\<not> in_con stk \<Longrightarrow> shape (key_entries perm) stk = Some stk"
  by (simp_all add: stamp_def pid_entry_def key_entries_def)

lemma ipc_parts_complete [complete_intros]:
  "members_report (info_section flds info)" "members_report (perm_section p m)" "members_report (owner_sections lq p)"
  unfolding info_section_def perm_section_def owner_sections_def Let_def
  by (intro complete_intros; simp add: flat_calls)+

lemma ipc_report_complete [complete_intros]:
  "(\<And>i. members_report (one i)) \<Longrightarrow> members_report (ipc_report info flds name one)"
  unfolding ipc_report_def by (intro complete_intros; simp add: flat_calls)

lemma ipc_one_complete [complete_intros]:
  "members_report (show_msg_queue env q i)" "members_report (show_semaphore env q i)" "members_report (show_segment env q i)"
  unfolding show_msg_queue_def show_semaphore_def show_segment_def Let_def
  by (intro complete_intros; simp add: flat_calls)+

lemma ipc_complete [complete_intros]:
  "members_report (show_msg_queues_linux env q)" "members_report (show_semaphores_linux env q)"
  "members_report (show_shared_mem_linux env q)"
  unfolding show_msg_queues_linux_def show_semaphores_linux_def show_shared_mem_linux_def
  by (intro complete_intros)+


section \<open>Process control\<close>

text \<open>The name for a number in a \<^verbatim>\<open>switch\<close>; the word for unknown otherwise, or when the query failed.\<close>

definition switch_name :: "(int \<times> string) list \<Rightarrow> int \<Rightarrow> int \<Rightarrow> parg" where
  "switch_name alts rc v = PStr (if rc < 0 then UNKNOWN_STR else case map_of alts v of Some s \<Rightarrow> s | None \<Rightarrow> UNKNOWN_STR)"

text \<open>A query that is compiled in when its constant is defined and made when the kernel is new enough.\<close>

definition prctl_part :: "sys_queries \<Rightarrow> string \<Rightarrow> bool res \<Rightarrow> (int \<Rightarrow> int \<Rightarrow> call) \<Rightarrow> report" where
  "prctl_part q option_name new f =
     (if sy_defd q option_name
      then since new (let (rc, arg2) = sy_prctl q option_name in Inr [f rc arg2])
      else Inr [])"

definition prctl_number :: "string \<Rightarrow> string \<Rightarrow> int \<Rightarrow> int \<Rightarrow> call" where
  "prctl_number name fmt rc v =
     (if rc < 0 then C_entry name ''%s'' [PStr UNKNOWN_STR] else C_entry name fmt [PInt v])"

text \<open>The parent death signal is reported as disabled whenever the query succeeds: the test is on the
  result of the call, which is then 0, and not on the signal it stored.\<close>

definition prctl_named :: "string \<Rightarrow> (int \<times> string) list \<Rightarrow> int \<Rightarrow> int \<Rightarrow> call" where
  "prctl_named name alts rc v = C_entry name ''%s'' [switch_name alts rc v]"

text \<open>The queries in the order of the code, in three parts.\<close>

definition prctl_first :: "sys_queries \<Rightarrow> globals \<Rightarrow> report list" where
  "prctl_first q g =
     [prctl_part q ''PR_GET_ENDIAN'' (LINUX_KERNEL_MMR g 2 6 18) (\<lambda>rc arg2.
        prctl_named ''process endian'' [(0, ''big''), (1, ''little''), (2, ''PowerPC pseudo little endian'')] rc arg2),
      prctl_part q ''PR_GET_DUMPABLE'' (LINUX_KERNEL_MMR g 2 3 20) (\<lambda>rc arg2.
        prctl_named ''dumpable'' [(0, NO_STR), (1, YES_STR), (2, ''root-only'')] rc rc),
      prctl_part q ''PR_GET_FPEMU'' (LINUX_KERNEL_MMR g 2 4 18) (\<lambda>rc arg2.
        prctl_named ''floating point emulation'' [(1, YES_STR), (2, ''send SIGFPE'')] rc arg2),
      prctl_part q ''PR_GET_FPEXC'' (LINUX_KERNEL_MMR g 2 4 21) (\<lambda>rc arg2.
        prctl_named ''floating point exceptions''
          [(0x80, ''software''), (0, ''disabled''), (1, ''non-recoverable''), (2, ''asynchronous''), (3, ''precise'')] rc arg2),
      prctl_part q ''PR_GET_NAME'' (LINUX_KERNEL_MMR g 2 6 11) (\<lambda>rc arg2.
        C_entry ''process name'' ''%s'' [PStr (if rc < 0 then UNKNOWN_STR else sy_prctl_name q)]),
      prctl_part q ''PR_GET_PDEATHSIG'' (LINUX_KERNEL_MMR g 2 3 15) (\<lambda>rc arg2.
        if rc < 0 then C_entry ''parent death signal'' ''%s'' [PStr UNKNOWN_STR]
        else if rc = 0 then C_entry ''parent death signal'' ''disabled'' []
        else C_entry ''parent death signal'' ''%d'' [PInt arg2])]"

definition prctl_second :: "sys_queries \<Rightarrow> globals \<Rightarrow> report list" where
  "prctl_second q g =
     [prctl_part q ''PR_GET_SECCOMP'' (LINUX_KERNEL_MMR g 2 6 23) (\<lambda>rc arg2.
        prctl_named ''secure computing'' [(0, ''disabled''), (1, ''read/write/exit (mode 1)''), (2, ''BPF (mode 2)'')] rc rc),
      prctl_part q ''PR_GET_TIMING'' (LINUX_KERNEL_MMR g 2 6 1) (\<lambda>rc arg2.
        prctl_named ''process timing'' [(0, ''statistical''), (1, ''time-stamp'')] rc rc),
      prctl_part q ''PR_GET_TSC'' (LINUX_KERNEL_MMR g 2 6 26) (\<lambda>rc arg2.
        prctl_named ''timestamp counter read'' [(1, ''enabled''), (2, ''segmentation fault'')] rc arg2),
      prctl_part q ''PR_GET_UNALIGN'' (LINUX_KERNEL_MMR g 2 3 48) (\<lambda>rc arg2.
        prctl_named ''unaligned access'' [(1, ''fix-up''), (2, ''send SIGBUS'')] rc arg2),
      prctl_part q ''PR_MCE_KILL_GET'' (LINUX_KERNEL_MMR g 2 6 32) (\<lambda>rc arg2.
        prctl_named ''machine-check exception'' [(2, ''system default''), (1, ''early kill''), (0, ''late kill'')] rc rc)]"

definition prctl_third :: "sys_queries \<Rightarrow> globals \<Rightarrow> report list" where
  "prctl_third q g =
     [prctl_part q ''PR_GET_NO_NEW_PRIVS'' (LINUX_KERNEL_MM g 3 5) (\<lambda>rc arg2.
        prctl_named ''no new privileges'' [(0, ''normal execve''), (1, ''enabled'')] rc rc),
      prctl_part q ''PR_GET_TIMERSLACK'' (LINUX_KERNEL_MMR g 2 6 28) (\<lambda>rc arg2. prctl_number ''timer slack'' ''%dns'' rc rc),
      prctl_part q ''PR_GET_CHILD_SUBREAPER'' (LINUX_KERNEL_MM g 3 4) (\<lambda>rc arg2.
        C_entry ''child subreaper'' ''%s'' [if rc < 0 then PStr UNKNOWN_STR else yes_no (arg2 \<noteq> 0)]),
      prctl_part q ''PR_GET_TID_ADDRESS'' (Inr True) (\<lambda>rc arg2. prctl_number ''clear child tid address'' ''%p'' rc arg2),
      prctl_part q ''PR_GET_SPECULATION_CTRL'' (Inr True) (\<lambda>rc arg2. prctl_number ''speculation'' ''0x%x'' rc rc),
      prctl_part q ''PR_GET_TAGGED_ADDR_CTRL'' (Inr True) (\<lambda>rc arg2. prctl_number ''tagged address mode'' ''%d'' rc rc),
      prctl_part q ''PR_GET_FP_MODE'' (Inr True) (\<lambda>rc arg2. prctl_number ''floating-point mode'' ''0x%x'' rc rc),
      prctl_part q ''PR_GET_IO_FLUSHER'' (Inr True) (\<lambda>rc arg2. prctl_number ''I/O flusher state'' ''%d'' rc rc),
      prctl_part q ''PR_GET_THP_DISABLE'' (Inr True) (\<lambda>rc arg2. prctl_number ''THP disable flag'' ''%d'' rc rc)]"

definition show_prctl_linux :: "sys_queries \<Rightarrow> globals \<Rightarrow> report" where
  "show_prctl_linux q g = reports (prctl_first q g @ prctl_second q g @ prctl_third q g)"

section \<open>Capabilities\<close>

definition get_ambient_capability :: "sys_queries \<Rightarrow> globals \<Rightarrow> int \<Rightarrow> bool res" where
  "get_ambient_capability q g cap =
     bindE (LINUX_KERNEL_MMR g 4 3 0) (\<lambda>new. Inr (new \<and> sy_cap_ambient q cap = 1))"

definition NOT_DEFINED_STR :: string where "NOT_DEFINED_STR = ''not defined''"

definition cap_state :: "int \<Rightarrow> parg" where
  "cap_state v = PStr (if v < 0 then NOT_DEFINED_STR else if v = 1 then YES_STR else NO_STR)"

text \<open>The entry for the ambient set prints the permitted set: the value that was read is only
  tested for an error, which it never is.\<close>

definition show_capability :: "sys_queries \<Rightarrow> globals \<Rightarrow> (string \<Rightarrow> int \<Rightarrow> int) \<Rightarrow> int \<Rightarrow> string \<Rightarrow> report" where
  "show_capability q g caps cap name =
     (let bound = sy_cap_bound q cap; permitted = caps ''CAP_PERMITTED'' cap in
      bindE (get_ambient_capability q g cap) (\<lambda>ambient.
      in_section name (Inr
        [C_entry ''number'' ''%d'' [PInt cap],
         C_entry ''supported'' ''%s'' [yes_no (0 \<le> sy_cap_bound q cap)],
         C_entry ''in bounding set'' ''%s'' [if bound < 0 then PStr UNKNOWN_STR else yes_no (bound \<noteq> 0)],
         C_entry ''ambient'' ''%s'' [yes_no (permitted = 1)],
         C_entry ''effective'' ''%s'' [cap_state (caps ''CAP_EFFECTIVE'' cap)],
         C_entry ''inheritable'' ''%s'' [cap_state (caps ''CAP_INHERITABLE'' cap)],
         C_entry ''permitted'' ''%s'' [cap_state permitted]])))"

definition basic_caps :: "string list" where
  "basic_caps =
     [''CAP_CHOWN'', ''CAP_DAC_OVERRIDE'', ''CAP_DAC_READ_SEARCH'', ''CAP_FOWNER'', ''CAP_FSETID'', ''CAP_KILL'',
      ''CAP_SETGID'', ''CAP_SETUID'', ''CAP_SETPCAP'', ''CAP_LINUX_IMMUTABLE'', ''CAP_NET_BIND_SERVICE'',
      ''CAP_NET_BROADCAST'', ''CAP_NET_ADMIN'', ''CAP_NET_RAW'', ''CAP_IPC_LOCK'', ''CAP_IPC_OWNER'', ''CAP_SYS_MODULE'',
      ''CAP_SYS_RAWIO'', ''CAP_SYS_CHROOT'', ''CAP_SYS_PTRACE'', ''CAP_SYS_PACCT'', ''CAP_SYS_ADMIN'', ''CAP_SYS_BOOT'',
      ''CAP_SYS_NICE'', ''CAP_SYS_RESOURCE'', ''CAP_SYS_TIME'', ''CAP_SYS_TTY_CONFIG'']"

text \<open>The loop over the capabilities the program was not built with, numbered from \<open>i\<close>. A kernel has at
  most 64 of them, so 64 rounds reach one it rejects.\<close>

fun unknown_caps :: "nat \<Rightarrow> cenv \<Rightarrow> sys_queries \<Rightarrow> globals \<Rightarrow> (string \<Rightarrow> int \<Rightarrow> int) \<Rightarrow> int \<Rightarrow> report" where
  "unknown_caps 0 env q g caps i = Inl Diverges"
| "unknown_caps (Suc f) env q g caps i =
     (if sy_cap_bound q i < 0 then Inr []
      else bindE (bindE (appendf env None ''CAP_LAST_CAP+%d'' [PInt i]) buf_str) (\<lambda>name.
        reports [show_capability q g caps i name, unknown_caps f env q g caps (i + 1)]))"

definition show_const :: "sys_queries \<Rightarrow> int \<Rightarrow> string \<Rightarrow> report" where
  "show_const q flags c = in_object (Inr [C_entry c ''%d'' [PInt (if flags AND sy_const q c \<noteq> 0 then 1 else 0)]])"

definition securebits_part :: "sys_queries \<Rightarrow> report" where
  "securebits_part q =
     (let (ret, _) = sy_prctl q ''PR_GET_SECUREBITS'' in
      if ret < 0 then Inr [C_entry ''securebits'' ''%s'' [PStr UNKNOWN_STR]]
      else in_section ''securebits'' (reports
        [Inr [C_entry ''value'' ''0x%x'' [PInt ret]],
         in_container ''fields'' (reports
           (map (show_const q ret) [''SECBIT_KEEP_CAPS'', ''SECBIT_NO_SETUID_FIXUP'', ''SECBIT_NOROOT'']))]))"

definition show_capabilities_linux :: "cenv \<Rightarrow> sys_queries \<Rightarrow> globals \<Rightarrow> report" where
  "show_capabilities_linux env q g =
     (if \<not> sy_defd q ''HAVE_SYS_CAPABILITY_H'' then Inr []
      else let count = C_entry ''count (CAP_LAST_CAP+1)'' ''%d'' [PInt (sy_const q ''CAP_LAST_CAP'' + 1)] in
        case sy_caps q of
          None \<Rightarrow> Inr [count]
        | Some caps \<Rightarrow>
            let cap = (\<lambda>c. show_capability q g caps (sy_const q c) c);
                newer = (\<lambda>c new. if sy_defd q c then since new (cap c) else Inr []);
                mmr = LINUX_KERNEL_MMR g; mm = LINUX_KERNEL_MM g
            in reports
              [Inr [count],
               in_section ''known'' (reports
                 [reports (map cap basic_caps),
                  since (mm 2 4) (reports [cap ''CAP_MKNOD'', cap ''CAP_LEASE'']),
                  since (mmr 2 6 11) (reports [cap ''CAP_AUDIT_WRITE'', cap ''CAP_AUDIT_CONTROL'']),
                  since (mmr 2 6 24) (cap ''CAP_SETFCAP''),
                  since (mmr 2 6 25) (reports [cap ''CAP_MAC_OVERRIDE'', cap ''CAP_MAC_ADMIN'']),
                  newer ''CAP_SYSLOG'' (mmr 2 6 37), newer ''CAP_WAKE_ALARM'' (mm 3 0), newer ''CAP_BLOCK_SUSPEND'' (mm 3 5),
                  newer ''CAP_AUDIT_READ'' (mm 3 16), newer ''CAP_PERFMON'' (mm 5 8), newer ''CAP_BPF'' (mm 5 8),
                  newer ''CAP_CHECKPOINT_RESTORE'' (mm 5 9)]),
               in_section ''unknown''
                 (if sy_defd q ''PR_CAPBSET_READ'' then unknown_caps 64 env q g caps (sy_const q ''CAP_LAST_CAP'' + 1) else Inr []),
               (if sy_defd q ''PR_GET_KEEPCAPS'' then
                  since (mmr 2 2 18) (let (ret, _) = sy_prctl q ''PR_GET_KEEPCAPS'' in
                    Inr [C_entry ''keep'' ''%s'' [if ret < 0 then PStr UNKNOWN_STR else yes_no (ret \<noteq> 0)]])
                else Inr []),
               (if sy_defd q ''PR_GET_SECUREBITS'' \<and> sy_defd q ''HAVE_LINUX_SECUREBITS_H''
                then since (mmr 2 6 26) (securebits_part q) else Inr [])])"

section \<open>Security modules\<close>

definition show_security_module_context_linux :: "sys_queries \<Rightarrow> report" where
  "show_security_module_context_linux q =
     bindE (if sy_defd q ''HAVE_APPARMOR'' then
              (case sy_aa_context q of
                 None \<Rightarrow> Inr (None, None)
               | Some None \<Rightarrow> Inl (Die ''failed to query AppArmor context'')
               | Some (Some (c, m)) \<Rightarrow> Inr (Some c, m))
            else Inr (None, None)) (\<lambda>(context, mode).
     bindE (if sy_defd q ''HAVE_SELINUX_SELINUX_H'' \<and> fst (sy_selinux q) \<noteq> 0 then
              (case sy_selinux_context q of
                 None \<Rightarrow> Inl (Die ''failed to query SELinux context'')
               | Some c \<Rightarrow> Inr (Some c))
            else Inr context) (\<lambda>ctx.
     Inr [case ctx of
            None \<Rightarrow> C_entry ''context'' ''%s'' [PStr UNKNOWN_STR]
          | Some c \<Rightarrow> (case mode of
              None \<Rightarrow> C_entry ''context'' ''%s'' [PStr c]
            | Some m \<Rightarrow> C_entry ''context'' ''%s (%s)'' [PStr c, PStr m])]))"

definition show_security_module_linux :: "sys_queries \<Rightarrow> report" where
  "show_security_module_linux q =
     (let lsm = (if sy_defd q ''HAVE_SELINUX_SELINUX_H'' \<and> fst (sy_selinux q) = 1 then
                   (if snd (sy_selinux q) = 1 then ''SELinux (MLS)'' else ''SELinux'')
                 else if sy_defd q ''HAVE_APPARMOR'' \<and> sy_aa_context q \<noteq> None then ''AppArmor''
                 else UNKNOWN_STR)
      in reports [Inr [C_entry ''name'' ''%s'' [PStr lsm]], show_security_module_context_linux q])"

section \<open>Priorities, limits, names\<close>

definition io_priorities_class_map :: procenv_map where
  "io_priorities_class_map =
     [(''IOPRIO_CLASS_NONE'', 0), (''IOPRIO_CLASS_RT'', 1), (''IOPRIO_CLASS_BE'', 2), (''IOPRIO_CLASS_IDLE'', 3),
      (''IOPRIO_CLASS_NORMAL'', 4)]"

definition IOPRIO_PRIO_CLASS :: "int \<Rightarrow> int" where "IOPRIO_PRIO_CLASS v = drop_bit 13 v"
definition IOPRIO_PRIO_DATA :: "int \<Rightarrow> int" where "IOPRIO_PRIO_DATA v = v AND (2 ^ 13 - 1)"

definition get_ioprio_class_name :: "int \<Rightarrow> string option" where
  "get_ioprio_class_name ioprio = map_name io_priorities_class_map (word_of_int ioprio)"

definition get_io_priorities_linux :: "sys_queries \<Rightarrow> procenv_priority \<Rightarrow> procenv_priority" where
  "get_io_priorities_linux q iop = iop\<lparr>prio_process := sy_ioprio q 1, prio_pgrp := sy_ioprio q 2, prio_user := sy_ioprio q 3\<rparr>"

definition show_io_priorities_linux :: "globals \<Rightarrow> report" where
  "show_io_priorities_linux g =
     (let part = (\<lambda>name v. in_section name (Inr
            [C_entry ''class'' ''%s'' [str_arg (get_ioprio_class_name (IOPRIO_PRIO_CLASS v))],
             C_entry ''priority'' ''%d'' [PInt (IOPRIO_PRIO_DATA v)]]))
      in reports [part ''process'' (prio_process (priority_io g)), part ''group'' (prio_pgrp (priority_io g)),
           part ''user'' (prio_user (priority_io g))])"

definition show_rlimits_linux :: "sys_queries \<Rightarrow> globals \<Rightarrow> report" where
  "show_rlimits_linux q g =
     (let lim_entry = show_limit (lx_generic (sy_linux q)); mmr = LINUX_KERNEL_MMR g;
          newer = (\<lambda>l new. if sy_defd q l then since new (lim_entry l) else Inr [])
      in reports
       (map lim_entry [''RLIMIT_AS'', ''RLIMIT_CORE'', ''RLIMIT_CPU'', ''RLIMIT_DATA'', ''RLIMIT_FSIZE''] @
        [newer ''RLIMIT_RTTIME'' (mmr 2 6 25)] @
        map lim_entry [''RLIMIT_LOCKS'', ''RLIMIT_MEMLOCK''] @
        [newer ''RLIMIT_MSGQUEUE'' (mmr 2 6 8), newer ''RLIMIT_NICE'' (mmr 2 6 12)] @
        map lim_entry [''RLIMIT_NOFILE'', ''RLIMIT_NPROC'', ''RLIMIT_RSS'', ''RLIMIT_RTPRIO''] @
        [newer ''RLIMIT_SIGPENDING'' (mmr 2 6 8), lim_entry ''RLIMIT_STACK'']))"

definition get_proc_name_linux :: "sys_queries \<Rightarrow> utsname \<Rightarrow> procenv_user \<Rightarrow> procenv_user res" where
  "get_proc_name_linux q names u =
     bindE (linux_kernel_version (release names) 2 6 11) (\<lambda>new.
     Inr (if new then u\<lparr>proc_name := (if fst (sy_prctl q ''PR_GET_NAME'') < 0 then UNKNOWN_STR else sy_prctl_name q)\<rparr> else u))"

definition get_user_misc_linux :: "sys_queries \<Rightarrow> procenv_user \<Rightarrow> procenv_misc \<Rightarrow> (string \<times> procenv_misc) res" where
  "get_user_misc_linux q u m =
     bindE (get_canonical_generic_linux (lx_generic (sy_linux q)) ''/proc/self/root'' PATH_MAX)
       (\<lambda>(_, r). Inr (proc_name u, m\<lparr>root := r\<rparr>))"

section \<open>NUMA\<close>

definition numa_mempolicy_map :: procenv_map where
  "numa_mempolicy_map = [(''MPOL_DEFAULT'', 0), (''MPOL_PREFERRED'', 1), (''MPOL_BIND'', 2), (''MPOL_INTERLEAVE'', 3)]"

text \<open>The map has no terminator.\<close>

definition get_numa_policy :: "int \<Rightarrow> string res" where
  "get_numa_policy policy =
     (case map_name numa_mempolicy_map (word_of_int policy) of Some n \<Rightarrow> Inr n | None \<Rightarrow> Inl OutOfBounds)"

text \<open>\<open>sy_numa\<close>: \<open>None\<close> when NUMA is not available; the policy, the numbers of nodes and the allowed set.
  The loop over the nodes is the one of the CPU affinities.\<close>

definition handle_numa_memory_linux :: "cenv \<Rightarrow> sys_queries \<Rightarrow> report" where
  "handle_numa_memory_linux env q =
     in_header ''numa''
       (if \<not> sy_defd q ''HAVE_NUMA_H'' then Inr []
        else case sy_numa q of
          None \<Rightarrow> Inr []
        | Some (policy, possible, configured, mems) \<Rightarrow>
            reports [Inr [C_entry ''api version'' ''%d'' [PInt 2]],
              (case policy of
                 None \<Rightarrow> Inr [C_entry ''policy'' ''%s'' [PStr UNKNOWN_STR]]
               | Some pol \<Rightarrow>
                   bindE (get_numa_policy pol) (\<lambda>policy_name.
                   (case mems of
                      None \<Rightarrow> Inl (Die ''failed to query NUMA allowed list'')
                    | Some (nsize, nodes) \<Rightarrow>
                        bindE (affinity_loop env nodes [0..<nsize]
                          \<lparr>cpu_list = None, displayed = False, count = 0, range_first = 0, range_last = 0\<rparr>) (\<lambda>a.
                        bindE (if count a \<noteq> 0 then append_range env a else Inr a) (\<lambda>a'.
                        bindE (case cpu_list a' of None \<Rightarrow> Inr None | Some b \<Rightarrow> map_sum id Some (str_at nul b 0)) (\<lambda>str.
                        Inr [C_entry ''policy'' ''%s'' [PStr policy_name],
                             C_entry ''maximum nodes'' ''%d'' [PInt possible],
                             C_entry ''configured nodes'' ''%d'' [PInt configured],
                             C_entry ''allowed list'' ''%s'' [str_arg str]]))))))])"

section \<open>Scheduler, terminal, interfaces\<close>

definition scheduler_map :: "sys_queries \<Rightarrow> procenv_map" where
  "scheduler_map q =
     map (\<lambda>n. (n, word_of_int (sy_const q n)))
       ([''SCHED_OTHER'', ''SCHED_FIFO'', ''SCHED_RR'', ''SCHED_BATCH''] @ (if sy_defd q ''SCHED_IDLE'' then [''SCHED_IDLE''] else []))"

definition get_scheduler_name :: "sys_queries \<Rightarrow> int \<Rightarrow> string option" where
  "get_scheduler_name q sched = map_name (scheduler_map q) (word_of_int sched)"

definition handle_scheduler_type_linux :: "sys_queries \<Rightarrow> report" where
  "handle_scheduler_type_linux q =
     Inr [C_entry ''type'' ''%s'' [if sy_scheduler q < 0 then PStr UNKNOWN_STR else str_arg (get_scheduler_name q (sy_scheduler q))]]"

definition get_tty_locked_status_linux :: "sys_queries \<Rightarrow> int \<Rightarrow> termios \<Rightarrow> termios res" where
  "get_tty_locked_status_linux q fd lock_status =
     guardE (fd \<noteq> -1) AssertFail (Inr (case sy_lock_status q fd of None \<Rightarrow> unlocked | Some l \<Rightarrow> l))"

definition if_extended_flag_map_linux :: "sys_queries \<Rightarrow> procenv_map" where
  "if_extended_flag_map_linux q =
     map (\<lambda>n. (n, word_of_int (sy_const q n))) (filter (sy_defd q)
       [''IFF_802_1Q_VLAN'', ''IFF_EBRIDGE'', ''IFF_SLAVE_INACTIVE'', ''IFF_MASTER_8023AD'', ''IFF_MASTER_ALB'',
        ''IFF_BONDING'', ''IFF_SLAVE_NEEDARP'', ''IFF_ISATAP''])"

definition show_extended_if_flags_linux :: "sys_queries \<Rightarrow> string \<Rightarrow> report" where
  "show_extended_if_flags_linux q ifname =
     (case sy_pflags q (take (IFNAMSIZ - 1) ifname) of
        None \<Rightarrow> Inr []
      | Some flags \<Rightarrow> Inr (decode_if_flags (if_extended_flag_map_linux q) (take_bit 16 flags)))"

text \<open>
  \<open>sy_affinity k\<close>: \<^verbatim>\<open>pthread_getaffinity_np\<close> with room for \<open>k\<close> CPUs, \<open>None\<close> for \<^verbatim>\<open>EINVAL\<close>, \<open>Some None\<close> for another
  error. The room is enlarged in steps of two machines' worth of CPUs; when the bound is reached the set
  has been freed and is freed again at the label \<^verbatim>\<open>err\<close>.
\<close>

function grow_cpuset :: "(nat \<Rightarrow> (nat \<Rightarrow> bool) option option) \<Rightarrow> nat \<Rightarrow> nat \<Rightarrow> nat \<Rightarrow> (nat \<Rightarrow> bool) option res" where
  "grow_cpuset getaffinity mx mult k =
     (case getaffinity k of
        Some s \<Rightarrow> Inr s
      | None \<Rightarrow> if mult > 128 then Inl UseAfterFree else grow_cpuset getaffinity mx (mult + 2) ((mult + 2) * mx))"
  by pat_completeness auto
termination by (relation "measure (\<lambda>(f, mx, mult, k). 130 - mult)") auto

declare grow_cpuset.simps [simp del]

definition get_cpuset_linux :: "sys_queries \<Rightarrow> (nat \<Rightarrow> bool) option res" where
  "get_cpuset_linux q =
     (case gq_sysconf (lx_generic (sy_linux q)) ''_SC_NPROCESSORS_ONLN'' of
        None \<Rightarrow> Inr None
      | Some n \<Rightarrow> if n < 0 then Inr None else grow_cpuset (sy_affinity q) (nat n) 0 (nat n))"

definition cpuset_has_cpu_linux :: "(nat \<Rightarrow> bool) \<Rightarrow> nat \<Rightarrow> bool" where
  "cpuset_has_cpu_linux cs cpu = cs cpu"

section \<open>Completeness\<close>

lemma shape_prctl [simp]:
  "\<not> in_con stk \<Longrightarrow> step_shape (prctl_number n f rc v) stk = Some stk"
  by (simp add: prctl_number_def)

lemma prctl_part_complete [complete_intros]:
  "(\<And>rc v. members [f rc v]) \<Longrightarrow> members_report (prctl_part q n new f)"
  unfolding prctl_part_def Let_def by (intro complete_intros) (simp_all add: flat_calls)

lemma show_capability_complete [complete_intros]: "members_report (show_capability q g caps c n)"
  unfolding show_capability_def Let_def by (intro complete_intros) (simp add: flat_calls)

lemma unknown_caps_complete [complete_intros]: "members_report (unknown_caps f env q g caps i)"
proof (induction f arbitrary: i)
  case (Suc f)
  show ?case unfolding unknown_caps.simps by (intro complete_intros Suc) (simp add: flat_calls)
qed simp

lemma securebits_complete [complete_intros]: "members_report (securebits_part q)"
  unfolding securebits_part_def show_const_def Let_def by (intro complete_intros; simp add: flat_calls)+

lemma security_context_complete [complete_intros]: "members_report (show_security_module_context_linux q)"
  unfolding show_security_module_context_linux_def
  by (intro complete_intros) (simp add: flat_calls split: option.split)

lemma linux_sys_members [complete_intros]:
  "members_report (show_prctl_linux q g)" "members_report (show_capabilities_linux env q g)"
  "members_report (show_security_module_linux q)" "members_report (show_io_priorities_linux g)"
  "members_report (show_rlimits_linux q g)" "members_report (handle_numa_memory_linux env q)"
  "members_report (handle_scheduler_type_linux q)"
  unfolding show_prctl_linux_def prctl_first_def prctl_second_def prctl_third_def prctl_named_def show_capabilities_linux_def show_security_module_linux_def show_io_priorities_linux_def
    show_rlimits_linux_def handle_numa_memory_linux_def handle_scheduler_type_linux_def Let_def list.map append.simps
  by (intro complete_intros; simp add: flat_calls)+

lemma linux_sys_objects [complete_intros]: "objects_report (show_extended_if_flags_linux q n)"
  unfolding show_extended_if_flags_linux_def by (intro complete_intros) (simp add: flat_calls)


section \<open>Properties\<close>

text \<open>The sizes that are tried, for \<open>n\<close> online CPUs.\<close>

definition cpuset_rooms :: "nat \<Rightarrow> nat \<Rightarrow> nat \<Rightarrow> nat list" where
  "cpuset_rooms mx mult k = k # map (\<lambda>m. m * mx) (map (\<lambda>i. mult + 2 * i) [1..<(132 - mult) div 2])"

lemma cpuset_rooms_step:
  "mult \<le> 128 \<Longrightarrow> cpuset_rooms mx mult k = k # cpuset_rooms mx (mult + 2) ((mult + 2) * mx)"
proof -
  assume "mult \<le> 128"
  then have d: "(132 - mult) div 2 = Suc ((132 - (mult + 2)) div 2)" "1 < Suc ((132 - (mult + 2)) div 2)" by simp_all
  have "map (\<lambda>i. mult + 2 * i) [1..<(132 - mult) div 2] =
      (mult + 2) # map (\<lambda>i. (mult + 2) + 2 * i) [1..<(132 - (mult + 2)) div 2]"
    unfolding d(1) upt_conv_Cons [OF d(2)] by (simp add: map_Suc_upt [symmetric] comp_def del: upt_Suc map_Suc_upt)
  then show ?thesis by (simp add: cpuset_rooms_def)
qed

lemma grow_cpuset_find:
  "mult \<le> 130 \<Longrightarrow> even mult \<Longrightarrow> grow_cpuset getaffinity mx mult k =
     (case find (\<lambda>r. getaffinity r \<noteq> None) (cpuset_rooms mx mult k) of
        Some r \<Rightarrow> Inr (the (getaffinity r)) | None \<Rightarrow> Inl UseAfterFree)"
proof (induction getaffinity mx mult k rule: grow_cpuset.induct)
  case (1 getaffinity mx mult k)
  show ?case
  proof (cases "getaffinity k")
    case (Some s)
    then show ?thesis by (simp add: grow_cpuset.simps [of _ _ mult] cpuset_rooms_def)
  next
    case None
    show ?thesis
    proof (cases "mult > 128")
      case True
      then have "mult = 130" using 1(2,3) by presburger
      with None show ?thesis by (simp add: grow_cpuset.simps [of _ _ 130] cpuset_rooms_def)
    next
      case False
      then have "mult + 2 \<le> 130" "even (mult + 2)" using 1(3) by simp_all
      with 1(1) [OF None False] None False show ?thesis
        by (simp add: grow_cpuset.simps [of _ _ mult] cpuset_rooms_step)
    qed
  qed
qed

text \<open>
  \<open>get_cpuset_linux\<close> returns what the first size the kernel accepts gives, among the number of CPUs
  and its even multiples up to 130 times; when the kernel rejects all of them, the set is freed twice.
\<close>

lemma get_cpuset_first_room:
  assumes "gq_sysconf (lx_generic (sy_linux q)) ''_SC_NPROCESSORS_ONLN'' = Some (int n)"
  shows "get_cpuset_linux q =
    (case find (\<lambda>r. sy_affinity q r \<noteq> None) (cpuset_rooms n 0 n) of
       Some r \<Rightarrow> Inr (the (sy_affinity q r))
     | None \<Rightarrow> Inl UseAfterFree)"
  using assms grow_cpuset_find [of 0 "sy_affinity q" n n] by (simp add: get_cpuset_linux_def)

definition example_sys :: sys_queries where
  "example_sys = \<lparr>sy_linux = example_linux, sy_const = (\<lambda>_. 0), sy_ctime = (\<lambda>_. None), sy_msg_info = None, sy_msg_stat = (\<lambda>_. None),
     sy_sem_info = None, sy_sem_stat = (\<lambda>_. None), sy_shm_info = None, sy_shm_stat = (\<lambda>_. None), sy_prctl = (\<lambda>_. (-1, 0)),
     sy_prctl_name = ''procenv'', sy_caps = None, sy_cap_bound = (\<lambda>_. -1), sy_cap_ambient = (\<lambda>_. 0), sy_aa_context = None,
     sy_selinux = (0, 0), sy_selinux_context = None, sy_ioprio = (\<lambda>_. 0), sy_scheduler = 0, sy_numa = None,
     sy_lock_status = (\<lambda>_. None), sy_pflags = (\<lambda>_. None), sy_getcpu = 0,
     sy_affinity = (\<lambda>k. if k < 10 then None else Some (Some (\<lambda>c. c < 4)))\<rparr>"

lemma get_cpuset_first_room_witness: "get_cpuset_linux example_sys = Inr (Some (\<lambda>c. c < 4))"
proof -
  have "gq_sysconf (lx_generic (sy_linux example_sys)) ''_SC_NPROCESSORS_ONLN'' = Some (int 6)"
    by (simp add: example_sys_def example_linux_def example_queries_def)
  from get_cpuset_first_room [OF this] show ?thesis
    by (simp add: cpuset_rooms_def upt_conv_Cons example_sys_def)
qed

text \<open>The ambient set is not shown: two processes that differ in it only print the same.\<close>

lemma ambient_not_shown:
  "show_capability (q\<lparr>sy_cap_ambient := f\<rparr>) g caps cap name = show_capability q g caps cap name"
  by (simp add: show_capability_def get_ambient_capability_def)

end
