(* ===== verification/Drivers.thy ===== *)
theory Drivers
  imports LinuxSys
begin

text \<open>
  The tables of the drivers (\<^verbatim>\<open>struct procenv_ops platform_ops\<close>): those for an unknown platform, for Android,
  for the Hurd and for Linux, each an instance of the contract \<open>platform_driver\<close>. A constant of the
  system headers is known by its name; \<open>cval\<close> gives its value.
\<close>

definition const_map :: "(string \<Rightarrow> int) \<Rightarrow> string list \<Rightarrow> procenv_map" where
  "const_map cval names = map (\<lambda>n. (n, word_of_int (cval n))) names"

definition sigchld_entry :: "(string \<Rightarrow> int) \<Rightarrow> procenv_map" where
  "sigchld_entry cval = [(''SIGCHLD|SIGCLD'', word_of_int (cval ''SIGCHLD''))]"

text \<open>A hook that does not look at the globals.\<close>

definition plain_hook :: "report \<Rightarrow> hook" where
  "plain_hook r = Some (\<lambda>_. r)"

definition no_ops :: procenv_ops where
  "no_ops = \<lparr>driver_name = [], driver_file = [], signal_map = [], if_flag_map = [], personality_map = [],
     personality_flag_map = [], get_user_misc = None, get_proc_name = None, get_io_priorities = None,
     get_tty_locked_status = None, get_kernel_bits = None, get_mtu = None, get_time = None, ops_show_capabilities = None,
     ops_show_cgroups = None, ops_show_clocks = None, ops_show_confstrs = None, ops_show_cpu_affinities = None,
     ops_show_cpu = None, show_extended_if_flags = None, show_fd_capabilities = None, ops_show_fds = None,
     ops_show_io_priorities = None, ops_show_mounts = None, ops_show_msg_queues = None, ops_show_namespaces = None,
     ops_show_oom = None, ops_show_prctl = None, ops_show_rlimits = None, ops_show_security_module = None,
     ops_show_semaphores = None, ops_show_shared_mem = None, ops_show_timezone = None, ops_show_libs = None,
     handle_memory = None, handle_numa_memory = None, ops_handle_proc_branch = None, handle_scheduler_type = None,
     get_cpuset = None, cpuset_has_cpu = None, in_vm = None\<rparr>"

section \<open>Unknown platform\<close>

definition signal_map_generic :: "(string \<Rightarrow> bool) \<Rightarrow> (string \<Rightarrow> int) \<Rightarrow> procenv_map" where
  "signal_map_generic defd_macro cval =
     (let opt = (\<lambda>n. if defd_macro n then [n] else []) in
      const_map cval [''SIGABRT'', ''SIGALRM'', ''SIGBUS''] @ sigchld_entry cval @
      const_map cval ([''SIGCONT''] @ opt ''SIGEMT'' @ [''SIGFPE'', ''SIGHUP'', ''SIGILL''] @ opt ''SIGINFO'' @ [''SIGINT''] @
        opt ''SIGIO'' @ opt ''SIGIOT'' @ [''SIGKILL'', ''SIGPIPE'', ''SIGPOLL'', ''SIGPROF''] @ opt ''SIGPWR'' @
        [''SIGQUIT'', ''SIGSEGV'', ''SIGSTOP'', ''SIGSYS'', ''SIGTERM'', ''SIGTRAP'', ''SIGTSTP'', ''SIGTTIN'', ''SIGTTOU'',
         ''SIGURG'', ''SIGUSR1'', ''SIGUSR2'', ''SIGVTALRM'', ''SIGWINCH'', ''SIGXCPU'', ''SIGXFSZ'']))"

definition unknown_ops :: "cenv \<Rightarrow> generic_queries \<Rightarrow> (string \<Rightarrow> int) \<Rightarrow> string \<Rightarrow> procenv_ops" where
  "unknown_ops env q cval src = no_ops\<lparr>
     driver_name := ''unknown'', driver_file := src,
     get_time := Some (get_time_generic q),
     signal_map := signal_map_generic (gq_defd q) cval,
     ops_show_fds := plain_hook (show_fds_generic env q None),
     ops_show_clocks := plain_hook (show_clocks_generic q)\<rparr>"

section \<open>Android\<close>

text \<open>The table names the driver and has no hooks.\<close>

definition android_ops :: "string \<Rightarrow> procenv_ops" where
  "android_ops src = no_ops\<lparr>driver_name := ''android'', driver_file := src\<rparr>"

section \<open>Hurd\<close>

definition signal_map_hurd :: "(string \<Rightarrow> int) \<Rightarrow> procenv_map" where
  "signal_map_hurd cval =
     const_map cval [''SIGABRT'', ''SIGALRM'', ''SIGBUS''] @ sigchld_entry cval @
     const_map cval [''SIGCONT'', ''SIGFPE'', ''SIGHUP'', ''SIGILL'', ''SIGINT'', ''SIGKILL'', ''SIGPIPE'', ''SIGQUIT'', ''SIGSEGV'',
       ''SIGSTOP'', ''SIGTERM'', ''SIGTRAP'', ''SIGTSTP'', ''SIGTTIN'', ''SIGTTOU'', ''SIGUSR1'', ''SIGUSR2'', ''SIGIO'',
       ''SIGPROF'', ''SIGSYS'', ''SIGURG'', ''SIGVTALRM'', ''SIGWINCH'', ''SIGXCPU'', ''SIGXFSZ'', ''SIGEMT'', ''SIGINFO'', ''SIGLOST'']"

definition if_flag_map_hurd :: "(string \<Rightarrow> int) \<Rightarrow> procenv_map" where
  "if_flag_map_hurd cval =
     const_map cval [''IFF_UP'', ''IFF_BROADCAST'', ''IFF_DEBUG'', ''IFF_LOOPBACK'', ''IFF_POINTOPOINT'', ''IFF_RUNNING'', ''IFF_NOARP'',
       ''IFF_PROMISC'', ''IFF_ALLMULTI'', ''IFF_MULTICAST'']"

definition hurd_ops :: "cenv \<Rightarrow> generic_queries \<Rightarrow> (string \<Rightarrow> int) \<Rightarrow> string \<Rightarrow> procenv_ops" where
  "hurd_ops env q cval src = no_ops\<lparr>
     driver_name := ''hurd'', driver_file := src,
     get_kernel_bits := Some (get_kernel_bits_generic q),
     get_mtu := Some (get_mtu_generic q),
     get_time := Some (get_time_generic q),
     signal_map := signal_map_hurd cval,
     if_flag_map := if_flag_map_hurd cval,
     ops_show_clocks := plain_hook (show_clocks_generic q),
     ops_show_confstrs := plain_hook (show_confstrs_generic env q),
     ops_show_cpu_affinities := plain_hook (show_cpu_affinities_generic env q None None),
     ops_show_fds := plain_hook (show_fds_generic env q None),
     ops_show_mounts := Some (show_mounts_generic_linux q),
     ops_show_rlimits := plain_hook (show_rlimits_generic q),
     ops_show_libs := plain_hook (show_libs_generic q)\<rparr>"

section \<open>Linux\<close>

definition signal_map_linux :: "(string \<Rightarrow> bool) \<Rightarrow> (string \<Rightarrow> int) \<Rightarrow> procenv_map" where
  "signal_map_linux defd_macro cval =
     const_map cval [''SIGABRT'', ''SIGALRM'', ''SIGBUS''] @ sigchld_entry cval @
     const_map cval [''SIGCONT'', ''SIGFPE'', ''SIGHUP'', ''SIGILL'', ''SIGINT'', ''SIGKILL'', ''SIGPIPE'', ''SIGQUIT'', ''SIGSEGV'',
       ''SIGSTOP'', ''SIGTERM'', ''SIGTRAP'', ''SIGTSTP'', ''SIGTTIN'', ''SIGTTOU'', ''SIGUSR1'', ''SIGUSR2'', ''SIGIO'', ''SIGIOT''] @
     [(''SIGPOLL|SIGIO'', word_of_int (cval ''SIGPOLL''))] @
     const_map cval ([''SIGPROF'', ''SIGPWR''] @ (if defd_macro ''SIGSTKFLT'' then [''SIGSTKFLT''] else []) @ [''SIGSYS''] @
       (if defd_macro ''SIGUNUSED'' then [''SIGUNUSED''] else []) @
       [''SIGURG'', ''SIGVTALRM'', ''SIGWINCH'', ''SIGXCPU'', ''SIGXFSZ''])"

definition if_flag_map_linux :: "(string \<Rightarrow> bool) \<Rightarrow> (string \<Rightarrow> int) \<Rightarrow> procenv_map" where
  "if_flag_map_linux defd_macro cval =
     const_map cval ([''IFF_UP'', ''IFF_BROADCAST'', ''IFF_DEBUG'', ''IFF_LOOPBACK'', ''IFF_POINTOPOINT'', ''IFF_RUNNING'', ''IFF_NOARP'',
       ''IFF_PROMISC'', ''IFF_NOTRAILERS'', ''IFF_ALLMULTI'', ''IFF_MASTER'', ''IFF_SLAVE'', ''IFF_MULTICAST'', ''IFF_PORTSEL'',
       ''IFF_AUTOMEDIA'', ''IFF_DYNAMIC'', ''IFF_LOWER_UP'', ''IFF_DORMANT''] @ (if defd_macro ''IFF_ECHO'' then [''IFF_ECHO''] else []))"

definition personality_map_linux :: "(string \<Rightarrow> bool) \<Rightarrow> (string \<Rightarrow> int) \<Rightarrow> procenv_map" where
  "personality_map_linux defd_macro cval =
     const_map cval ([''PER_LINUX'', ''PER_LINUX_32BIT'', ''PER_SVR4'', ''PER_SVR3'', ''PER_SCOSVR3'', ''PER_OSR5'', ''PER_WYSEV386'',
       ''PER_ISCR4'', ''PER_BSD'', ''PER_SUNOS'', ''PER_XENIX''] @ filter defd_macro [''PER_LINUX32'', ''PER_LINUX32_3GB''] @
       [''PER_IRIX32'', ''PER_IRIXN32'', ''PER_IRIX64'', ''PER_RISCOS'', ''PER_SOLARIS'', ''PER_UW7'', ''PER_OSF4'', ''PER_HPUX''])"

definition personality_flag_map_linux :: "(string \<Rightarrow> bool) \<Rightarrow> (string \<Rightarrow> int) \<Rightarrow> procenv_map" where
  "personality_flag_map_linux defd_macro cval =
     const_map cval (filter defd_macro [''ADDR_COMPAT_LAYOUT'', ''ADDR_LIMIT_32BIT'', ''ADDR_LIMIT_3GB'', ''ADDR_NO_RANDOMIZE'',
       ''MMAP_PAGE_ZERO'', ''READ_IMPLIES_EXEC'', ''SHORT_INODE'', ''STICKY_TIMEOUTS'', ''WHOLE_SECONDS''])"

definition linux_ops :: "cenv \<Rightarrow> sys_queries \<Rightarrow> string \<Rightarrow> procenv_ops" where
  "linux_ops env q src =
     (let lq = sy_linux q; gq = lx_generic lq; defd_macro = gq_defd gq; cval = sy_const q in
      no_ops\<lparr>
     driver_name := ''linux'', driver_file := src,
     get_cpuset := Some (get_cpuset_linux q),
     cpuset_has_cpu := Some cpuset_has_cpu_linux,
     get_user_misc := Some (get_user_misc_linux q),
     get_proc_name := Some (get_proc_name_linux q),
     get_io_priorities := Some (get_io_priorities_linux q),
     get_mtu := Some (get_mtu_generic gq),
     get_time := Some (get_time_generic gq),
     get_tty_locked_status := Some (get_tty_locked_status_linux q),
     get_kernel_bits := Some (get_kernel_bits_generic gq),
     signal_map := signal_map_linux defd_macro cval,
     if_flag_map := if_flag_map_linux defd_macro cval,
     in_vm := Some (in_vm_linux lq),
     personality_map := personality_map_linux defd_macro cval,
     personality_flag_map := personality_flag_map_linux defd_macro cval,
     ops_show_capabilities := Some (show_capabilities_linux env q),
     ops_show_cgroups := plain_hook (show_cgroups_linux env lq),
     ops_show_confstrs := plain_hook (show_confstrs_generic env gq),
     ops_show_cpu_affinities :=
       plain_hook (show_cpu_affinities_generic env gq (Some (get_cpuset_linux q)) (Some cpuset_has_cpu_linux)),
     ops_show_cpu := plain_hook (show_cpu_linux
       (if defd_macro ''HAVE_SCHED_GETCPU'' then Inr (sy_getcpu q) else procenv_getcpu lq) gq),
     ops_show_clocks := plain_hook (show_clocks_generic gq),
     show_extended_if_flags := Some (show_extended_if_flags_linux q),
     ops_show_fds := plain_hook (show_fds_linux env lq),
     ops_show_io_priorities := Some show_io_priorities_linux,
     ops_show_mounts := Some (show_mounts_generic_linux gq),
     ops_show_msg_queues := plain_hook (show_msg_queues_linux env q),
     ops_show_namespaces := plain_hook (show_namespaces_linux lq),
     ops_show_oom := plain_hook (show_oom_linux lq),
     ops_show_prctl := Some (show_prctl_linux q),
     ops_show_rlimits := Some (show_rlimits_linux q),
     ops_show_security_module := plain_hook (show_security_module_linux q),
     ops_show_semaphores := plain_hook (show_semaphores_linux env q),
     ops_show_shared_mem := plain_hook (show_shared_mem_linux env q),
     ops_show_timezone := plain_hook (show_timezone_generic gq),
     ops_show_libs := plain_hook (show_libs_generic gq),
     handle_memory := plain_hook (show_memory_generic gq),
     handle_numa_memory := plain_hook (handle_numa_memory_linux env q),
     ops_handle_proc_branch := plain_hook (handle_proc_branch_linux env lq),
     handle_scheduler_type := plain_hook (handle_scheduler_type_linux q)\<rparr>)"

section \<open>The contracts\<close>

lemma members_hook_Some [complete_intros]: "(\<And>g. members_report (f g)) \<Longrightarrow> members_hook (Some f)"
  by (simp add: members_hook_def)

lemma plain_hooks [complete_intros]:
  "members_report r \<Longrightarrow> members_hook (plain_hook r)" "objects_report r \<Longrightarrow> objects_hook (plain_hook r)"
  by (simp_all add: members_hook_def objects_hook_def plain_hook_def)

interpretation unknown_driver: platform_driver "unknown_ops env q cval src" for env q cval src
  by unfold_locales (auto simp: unknown_ops_def no_ops_def intro!: complete_intros)

interpretation android_driver: platform_driver "android_ops src" for src
  by unfold_locales (auto simp: android_ops_def no_ops_def)

interpretation hurd_driver: platform_driver "hurd_ops env q cval src" for env q cval src
  by unfold_locales (auto simp: hurd_ops_def no_ops_def intro!: complete_intros)

interpretation linux_driver: platform_driver "linux_ops env q src" for env q src
  by unfold_locales (auto simp: linux_ops_def no_ops_def Let_def intro!: complete_intros)

end
