(* ===== verification/Dump.thy ===== *)
theory Dump
  imports Drivers
begin

text \<open>
  Completeness of the display routines: whatever the system answers, the calls a routine makes nest
  properly and leave no element open (\<open>members_report\<close>, or \<open>objects_report\<close> for what stands in a container).
  Where a routine calls hooks of the driver the lemma rests on the contract \<open>platform_driver\<close>.
\<close>

section \<open>Every routine reports complete members\<close>

lemma show_meta_complete [complete_intros]: "members_report (show_meta pk r ops g st)"
  unfolding show_meta_def by (intro complete_intros; simp add: flat_calls)+

lemma show_argument_complete [complete_intros]: "objects_report (show_argument env a)"
  unfolding show_argument_def by (intro complete_intros; simp add: flat_calls)+

lemma show_arguments_complete [complete_intros]: "members_report (show_arguments env g)"
  unfolding show_arguments_def by (intro complete_intros; simp add: flat_calls)+

lemma show_version_complete [complete_intros]: "members_report (show_version pk)"
  unfolding show_version_def by (intro complete_intros; simp add: flat_calls)+

lemma show_env_complete [complete_intros]: "members_report (show_env env coll es)"
  unfolding show_env_def env_entry_def Let_def by (intro complete_intros; simp add: flat_calls)+

lemma show_all_groups_complete [complete_intros]: "members_report (show_all_groups env coll gg gn g)"
  unfolding show_all_groups_def Let_def by (intro complete_intros; simp add: flat_calls)+

lemma show_rusage_complete [complete_intros]: "members_report (show_rusage u)"
  unfolding show_rusage_def by (intro complete_intros; simp add: flat_calls)+

lemma show_signal_complete [complete_intros]: "objects_report (show_signal a b c m i)"
  unfolding show_signal_def by (intro complete_intros; simp add: flat_calls)+

lemma show_signals_complete [complete_intros]: "members_report (show_signals a b c ops)"
  unfolding show_signals_def by (intro complete_intros; simp add: flat_calls)+

lemma show_data_model_complete [complete_intros]: "members_report (show_data_model i l p ll)"
  unfolding show_data_model_def Let_def by (intro complete_intros; simp add: flat_calls)+

lemma show_platform_complete [complete_intros]: "members_report (show_platform bd ops)"
  unfolding show_platform_def Let_def by (intro complete_intros; simp add: flat_calls)+

lemma show_sysconf_complete [complete_intros]: "members_report (show_sysconf m f)"
  unfolding show_sysconf_def Let_def case_prod_unfold by (intro complete_intros; simp add: flat_calls)+

lemma show_uname_complete [complete_intros]: "members_report (show_uname g)"
  unfolding show_uname_def Let_def by (intro complete_intros; simp add: flat_calls)+

lemma show_libc_complete [complete_intros]: "members_report (show_libc bd)"
  unfolding show_libc_def by (intro complete_intros; simp add: flat_calls)+

lemma show_time_complete [complete_intros]: "members_report (show_time lt asct ops)"
  unfolding show_time_def by (intro complete_intros; simp add: flat_calls)+

lemma time_entry_complete [complete_intros]: "members_report (time_entry f msg name t)"
  unfolding time_entry_def by (intro complete_intros; simp add: flat_calls)+

lemma show_stat_complete [complete_intros]: "members_report (show_stat env fq q g)"
  unfolding show_stat_def by (intro complete_intros; simp add: flat_calls)+

lemma show_locale_complete [complete_intros]: "members_report (show_locale env ge cur m sl)"
  unfolding show_locale_def Let_def case_prod_unfold by (intro complete_intros; simp add: flat_calls)+

lemma show_threads_complete [complete_intros]: "members_report (show_threads t)"
  unfolding show_threads_def by (intro complete_intros; simp add: flat_calls split: option.split)+

lemma show_sizeof_complete [complete_intros]: "members_report (show_sizeof bd)"
  unfolding show_sizeof_def size_entry_def by (intro complete_intros; simp add: flat_calls)+

text \<open>Tables of entries.\<close>

lemma shape_table: "(\<And>x. step_shape (f x) stk = Some stk) \<Longrightarrow> shape (map f xs) stk = Some stk"
  by (induction xs) simp_all

lemma table_entries [simp]:
  "\<not> in_con stk \<Longrightarrow> step_shape (feature_entry bd m) stk = Some stk"
  "\<not> in_con stk \<Longrightarrow> step_shape (show_const_tty w l c) stk = Some stk"
  "\<not> in_con stk \<Longrightarrow> step_shape (show_cc_tty cc lk n) stk = Some stk"
  "\<not> in_con stk \<Longrightarrow> step_shape (size_entry bd name type) stk = Some stk"
  by (simp_all add: feature_entry_def show_const_tty_def show_cc_tty_def size_entry_def)

lemma show_compiler_complete [complete_intros]: "members_report (show_compiler bd)"
  unfolding show_compiler_def Let_def by (intro complete_intros; simp add: flat_calls shape_table)+

lemma show_ranges_complete [complete_intros]: "members_report (show_ranges bd)"
  unfolding show_ranges_def int_range_section_def float_range_section_def unsigned_range_def signed_range_def
    Let_def by (intro complete_intros; simp add: flat_calls)+

lemma flag_section_members: "\<not> in_con stk \<Longrightarrow> shape (flag_section title vn w lk cs) stk = Some stk"
  by (simp add: flag_section_def shape_table)

lemma show_tty_attrs_complete:
  "show_tty_attrs tcgetattr winsize ops g = Inr (fd, cs) \<Longrightarrow> members cs"
  by (auto simp: show_tty_attrs_def Let_def bindE_Inr_iff flat_calls flag_section_members shape_table split: option.splits)

context platform_driver
begin

lemma show_proc_complete [complete_intros]: "members_report (show_proc env q ops g)"
  unfolding show_proc_def Let_def by (intro complete_intros member_hooks; simp add: flat_calls)+

lemma show_priorities_complete [complete_intros]: "members_report (show_priorities ops g)"
  unfolding show_priorities_def
  by (intro complete_intros member_hooks; use member_hooks in \<open>auto simp: flat_calls members_hook_def\<close>)+

lemma framed_hooks_complete [complete_intros]:
  "members_report (show_cpu ops g)" "members_report (show_memory ps ops g)" "members_report (show_fds ops g)"
  "members_report (show_namespaces ops g)" "members_report (show_libs ops g)" "members_report (show_clocks ops g)"
  "members_report (show_rlimits ops g)" "members_report (show_confstrs ops g)" "members_report (show_timezone ops g)"
  "members_report (show_cgroups ops g)" "members_report (show_oom ops g)" "members_report (show_capabilities ops g)"
  "members_report (show_shared_mem ops g)" "members_report (show_semaphores ops g)" "members_report (show_msg_queues ops g)"
  unfolding show_cpu_def show_memory_def show_fds_def show_namespaces_def show_libs_def show_clocks_def show_rlimits_def
    show_confstrs_def show_timezone_def show_cgroups_def show_oom_def show_capabilities_def show_shared_mem_def
    show_semaphores_def show_msg_queues_def
  by (intro complete_intros member_hooks object_hooks; simp add: flat_calls)+

lemma show_mounts_complete [complete_intros]: "members_report (show_mounts ops what)"
  unfolding show_mounts_def by (intro complete_intros) (auto simp: flat_calls intro: mounts_hook)

lemma show_misc_complete [complete_intros]: "members_report (show_misc env fq v p ops g)"
  unfolding show_misc_def Let_def
  by (intro complete_intros; use member_hooks in \<open>auto simp: flat_calls members_hook_def\<close>)+

end

end
