(* ===== verification/Sysconf.thy ===== *)
theory Sysconf
  imports ShowSys
begin

text \<open>
  The tables \<^verbatim>\<open>sysconf_map\<close> and \<^verbatim>\<open>locale_map\<close> of \<^verbatim>\<open>procenv.c\<close>. Every entry of the first, and some of the second,
  exist only where their constant is defined. The first table is given in pieces, in the order of the
  source; a constant that is defined is known by its value.
\<close>

definition sysconf_names_1 :: "string list" where
  "sysconf_names_1 =
     [''_SC_2_C_BIND'', ''_SC_2_C_DEV'', ''_SC_2_CHAR_TERM'', ''_SC_2_C_VERSION'', ''_SC_2_FORT_DEV'',
      ''_SC_2_FORT_RUN'', ''_SC_2_LOCALEDEF'', ''_SC_2_PBS'', ''_SC_2_PBS_ACCOUNTING'', ''_SC_2_PBS_CHECKPOINT'',
      ''_SC_2_PBS_LOCATE'', ''_SC_2_PBS_MESSAGE'', ''_SC_2_PBS_TRACK'', ''_SC_2_SW_DEV'', ''_SC_2_UPE'',
      ''_SC_2_VERSION'', ''_SC_ADVISORY_INFO'', ''_SC_AIO_LISTIO_MAX'', ''_SC_AIO_MAX'',
      ''_SC_AIO_PRIO_DELTA_MAX'', ''_SC_ARG_MAX'', ''_SC_ASYNCHRONOUS_IO'', ''_SC_ATEXIT_MAX'',
      ''_SC_AVPHYS_PAGES'', ''_SC_BARRIERS'', ''_SC_BASE'', ''_SC_BC_BASE_MAX'', ''_SC_BC_DIM_MAX'',
      ''_SC_BC_SCALE_MAX'', ''_SC_BC_STRING_MAX'', ''_SC_CHAR_BIT'', ''_SC_CHARCLASS_NAME_MAX'', ''_SC_CHAR_MAX'',
      ''_SC_CHAR_MIN'', ''_SC_CHILD_MAX'', ''_SC_C_LANG_SUPPORT'', ''_SC_C_LANG_SUPPORT_R'']"

definition sysconf_names_2 :: "string list" where
  "sysconf_names_2 =
     [''_SC_CLK_TCK'', ''_SC_CLOCK_SELECTION'', ''_SC_COLL_WEIGHTS_MAX'', ''_SC_CPUTIME'', ''_SC_DELAYTIMER_MAX'',
      ''_SC_DEVICE_IO'', ''_SC_DEVICE_SPECIFIC'', ''_SC_DEVICE_SPECIFIC_R'', ''_SC_EQUIV_CLASS_MAX'',
      ''_SC_EXPR_NEST_MAX'', ''_SC_FD_MGMT'', ''_SC_FIFO'', ''_SC_FILE_ATTRIBUTES'', ''_SC_FILE_LOCKING'',
      ''_SC_FILE_SYSTEM'', ''_SC_FSYNC'', ''_SC_GETGR_R_SIZE_MAX'', ''_SC_HOST_NAME_MAX'', ''_SC_INT_MAX'',
      ''_SC_INT_MIN'', ''_SC_IOV_MAX'', ''_SC_IPV6'', ''_SC_JOB_CONTROL'', ''_SC_LEVEL1_DCACHE_ASSOC'',
      ''_SC_LEVEL1_DCACHE_LINESIZE'', ''_SC_LEVEL1_DCACHE_SIZE'', ''_SC_LEVEL1_ICACHE_ASSOC'',
      ''_SC_LEVEL1_ICACHE_LINESIZE'', ''_SC_LEVEL1_ICACHE_SIZE'', ''_SC_LEVEL2_CACHE_ASSOC'',
      ''_SC_LEVEL2_CACHE_LINESIZE'', ''_SC_LEVEL2_CACHE_SIZE'', ''_SC_LEVEL3_CACHE_ASSOC'',
      ''_SC_LEVEL3_CACHE_LINESIZE'', ''_SC_LEVEL3_CACHE_SIZE'', ''_SC_LEVEL4_CACHE_ASSOC'']"

definition sysconf_names_3 :: "string list" where
  "sysconf_names_3 =
     [''_SC_LEVEL4_CACHE_LINESIZE'', ''_SC_LEVEL4_CACHE_SIZE'', ''_SC_LINE_MAX'', ''_SC_LOGIN_NAME_MAX'',
      ''_SC_LONG_BIT'', ''_SC_MAPPED_FILES'', ''_SC_MB_LEN_MAX'', ''_SC_MEMLOCK'', ''_SC_MEMLOCK_RANGE'',
      ''_SC_MEMORY_PROTECTION'', ''_SC_MESSAGE_PASSING'', ''_SC_MONOTONIC_CLOCK'', ''_SC_MQ_OPEN_MAX'',
      ''_SC_MQ_PRIO_MAX'', ''_SC_MULTI_PROCESS'', ''_SC_NETWORKING'', ''_SC_NGROUPS_MAX'', ''_SC_NL_ARGMAX'',
      ''_SC_NL_LANGMAX'', ''_SC_NL_MSGMAX'', ''_SC_NL_NMAX'', ''_SC_NL_SETMAX'', ''_SC_NL_TEXTMAX'',
      ''_SC_NPROCESSORS_CONF'', ''_SC_NPROCESSORS_ONLN'', ''_SC_NZERO'', ''_SC_OPEN_MAX'', ''_SC_PAGE_SIZE'',
      ''_SC_PAGESIZE'', ''_SC_PASS_MAX'', ''_SC_PHYS_PAGES'', ''_SC_PII'', ''_SC_PII_INTERNET'',
      ''_SC_PII_INTERNET_DGRAM'', ''_SC_PII_INTERNET_STREAM'', ''_SC_PII_OSI'', ''_SC_PII_OSI_CLTS'']"

definition sysconf_names_4 :: "string list" where
  "sysconf_names_4 =
     [''_SC_PII_OSI_COTS'', ''_SC_PII_OSI_M'', ''_SC_PII_SOCKET'', ''_SC_PII_XTI'', ''_SC_PIPE'', ''_SC_POLL'',
      ''_SC_POSIX2_C_DEV'', ''_SC_PRIORITIZED_IO'', ''_SC_PRIORITY_SCHEDULING'', ''_SC_RAW_SOCKETS'',
      ''_SC_READER_WRITER_LOCKS'', ''_SC_REALTIME_SIGNALS'', ''_SC_RE_DUP_MAX'', ''_SC_REGEXP'',
      ''_SC_REGEX_VERSION'', ''_SC_RTSIG_MAX'', ''_SC_SAVED_IDS'', ''_SC_SCHAR_MAX'', ''_SC_SCHAR_MIN'',
      ''_SC_SELECT'', ''_SC_SEMAPHORES'', ''_SC_SEM_NSEMS_MAX'', ''_SC_SEM_VALUE_MAX'',
      ''_SC_SHARED_MEMORY_OBJECTS'', ''_SC_SHELL'', ''_SC_SHRT_MAX'', ''_SC_SHRT_MIN'', ''_SC_SIGNALS'',
      ''_SC_SIGQUEUE_MAX'', ''_SC_SINGLE_PROCESS'', ''_SC_SPAWN'', ''_SC_SPIN_LOCKS'', ''_SC_SPORADIC_SERVER'',
      ''_SC_SSIZE_MAX'', ''_SC_SS_REPL_MAX'', ''_SC_STREAM_MAX'', ''_SC_STREAMS'']"

definition sysconf_names_5 :: "string list" where
  "sysconf_names_5 =
     [''_SC_SYMLOOP_MAX'', ''_SC_SYNCHRONIZED_IO'', ''_SC_SYSTEM_DATABASE'', ''_SC_SYSTEM_DATABASE_R'',
      ''_SC_THREAD_ATTR_STACKADDR'', ''_SC_THREAD_ATTR_STACKSIZE'', ''_SC_THREAD_CPUTIME'',
      ''_SC_THREAD_DESTRUCTOR_ITERATIONS'', ''_SC_THREAD_KEYS_MAX'', ''_SC_THREAD_PRIO_INHERIT'',
      ''_SC_THREAD_PRIO_PROTECT'', ''_SC_THREAD_PRIORITY_SCHEDULING'', ''_SC_THREAD_PROCESS_SHARED'',
      ''_SC_THREAD_ROBUST_PRIO_INHERIT'', ''_SC_THREAD_ROBUST_PRIO_PROTECT'', ''_SC_THREADS'',
      ''_SC_THREAD_SAFE_FUNCTIONS'', ''_SC_THREAD_SPORADIC_SERVER'', ''_SC_THREAD_STACK_MIN'',
      ''_SC_THREAD_THREADS_MAX'', ''_SC_TIMEOUTS'', ''_SC_TIMER_MAX'', ''_SC_TIMERS'', ''_SC_T_IOV_MAX'',
      ''_SC_TRACE'', ''_SC_TRACE_EVENT_FILTER'', ''_SC_TRACE_EVENT_NAME_MAX'', ''_SC_TRACE_INHERIT'',
      ''_SC_TRACE_LOG'', ''_SC_TRACE_NAME_MAX'', ''_SC_TRACE_SYS_MAX'', ''_SC_TRACE_USER_EVENT_MAX'',
      ''_SC_TTY_NAME_MAX'', ''_SC_TYPED_MEMORY_OBJECTS'', ''_SC_TZNAME_MAX'', ''_SC_UCHAR_MAX'', ''_SC_UINT_MAX'']"

definition sysconf_names_6 :: "string list" where
  "sysconf_names_6 =
     [''_SC_UIO_MAXIOV'', ''_SC_ULONG_MAX'', ''_SC_USER_GROUPS'', ''_SC_USER_GROUPS_R'', ''_SC_USHRT_MAX'',
      ''_SC_V6_ILP32_OFF32'', ''_SC_V6_ILP32_OFFBIG'', ''_SC_V6_LP64_OFF64'', ''_SC_V6_LPBIG_OFFBIG'',
      ''_SC_V7_ILP32_OFF32'', ''_SC_V7_ILP32_OFFBIG'', ''_SC_V7_LP64_OFF64'', ''_SC_V7_LPBIG_OFFBIG'',
      ''_SC_VERSION'', ''_SC_WORD_BIT'', ''_SC_XBS5_ILP32_OFF32'', ''_SC_XBS5_ILP32_OFFBIG'',
      ''_SC_XBS5_LP64_OFF64'', ''_SC_XBS5_LPBIG_OFFBIG'', ''_SC_XOPEN_CRYPT'', ''_SC_XOPEN_ENH_I18N'',
      ''_SC_XOPEN_LEGACY'', ''_SC_XOPEN_REALTIME'', ''_SC_XOPEN_REALTIME_THREADS'', ''_SC_XOPEN_SHM'',
      ''_SC_XOPEN_STREAMS'', ''_SC_XOPEN_UNIX'', ''_SC_XOPEN_VERSION'', ''_SC_XOPEN_XCU_VERSION'',
      ''_SC_XOPEN_XPG2'', ''_SC_XOPEN_XPG3'', ''_SC_XOPEN_XPG4'']"

definition sysconf_names :: "string list" where
  "sysconf_names = sysconf_names_1 @ sysconf_names_2 @ sysconf_names_3 @ sysconf_names_4 @ sysconf_names_5 @ sysconf_names_6"

definition sysconf_map :: "build \<Rightarrow> (string \<times> int) list" where
  "sysconf_map bd = map (\<lambda>n. (n, macro_value bd n)) (filter (defd bd) sysconf_names)"

definition locale_map :: "build \<Rightarrow> (string \<times> int) list" where
  "locale_map bd =
     (let opt = (\<lambda>n. if defd bd n then [n] else []) in
      map (\<lambda>n. (n, macro_value bd n))
        (opt ''LC_ADDRESS'' @ [''LC_COLLATE'', ''LC_CTYPE''] @ opt ''LC_IDENTIFICATION'' @ opt ''LC_MEASUREMENT'' @
         [''LC_MESSAGES'', ''LC_MONETARY''] @ opt ''LC_NAME'' @ [''LC_NUMERIC''] @ opt ''LC_PAPER'' @ opt ''LC_TELEPHONE'' @
         [''LC_TIME'']))"

end
