(* ===== verification/ProcMain.thy ===== *)
theory ProcMain
  imports Dump Sysconf
begin

text \<open>
  \<^verbatim>\<open>main\<close> and what it calls at the top: the environment variables and options that set up the
  output, the queries made once at the start, the choice of the routines and the clean-up. The
  answers of the system are the record \<open>world\<close>; the globals are the record \<open>mstate\<close>.
\<close>

section \<open>The program's surroundings\<close>

record world =
  w_pkg :: pkg
  w_url :: string
  w_build :: build
  w_environ :: "string list"
  w_getenv :: "string \<Rightarrow> string option"
  w_proc :: proc_queries
  w_file :: file_queries
  w_net :: net_queries
  w_thread :: thread_queries
  w_tcgetattr :: "int \<Rightarrow> termios option"
  w_winsize :: "int \<Rightarrow> (int \<times> int \<times> int \<times> int) option"
  w_rusage :: "(string \<Rightarrow> int) option"
  w_sigset :: "(int \<Rightarrow> int) option"
  w_sigaction :: "int \<Rightarrow> bool option"
  w_strsignal :: "int \<Rightarrow> string option"
  w_sysconf :: "int \<Rightarrow> int"
  w_pagesize :: int
  w_setlocale :: "int \<Rightarrow> string option"
  w_setlocale_all :: "string option"
  w_atexit :: bool
  w_localtime :: "int \<Rightarrow> tm option"
  w_asctime_r :: "tm \<Rightarrow> string option"
  w_version_code :: "32 word option"
  w_personality :: "32 word"
  w_uname :: "utsname option"
  w_getpid :: int
  w_getppid :: int
  w_getresuid :: "(nat \<times> nat \<times> nat) option"
  w_getresgid :: "(nat \<times> nat \<times> nat) option"
  w_getsid :: int
  w_getlogin :: "string option"
  w_getpgrp :: int
  w_ctermid :: string
  w_open_rw :: "string \<Rightarrow> int"
  w_tcgetpgrp :: "int \<Rightarrow> int"
  w_getpwuid :: "nat \<Rightarrow> int + passwd"
  w_umask :: "32 word"
  w_getcwd :: "string option"
  w_getpriority :: "string \<Rightarrow> int"
  w_execvp :: "string \<Rightarrow> string option list \<Rightarrow> bool"

record mstate =
  out :: ostate
  glob :: globals
  reexec :: bool
  exec_args :: "string option list option"
  displayed :: bool

definition on_out :: "ostate stmt \<Rightarrow> mstate stmt" where
  "on_out f ms = bindE (f (out ms)) (\<lambda>st. Inr (ms\<lparr>out := st\<rparr>))"

definition set_out :: "(ostate \<Rightarrow> ostate) \<Rightarrow> mstate stmt" where
  "set_out f = on_out (\<lambda>st. Inr (f st))"

text \<open>\<^verbatim>\<open>user.euid\<close> and \<^verbatim>\<open>user.tty_fd\<close> are read by the output routines.\<close>

definition set_glob :: "globals \<Rightarrow> mstate \<Rightarrow> mstate" where
  "set_glob g ms = ms\<lparr>glob := g, out := (out ms)\<lparr>euid := u_euid (user g), tty_fd := u_tty_fd (user g)\<rparr>\<rparr>"

definition on_glob :: "(globals \<Rightarrow> globals res) \<Rightarrow> mstate stmt" where
  "on_glob f ms = bindE (f (glob ms)) (\<lambda>g. Inr (set_glob g ms))"

section \<open>Queries at the start\<close>

definition get_uname :: "world \<Rightarrow> globals \<Rightarrow> globals res" where
  "get_uname w g = (case w_uname w of None \<Rightarrow> Inl (Die ''failed to query uname'') | Some u \<Rightarrow> Inr (g\<lparr>uts := u\<rparr>))"

text \<open>With \<^verbatim>\<open>getresuid\<close> and \<^verbatim>\<open>getresgid\<close>; \<open>w_getpwuid\<close> is the entry or \<^verbatim>\<open>errno\<close>.\<close>

definition get_user_info :: "world \<Rightarrow> procenv_ops \<Rightarrow> globals \<Rightarrow> globals res" where
  "get_user_info w ops g =
     (let u0 = (user g)\<lparr>pid := w_getpid w, ppid := w_getppid w\<rparr> in
      bindE (case get_proc_name ops of None \<Rightarrow> Inr u0 | Some f \<Rightarrow> f (uts g) u0) (\<lambda>u1.
        case (w_getresuid w, w_getresgid w) of
          (Some (ru, eu, su), Some (rg, eg, sg)) \<Rightarrow>
            let fd = w_open_rw w (w_ctermid w);
                tty = (if fd < 0 then 0 else fd);
                u2 = u1\<lparr>uid := ru, u_euid := eu, suid := su, gid := rg, egid := eg, sgid := sg, sid := w_getsid w,
                        login := w_getlogin w, pgroup := w_getpgrp w, ctrl_terminal := w_ctermid w, u_tty_fd := tty,
                        fg_pgroup := w_tcgetpgrp w tty\<rparr>
            in (case w_getpwuid w ru of
                  Inl errno \<Rightarrow> Inl (Die (if errno = 0 then ''uid no longer exists'' else ''cannot determine user details''))
                | Inr pw \<Rightarrow> Inr (g\<lparr>user := u2\<lparr>u_passwd := pw\<rparr>\<rparr>))
        | _ \<Rightarrow> Inl AssertFail))"

definition get_misc :: "world \<Rightarrow> procenv_ops \<Rightarrow> globals \<Rightarrow> globals res" where
  "get_misc w ops g =
     (case w_getcwd w of
        None \<Rightarrow> Inl AssertFail
      | Some d \<Rightarrow>
          let m = (misc g)\<lparr>umask_value := w_umask w, cwd := d\<rparr> in
          bindE (case get_user_misc ops of None \<Rightarrow> Inr (proc_name (user g), m) | Some f \<Rightarrow> f (user g) m)
            (\<lambda>(name, m'). Inr (g\<lparr>user := (user g)\<lparr>proc_name := name\<rparr>, misc := m'\<rparr>)))"

definition get_priorities :: "world \<Rightarrow> globals \<Rightarrow> globals" where
  "get_priorities w g = g\<lparr>priority := \<lparr>prio_process = w_getpriority w ''PRIO_PROCESS'',
     prio_pgrp = w_getpriority w ''PRIO_PGRP'', prio_user = w_getpriority w ''PRIO_USER''\<rparr>\<rparr>"

definition save_locale :: "cenv \<Rightarrow> world \<Rightarrow> 'a stmt" where
  "save_locale env w s =
     (case w_setlocale_all w of
        None \<Rightarrow> Inr s
      | Some value \<Rightarrow>
          guardE (alloc_ok env (length value + 1)) (Die ''failed to allocate space for locale'')
            (guardE (w_atexit w) (Die ''failed to register exit handler'') (Inr s)))"

definition init :: "cenv \<Rightarrow> world \<Rightarrow> procenv_ops \<Rightarrow> mstate stmt" where
  "init env w ops =
     do_all
       [save_locale env w,
        on_out (handle_indent_char env),
        on_glob (get_uname w),
        on_glob (get_user_info w ops),
        on_glob (get_misc w ops),
        on_glob (\<lambda>g. Inr (get_priorities w g)),
        on_glob (\<lambda>g. Inr (case get_io_priorities ops of None \<Rightarrow> g | Some f \<Rightarrow> g\<lparr>priority_io := f (priority_io g)\<rparr>))]"

definition cleanup :: "ostate stmt" where
  "cleanup st0 = bindE (common_assert st0) output_finalise"

section \<open>Environment variables\<close>

text \<open>\<^verbatim>\<open>e = getenv (NAME); if (e && *e)\<close>\<close>

definition when_set :: "world \<Rightarrow> string \<Rightarrow> (string \<Rightarrow> mstate stmt) \<Rightarrow> mstate stmt" where
  "when_set w name f ms =
     (case w_getenv w name of None \<Rightarrow> Inr ms | Some e \<Rightarrow> if e = [] then Inr ms else f e ms)"

definition tab_escape :: "string \<Rightarrow> string" where
  "tab_escape s = (if strcmp s [CHR 0x5C, CHR ''t''] = 0 then [CHR 0x09] else s)"

text \<open>The number of spaces in the command, counted from \<open>n\<close>.\<close>

function count_fields :: "string \<Rightarrow> nat \<Rightarrow> nat" where
  "count_fields tmp n =
     (if tmp = [] then n
      else case dropWhile (\<lambda>c. c \<noteq> CHR '' '') tmp of [] \<Rightarrow> n | _ # r \<Rightarrow> count_fields r (Suc n))"
  by pat_completeness auto
termination
proof (relation "measure (\<lambda>(s, _). length s)", simp_all, goal_cases)
  case (1 tmp x r)
  then show ?case using length_dropWhile_le [of "\<lambda>c. c \<noteq> CHR '' ''" tmp] by simp
qed

declare count_fields.simps [simp del]

definition left_length :: "string option \<Rightarrow> nat" where
  "left_length s = (case s of None \<Rightarrow> 0 | Some t \<Rightarrow> Suc (length t))"

lemma strsep_shorter:
  assumes "strsep d s = (Some tok, s')"
  shows "left_length s' < left_length s"
proof (cases s)
  case (Some t)
  then show ?thesis
    using assms length_dropWhile_le [of "\<lambda>c. c \<noteq> d" t]
    by (cases "dropWhile (\<lambda>c. c \<noteq> d) t") (auto simp: strsep_def left_length_def)
qed (use assms in \<open>simp add: strsep_def\<close>)

function exec_tokens :: "cenv \<Rightarrow> string option \<Rightarrow> nat \<Rightarrow> string option list \<Rightarrow> string option list res" where
  "exec_tokens env tmp i args =
     (case strsep (CHR '' '') tmp of
        (None, _) \<Rightarrow> Inr args
      | (Some tok, tmp') \<Rightarrow>
          guardE (alloc_ok env (length tok + 1)) (Die ''failed to allocate space for exec arg'')
            (bindE (wr args i (Some tok)) (\<lambda>args'. exec_tokens env tmp' (Suc i) args')))"
  by pat_completeness auto
termination
  by (relation "measure (\<lambda>(_, s, _). left_length s)") (auto dest: strsep_shorter [OF sym])

declare exec_tokens.simps [simp del]

definition set_exec :: "cenv \<Rightarrow> string \<Rightarrow> mstate stmt" where
  "set_exec env e ms =
     guardE (alloc_ok env (length e + 1)) (Die ''failed to copy environment string'')
     (guardE (e \<noteq> []) (Die ''invalid command'')
        (let n = count_fields e 1 in
         guardE (alloc_ok env ((n + 1) * 8)) (Die ''failed to allocate space for args copy'')
           (bindE (exec_tokens env (Some e) 0 (replicate (n + 1) None)) (\<lambda>args.
              Inr (ms\<lparr>exec_args := Some args, reexec := True\<rparr>)))))"

definition check_envvars :: "cenv \<Rightarrow> world \<Rightarrow> mstate stmt" where
  "check_envvars env w =
     do_all
       [when_set w ''PROCENV_OUTPUT'' (\<lambda>e. on_out (set_output_value e)),
        when_set w ''PROCENV_FILE'' (\<lambda>e. set_out (\<lambda>st. set_output_value_raw OUTPUT_FILE (set_output_file (Some e) st))),
        when_set w ''PROCENV_FILE_APPEND'' (\<lambda>e. set_out set_output_file_append),
        when_set w ''PROCENV_FORMAT'' (\<lambda>e. on_out (set_output_format e)),
        when_set w ''PROCENV_INDENT'' (\<lambda>e. set_out (set_indent_amount (atoi e))),
        when_set w ''PROCENV_INDENT_CHAR'' (\<lambda>e. set_out (set_indent_char (Some (tab_escape e)))),
        when_set w ''PROCENV_SEPARATOR'' (\<lambda>e. set_out (set_text_separator e)),
        when_set w ''PROCENV_CRUMB_SEPARATOR'' (\<lambda>e. set_out (set_crumb_separator (Some (tab_escape e)))),
        when_set w ''PROCENV_EXEC'' (set_exec env)]"

section \<open>Options\<close>

text \<open>
  \<open>long_options\<close>: the name, whether an argument is required, and the value (\<open>None\<close> for 0).
\<close>

definition long_options :: "(string \<times> bool \<times> char option) list" where
  "long_options =
     [(''meta'', False, Some CHR ''a''), (''arguments'', False, Some CHR ''A''), (''libs'', False, Some CHR ''b''),
      (''libc'', False, Some CHR ''B''), (''cgroups'', False, Some CHR ''c''), (''cpu'', False, Some CHR ''C''),
      (''compiler'', False, Some CHR ''d''), (''crumb-separator'', True, None),
      (''environment'', False, Some CHR ''e''), (''semaphores'', False, Some CHR ''E''), (''fds'', False, Some CHR ''f''),
      (''namespaces'', False, Some CHR ''F''), (''sizeof'', False, Some CHR ''g''), (''help'', False, Some CHR ''h''),
      (''misc'', False, Some CHR ''i''), (''uname'', False, Some CHR ''j''), (''clocks'', False, Some CHR ''k''),
      (''limits'', False, Some CHR ''l''), (''locale'', False, Some CHR ''L''), (''mounts'', False, Some CHR ''m''),
      (''message-queues'', False, Some CHR ''M''), (''confstr'', False, Some CHR ''n''), (''network'', False, Some CHR ''N''),
      (''oom'', False, Some CHR ''o''), (''process'', False, Some CHR ''p''), (''platform'', False, Some CHR ''P''),
      (''time'', False, Some CHR ''q''), (''ranges'', False, Some CHR ''r''), (''signals'', False, Some CHR ''s''),
      (''shared-memory'', False, Some CHR ''S''), (''tty'', False, Some CHR ''t''), (''threads'', False, Some CHR ''T''),
      (''stat'', False, Some CHR ''u''), (''rusage'', False, Some CHR ''U''), (''version'', False, Some CHR ''v''),
      (''capabilities'', False, Some CHR ''w''), (''pathconf'', False, Some CHR ''x''), (''sysconf'', False, Some CHR ''y''),
      (''memory'', False, Some CHR ''Y''), (''timezone'', False, Some CHR ''z''), (''exec'', False, None),
      (''file'', True, None), (''file-append'', False, None), (''format'', True, None), (''indent'', True, None),
      (''indent-char'', True, None), (''output'', True, None), (''separator'', True, None)]"

definition short_options :: string where
  "short_options = ''aAbBcCdeEfFghijklLmMnNopPqrsStTuUvwxyYz''"

text \<open>What one call of \<^verbatim>\<open>getopt_long\<close> returns: a letter, or 0 with the option's name and \<^verbatim>\<open>optarg\<close>.\<close>

datatype opt = Letter char | Setting string "string option"

text \<open>
  \<^verbatim>\<open>getopt_long\<close> of the GNU library. A long option may be shortened: an exact name wins; otherwise
  the names with that prefix must agree in argument and value, and the first of them is taken.
\<close>

definition long_match :: "string \<Rightarrow> (string \<times> bool \<times> char option) option" where
  "long_match name =
     (case find (\<lambda>e. fst e = name) long_options of
        Some e \<Rightarrow> Some e
      | None \<Rightarrow>
          (case filter (\<lambda>e. take (length name) (fst e) = name) long_options of
             [] \<Rightarrow> None
           | e # es \<Rightarrow> if \<forall>e' \<in> set es. snd e' = snd e then Some e else None))"

definition long_result :: "(string \<times> bool \<times> char option) \<Rightarrow> string option \<Rightarrow> opt" where
  "long_result e optarg = (case snd (snd e) of Some c \<Rightarrow> Letter c | None \<Rightarrow> Setting (fst e) optarg)"

text \<open>
  The results for the arguments \<open>args\<close> behind the program's name and the non-options that are left.
  Without \<^verbatim>\<open>POSIXLY_CORRECT\<close> (\<open>posix\<close>) options are found behind non-options too.
\<close>

fun getopt_long :: "bool \<Rightarrow> string list \<Rightarrow> opt list \<times> string list" where
  "getopt_long posix [] = ([], [])"
| "getopt_long posix (arg # args) =
     (if arg = ''--'' then ([], args)
      else if take 2 arg = ''--'' then
        let name = takeWhile (\<lambda>c. c \<noteq> CHR ''='') (drop 2 arg); rest = dropWhile (\<lambda>c. c \<noteq> CHR ''='') (drop 2 arg) in
        case long_match name of
          None \<Rightarrow> let (os, ns) = getopt_long posix args in (Letter CHR ''?'' # os, ns)
        | Some e \<Rightarrow>
            if rest \<noteq> [] then
              let (os, ns) = getopt_long posix args
              in ((if fst (snd e) then long_result e (Some (tl rest)) else Letter CHR ''?'') # os, ns)
            else if \<not> fst (snd e) then
              let (os, ns) = getopt_long posix args in (long_result e None # os, ns)
            else (case args of
                    [] \<Rightarrow> ([Letter CHR ''?''], [])
                  | v # args' \<Rightarrow> let (os, ns) = getopt_long posix args' in (long_result e (Some v) # os, ns))
      else if take 1 arg = ''-'' \<and> 1 < length arg then
        let (os, ns) = getopt_long posix args
        in (map (\<lambda>c. Letter (if c \<in> set short_options then c else CHR ''?'')) (tl arg) @ os, ns)
      else if posix then ([], arg # args)
      else let (os, ns) = getopt_long posix args in (os, arg # ns))"

text \<open>Case 0 of the loop: a setting, applied unless a display option was seen; \<^verbatim>\<open>--exec\<close> may follow one.\<close>

definition apply_setting :: "cenv \<Rightarrow> string \<Rightarrow> string \<Rightarrow> mstate stmt" where
  "apply_setting env name optarg ms =
     (if name = ''output'' then on_out (set_output_value optarg) ms
      else if name = ''file'' then set_out (\<lambda>st. set_output_file (Some optarg) (set_output_value_raw OUTPUT_FILE st)) ms
      else if name = ''file-append'' then set_out set_output_file_append ms
      else if name = ''exec'' then Inr (ms\<lparr>reexec := True\<rparr>)
      else if name = ''format'' then on_out (set_output_format optarg) ms
      else if name = ''indent'' then
        bindE (set_out (set_indent_amount (atoi optarg)) ms) (\<lambda>ms1.
          guardE (\<not> indent_amount (out ms1) \<le> 0) (Die ''cannot specify indent <= 0'') (Inr ms1))
      else if name = ''indent-char'' then
        bindE (set_out (set_indent_char (Some (tab_escape optarg))) ms) (on_out (handle_indent_char env))
      else if name = ''separator'' then set_out (set_text_separator (tab_escape optarg)) ms
      else if name = ''crumb-separator'' then set_out (set_crumb_separator (Some (tab_escape optarg))) ms
      else Inr ms)"

definition do_setting :: "cenv \<Rightarrow> string \<Rightarrow> string option \<Rightarrow> mstate stmt" where
  "do_setting env name optarg ms =
     guardE (displayed ms \<longrightarrow> name = ''exec'') (Die ''Must specify non-display options before display options'')
       (bindE (apply_setting env name (case optarg of Some a \<Rightarrow> a | None \<Rightarrow> []) ms) (set_out reset_indent))"

section \<open>Display\<close>

text \<open>The text of \<^verbatim>\<open>usage\<close>: formats with their arguments, which are read from the settings at the call.\<close>

definition show_line :: "cenv \<Rightarrow> oio \<Rightarrow> string \<times> (ostate \<Rightarrow> parg list) \<Rightarrow> ostate stmt" where
  "show_line env io l st = show_msg env io [] (indent_amount st) (fst l) (snd l st) st"

definition fixed_line :: "string \<Rightarrow> string \<times> (ostate \<Rightarrow> parg list)" where
  "fixed_line l = (l, \<lambda>_. [])"

definition usage_lines :: "world \<Rightarrow> (string \<times> (ostate \<Rightarrow> parg list)) list" where
  "usage_lines w =
     [(''Usage: %s [option]'', \<lambda>_. [PStr (PACKAGE_STRING (w_pkg w))]),
      fixed_line [],
      fixed_line ''Description: Display process environment.'',
      fixed_line [],
      fixed_line ''Options:'',
      fixed_line [],
      fixed_line ''  -a, --meta              : Display meta details.'',
      fixed_line ''  -A, --arguments         : Display program arguments.'',
      fixed_line ''  -b, --libs              : Display details of linked libraries.'',
      fixed_line ''  -B, --libc              : Display standard library details.'',
      fixed_line ''  -c, --cgroups           : Display cgroup details (Linux only).'',
      fixed_line ''  -C, --cpu               : Display CPU and scheduler details.'',
      fixed_line ''  --crumb-separator=<str> : Specify string '<str>' as alternate delimiter'',
      (''                            for crumb format output (default='%s').'', \<lambda>st. [PStr (crumb_separator st)]),
      fixed_line ''  -d, --compiler          : Display compiler details.'',
      fixed_line ''  -e, --environment       : Display environment variables.'',
      fixed_line ''  -E, --semaphores        : Display semaphore details.'',
      fixed_line ''  --exec                  : Treat non-option arguments as program to execute.'',
      fixed_line ''  -f, --fds               : Display file descriptor details.'',
      fixed_line ''  -F, --namespaces        : Display namespace details.'',
      fixed_line ''  --file=<file>           : Send output to <file> (implies --output=file).'',
      fixed_line (''  --file-append           : Append to file specified by '--file='' @ [CHR 0x27]),
      fixed_line ''                            rather than overwriting'',
      fixed_line ''  --format=<format>       : Specify output format. <format> can be one of:'',
      fixed_line [],
      fixed_line (''                            crumb    : ASCII 'breadcrumbs'' @ [CHR 0x27]),
      fixed_line ''                            json     : JSON output.'',
      fixed_line ''                            text     : ASCII output (default).'',
      fixed_line ''                            xml      : XML output.'',
      fixed_line [],
      fixed_line ''  -g, --sizeof            : Display sizes of data types in bytes.'',
      fixed_line ''  -h, --help              : This help text.'',
      fixed_line ''  -i, --misc              : Display miscellaneous details.'',
      fixed_line ''  --indent                : Number of indent characters to use for each indent'',
      (''                            (default=%d).'', \<lambda>st. [PInt (indent_amount st)]),
      fixed_line ''  --indent-char=<c>       : Use character '<c>' for indenting'',
      (''                            (default='%s').'', \<lambda>st. [PStr (indent_char st)]),
      fixed_line ''  -j, --uname             : Display uname details.'',
      fixed_line ''  -k, --clocks            : Display clock details.'',
      fixed_line ''  -l, --limits            : Display limits.'',
      fixed_line ''  -L, --locale            : Display locale details.'',
      fixed_line ''  -m, --mounts            : Display mount details.'',
      fixed_line ''  -M, --message-queues    : Display message queue details.'',
      fixed_line ''  -n, --confstr           : Display confstr details.'',
      fixed_line ''  -N, --network           : Display network details.'',
      fixed_line ''  -o, --oom               : Display out-of-memory manager details (Linux only)'',
      fixed_line ''  --output=<type>         : Send output to alternative location.'',
      fixed_line ''                            <type> can be one of:'',
      fixed_line [],
      fixed_line ''                            file     : Send output to a file.'',
      fixed_line ''                            stderr   : Write to standard error.'',
      fixed_line ''                            stdout   : Write to standard output (default).'',
      fixed_line ''                            syslog   : Write to the system log file.'',
      fixed_line ''                            terminal : Write to terminal.'',
      fixed_line [],
      fixed_line ''  -p, --process           : Display process details.'',
      fixed_line ''  -P, --platform          : Display platform details.'',
      fixed_line ''  -q, --time              : Display time details.'',
      fixed_line ''  -r, --ranges            : Display range of data types.'',
      fixed_line ''  --separator=<str>       : Specify string '<str>' as alternate delimiter'',
      (''                            for text format output (default='%s').'', \<lambda>st. [PStr (text_separator st)]),
      fixed_line ''  -s, --signals           : Display signal details.'',
      fixed_line ''  -S, --shared-memory     : Display shared memory details.'',
      fixed_line ''  -t, --tty               : Display terminal details.'',
      fixed_line ''  -T, --threads           : Display thread details.'',
      fixed_line ''  -u, --stat              : Display stat details.'',
      fixed_line ''  -U, --rusage            : Display rusage details.'',
      fixed_line ''  -v, --version           : Display version details.'',
      fixed_line ''  -w, --capabilities      : Display capability details (Linux only).'',
      fixed_line ''  -x, --pathconf          : Display pathconf details.'',
      fixed_line ''  -y, --sysconf           : Display sysconf details.'',
      fixed_line ''  -Y, --memory            : Display memory details.'',
      fixed_line ''  -z, --timezone          : Display timezone details.'',
      fixed_line [],
      fixed_line ''Notes:'',
      fixed_line [],
      fixed_line ''  - Options are considered in order, so '--output' should'',
      fixed_line ''    precede any other option.'',
      fixed_line ''  - If no display option is specified, all details are displayed.'',
      fixed_line ''  - Only one display option may be specified.'',
      fixed_line (''  - All values for '--indent-char' are literal except '' @ [CHR 0x27] @ [CHR 0x5C] @ ''t' which can be''),
      fixed_line (''    used to specify a tab character. The same is true for '--separator'' @ [CHR 0x27]),
      fixed_line ''    and '--crumb-separator' but only if it is the first character specified.'',
      fixed_line ''  - Specifying a visible indent-char is only (vaguely) meaningful'',
      fixed_line ''    for text output.'',
      fixed_line ''  - Any long option name may be shortened as long as it remains unique.'',
      fixed_line ''  - The 'crumb' output format is designed for easy parsing: it displays'',
      fixed_line ''    the data in a flattened format with each value on a separate line'',
      fixed_line ''    preceded by all appropriate headings which are separated by the'',
      fixed_line ''    current separator.'',
      fixed_line [],
      (''Home page: %s'', \<lambda>_. [PStr (w_url w)])]"

definition usage :: "cenv \<Rightarrow> oio \<Rightarrow> world \<Rightarrow> ostate stmt" where
  "usage env io w st = do_all (map (show_line env io) (usage_lines w)) (set_indent_amount 0 st)"

text \<open>A routine prints its report into the document.\<close>

definition show_part :: "cenv \<Rightarrow> (globals \<Rightarrow> report) \<Rightarrow> mstate stmt" where
  "show_part env f ms = bindE (f (glob ms)) (\<lambda>cs. on_out (run_calls env cs) ms)"

definition show_tty :: "cenv \<Rightarrow> world \<Rightarrow> procenv_ops \<Rightarrow> mstate stmt" where
  "show_tty env w ops ms =
     bindE (show_tty_attrs (w_tcgetattr w) (w_winsize w) ops (glob ms)) (\<lambda>(fd, cs).
     bindE (on_out (run_calls env cs) ms) (\<lambda>ms1.
       Inr (set_glob ((glob ms1)\<lparr>user := (user (glob ms1))\<lparr>u_tty_fd := fd\<rparr>\<rparr>) ms1)))"

text \<open>The routine behind a letter, for those that only report.\<close>

definition routine :: "cenv \<Rightarrow> world \<Rightarrow> procenv_ops \<Rightarrow> ostate \<Rightarrow> char \<Rightarrow> (globals \<Rightarrow> report) option" where
  "routine env w ops st c =
     (let bd = w_build w in
      map_of
       [(CHR ''a'', \<lambda>g. show_meta (w_pkg w) (defd bd ''PROCENV_REPRODUCIBLE_BUILD'') ops g st),
        (CHR ''A'', show_arguments env),
        (CHR ''b'', show_libs ops),
        (CHR ''B'', \<lambda>_. show_libc bd),
        (CHR ''c'', show_cgroups ops),
        (CHR ''C'', show_cpu ops),
        (CHR ''d'', \<lambda>_. show_compiler bd),
        (CHR ''e'', \<lambda>_. show_env env (q_strcoll (w_proc w)) (w_environ w)),
        (CHR ''E'', show_semaphores ops),
        (CHR ''f'', show_fds ops),
        (CHR ''F'', show_namespaces ops),
        (CHR ''g'', \<lambda>_. show_sizeof bd),
        (CHR ''i'', show_misc env (w_file w) (w_version_code w) (w_personality w) ops),
        (CHR ''j'', show_uname),
        (CHR ''k'', show_clocks ops),
        (CHR ''l'', show_rlimits ops),
        (CHR ''L'', \<lambda>_. show_locale env (w_getenv w) (w_setlocale_all w) (locale_map (w_build w)) (w_setlocale w)),
        (CHR ''m'', \<lambda>_. show_mounts ops SHOW_MOUNTS),
        (CHR ''M'', show_msg_queues ops),
        (CHR ''n'', show_confstrs ops),
        (CHR ''N'', \<lambda>_. show_network env (w_net w) ops),
        (CHR ''o'', show_oom ops),
        (CHR ''p'', show_proc env (w_proc w) ops),
        (CHR ''P'', \<lambda>_. show_platform bd ops),
        (CHR ''q'', \<lambda>_. show_time (w_localtime w) (w_asctime_r w) ops),
        (CHR ''r'', \<lambda>_. show_ranges bd),
        (CHR ''s'', \<lambda>_. show_signals (w_sigset w) (w_sigaction w) (w_strsignal w) ops),
        (CHR ''S'', show_shared_mem ops),
        (CHR ''T'', \<lambda>_. show_threads (w_thread w)),
        (CHR ''u'', show_stat env (w_file w) (w_proc w)),
        (CHR ''U'', \<lambda>_. show_rusage (w_rusage w)),
        (CHR ''v'', \<lambda>_. show_version (w_pkg w)),
        (CHR ''w'', show_capabilities ops),
        (CHR ''x'', \<lambda>_. show_mounts ops SHOW_PATHCONF),
        (CHR ''y'', \<lambda>_. show_sysconf (sysconf_map (w_build w)) (w_sysconf w)),
        (CHR ''Y'', show_memory (w_pagesize w) ops),
        (CHR ''z'', show_timezone ops)] c)"

text \<open>The queries some letters repeat before they report, and the \<^verbatim>\<open>switch\<close> of the loop.\<close>

definition requery :: "world \<Rightarrow> procenv_ops \<Rightarrow> char \<Rightarrow> globals stmt" where
  "requery w ops c =
     do_all (if c = CHR ''i'' then [get_uname w, get_user_info w ops, get_misc w ops]
             else if c = CHR ''p'' then [get_misc w ops]
             else [])"

definition display :: "cenv \<Rightarrow> oio \<Rightarrow> world \<Rightarrow> procenv_ops \<Rightarrow> char \<Rightarrow> mstate stmt" where
  "display env io w ops c ms0 =
     bindE (on_glob (requery w ops c) ms0) (\<lambda>ms.
     if c = CHR ''h'' then on_out (usage env io w) ms
     else if c = CHR ''t'' then show_tty env w ops ms
     else if c = CHR ''?'' then Inl (Die ''invalid option specified'')
     else case routine env w ops (out ms) c of
            Some f \<Rightarrow> show_part env f ms
          | None \<Rightarrow> Inr ms)"

fun option_loop :: "cenv \<Rightarrow> oio \<Rightarrow> world \<Rightarrow> procenv_ops \<Rightarrow> opt list \<Rightarrow> mstate stmt" where
  "option_loop env io w ops [] ms = Inr ms"
| "option_loop env io w ops (Setting name optarg # os) ms =
     bindE (do_setting env name optarg ms) (option_loop env io w ops os)"
| "option_loop env io w ops (Letter c # os) ms =
     bindE (on_out (master_header env (w_pkg w)) (ms\<lparr>displayed := True\<rparr>)) (\<lambda>ms1.
     bindE (display env io w ops c ms1) (option_loop env io w ops os))"

text \<open>\<open>dump\<close>: the routines in the order of the code; the locale comes behind the limits.\<close>

definition dump_parts :: "cenv \<Rightarrow> world \<Rightarrow> procenv_ops \<Rightarrow> (globals \<Rightarrow> report) list" where
  "dump_parts env w ops =
     (let bd = w_build w in
      [show_arguments env,
       show_capabilities ops, show_cgroups ops, show_clocks ops, \<lambda>_. show_compiler bd, show_confstrs ops, show_cpu ops,
       \<lambda>_. show_env env (q_strcoll (w_proc w)) (w_environ w),
       show_fds ops, \<lambda>_. show_libc bd, show_libs ops, show_rlimits ops,
       \<lambda>_. show_locale env (w_getenv w) (w_setlocale_all w) (locale_map (w_build w)) (w_setlocale w),
       show_memory (w_pagesize w) ops, show_msg_queues ops,
       show_misc env (w_file w) (w_version_code w) (w_personality w) ops,
       \<lambda>_. show_mounts ops SHOW_ALL, show_namespaces ops, \<lambda>_. show_network env (w_net w) ops, show_oom ops,
       \<lambda>_. show_platform bd ops, show_proc env (w_proc w) ops, \<lambda>_. show_ranges bd, \<lambda>_. show_rusage (w_rusage w),
       show_semaphores ops, show_shared_mem ops,
       \<lambda>_. show_signals (w_sigset w) (w_sigaction w) (w_strsignal w) ops,
       \<lambda>_. show_sizeof bd, show_stat env (w_file w) (w_proc w),
       \<lambda>_. show_sysconf (sysconf_map (w_build w)) (w_sysconf w), \<lambda>_. show_threads (w_thread w),
       \<lambda>_. show_time (w_localtime w) (w_asctime_r w) ops, show_timezone ops])"

definition dump :: "cenv \<Rightarrow> world \<Rightarrow> procenv_ops \<Rightarrow> mstate stmt" where
  "dump env w ops =
     do_all
       ([on_out (master_header env (w_pkg w)),
         \<lambda>ms. show_part env (\<lambda>g. show_meta (w_pkg w) (defd (w_build w) ''PROCENV_REPRODUCIBLE_BUILD'') ops g (out ms)) ms] @
        map (show_part env) (dump_parts env w ops) @
        [show_tty env w ops,
         show_part env show_uname,
         on_out (master_footer env (w_pkg w))])"

section \<open>main\<close>

definition chomp_doc :: "ostate stmt" where
  "chomp_doc st =
     (case doc st of
        None \<Rightarrow> Inl AssertFail
      | Some d \<Rightarrow> bindE (pstring_chomp (wide_indent_char st) d) (\<lambda>d'. Inr (st\<lparr>doc := Some d'\<rparr>)))"

definition compress_doc :: "cenv \<Rightarrow> ostate stmt" where
  "compress_doc env st =
     (case doc st of
        None \<Rightarrow> Inl AssertFail
      | Some d \<Rightarrow> bindE (pstring_compress env (wide_indent_char st) d) (\<lambda>d'. Inr (st\<lparr>doc := Some d'\<rparr>)))"

definition show_doc :: "cenv \<Rightarrow> oio \<Rightarrow> ostate stmt" where
  "show_doc env io st = (case doc st of None \<Rightarrow> Inl AssertFail | Some d \<Rightarrow> show_output_pstring env io d st)"

text \<open>The part behind the loop that completes the document of the display options.\<close>

definition finish_display :: "cenv \<Rightarrow> world \<Rightarrow> ostate stmt" where
  "finish_display env w =
     do_all
       [common_assert,
        master_footer env (w_pkg w),
        chomp_doc,
        \<lambda>st. if output_format st \<noteq> OUTPUT_FORMAT_XML \<and> output_format st \<noteq> OUTPUT_FORMAT_JSON
             then compress_doc env st else Inr st]"

text \<open>How the run ends: \<^verbatim>\<open>exit (EXIT_SUCCESS)\<close>, or another program with its arguments.\<close>

datatype ending = Exit | Exec string "string option list"

definition run_exec :: "world \<Rightarrow> mstate \<Rightarrow> (mstate \<times> ending) res" where
  "run_exec w ms =
     (if reexec ms then
        case exec_args ms of
          None \<Rightarrow> Inl NullDeref
        | Some args \<Rightarrow>
            bindE (rd args 0) (\<lambda>f.
              case f of
                None \<Rightarrow> Inl NullDeref
              | Some prog \<Rightarrow> if w_execvp w prog args then Inr (ms, Exec prog args) else Inl (Die ''failed to re-exec''))
      else Inr (ms, Exit))"

definition main_rest :: "cenv \<Rightarrow> oio \<Rightarrow> world \<Rightarrow> procenv_ops \<Rightarrow> string list \<Rightarrow> mstate \<Rightarrow> (mstate \<times> ending) res" where
  "main_rest env io w ops operands ms0 =
     bindE (if displayed ms0 then on_out (finish_display env w) ms0 else Inr ms0) (\<lambda>ms1.
     bindE (set_out output_init ms1) (\<lambda>ms2.
     guardE (\<not> (reexec ms2 \<and> exec_args ms2 = None \<and> operands = [])) (Die ''must specify at least one argument with '--exec' '')
     (let ms3 = (if reexec ms2 \<and> exec_args ms2 = None then ms2\<lparr>exec_args := Some (map Some operands @ [None])\<rparr> else ms2) in
      bindE (if displayed ms3 then Inr ms3 else do_all [dump env w ops, on_out chomp_doc, on_out (compress_doc env)] ms3) (\<lambda>ms4.
      bindE (on_out (show_doc env io) ms4) (\<lambda>ms5.
      bindE (on_out cleanup ms5) (run_exec w))))))"

definition globals0 :: globals where
  "globals0 = \<lparr>user = \<lparr>u_passwd = \<lparr>pw_name = [], pw_gid = 0, pw_gecos = [], pw_dir = [], pw_shell = []\<rparr>, proc_name = [],
       ctrl_terminal = [], pid = 0, ppid = 0, sid = 0, login = None, pgroup = 0, fg_pgroup = 0, u_tty_fd = 0, uid = 0, u_euid = 0,
       suid = 0, gid = 0, egid = 0, sgid = 0\<rparr>,
     misc = \<lparr>cwd = [], root = [], umask_value = 0, in_jail = False\<rparr>,
     priority = \<lparr>prio_process = 0, prio_pgrp = 0, prio_user = 0\<rparr>, priority_io = \<lparr>prio_process = 0, prio_pgrp = 0, prio_user = 0\<rparr>,
     uts = \<lparr>sysname = [], nodename = [], release = [], uts_version = [], machine = [], domainname = []\<rparr>,
     program_name = [], argvp = []\<rparr>"

text \<open>The state \<^verbatim>\<open>main\<close> starts with, for the program name and the arguments behind it.\<close>

definition mstate0 :: "pstring \<Rightarrow> string \<Rightarrow> string list \<Rightarrow> mstate" where
  "mstate0 d prog args = \<lparr>out = ostate0\<lparr>doc := Some d\<rparr>, glob = globals0\<lparr>program_name := prog, argvp := prog # args\<rparr>,
     reexec = False, exec_args = None, displayed = False\<rparr>"

definition main :: "cenv \<Rightarrow> oio \<Rightarrow> world \<Rightarrow> procenv_ops \<Rightarrow> string \<Rightarrow> string list \<Rightarrow> (mstate \<times> ending) res" where
  "main env io w ops prog args =
     (case pstring_new env of
        None \<Rightarrow> Inl (Die ''failed to allocate string'')
      | Some d \<Rightarrow>
          let (os, operands) = getopt_long (w_getenv w ''POSIXLY_CORRECT'' \<noteq> None) args
          in bindE (do_all [check_envvars env w, init env w ops, option_loop env io w ops os] (mstate0 d prog args))
               (main_rest env io w ops operands))"

end
