(* ===== verification/JsonTidy.thy ===== *)
theory JsonTidy
  imports JsonDoc
begin

text \<open>
  The clean-up of a document (\<open>pstring_compress\<close>) is meant for text, but \<^verbatim>\<open>main\<close> applies it to a dump
  in every format. A JSON text survives it: a line end only follows a bracket, a comma or a quote, so
  the text has no empty line and no line end behind blanks.
\<close>

definition line_ends :: "wchar list \<Rightarrow> bool" where
  "line_ends w \<longleftrightarrow> successively (\<lambda>x y. y = NL \<longrightarrow> 32 < x) w"

definition tidy :: "wchar list \<Rightarrow> bool" where
  "tidy w \<longleftrightarrow> line_ends w \<and> w \<noteq> [] \<and> 32 < hd w \<and> 32 < last w"

lemma line_ends_append:
  "line_ends (u @ v) \<longleftrightarrow> line_ends u \<and> line_ends v \<and> (u = [] \<or> v = [] \<or> (hd v = NL \<longrightarrow> 32 < last u))"
  by (auto simp: line_ends_def successively_append_iff)

lemma line_ends_plain: "NL \<notin> set w \<Longrightarrow> line_ends w"
  unfolding line_ends_def by (induction w rule: induct_list012) auto

lemma line_ends_Cons: "line_ends (x # w) \<longleftrightarrow> line_ends w \<and> (w = [] \<or> (hd w = NL \<longrightarrow> 32 < x))"
  by (cases w) (auto simp: line_ends_def)

lemma line_ends_squeezed: "line_ends w \<Longrightarrow> squeezed 32 w"
  by (induction "32 :: wchar" w rule: squeezed.induct) (auto simp: line_ends_Cons neq_Nil_conv)

lemma jchars_plain: "jchars b \<Longrightarrow> NL \<notin> set b"
  by (auto simp: jchars_def)

lemma tidy_string: "jchars b \<Longrightarrow> tidy (34 # b @ [34])"
  by (simp add: tidy_def line_ends_plain jchars_plain)

lemma tidy_append: "tidy u \<Longrightarrow> tidy v \<Longrightarrow> tidy (u @ v)" "tidy u \<Longrightarrow> tidy v \<Longrightarrow> tidy (u @ [32, 58, 32] @ v)"
  by (auto simp: tidy_def line_ends_append line_ends_Cons)

lemma pad_plain: "pad_char ly = 32 \<Longrightarrow> NL \<notin> set (pad ly n)"
  by (simp add: pad_def)

lemma pad_hd: "pad_char ly = 32 \<Longrightarrow> v \<noteq> [] \<Longrightarrow> hd v \<noteq> NL \<Longrightarrow> hd (pad ly n @ v) \<noteq> NL"
  using pad_plain [of ly n] by (cases "pad ly n") auto

text \<open>A body between brackets.\<close>

lemma tidy_rows:
  assumes "pad_char ly = 32" "\<forall>y \<in> set (x # xs). tidy y"
  shows "line_ends (pad ly m @ x @ concat (map (\<lambda>y. [44, NL] @ pad ly m @ y) xs))"
    "32 < last (x @ concat (map (\<lambda>y. [44, NL] @ pad ly m @ y) xs))"
  using assms(2)
proof (induction xs arbitrary: x)
  case Nil
  {
    case 1
    then show ?case using pad_plain [OF assms(1)] by (auto simp: tidy_def line_ends_append line_ends_plain)
  next
    case 2
    then show ?case by (simp add: tidy_def)
  }
next
  case (Cons y ys)
  {
    case 1
    have p: "line_ends (pad ly m)" "NL \<notin> set (pad ly m)" by (simp_all add: line_ends_plain pad_plain assms(1))
    have "hd (pad ly m @ y @ v) \<noteq> NL" for v using 1 p(2) by (cases "pad ly m") (auto simp: tidy_def)
    with 1 Cons.IH(1) [of y] p show ?case
      by (auto simp: tidy_def line_ends_append line_ends_Cons)
  next
    case 2
    then have "y @ concat (map (\<lambda>y. [44, NL] @ pad ly m @ y) ys) \<noteq> []" by (simp add: tidy_def)
    with 2 Cons.IH(2) [of y] show ?case by (auto simp: last_append)
  }
qed

lemma tidy_body:
  assumes "pad_char ly = 32" "\<forall>y \<in> set xs. tidy y" "32 < a" "32 < b"
  shows "tidy (a # body OUTPUT_FORMAT_JSON ly n xs @ [b])"
proof (cases xs)
  case Nil
  then show ?thesis using assms by (simp add: tidy_def blank_empty_def line_ends_Cons line_ends_def)
next
  case (Cons x ys)
  define r where "r = x @ concat (map (\<lambda>y. [44, NL] @ pad ly (Suc n) @ y) ys)"
  have t: "\<forall>y \<in> set (x # ys). tidy y" using assms(2) Cons by simp
  have r: "line_ends (pad ly (Suc n) @ r)" "32 < last r" "r \<noteq> []" "hd (pad ly (Suc n) @ r @ v) \<noteq> NL" for v
    using tidy_rows [OF assms(1) t, of "Suc n"] t pad_hd [OF assms(1), of "r @ v"] by (auto simp: tidy_def r_def)
  have p: "line_ends (pad ly n @ [b])" "hd (pad ly n @ [b]) \<noteq> NL"
    using assms pad_hd [OF assms(1), of "[b]" n] by (auto intro!: line_ends_plain simp: pad_plain)
  have "body OUTPUT_FORMAT_JSON ly n xs @ [b] = NL # (pad ly (Suc n) @ r) @ NL # pad ly n @ [b]"
    using Cons by (simp add: r_def separator_def)
  with r p assms(3,4) show ?thesis by (simp add: tidy_def line_ends_Cons line_ends_append)
qed

lemma render_tidy:
  assumes "printable_sane env" "pad_char ly = 32"
  shows "item_ok env OUTPUT_FORMAT_JSON i \<Longrightarrow> tidy (render env OUTPUT_FORMAT_JSON ly n i)"
proof (induction i arbitrary: n)
  case (Entry name vfmt args)
  let ?n = "enc_name env OUTPUT_FORMAT_JSON name" and ?v = "enc_value env OUTPUT_FORMAT_JSON vfmt args"
  have "jchars ?n" "jchars ?v" using Entry name_jchars value_jchars assms(1) by auto
  then have "tidy ((34 # ?n @ [34]) @ [32, 58, 32] @ (34 # ?v @ [34]))" by (intro tidy_append(2) tidy_string)
  then show ?case by (simp add: entry_text_def L_json)
next
  case (Node k name "is")
  let ?xs = "map (render env OUTPUT_FORMAT_JSON ly (Suc n)) is" and ?n = "enc_name env OUTPUT_FORMAT_JSON name"
  have xs: "\<forall>y \<in> set ?xs. tidy y" using Node by auto
  show ?case
  proof (cases "k = Obj")
    case True
    with tidy_body [OF assms(2) xs, of 123 125] show ?thesis by (simp add: open_text_def close_text_def L_json)
  next
    case False
    have "jchars ?n" using Node.prems False name_jchars [OF assms(1)] by (cases k) auto
    then have "tidy ((34 # ?n @ [34]) @ [32, 58, 32] @ (a # body OUTPUT_FORMAT_JSON ly n ?xs @ [b]))" if "32 < a" "32 < b" for a b
      using that by (intro tidy_append(2) tidy_string tidy_body assms(2) xs)
    from this [of 123 125] this [of 91 93] False show ?thesis
      by (cases k) (simp_all add: open_text_def close_text_def L_json)
  qed
qed

end
