(* ===== verification/Program.thy ===== *)
theory Program
  imports ProcMain JsonTidy
begin

text \<open>
  Lemmas on whole runs: the environment without procenv's variables changes nothing, the start
  only fills in the globals, every routine a letter selects reports complete members, and a
  document that was printed completely reaches its destination.
\<close>

section \<open>Statements on parts of the state\<close>

lemma on_out_simps [simp]:
  "f (out ms) = Inr st \<Longrightarrow> on_out f ms = Inr (ms\<lparr>out := st\<rparr>)"
  "f (out ms) = Inl e \<Longrightarrow> on_out f ms = Inl e"
  by (simp_all add: on_out_def)

lemma set_out_simp [simp]: "set_out f ms = Inr (ms\<lparr>out := f (out ms)\<rparr>)"
  by (simp add: set_out_def)

text \<open>No variable of procenv is set.\<close>

definition plain_environment :: "world \<Rightarrow> bool" where
  "plain_environment w \<longleftrightarrow> (\<forall>name. take 8 name = ''PROCENV_'' \<longrightarrow> w_getenv w name = None)"

lemma check_envvars_plain:
  assumes "plain_environment w"
  shows "check_envvars env w ms = Inr ms"
proof -
  have "when_set w (''PROCENV_'' @ name) f m = Inr m" for name f m
    using assms by (simp add: plain_environment_def when_set_def)
  from this [of "''OUTPUT''"] this [of "''FILE''"] this [of "''FILE_APPEND''"] this [of "''FORMAT''"] this [of "''INDENT''"]
    this [of "''INDENT_CHAR''"] this [of "''SEPARATOR''"] this [of "''CRUMB_SEPARATOR''"] this [of "''EXEC''"]
  show ?thesis by (simp add: check_envvars_def)
qed

text \<open>The start keeps the settings; it only stores the wide indent character and the user.\<close>

definition settings :: "ostate \<Rightarrow> ostate" where
  "settings st = st\<lparr>wide_indent_char := 0, euid := 0, tty_fd := 0\<rparr>"

definition flow :: "mstate \<Rightarrow> bool \<times> string option list option \<times> bool" where
  "flow ms = (reexec ms, exec_args ms, displayed ms)"

lemma settings_fields:
  assumes "settings st = settings st'"
  shows "doc st = doc st'" "output_format st = output_format st'" "indent_amount st = indent_amount st'"
    "indent st = indent st'" "indent_char st = indent_char st'" "text_separator st = text_separator st'"
    "current_element st = current_element st'" "crumb_list st = crumb_list st'" "output_dest st = output_dest st'"
    "sink st = sink st'" "crumbs st = crumbs st'"
  using assms by (auto simp: settings_def dest: arg_cong [where f = doc] arg_cong [where f = output_format]
      arg_cong [where f = indent_amount] arg_cong [where f = indent] arg_cong [where f = indent_char]
      arg_cong [where f = text_separator] arg_cong [where f = current_element] arg_cong [where f = crumb_list]
      arg_cong [where f = output_dest] arg_cong [where f = sink] arg_cong [where f = crumbs])

lemma on_glob_settings:
  "on_glob f ms = Inr ms' \<Longrightarrow> settings (out ms') = settings (out ms) \<and> flow ms' = flow ms \<and>
     wide_indent_char (out ms') = wide_indent_char (out ms)"
  by (auto simp: on_glob_def set_glob_def settings_def flow_def bindE_Inr_iff)

lemma handle_indent_settings:
  "on_out (handle_indent_char env) ms = Inr ms' \<Longrightarrow> settings (out ms') = settings (out ms) \<and> flow ms' = flow ms \<and>
     mbs env (indent_char (out ms)) = Some [wide_indent_char (out ms')]"
  by (auto simp: on_out_def handle_indent_char_def settings_def flow_def bindE_Inr_iff split: option.splits list.splits)

lemma save_locale_id: "save_locale env w s = Inr s' \<Longrightarrow> s' = s"
  by (auto simp: save_locale_def guardE_Inr_iff split: option.splits)

lemma init_settings:
  assumes "init env w ops ms = Inr ms'"
  shows "settings (out ms') = settings (out ms)" "flow ms' = flow ms"
    "mbs env (indent_char (out ms')) = Some [wide_indent_char (out ms')]"
proof -
  from assms obtain m1 m2 where m: "on_out (handle_indent_char env) ms = Inr m1"
    "do_all [on_glob (get_uname w), on_glob (get_user_info w ops), on_glob (get_misc w ops),
       on_glob (\<lambda>g. Inr (get_priorities w g)),
       on_glob (\<lambda>g. Inr (case get_io_priorities ops of None \<Rightarrow> g | Some f \<Rightarrow> g\<lparr>priority_io := f (priority_io g)\<rparr>))] m1 = Inr ms'"
    unfolding init_def by (auto simp: bindE_Inr_iff dest!: save_locale_id)
  have "settings (out ms') = settings (out m1) \<and> flow ms' = flow m1 \<and> wide_indent_char (out ms') = wide_indent_char (out m1)"
    using m(2) by (auto simp: bindE_Inr_iff dest!: on_glob_settings)
  then show "settings (out ms') = settings (out ms)" "flow ms' = flow ms"
    "mbs env (indent_char (out ms')) = Some [wide_indent_char (out ms')]"
    using handle_indent_settings [OF m(1)] settings_fields(5) [of "out ms'" "out ms"] by auto
qed

section \<open>Routines are complete\<close>

context platform_driver
begin

lemma routine_complete:
  assumes "routine env w ops st c = Some f" "c = CHR ''N'' \<longrightarrow> q_getifaddrs (w_net w) \<noteq> None"
  shows "members_report (f g)"
proof -
  have n: "c \<noteq> CHR ''N'' \<or> members_report (show_network env (w_net w) ops)"
    using assms(2) show_network_complete by blast
  show ?thesis
    using assms(1) n unfolding routine_def Let_def
    by (auto split: if_splits intro!: complete_intros)
qed

end

section \<open>The user stays the same\<close>

text \<open>The output routines know the user the globals hold, which is the one the system reports.\<close>

definition same_user :: "world \<Rightarrow> globals \<Rightarrow> bool" where
  "same_user w g \<longleftrightarrow>
     (\<exists>ru eu su. w_getresuid w = Some (ru, eu, su) \<and> u_euid (user g) = eu) \<and>
     u_tty_fd (user g) = (if w_open_rw w (w_ctermid w) < 0 then 0 else w_open_rw w (w_ctermid w))"

definition synced :: "world \<Rightarrow> mstate \<Rightarrow> bool" where
  "synced w ms \<longleftrightarrow> same_user w (glob ms) \<and> euid (out ms) = u_euid (user (glob ms)) \<and>
     tty_fd (out ms) = u_tty_fd (user (glob ms))"

lemma same_user_queries:
  "get_uname w g = Inr g' \<Longrightarrow> same_user w g \<Longrightarrow> same_user w g'"
  "get_user_info w ops g = Inr g' \<Longrightarrow> same_user w g'"
  "get_misc w ops g = Inr g' \<Longrightarrow> same_user w g \<Longrightarrow> same_user w g'"
proof -
  show "get_uname w g = Inr g' \<Longrightarrow> same_user w g \<Longrightarrow> same_user w g'"
    by (auto simp: get_uname_def same_user_def split: option.splits)
  show "get_misc w ops g = Inr g' \<Longrightarrow> same_user w g \<Longrightarrow> same_user w g'"
    by (auto simp: get_misc_def same_user_def Let_def bindE_Inr_iff split: option.splits)
  assume ok: "get_user_info w ops g = Inr g'"
  have "w_getresuid w \<noteq> None"
    using ok by (cases "w_getresuid w") (simp_all add: get_user_info_def Let_def bindE_Inr_iff)
  then obtain ru eu su where r: "w_getresuid w = Some (ru, eu, su)" by (metis not_Some_eq prod_cases3)
  have "w_getresgid w \<noteq> None"
    using ok r by (cases "w_getresgid w") (simp_all add: get_user_info_def Let_def bindE_Inr_iff)
  then obtain rg eg sg where "w_getresgid w = Some (rg, eg, sg)" by (metis not_Some_eq prod_cases3)
  with ok r show "same_user w g'"
    by (cases "w_getpwuid w ru") (auto simp: get_user_info_def same_user_def Let_def bindE_Inr_iff)
qed

lemma requery_user: "requery w ops c g = Inr g' \<Longrightarrow> same_user w g \<Longrightarrow> same_user w g'"
  by (auto simp: requery_def bindE_Inr_iff split: if_splits dest: same_user_queries)

lemma set_glob_synced:
  assumes "synced w ms" "same_user w g"
  shows "set_glob g ms = ms\<lparr>glob := g\<rparr>" "synced w (ms\<lparr>glob := g\<rparr>)"
proof -
  have "u_euid (user g) = euid (out ms)" "u_tty_fd (user g) = tty_fd (out ms)"
    using assms by (auto simp: synced_def same_user_def)
  moreover have "(st :: ostate)\<lparr>euid := euid st, tty_fd := tty_fd st\<rparr> = st" for st by (cases st) simp
  moreover have "m\<lparr>glob := g, out := out m\<rparr> = m\<lparr>glob := g\<rparr>" for m :: mstate by (cases m) simp
  ultimately show "set_glob g ms = ms\<lparr>glob := g\<rparr>" "synced w (ms\<lparr>glob := g\<rparr>)"
    using assms(2) by (simp_all add: set_glob_def synced_def)
qed

lemma on_glob_synced:
  assumes "on_glob f ms = Inr ms'" "same_user w (glob ms')"
  shows "synced w ms'"
  using assms by (auto simp: on_glob_def set_glob_def synced_def bindE_Inr_iff)

lemma init_synced:
  assumes "init env w ops ms = Inr ms'"
  shows "synced w ms'"
proof -
  have g: "same_user w (glob m')" if "on_glob f m = Inr m'" "\<And>g g'. f g = Inr g' \<Longrightarrow> same_user w g \<Longrightarrow> same_user w g'"
    "same_user w (glob m)" for f m m'
    using that by (auto simp: on_glob_def set_glob_def bindE_Inr_iff)
  have u: "same_user w (glob m')" if "on_glob (get_user_info w ops) m = Inr m'" for m m'
    using that same_user_queries(2) by (auto simp: on_glob_def set_glob_def bindE_Inr_iff)
  let ?io = "\<lambda>g. Inr (case get_io_priorities ops of None \<Rightarrow> g | Some f \<Rightarrow> g\<lparr>priority_io := f (priority_io g)\<rparr>)"
  obtain m1 m2 m3 m4 where m: "on_glob (get_user_info w ops) m1 = Inr m2" "on_glob (get_misc w ops) m2 = Inr m3"
    "on_glob (\<lambda>g. Inr (get_priorities w g)) m3 = Inr m4" "on_glob ?io m4 = Inr ms'"
    using assms by (auto simp: init_def bindE_Inr_iff)
  have "same_user w (glob m4)"
    by (rule g [OF m(3)]) (use g [OF m(2) same_user_queries(3)] u [OF m(1)] in \<open>auto simp: get_priorities_def same_user_def\<close>)
  then have "same_user w (glob ms')"
    by (rule g [OF m(4), rotated]) (auto simp: same_user_def split: option.splits)
  with m(4) show ?thesis by (rule on_glob_synced)
qed

section \<open>What a report leaves alone\<close>

definition frame :: "ostate \<Rightarrow> Output \<times> OutputFormat \<times> (Output \<times> string) list \<times> wchar \<times> int \<times> nat \<times> int" where
  "frame st = (output_dest st, output_format st, sink st, wide_indent_char st, indent_amount st, euid st, tty_fd st)"

interpretation framed: doc_invariant "\<lambda>st. doc st \<noteq> None \<and> frame st = f" for f
  by unfold_locales (auto simp: frame_def)

lemma run_calls_frame:
  assumes "run_calls env cs st = Inr st'" "doc st \<noteq> None"
  shows "doc st' \<noteq> None \<and> frame st' = frame st"
  using preservesD [OF framed.keeps_calls assms(1), of "frame st"] assms(2) by simp

lemma master_frame:
  assumes "master_header env pk st = Inr st' \<or> master_footer env pk st = Inr st'" "doc st \<noteq> None"
  shows "doc st' \<noteq> None \<and> frame st' = frame st"
  using assms preservesD [OF framed.keeps_master(1), of env pk st st' "frame st"]
    preservesD [OF framed.keeps_master(2), of env pk st st' "frame st"] by auto

section \<open>One letter\<close>

text \<open>The report a letter stands for: the queries it repeats, then its routine.\<close>

definition letter_report :: "cenv \<Rightarrow> world \<Rightarrow> procenv_ops \<Rightarrow> ostate \<Rightarrow> char \<Rightarrow> globals \<Rightarrow> report" where
  "letter_report env w ops st c g =
     bindE (requery w ops c g) (\<lambda>g'.
       case routine env w ops st c of None \<Rightarrow> Inl NotReached | Some f \<Rightarrow> f g')"

lemma routine_format: "output_format st = output_format st' \<Longrightarrow> routine env w ops st = routine env w ops st'"
  by (rule ext) (simp add: routine_def Let_def show_meta_def get_output_format_name_def)

lemma routine_letters:
  assumes "routine env w ops st c = Some f"
  shows "c \<noteq> CHR ''h''" "c \<noteq> CHR ''t''" "c \<noteq> CHR ''?''" "c \<in> set short_options"
  using assms by (auto simp: routine_def Let_def short_options_def split: if_splits)

lemma letter_run:
  assumes "synced w ms" "letter_report env w ops (out ms) c (glob ms) = Inr cs"
    "run_report env (w_pkg w) cs (out ms) = Inr st'" "doc (out ms) \<noteq> None"
  shows "\<exists>ms'. option_loop env io w ops [Letter c] ms = Inr ms' \<and> displayed ms' \<and> reexec ms' = reexec ms \<and>
    exec_args ms' = exec_args ms \<and> doc (out ms') \<noteq> None \<and> frame (out ms') = frame (out ms) \<and>
    master_footer env (w_pkg w) (out ms') = Inr st'"
proof -
  obtain g' f where r: "requery w ops c (glob ms) = Inr g'" "routine env w ops (out ms) c = Some f" "f g' = Inr cs"
    using assms(2) by (auto simp: letter_report_def bindE_Inr_iff split: option.splits)
  obtain st1 st2 where s: "master_header env (w_pkg w) (out ms) = Inr st1" "run_calls env cs st1 = Inr st2"
    "master_footer env (w_pkg w) st2 = Inr st'"
    using assms(3) by (auto simp: run_report_def bindE_Inr_iff)
  have fr: "doc st1 \<noteq> None" "frame st1 = frame (out ms)" using master_frame [of env "w_pkg w" "out ms" st1] s(1) assms(4) by auto
  then have fr2: "doc st2 \<noteq> None" "frame st2 = frame (out ms)" using run_calls_frame [OF s(2)] by auto
  have "routine env w ops st1 c = Some f" using r(2) routine_format [of st1 "out ms"] fr(2) by (simp add: frame_def)
  moreover have g: "same_user w g'" using requery_user [OF r(1)] assms(1) by (simp add: synced_def)
  let ?m1 = "ms\<lparr>displayed := True, out := st1\<rparr>"
  have "synced w ?m1" using assms(1) fr(2) by (simp add: synced_def frame_def)
  then have "on_glob (requery w ops c) ?m1 = Inr (?m1\<lparr>glob := g'\<rparr>)"
    using set_glob_synced(1) [OF _ g] r(1) by (simp add: on_glob_def)
  ultimately have "option_loop env io w ops [Letter c] ms = Inr (?m1\<lparr>glob := g', out := st2\<rparr>)"
    using s(1,2) r(3) routine_letters(1-3) [OF r(2)] by (simp add: display_def show_part_def)
  then show ?thesis using s(3) fr2 by simp
qed

section \<open>The end of a run\<close>

lemma has_text_holds: "has_text st t \<Longrightarrow> t \<noteq> [] \<Longrightarrow> \<exists>d. doc st = Some d \<and> holds d t"
  by (auto simp: has_text_def doc_is_def)

lemma chomp_one_nl:
  assumes "t \<noteq> []" "last t \<noteq> NL" "last t \<noteq> ind"
  shows "chomp_list ind (t @ [NL]) = t @ [NL]"
proof -
  obtain u c where "t = u @ [c]" using assms(1) by (metis append_butlast_last_id)
  with assms show ?thesis by (simp add: chomp_list_def)
qed

lemma chomp_doc_ok:
  assumes "has_text st (t @ [NL])" "t \<noteq> []" "last t \<noteq> NL" "last t \<noteq> wide_indent_char st"
  shows "\<exists>d. chomp_doc st = Inr (st\<lparr>doc := Some d\<rparr>) \<and> holds d (t @ [NL])"
proof -
  obtain d where d: "doc st = Some d" "holds d (t @ [NL])" using has_text_holds [OF assms(1)] by auto
  have "\<exists>c \<in> set (t @ [NL]). c \<noteq> NL \<and> c \<noteq> wide_indent_char st"
    using assms(2-4) last_in_set [OF assms(2)] by auto
  from pstring_chomp_holds [OF d(2) this] show ?thesis
    using d(1) chomp_one_nl [OF assms(2-4)] by (auto simp: chomp_doc_def)
qed

lemma show_doc_stdout:
  assumes "doc st = Some d" "text_of d = Inr t" "wcs env t = Some str" "str \<noteq> []" "alloc_ok env (length str + 1)"
    "output_dest st = OUTPUT_STDOUT" "0 \<le> fputs_ret io OUTPUT_STDOUT str"
  shows "show_doc env io st = Inr (st\<lparr>sink := sink st @ [(OUTPUT_STDOUT, str)]\<rparr>)"
proof -
  have "pstring_to_char env d = Inr (Some str)"
    using assms(2-5) by (auto simp: pstring_to_char_def wchar_to_char_def text_of_def split: option.splits)
  then show ?thesis using assms by (simp add: show_doc_def show_output_pstring_def show_output_def emit_def)
qed

lemma cleanup_ok:
  assumes "doc st \<noteq> None" "0 \<le> indent_amount st" "output_format st \<noteq> OUTPUT_FORMAT_CRUMB" "output_dest st \<noteq> OUTPUT_SYSLOG"
  shows "cleanup st = Inr st"
  using assms by (simp add: cleanup_def common_assert_def output_finalise_def free_breadcrumbs_def)

text \<open>Behind the loop: the document \<open>d\<close> is complete, goes to the standard output, and the run ends.\<close>

lemma rest_display:
  assumes "displayed ms" "\<not> reexec ms" "finish_display env w (out ms) = Inr st" "doc st = Some d" "text_of d = Inr t"
    "wcs env t = Some str" "str \<noteq> []" "alloc_ok env (length str + 1)" "output_dest st = OUTPUT_STDOUT"
    "0 \<le> fputs_ret io OUTPUT_STDOUT str" "0 \<le> indent_amount st" "output_format st \<noteq> OUTPUT_FORMAT_CRUMB"
  shows "main_rest env io w ops operands ms =
    Inr (ms\<lparr>out := st\<lparr>sink := sink st @ [(OUTPUT_STDOUT, str)]\<rparr>\<rparr>, Exit)"
proof -
  let ?st = "st\<lparr>sink := sink st @ [(OUTPUT_STDOUT, str)]\<rparr>"
  have "show_doc env io st = Inr ?st" using show_doc_stdout assms(4-10) by blast
  moreover have "cleanup ?st = Inr ?st" using assms by (intro cleanup_ok) simp_all
  ultimately show ?thesis using assms(1-3,9) by (simp add: main_rest_def output_init_def run_exec_def Let_def)
qed

section \<open>A run with one letter\<close>

text \<open>The locale knows the blank and the separator; the layout procenv starts with.\<close>

definition locale_ok :: "cenv \<Rightarrow> bool" where
  "locale_ok env \<longleftrightarrow> mbs env '' '' = Some [32] \<and> mbs env '': '' = Some [58, 32]"

definition start_layout :: layout where
  "start_layout = \<lparr>base = 0, amount = 2, pad_char = 32, tsep = [58, 32]\<rparr>"

definition new_doc :: pstring where
  "new_doc = \<lparr>buf = None, len = 0, bsize = 0\<rparr>"

definition started :: "ostate \<Rightarrow> bool" where
  "started st \<longleftrightarrow> settings st = settings (ostate0\<lparr>doc := Some new_doc\<rparr>)"

lemma start_fresh:
  assumes "started st" "locale_ok env"
  shows "fresh env fmt start_layout (st\<lparr>output_format := fmt\<rparr>)"
  using settings_fields [OF assms(1) [unfolded started_def]] assms(2)
  by (simp add: fresh_def shows_doc_def start_layout_def locale_ok_def indents_def DEFAULT_INDENT_CHAR_def ostate0_def
      has_text_def doc_is_def new_doc_def cur_of_def frames_level_def level_def)

lemma init_started:
  assumes "init env w ops (mstate0 new_doc prog args) = Inr ms"
  shows "started (out ms)" "\<not> reexec ms" "exec_args ms = None" "\<not> displayed ms"
  using init_settings(1,2) [OF assms] by (simp_all add: started_def mstate0_def flow_def)

lemma started_wide:
  assumes "init env w ops ms0 = Inr ms" "started (out ms)" "locale_ok env"
  shows "wide_indent_char (out ms) = 32"
  using init_settings(3) [OF assms(1)] settings_fields(5) [OF assms(2) [unfolded started_def]] assms(3)
  by (simp add: ostate0_def DEFAULT_INDENT_CHAR_def locale_ok_def)

lemma new_doc_alloc: "fits env n \<Longrightarrow> pstring_new env = Some new_doc"
  by (simp add: pstring_new_def new_doc_def fits_def alloc_ok_def sizeof_pstring_def sizeof_wchar_def)

lemma getopt_format_letter:
  assumes "c \<in> set short_options"
  shows "getopt_long posix [''--format='' @ fmt, [CHR ''-'', c]] = ([Setting ''format'' (Some fmt), Letter c], [])"
proof -
  have "c \<noteq> CHR ''-''" using assms by (auto simp: short_options_def)
  moreover have "long_match ''format'' = Some (''format'', True, None)" by (simp add: long_match_def long_options_def)
  ultimately show ?thesis using assms by (simp add: long_result_def)
qed

lemma json_text_last: "last (json_text env ly cs) = 125" "json_text env ly cs \<noteq> []"
  by (simp_all add: json_text_def close_text_def open_text_def L_json)

context platform_driver
begin

lemma letter_complete:
  assumes "letter_report env w ops st c g = Inr cs" "c = CHR ''N'' \<longrightarrow> q_getifaddrs (w_net w) \<noteq> None"
  shows "members cs"
  using assms(1) routine_complete [OF _ assms(2)]
  by (auto simp: letter_report_def bindE_Inr_iff members_report_def split: option.splits)

end

text \<open>The command line \<^verbatim>\<open>--format=<fmt> -<c>\<close> and the state its letter starts with.\<close>

definition letter_args :: "string \<Rightarrow> char \<Rightarrow> string list" where
  "letter_args fmt c = [''--format='' @ fmt, [CHR ''-'', c]]"

lemma main_letter:
  assumes "plain_environment w" "pstring_new env = Some new_doc"
    "init env w ops (mstate0 new_doc prog (letter_args fname c)) = Inr ms"
    "map_lookup output_format_map fname = Some fmt"
    "letter_report env w ops ((out ms)\<lparr>output_format := fmt\<rparr>) c (glob ms) = Inr cs"
    "run_report env (w_pkg w) cs ((out ms)\<lparr>output_format := fmt\<rparr>) = Inr st'"
  shows "\<exists>ms'. main env io w ops prog (letter_args fname c) = main_rest env io w ops [] ms' \<and> displayed ms' \<and> \<not> reexec ms' \<and>
    common_assert (out ms') = Inr (out ms') \<and> frame (out ms') = frame ((out ms)\<lparr>output_format := fmt\<rparr>) \<and>
    master_footer env (w_pkg w) (out ms') = Inr st'"
proof -
  let ?st = "(out ms)\<lparr>output_format := fmt\<rparr>"
  obtain f where "routine env w ops ?st c = Some f"
    using assms(5) by (auto simp: letter_report_def bindE_Inr_iff split: option.splits)
  then have c: "c \<in> set short_options" by (rule routine_letters)
  note s = init_started [OF assms(3)]
  note sf = settings_fields [OF s(1) [unfolded started_def]]
  have "(out ms)\<lparr>output_format := fmt, indent := 0\<rparr> = ?st" using sf(4) by (cases "out ms") (simp add: ostate0_def)
  then have set: "do_setting env ''format'' (Some fname) ms = Inr (ms\<lparr>out := ?st\<rparr>)"
    using s(4) assms(4) by (simp add: do_setting_def apply_setting_def set_output_format_def reset_indent_def)
  have sy: "synced w (ms\<lparr>out := ?st\<rparr>)" using init_synced [OF assms(3)] by (simp add: synced_def)
  have "doc ?st \<noteq> None" using sf(1) by (simp add: ostate0_def)
  with letter_run [OF sy, of env ops c cs st' io] assms(5,6)
  obtain ms' where ms': "option_loop env io w ops [Letter c] (ms\<lparr>out := ?st\<rparr>) = Inr ms'" "displayed ms'" "\<not> reexec ms'"
    "doc (out ms') \<noteq> None" "frame (out ms') = frame ?st" "master_footer env (w_pkg w) (out ms') = Inr st'"
    using s(2) by auto
  have "indent_amount (out ms') = 2" using ms'(5) sf(3) by (simp add: frame_def ostate0_def)
  then have "common_assert (out ms') = Inr (out ms')" using ms'(4) by (simp add: common_assert_def)
  moreover have "option_loop env io w ops [Setting ''format'' (Some fname), Letter c] ms = Inr ms'"
    using set ms'(1) by simp
  ultimately show ?thesis
    using ms' assms(2,3) check_envvars_plain [OF assms(1)] getopt_format_letter [OF c]
    by (intro exI [of _ ms']) (simp add: main_def letter_args_def)
qed

lemma run_report_frame:
  assumes "run_report env pk cs st = Inr st'" "doc st \<noteq> None"
  shows "frame st' = frame st" "doc st' \<noteq> None"
proof -
  have "preserves (\<lambda>s. doc s \<noteq> None \<and> frame s = frame st) (run_report env pk cs)"
    unfolding run_report_def
    by (rule preserves_do_all) (auto simp del: not_None_eq intro: framed.keeps_calls framed.keeps_master)
  from preservesD [OF this assms(1)] assms(2) show "frame st' = frame st" "doc st' \<noteq> None" by simp_all
qed

context platform_driver
begin

lemma main_json:
  assumes "printable_sane env" "locale_ok env" "plain_environment w"
    "init env w ops (mstate0 new_doc prog (letter_args ''json'' c)) = Inr ms"
    "letter_report env w ops ((out ms)\<lparr>output_format := OUTPUT_FORMAT_JSON\<rparr>) c (glob ms) = Inr cs"
    "c = CHR ''N'' \<longrightarrow> q_getifaddrs (w_net w) \<noteq> None"
    "calls_ok env OUTPUT_FORMAT_JSON cs" "level_ok start_layout (Suc (length cs))"
    "fits env (length (json_text env start_layout cs) + 1)"
    "wcs env (json_text env start_layout cs @ [NL]) = Some str" "str \<noteq> []" "alloc_ok env (length str + 1)"
    "0 \<le> fputs_ret io OUTPUT_STDOUT str"
  shows "(\<exists>ms'. main env io w ops prog (letter_args ''json'' c) = Inr (ms', Exit) \<and> sink (out ms') = [(OUTPUT_STDOUT, str)]) \<and>
    jvalue (json_text env start_layout cs)"
proof
  let ?st = "(out ms)\<lparr>output_format := OUTPUT_FORMAT_JSON\<rparr>" and ?t = "json_text env start_layout cs"
  have mem: "members cs" by (rule letter_complete [OF assms(5,6)])
  have "json_layout start_layout" by (simp add: json_layout_def start_layout_def)
  then show "jvalue ?t" by (rule json_report_grammar [OF mem assms(7,1)])
  note s = init_started [OF assms(4)]
  note sf = settings_fields [OF s(1) [unfolded started_def]]
  obtain st' where st': "run_report env (w_pkg w) cs ?st = Inr st'" "has_text st' (?t @ [NL])"
    using json_report [OF start_fresh [OF s(1) assms(2)] _ mem assms(7-9)] by (auto simp: start_layout_def)
  have d: "doc ?st \<noteq> None" using sf(1) by (simp add: ostate0_def)
  have fr: "frame st' = frame ?st" using run_report_frame [OF st'(1) d] by simp
  have f: "output_format st' = OUTPUT_FORMAT_JSON" "output_dest st' = OUTPUT_STDOUT" "sink st' = []" "indent_amount st' = 2"
    "wide_indent_char st' = 32"
    using fr sf(3,9,10) started_wide [OF assms(4) s(1) assms(2)] by (auto simp: frame_def ostate0_def)
  have "map_lookup output_format_map ''json'' = Some OUTPUT_FORMAT_JSON" by (simp add: output_format_map_def)
  from main_letter [OF assms(3) new_doc_alloc [OF assms(9)] assms(4) this assms(5) st'(1)]
  obtain ms' where ms': "main env io w ops prog (letter_args ''json'' c) = main_rest env io w ops [] ms'" "displayed ms'"
    "\<not> reexec ms'" "common_assert (out ms') = Inr (out ms')" "master_footer env (w_pkg w) (out ms') = Inr st'" by blast
  obtain d' where d': "chomp_doc st' = Inr (st'\<lparr>doc := Some d'\<rparr>)" "holds d' (?t @ [NL])"
    using chomp_doc_ok [OF st'(2) json_text_last(2)] json_text_last(1) f(5) by auto
  let ?e = "st'\<lparr>doc := Some d'\<rparr>"
  have "finish_display env w (out ms') = Inr ?e" using ms'(4,5) d'(1) f(1) by (simp add: finish_display_def)
  then have "main_rest env io w ops [] ms' = Inr (ms'\<lparr>out := ?e\<lparr>sink := sink ?e @ [(OUTPUT_STDOUT, str)]\<rparr>\<rparr>, Exit)"
    by (rule rest_display [OF ms'(2,3)]) (use holds_text [OF d'(2)] f assms(10-13) in simp_all)
  with ms'(1) f(3) show "\<exists>ms'. main env io w ops prog (letter_args ''json'' c) = Inr (ms', Exit) \<and>
      sink (out ms') = [(OUTPUT_STDOUT, str)]" by simp
qed

end

section \<open>The dump\<close>

text \<open>The calls of a dump, for the state \<open>st\<close> behind its header and the globals \<open>g\<close>.\<close>

definition tty_report :: "world \<Rightarrow> procenv_ops \<Rightarrow> globals \<Rightarrow> report" where
  "tty_report w ops g = bindE (show_tty_attrs (w_tcgetattr w) (w_winsize w) ops g) (\<lambda>(fd, cs). Inr cs)"

definition dump_report :: "cenv \<Rightarrow> world \<Rightarrow> procenv_ops \<Rightarrow> ostate \<Rightarrow> globals \<Rightarrow> report" where
  "dump_report env w ops st g =
     reports ([show_meta (w_pkg w) (defd (w_build w) ''PROCENV_REPRODUCIBLE_BUILD'') ops g st] @
       map (\<lambda>f. f g) (dump_parts env w ops) @ [tty_report w ops g, show_uname g])"

lemma reports_append: "reports (as @ bs) = bindE (reports as) (\<lambda>cs. bindE (reports bs) (\<lambda>ds. Inr (cs @ ds)))"
  by (induction as) (auto intro!: bindE_cong split: sum.splits simp: bindE_def)

lemma reports_middle:
  "reports (as @ Inr m # bs) = Inr cs \<Longrightarrow> \<exists>x y. reports as = Inr x \<and> reports bs = Inr y \<and> cs = x @ m @ y"
  by (auto simp: reports_append bindE_Inr_iff)

lemma show_parts_run:
  assumes "reports (map (\<lambda>f. f (glob ms)) fs) = Inr cs" "run_calls env cs (out ms) = Inr st"
  shows "do_all (map (show_part env) fs) ms = Inr (ms\<lparr>out := st\<rparr>)"
  using assms
proof (induction fs arbitrary: ms cs)
  case Nil
  then show ?case by (cases ms) simp
next
  case (Cons f fs)
  obtain c1 c2 where c: "f (glob ms) = Inr c1" "reports (map (\<lambda>f. f (glob ms)) fs) = Inr c2" "cs = c1 @ c2"
    using Cons.prems(1) by (auto simp: bindE_Inr_iff)
  obtain s1 where s1: "run_calls env c1 (out ms) = Inr s1" "run_calls env c2 s1 = Inr st"
    using Cons.prems(2) c(3) by (auto simp: bindE_Inr_iff)
  have "do_all (map (show_part env) fs) (ms\<lparr>out := s1\<rparr>) = Inr (ms\<lparr>out := st\<rparr>)"
    using Cons.IH [of "ms\<lparr>out := s1\<rparr>" c2] c(2) s1(2) by simp
  moreover have "show_part env f ms = Inr (ms\<lparr>out := s1\<rparr>)" using c(1) s1(1) by (simp add: show_part_def)
  ultimately show ?case by simp
qed

lemma dump_run:
  assumes "synced w ms" "dump_report env w ops (out ms) (glob ms) = Inr cs"
    "run_report env (w_pkg w) cs (out ms) = Inr st'" "doc (out ms) \<noteq> None"
    "show_tty_attrs (w_tcgetattr w) (w_winsize w) ops (glob ms) = Inr (u_tty_fd (user (glob ms)), tcs)"
  shows "dump env w ops ms = Inr (ms\<lparr>out := st'\<rparr>)"
proof -
  let ?g = "glob ms"
  let ?meta = "\<lambda>st. show_meta (w_pkg w) (defd (w_build w) ''PROCENV_REPRODUCIBLE_BUILD'') ops ?g st"
  have tty: "tty_report w ops ?g = Inr tcs" using assms(5) by (simp add: tty_report_def)
  obtain mcs pcs ucs where r: "?meta (out ms) = Inr mcs" "reports (map (\<lambda>f. f ?g) (dump_parts env w ops)) = Inr pcs"
    "show_uname ?g = Inr ucs" "cs = mcs @ pcs @ tcs @ ucs"
    using assms(2) tty by (auto simp: dump_report_def reports_append bindE_Inr_iff)
  obtain s1 s2 s3 s4 s5 where s: "master_header env (w_pkg w) (out ms) = Inr s1" "run_calls env mcs s1 = Inr s2"
    "run_calls env pcs s2 = Inr s3" "run_calls env tcs s3 = Inr s4" "run_calls env ucs s4 = Inr s5"
    "master_footer env (w_pkg w) s5 = Inr st'"
    using assms(3) r(4) by (auto simp: run_report_def bindE_Inr_iff)
  have f1: "doc s1 \<noteq> None" "frame s1 = frame (out ms)" using master_frame [of env "w_pkg w" "out ms" s1] s(1) assms(4) by auto
  have f2: "doc s2 \<noteq> None" "frame s2 = frame (out ms)" using run_calls_frame [OF s(2) f1(1)] f1(2) by auto
  have f3: "doc s3 \<noteq> None" "frame s3 = frame (out ms)" using run_calls_frame [OF s(3) f2(1)] f2(2) by auto
  have f4: "doc s4 \<noteq> None" "frame s4 = frame (out ms)" using run_calls_frame [OF s(4) f3(1)] f3(2) by auto
  have "?meta s1 = Inr mcs"
    using r(1) f1(2) by (simp add: show_meta_def get_output_format_name_def frame_def)
  then have meta: "show_part env (\<lambda>g. show_meta (w_pkg w) (defd (w_build w) ''PROCENV_REPRODUCIBLE_BUILD'') ops g s1) (ms\<lparr>out := s1\<rparr>)
      = Inr (ms\<lparr>out := s2\<rparr>)" using s(2) by (simp add: show_part_def)
  have parts: "do_all (map (show_part env) (dump_parts env w ops)) (ms\<lparr>out := s2\<rparr>) = Inr (ms\<lparr>out := s3\<rparr>)"
    using show_parts_run [of "ms\<lparr>out := s2\<rparr>" "dump_parts env w ops" pcs env s3] r(2) s(3) by simp
  have "synced w (ms\<lparr>out := s4\<rparr>)" using assms(1) f4(2) by (simp add: synced_def frame_def)
  moreover have "(glob ms)\<lparr>user := (user (glob ms))\<lparr>u_tty_fd := u_tty_fd (user (glob ms))\<rparr>\<rparr> = glob ms" by simp
  ultimately have "set_glob (glob ms) (ms\<lparr>out := s4\<rparr>) = ms\<lparr>out := s4\<rparr>"
    using set_glob_synced(1) [of w "ms\<lparr>out := s4\<rparr>" "glob ms"] by (simp add: synced_def)
  then have tt: "show_tty env w ops (ms\<lparr>out := s3\<rparr>) = Inr (ms\<lparr>out := s4\<rparr>)"
    using assms(5) s(4) by (simp add: show_tty_def)
  show ?thesis using s(1,5,6) meta parts tt r(3) by (simp add: dump_def show_part_def [of env show_uname])
qed

context platform_driver
begin

lemma tty_report_complete: "members_report (tty_report w ops g)"
  by (auto simp: tty_report_def members_report_def bindE_Inr_iff split: prod.splits intro: show_tty_attrs_complete)

lemma dump_complete:
  assumes "dump_report env w ops st g = Inr cs" "q_getifaddrs (w_net w) \<noteq> None"
  shows "members cs"
proof -
  have "members_report r" if "r \<in> set (map (\<lambda>f. f g) (dump_parts env w ops))" for r
    using that show_network_complete [OF assms(2)] unfolding dump_parts_def Let_def
    by (auto intro: complete_intros)
  then have "members_report (dump_report env w ops st g)"
    unfolding dump_report_def by (intro members_reports) (auto intro: complete_intros tty_report_complete)
  with assms(1) show ?thesis by (simp add: members_report_def)
qed

text \<open>Without a list of the interfaces the network routine leaves its section open; all others are complete.\<close>

lemma dump_parts_network:
  "\<exists>xs ys. dump_parts env w ops = xs @ (\<lambda>_. show_network env (w_net w) ops) # ys \<and> (\<forall>f \<in> set xs \<union> set ys. members_report (f g))"
proof (intro exI conjI)
  show "dump_parts env w ops = take 18 (dump_parts env w ops) @ (\<lambda>_. show_network env (w_net w) ops) # drop 19 (dump_parts env w ops)"
    by (simp add: dump_parts_def Let_def)
  show "\<forall>f \<in> set (take 18 (dump_parts env w ops)) \<union> set (drop 19 (dump_parts env w ops)). members_report (f g)"
    unfolding dump_parts_def Let_def by (auto intro: complete_intros)
qed

lemma dump_open_network:
  assumes "dump_report env w ops st g = Inr cs" "q_getifaddrs (w_net w) = None" "\<not> in_con stk"
  shows "shape cs stk = Some (Sec # stk)"
proof -
  obtain xs ys where p: "dump_parts env w ops = xs @ (\<lambda>_. show_network env (w_net w) ops) # ys"
    "\<forall>f \<in> set xs \<union> set ys. members_report (f g)" using dump_parts_network by blast
  let ?as = "show_meta (w_pkg w) (defd (w_build w) ''PROCENV_REPRODUCIBLE_BUILD'') ops g st # map (\<lambda>f. f g) xs"
  let ?bs = "map (\<lambda>f. f g) ys @ [tty_report w ops g, show_uname g]"
  have "reports (?as @ Inr [C_header ''network''] # ?bs) = Inr cs"
    using assms(1,2) by (simp add: dump_report_def p(1) show_network_def)
  from reports_middle [OF this] obtain as bs
    where c: "reports ?as = Inr as" "reports ?bs = Inr bs" "cs = as @ [C_header ''network''] @ bs" by blast
  have "members_report r" if "r \<in> set ?as \<union> set ?bs" for r
    using that p(2) by (auto intro: complete_intros tty_report_complete)
  then have "members_report (reports ?as)" "members_report (reports ?bs)" by (blast intro: members_reports)+
  then have "members as" "members bs" using c(1,2) by (simp_all only: members_report_def)
  then show ?thesis unfolding c(3) using assms(3) by (simp add: members_def)
qed

end

lemma rest_dump:
  assumes "\<not> displayed ms" "\<not> reexec ms" "output_dest (out ms) = OUTPUT_STDOUT" "dump env w ops ms = Inr (ms\<lparr>out := st\<rparr>)"
    "chomp_doc st = Inr st1" "compress_doc env st1 = Inr st2" "doc st2 = Some d" "text_of d = Inr t"
    "wcs env t = Some str" "str \<noteq> []" "alloc_ok env (length str + 1)" "output_dest st2 = OUTPUT_STDOUT"
    "0 \<le> fputs_ret io OUTPUT_STDOUT str" "0 \<le> indent_amount st2" "output_format st2 \<noteq> OUTPUT_FORMAT_CRUMB"
  shows "main_rest env io w ops operands ms =
    Inr (ms\<lparr>out := st2\<lparr>sink := sink st2 @ [(OUTPUT_STDOUT, str)]\<rparr>\<rparr>, Exit)"
proof -
  let ?st = "st2\<lparr>sink := sink st2 @ [(OUTPUT_STDOUT, str)]\<rparr>"
  have "show_doc env io st2 = Inr ?st" using show_doc_stdout assms(7-13) by blast
  moreover have "cleanup ?st = Inr ?st" using assms by (intro cleanup_ok) simp_all
  moreover have "ms\<lparr>out := output_init (out ms)\<rparr> = ms" using assms(3) by (cases ms) (simp add: output_init_def)
  ultimately show ?thesis using assms(1,2,4-6) by (simp add: main_rest_def run_exec_def Let_def)
qed

text \<open>Without arguments, and with a format only.\<close>

lemma main_no_letter:
  assumes "plain_environment w" "pstring_new env = Some new_doc"
  shows "init env w ops (mstate0 new_doc prog []) = Inr ms \<Longrightarrow> main env io w ops prog [] = main_rest env io w ops [] ms"
    "init env w ops (mstate0 new_doc prog [''--format=json'']) = Inr ms \<Longrightarrow>
     main env io w ops prog [''--format=json''] =
       main_rest env io w ops [] (ms\<lparr>out := (out ms)\<lparr>output_format := OUTPUT_FORMAT_JSON\<rparr>\<rparr>)"
proof -
  show "main env io w ops prog [] = main_rest env io w ops [] ms" if "init env w ops (mstate0 new_doc prog []) = Inr ms"
    using that assms(2) check_envvars_plain [OF assms(1)] by (simp add: main_def)
  assume i: "init env w ops (mstate0 new_doc prog [''--format=json'']) = Inr ms"
  note s = init_started [OF i]
  have "indent (out ms) = 0" using settings_fields(4) [OF s(1) [unfolded started_def]] by (simp add: ostate0_def)
  then have "(out ms)\<lparr>output_format := OUTPUT_FORMAT_JSON, indent := 0\<rparr> = (out ms)\<lparr>output_format := OUTPUT_FORMAT_JSON\<rparr>"
    by (cases "out ms") simp
  then have "do_setting env ''format'' (Some ''json'') ms = Inr (ms\<lparr>out := (out ms)\<lparr>output_format := OUTPUT_FORMAT_JSON\<rparr>\<rparr>)"
    using s(4) by (simp add: do_setting_def apply_setting_def set_output_format_def reset_indent_def output_format_map_def)
  moreover have "long_match ''format'' = Some (''format'', True, None)" by (simp add: long_match_def long_options_def)
  ultimately show "main env io w ops prog [''--format=json''] =
       main_rest env io w ops [] (ms\<lparr>out := (out ms)\<lparr>output_format := OUTPUT_FORMAT_JSON\<rparr>\<rparr>)"
    using i assms(2) check_envvars_plain [OF assms(1)] by (simp add: main_def long_result_def)
qed

lemma json_text_tidy:
  assumes "members cs" "calls_ok env OUTPUT_FORMAT_JSON cs" "printable_sane env" "pad_char ly = 32"
  shows "squeezed 32 (json_text env ly cs @ [NL])" "tail_ok 32 (json_text env ly cs @ [NL])"
proof -
  have t: "tidy (json_text env ly cs)"
    unfolding json_text_def by (rule render_tidy [OF assms(3,4) tree_json_ok(1) [OF assms(1,2)]])
  then show "squeezed 32 (json_text env ly cs @ [NL])"
    by (intro line_ends_squeezed) (auto simp: tidy_def line_ends_append line_ends_plain [of "[]"] line_ends_Cons)
  obtain u c where "json_text env ly cs = u @ [c]" "32 < c"
    using t by (metis append_butlast_last_id tidy_def)
  then show "tail_ok 32 (json_text env ly cs @ [NL])" by (auto simp: tail_ok_def)
qed

context platform_driver
begin

lemma run_dump_text:
  assumes "locale_ok env" "plain_environment w" "init env w ops (mstate0 new_doc prog []) = Inr ms"
    "dump_report env w ops (out ms) (glob ms) = Inr cs" "q_getifaddrs (w_net w) \<noteq> None"
    "show_tty_attrs (w_tcgetattr w) (w_winsize w) ops (glob ms) = Inr (u_tty_fd (user (glob ms)), tcs)"
    "calls_ok env OUTPUT_FORMAT_TEXT cs" "level_ok start_layout (length cs)"
    "fits env (length (text_text env start_layout cs))"
    "\<exists>c \<in> set (text_text env start_layout cs). c \<noteq> NL \<and> c \<noteq> 32"
    "wcs env (compress_list 32 (chomp_list 32 (text_text env start_layout cs))) = Some str" "str \<noteq> []"
    "alloc_ok env (length str + 1)" "0 \<le> fputs_ret io OUTPUT_STDOUT str"
  shows "\<exists>ms'. main env io w ops prog [] = Inr (ms', Exit) \<and> sink (out ms') = [(OUTPUT_STDOUT, str)]"
proof -
  let ?st = "out ms" and ?t = "text_text env start_layout cs"
  note s = init_started [OF assms(3)]
  note sf = settings_fields [OF s(1) [unfolded started_def]]
  have "?st\<lparr>output_format := OUTPUT_FORMAT_TEXT\<rparr> = ?st" using sf(2) by (cases ?st) (simp add: ostate0_def)
  then have "fresh env OUTPUT_FORMAT_TEXT start_layout ?st" using start_fresh [OF s(1) assms(1)] by metis
  then obtain st where st: "run_report env (w_pkg w) cs ?st = Inr st" "has_text st ?t"
    using text_report [OF _ _ dump_complete [OF assms(4,5)] assms(7-9)] by (auto simp: start_layout_def)
  have d: "doc ?st \<noteq> None" using sf(1) by (simp add: ostate0_def)
  have f: "output_format st = OUTPUT_FORMAT_TEXT" "output_dest st = OUTPUT_STDOUT" "sink st = []" "indent_amount st = 2"
    "wide_indent_char st = 32"
    using run_report_frame [OF st(1) d] sf(2,3,9,10) started_wide [OF assms(3) s(1) assms(1)] by (auto simp: frame_def ostate0_def)
  have dump: "dump env w ops ms = Inr (ms\<lparr>out := st\<rparr>)" by (rule dump_run [OF init_synced [OF assms(3)] assms(4) st(1) d assms(6)])
  have "?t \<noteq> []" using assms(10) by auto
  then obtain p where p: "doc st = Some p" "holds p ?t" using has_text_holds [OF st(2)] by auto
  have "alloc_ok env (length ?t * sizeof_wchar)" by (rule fits_cells [OF assms(9)]) simp
  then obtain p1 p2 where "pstring_chomp 32 p = Inr p1" "pstring_compress env 32 p1 = Inr p2"
    "text_of p2 = Inr (compress_list 32 (chomp_list 32 ?t))"
    using compress_after_chomp [OF p(2) assms(10), of env] by auto
  then have "main_rest env io w ops [] ms =
      Inr (ms\<lparr>out := (st\<lparr>doc := Some p1\<rparr>\<lparr>doc := Some p2\<rparr>)\<lparr>sink := sink st @ [(OUTPUT_STDOUT, str)]\<rparr>\<rparr>, Exit)"
    using p f assms(11-14)
    by (subst rest_dump [OF s(4,2) _ dump, where ?st1.0 = "st\<lparr>doc := Some p1\<rparr>" and ?st2.0 = "st\<lparr>doc := Some p2\<rparr>" and d = p2
          and t = "compress_list 32 (chomp_list 32 ?t)" and str = str])
      (use sf(9) in \<open>simp_all add: chomp_doc_def compress_doc_def ostate0_def\<close>)
  then show ?thesis
    using main_no_letter(1) [OF assms(2) new_doc_alloc [OF assms(9)] assms(3)] f(3) by simp
qed

lemma run_dump_json:
  assumes "printable_sane env" "locale_ok env" "plain_environment w"
    "init env w ops (mstate0 new_doc prog [''--format=json'']) = Inr ms"
    "dump_report env w ops ((out ms)\<lparr>output_format := OUTPUT_FORMAT_JSON\<rparr>) (glob ms) = Inr cs" "q_getifaddrs (w_net w) \<noteq> None"
    "show_tty_attrs (w_tcgetattr w) (w_winsize w) ops (glob ms) = Inr (u_tty_fd (user (glob ms)), tcs)"
    "calls_ok env OUTPUT_FORMAT_JSON cs" "level_ok start_layout (Suc (length cs))"
    "fits env (length (json_text env start_layout cs) + 1)"
    "wcs env (json_text env start_layout cs @ [NL]) = Some str" "str \<noteq> []" "alloc_ok env (length str + 1)"
    "0 \<le> fputs_ret io OUTPUT_STDOUT str"
  shows "(\<exists>ms'. main env io w ops prog [''--format=json''] = Inr (ms', Exit) \<and> sink (out ms') = [(OUTPUT_STDOUT, str)]) \<and>
    jvalue (json_text env start_layout cs)"
proof
  let ?st = "(out ms)\<lparr>output_format := OUTPUT_FORMAT_JSON\<rparr>" and ?t = "json_text env start_layout cs"
  let ?ms = "ms\<lparr>out := ?st\<rparr>"
  have mem: "members cs" by (rule dump_complete [OF assms(5,6)])
  have "json_layout start_layout" by (simp add: json_layout_def start_layout_def)
  then show "jvalue ?t" by (rule json_report_grammar [OF mem assms(8,1)])
  note s = init_started [OF assms(4)]
  note sf = settings_fields [OF s(1) [unfolded started_def]]
  obtain st where st: "run_report env (w_pkg w) cs ?st = Inr st" "has_text st (?t @ [NL])"
    using json_report [OF start_fresh [OF s(1) assms(2)] _ mem assms(8-10)] by (auto simp: start_layout_def)
  have d: "doc ?st \<noteq> None" using sf(1) by (simp add: ostate0_def)
  have f: "output_format st = OUTPUT_FORMAT_JSON" "output_dest st = OUTPUT_STDOUT" "sink st = []" "indent_amount st = 2"
    "wide_indent_char st = 32"
    using run_report_frame [OF st(1) d] sf(3,9,10) started_wide [OF assms(4) s(1) assms(2)] by (auto simp: frame_def ostate0_def)
  have "synced w ?ms" using init_synced [OF assms(4)] by (simp add: synced_def)
  then have dump: "dump env w ops ?ms = Inr (?ms\<lparr>out := st\<rparr>)"
    using dump_run [of w ?ms env ops cs st tcs] assms(5,7) st(1) d by simp
  obtain p1 where p1: "chomp_doc st = Inr (st\<lparr>doc := Some p1\<rparr>)" "holds p1 (?t @ [NL])"
    using chomp_doc_ok [OF st(2) json_text_last(2)] json_text_last(1) f(5) by auto
  have "pad_char start_layout = 32" by (simp add: start_layout_def)
  note sq = json_text_tidy [OF mem assms(8,1) this]
  have "pstring_compress env 32 p1 = Inr p1"
    using p1(2) compress_keeps_squeezed [OF _ _ sq] by (auto simp: holds_def)
  then have "main_rest env io w ops [] ?ms = Inr (?ms\<lparr>out := (st\<lparr>doc := Some p1\<rparr>)\<lparr>sink := sink st @ [(OUTPUT_STDOUT, str)]\<rparr>\<rparr>, Exit)"
    using holds_text [OF p1(2)] f assms(11-14)
    by (subst rest_dump [OF _ _ _ dump p1(1), where ?st2.0 = "st\<lparr>doc := Some p1\<rparr>" and d = p1 and t = "?t @ [NL]" and str = str])
      (use s(2,4) sf(9) in \<open>simp_all add: compress_doc_def ostate0_def\<close>)
  then show "\<exists>ms'. main env io w ops prog [''--format=json''] = Inr (ms', Exit) \<and> sink (out ms') = [(OUTPUT_STDOUT, str)]"
    using main_no_letter(2) [OF assms(3) new_doc_alloc [OF assms(10)] assms(4)] f(3) by simp
qed

end

end
