(* ===== verification/Plain.thy ===== *)
theory Plain
  imports Program
begin

text \<open>
  Reports in plain text: when every name and value of a report is printable ASCII and of limited length, the
  report can be printed in every format, and its document is ASCII and of limited length. This is what the
  examples of whole runs rest on.
\<close>

section \<open>Plain calls\<close>

definition ascii_locale :: "cenv \<Rightarrow> bool" where
  "ascii_locale env \<longleftrightarrow> mbs env = ascii_mbs \<and> wcs env = ascii_wcs \<and> wprint env = (\<lambda>c. 32 \<le> c \<and> c < 127) \<and> 10000 \<le> mem_limit env"

definition plain_text :: "wchar list \<Rightarrow> bool" where
  "plain_text w \<longleftrightarrow> length w \<le> 200 \<and> list_all (\<lambda>c. 32 \<le> c \<and> c < 127) w"

fun plain_call :: "cenv \<Rightarrow> call \<Rightarrow> bool" where
  "plain_call env (C_header name) \<longleftrightarrow> name \<noteq> [] \<and> plain_text (L name)"
| "plain_call env (C_section_open name) \<longleftrightarrow> name \<noteq> [] \<and> plain_text (L name)"
| "plain_call env (C_container_open name) \<longleftrightarrow> name \<noteq> [] \<and> plain_text (L name)"
| "plain_call env (C_entry name vfmt args) \<longleftrightarrow> name \<noteq> [] \<and> plain_text (L name) \<and> vfmt \<noteq> [] \<and> plain_text (L vfmt) \<and>
     (case wformat env (L vfmt) args of None \<Rightarrow> False | Some w \<Rightarrow> plain_text w)"
| "plain_call env c \<longleftrightarrow> True"

definition ascii :: "wchar list \<Rightarrow> bool" where
  "ascii w \<longleftrightarrow> (\<forall>c \<in> set w. c < 128)"

lemma ascii_append [simp]: "ascii (v @ w) \<longleftrightarrow> ascii v \<and> ascii w" "ascii (c # w) \<longleftrightarrow> c < 128 \<and> ascii w" "ascii []"
  by (auto simp: ascii_def)

lemma plain_mbs:
  assumes "ascii_locale env" "plain_text (L s)"
  shows "mbs env s = Some (L s)"
  using assms by (fastforce simp: ascii_locale_def ascii_mbs_def plain_text_def L_def list_all_iff)

lemma encode_plain_text:
  assumes "ascii_locale env" "list_all (\<lambda>c. 32 \<le> c \<and> c < 127) w"
  shows "length (encode_list env fmt w) \<le> 6 * length w" "ascii (encode_list env fmt w)"
    "\<forall>c \<in> set w. escapable env fmt c" "0 \<notin> set w"
  using assms
proof (induction w)
  case (Cons c w)
  case 1
  then show ?case using Cons.IH(1) by (auto simp: ascii_locale_def escape_char_def translate_char_def L_def)
  case 2
  then show ?case using Cons.IH(2) by (auto simp: ascii_locale_def escape_char_def translate_char_def L_def)
  case 3
  then show ?case using Cons.IH(3) by (auto simp: ascii_locale_def escapable_def)
  case 4
  then show ?case using Cons.IH(4) by auto
qed simp_all

lemma plain_name:
  assumes "ascii_locale env" "name \<noteq> []" "plain_text (L name)"
  shows "name_ok env fmt name (enc_name env fmt name)" "length (enc_name env fmt name) \<le> 1200" "ascii (enc_name env fmt name)"
proof -
  have p: "list_all (\<lambda>c. 32 \<le> c \<and> c < 127) (L name)" "length (L name) \<le> 200" using assms(3) by (simp_all add: plain_text_def)
  note m = plain_mbs [OF assms(1,3)] and e = encode_plain_text [OF assms(1) p(1)]
  show "name_ok env fmt name (enc_name env fmt name)"
    using assms(2) m e(3,4) unfolding name_ok_def enc_name_def by (auto simp: L_def)
  show "length (enc_name env fmt name) \<le> 1200" "ascii (enc_name env fmt name)" using m e(1) [of fmt] e(2) p(2) by (simp_all add: enc_name_def)
qed

lemma plain_value:
  assumes "ascii_locale env" "plain_call env (C_entry name vfmt args)"
  shows "value_ok env fmt vfmt args (enc_value env fmt vfmt args)" "length (enc_value env fmt vfmt args) \<le> 1200"
    "ascii (enc_value env fmt vfmt args)"
proof -
  obtain w where w: "wformat env (L vfmt) args = Some w" "plain_text w" using assms(2) by (auto split: option.splits)
  have v: "vfmt \<noteq> []" "plain_text (L vfmt)" using assms(2) by auto
  have p: "list_all (\<lambda>c. 32 \<le> c \<and> c < 127) w" "length w \<le> 200" using w(2) by (simp_all add: plain_text_def)
  have f: "fits env (length (L vfmt))" "0 \<notin> set (L vfmt)"
    using v(2) assms(1) by (auto simp: plain_text_def ascii_locale_def fits_def alloc_ok_def sizeof_wchar_def list_all_iff)
  note m = plain_mbs [OF assms(1) v(2)] and e = encode_plain_text [OF assms(1) p(1)]
  show "value_ok env fmt vfmt args (enc_value env fmt vfmt args)"
    using v(1) m w(1) e(3,4) f unfolding value_ok_def enc_value_def by (auto simp: L_def)
  show "length (enc_value env fmt vfmt args) \<le> 1200" "ascii (enc_value env fmt vfmt args)"
    using m w(1) e(1) [of fmt] e(2) p(2) by (simp_all add: enc_value_def)
qed

lemma plain_calls_ok:
  assumes "ascii_locale env" "list_all (plain_call env) cs"
  shows "calls_ok env fmt cs"
proof -
  have "call_ok env fmt c" if "plain_call env c" for c
    using that plain_name(1) [OF assms(1)] plain_value(1) [OF assms(1)] by (cases c) auto
  then show ?thesis using assms(2) by (auto simp: calls_ok_def list_all_iff)
qed

section \<open>The document of a plain report\<close>

fun plain_item :: "cenv \<Rightarrow> item \<Rightarrow> bool" where
  "plain_item env (Entry name vfmt args) \<longleftrightarrow> plain_call env (C_entry name vfmt args)"
| "plain_item env (Node k name is) \<longleftrightarrow> (k \<noteq> Obj \<longrightarrow> name \<noteq> [] \<and> plain_text (L name)) \<and> list_all (plain_item env) is"

lemma plain_item_calls: "list_all (plain_call env) (calls i) \<Longrightarrow> plain_item env i"
proof (induction i)
  case (Node k name "is")
  then have "list_all (plain_item env) is" by (auto simp: list_all_iff)
  with Node.prems show ?case by (cases k) auto
qed simp

definition item_room :: "nat \<Rightarrow> nat" where
  "item_room d = 3000 + 4 * d"

lemma start_pad: "level start_layout n = 2 * n" "length (pad start_layout n) = 2 * n" "ascii (pad start_layout n)" "tsep start_layout = [58, 32]"
  by (simp_all add: pad_def level_def start_layout_def ascii_def)

lemma body_room:
  assumes "\<And>x. x \<in> set xs \<Longrightarrow> ascii x" "n \<le> d"
  shows "length (body fmt start_layout n xs) \<le> sum_list (map (\<lambda>x. length x + 2 + 2 * Suc d) xs) + 4 + 2 * d \<and>
    ascii (body fmt start_layout n xs)"
proof (cases xs)
  case Nil
  then show ?thesis using assms(2) by (simp add: start_pad)
next
  case (Cons x ys)
  have y: "length (concat (map (\<lambda>y. separator fmt @ pad start_layout (Suc n) @ y) ys)) \<le>
      sum_list (map (\<lambda>x. length x + 2 + 2 * Suc d) ys) \<and>
    ascii (concat (map (\<lambda>y. separator fmt @ pad start_layout (Suc n) @ y) ys))" if "\<forall>y \<in> set ys. ascii y"
    using that assms(2) by (induction ys) (auto simp: start_pad separator_def)
  have "\<forall>y \<in> set ys. ascii y" "ascii x" using assms(1) Cons by auto
  then show ?thesis using y assms(2) Cons by (simp add: start_pad)
qed

lemma open_text_room: "length (open_text fmt k n) \<le> length n + 30" "ascii n \<Longrightarrow> ascii (open_text fmt k n)"
    "length (close_text fmt k) \<le> 30" "ascii (close_text fmt k)"
  by (cases k; simp add: open_text_def close_text_def L_def)+

lemma render_room:
  assumes "ascii_locale env" "plain_item env i" "n + height i \<le> d"
  shows "length (render env fmt start_layout n i) + 2 + 2 * Suc d \<le> length (calls i) * item_room d \<and>
    ascii (render env fmt start_layout n i)"
  using assms(2,3)
proof (induction i arbitrary: n)
  case (Entry name vfmt args)
  then have "length (enc_name env fmt name) \<le> 1200" "ascii (enc_name env fmt name)"
    "length (enc_value env fmt vfmt args) \<le> 1200" "ascii (enc_value env fmt vfmt args)"
    using plain_name [OF assms(1)] plain_value [OF assms(1)] by auto
  then show ?case by (auto simp: entry_text_def item_room_def start_pad L_def)
next
  case (Node k name "is")
  let ?xs = "map (render env fmt start_layout (Suc n)) is"
  let ?name = "if k = Obj then [] else enc_name env fmt name"
  have nm: "length ?name \<le> 1200" "ascii ?name" using Node.prems(1) plain_name [OF assms(1)] by auto
  have ch: "length (render env fmt start_layout (Suc n) i) + 2 + 2 * Suc d \<le> length (calls i) * item_room d \<and>
      ascii (render env fmt start_layout (Suc n) i)" if "i \<in> set is" for i
    using Node.IH [OF that, of "Suc n"] Node.prems that height_child [OF that, of k name] by (auto simp: list_all_iff)
  have "sum_list (map (\<lambda>x. length x + 2 + 2 * Suc d) ?xs) \<le> sum_list (map (\<lambda>i. length (calls i) * item_room d) is)"
    using ch by (simp add: comp_def sum_list_mono)
  also have "\<dots> = length (concat (map calls is)) * item_room d"
    by (simp add: length_concat comp_def sum_list_mult_const)
  finally have s: "sum_list (map (\<lambda>x. length x + 2 + 2 * Suc d) ?xs) \<le> length (concat (map calls is)) * item_room d" .
  have x: "ascii x" if "x \<in> set ?xs" for x using that ch by auto
  have "length (body fmt start_layout n ?xs) \<le> length (concat (map calls is)) * item_room d + 4 + 2 * d \<and>
      ascii (body fmt start_layout n ?xs)"
    using body_room [of ?xs n d fmt, OF x] s Node.prems(2) by linarith
  then show ?case using nm open_text_room [where fmt = fmt and k = k] open_text_room(1) [of fmt k ?name]
    by (simp add: item_room_def algebra_simps)
qed

lemma plain_tree:
  assumes "members cs" "list_all (plain_call env) cs"
  shows "list_all (plain_item env) (tree_of cs)"
proof -
  have "plain_call env (plain c) \<longleftrightarrow> plain_call env c" for c by (cases c) simp_all
  then have "list_all (plain_call env) (concat (map calls (tree_of cs)))"
    using tree_of_members(1) [OF assms(1)] assms(2) by (simp add: list_all_iff)
  then show ?thesis using plain_item_calls by (fastforce simp: list_all_iff)
qed

lemma json_text_room:
  assumes "ascii_locale env" "members cs" "list_all (plain_call env) cs"
  shows "length (json_text env start_layout cs) \<le> (length cs + 2) * item_room (length cs + 1)"
    "ascii (json_text env start_layout cs)"
proof -
  let ?i = "Node Obj [] (tree_of cs)"
  note t = tree_of_members(1) [OF assms(2)]
  have p: "plain_item env ?i" using plain_tree [OF assms(2,3)] by simp
  have c: "length (calls ?i) = length cs + 2" using arg_cong [OF t, of length] by simp
  have "0 + height ?i \<le> length cs + 1" using tree_height [OF assms(2)] by (simp add: items_height_def)
  from render_room [OF assms(1) p this, of OUTPUT_FORMAT_JSON]
  show "length (json_text env start_layout cs) \<le> (length cs + 2) * item_room (length cs + 1)"
    "ascii (json_text env start_layout cs)"
    unfolding json_text_def c by simp_all
qed

section \<open>The text of a plain report\<close>

lemma splice_plain:
  assumes "plain_item env i"
  shows "(\<forall>j \<in> set (splice i). plain_item env j \<and> height j \<le> height i) \<and> length (concat (map calls (splice i))) \<le> length (calls i)"
  using assms
proof (induction i)
  case (Node k name "is")
  let ?js = "concat (map splice is)"
  have c: "(\<forall>j \<in> set (splice i). plain_item env j \<and> height j \<le> height i) \<and> length (concat (map calls (splice i))) \<le> length (calls i)"
    if i: "i \<in> set is" for i
  proof (rule Node.IH [OF i])
    show "plain_item env i" using Node.prems i by (simp add: list_all_iff)
  qed
  have h: "height j \<le> Max (insert 0 (height ` set is))" if j: "j \<in> set ?js" for j
  proof -
    obtain i where i: "i \<in> set is" "j \<in> set (splice i)" using j by auto
    then have "height j \<le> height i" using c [OF i(1)] by blast
    also have "height i \<le> Max (insert 0 (height ` set is))" using i(1) by simp
    finally show ?thesis .
  qed
  have m: "Max (insert 0 (height ` set ?js)) \<le> Max (insert 0 (height ` set is))" using h by (subst Max_le_iff) auto
  have "length (concat (map calls ?js)) \<le> length (concat (map calls is))"
    using c by (induction "is") (fastforce simp: map_concat)+
  moreover have "list_all (plain_item env) ?js" using c by (auto simp: list_all_iff)
  moreover have "\<forall>j \<in> set ?js. height j \<le> height (Node k name is)" using h by (force intro: le_SucI)
  ultimately show ?case using Node.prems m by (simp add: Let_def list_all_iff)
qed simp

lemma children_room:
  assumes "ascii_locale env" "\<forall>i \<in> set is. plain_item env i \<and> height i \<le> d" "fmt \<noteq> OUTPUT_FORMAT_JSON"
  shows "length (children fmt start_layout f 0 (texts env fmt start_layout 0 is)) \<le> length (concat (map calls is)) * item_room d \<and>
    ascii (children fmt start_layout f 0 (texts env fmt start_layout 0 is))"
  using assms(2)
proof (induction "is" arbitrary: f)
  case (Cons i "is")
  have "length (gap fmt start_layout f 0) \<le> 2 \<and> ascii (gap fmt start_layout f 0)"
    by (simp add: gap_def start_pad separator_def)
  moreover have "length (render env fmt start_layout 0 i) + 2 + 2 * Suc d \<le> length (calls i) * item_room d \<and>
      ascii (render env fmt start_layout 0 i)"
    by (rule render_room [OF assms(1)]) (use Cons.prems in auto)
  moreover note Cons.IH [of "Frame (fkind f) (Some (child_of i))"]
  ultimately show ?case using Cons.prems by (auto simp: distrib_right)
qed simp

lemma text_text_room:
  assumes "ascii_locale env" "members cs" "list_all (plain_call env) cs"
  shows "length (text_text env start_layout cs) \<le> length cs * item_room (length cs) + 1" "ascii (text_text env start_layout cs)"
proof -
  let ?is = "splices (tree_of cs)"
  have p: "plain_item env i" "height i \<le> length cs" if "i \<in> set (tree_of cs)" for i
    using plain_tree [OF assms(2,3)] tree_height [OF assms(2)] items_height_le [OF that] that by (auto simp: list_all_iff)
  then have "\<forall>j \<in> set ?is. plain_item env j \<and> height j \<le> length cs"
    using splice_plain by (fastforce simp: splices_def)
  note r = children_room [OF assms(1) this, of OUTPUT_FORMAT_TEXT "Frame None None"]
  have "length (concat (map calls (concat (map splice is)))) \<le> length (concat (map calls is))" if "\<forall>i \<in> set is. plain_item env i" for "is"
    using that by (induction "is") (use splice_plain in \<open>fastforce simp: map_concat\<close>)+
  then have "length (concat (map calls ?is)) \<le> length cs"
    using p(1) arg_cong [OF tree_of_members(1) [OF assms(2)], of length] unfolding splices_def by (metis length_map)
  then have "length (concat (map calls ?is)) * item_room (length cs) \<le> length cs * item_room (length cs)"
    by (rule mult_le_mono1)
  then have "length (children OUTPUT_FORMAT_TEXT start_layout (Frame None None) 0 (texts env OUTPUT_FORMAT_TEXT start_layout 0 ?is)) \<le>
      length cs * item_room (length cs)" using r le_trans by blast
  then show "length (text_text env start_layout cs) \<le> length cs * item_room (length cs) + 1" "ascii (text_text env start_layout cs)"
    using r by (simp_all add: text_text_def)
qed

lemma text_text_start:
  assumes "ascii_locale env" "members (C_header (c1 # c2 # n) # cs)" "plain_text (L (c1 # c2 # n))"
  shows "\<exists>t. text_text env start_layout (C_header (c1 # c2 # n) # cs) = of_char c1 # of_char c2 # t"
proof -
  obtain i "is" where t: "tree_of (C_header (c1 # c2 # n) # cs) = i # is" "calls i \<noteq> []"
    using tree_of_members(1) [OF assms(2)] by (cases "tree_of (C_header (c1 # c2 # n) # cs)"; cases "hd (tree_of (C_header (c1 # c2 # n) # cs))") auto
  then have h: "hd (calls i) = C_section_open (c1 # c2 # n)"
    using tree_of_members(1) [OF assms(2)] by (cases "calls i") auto
  then obtain js where i: "i = Node Sec (c1 # c2 # n) js"
  proof (cases i)
    case (Node k m js)
    then show ?thesis using h that by (cases k) auto
  qed simp
  have "enc_name env OUTPUT_FORMAT_TEXT (c1 # c2 # n) = encode_list env OUTPUT_FORMAT_TEXT (L (c1 # c2 # n))"
    using plain_mbs [OF assms(1,3)] by (simp add: enc_name_def)
  then have "\<exists>t. enc_name env OUTPUT_FORMAT_TEXT (c1 # c2 # n) = of_char c1 # of_char c2 # t"
    using assms(1,3) by (simp add: L_def plain_text_def ascii_locale_def escape_char_def translate_char_def)
  then show ?thesis using t(1) i by (auto simp: text_text_def splices_def gap_def start_pad pad_def level_def start_layout_def open_text_def)
qed

lemma lcompress_length: "length (fst (lcompress rc w n b)) \<le> length w"
proof (induction rc w n b rule: lcompress.induct)
  case (1 rc w n b)
  show ?case
    by (subst lcompress.simps) (use 1 in \<open>fastforce split: prod.split list.split\<close>)
qed

lemma tidied_text:
  assumes "w = c1 # c2 # t" "c1 \<noteq> NL" "c1 \<noteq> 32" "c2 \<noteq> NL" "c2 \<noteq> 32"
  shows "compress_list 32 (chomp_list 32 w) \<noteq> []" "set (compress_list 32 (chomp_list 32 w)) \<subseteq> insert NL (set w)"
    "length (compress_list 32 (chomp_list 32 w)) \<le> length w"
proof -
  let ?P = "\<lambda>c. c = NL \<or> c = (32 :: wchar)"
  have "\<exists>u. rev (dropWhile ?P (rev t @ [c2, c1])) = c1 # c2 # u"
    using assms(4,5) by (cases "\<forall>c \<in> set t. ?P c") (auto simp: dropWhile_append intro: exI [of _ "rev (dropWhile ?P (rev t))"])
  then obtain u' where u': "rev (dropWhile ?P (rev t @ [c2, c1])) = c1 # c2 # u'" by blast
  have r: "rev w = rev t @ [c2, c1]" using assms(1) by simp
  obtain u where u: "chomp_list 32 w = c1 # c2 # u"
    unfolding chomp_list_def Let_def r u' using assms(1) that by (cases "length (c1 # c2 # u') + 1 < length w") auto
  have s: "set (chomp_list 32 w) \<subseteq> insert NL (set w)" "length (chomp_list 32 w) \<le> length w"
    by (auto simp: chomp_list_def Let_def dest: set_dropWhileD)
  have l: "lblank (c1 # c2 # u) 0 = (c1 # c2 # u, 0)" using assms(2) by simp
  have "lscan 32 (c1 # c2 # u) 0 0 = (c1 # c2 # u, 0, 0)" by (rule lscan_plainI [OF l]) (use assms(3) in simp)
  then have "fst (lcompress 32 (c1 # c2 # u) 0 0) = c1 # fst (lcompress 32 (c2 # u) 0 0)" by (rule lcompress_Cons) simp_all
  then obtain v where v: "fst (lcompress 32 (c1 # c2 # u) 0 0) = c1 # c2 # v"
    using lcompress_hd [of "c2 # u" 32 0 0] assms(5) by auto
  obtain out n b where o: "lcompress 32 (chomp_list 32 w) 0 0 = (out, n, b)" by (metis prod_cases3)
  have cl: "compress_list 32 (chomp_list 32 w) = butlast out \<or> compress_list 32 (chomp_list 32 w) = out"
    by (simp add: compress_list_def o)
  have "out = c1 # c2 # v" using v o by (simp add: u)
  then show "compress_list 32 (chomp_list 32 w) \<noteq> []" using cl by auto
  show "set (compress_list 32 (chomp_list 32 w)) \<subseteq> insert NL (set w)"
    using lcompress_set [of 32 "chomp_list 32 w" 0 0] s(1) cl o by (fastforce dest: in_set_butlastD)
  show "length (compress_list 32 (chomp_list 32 w)) \<le> length w"
    using lcompress_length [of 32 "chomp_list 32 w" 0 0] s(2) cl o by auto
qed

end
