(* ===== verification/Options.thy ===== *)
theory Options
  imports ProcMain
begin

text \<open>
  The command line and the environment variables: what \<^verbatim>\<open>getopt_long\<close> can return is handled by the
  loop of \<^verbatim>\<open>main\<close>, long and short options agree, settings precede display options, and the command in
  \<^verbatim>\<open>PROCENV_EXEC\<close> is split inside its array.
\<close>

section \<open>Options\<close>

lemma filter_head: "filter P xs = y # ys \<Longrightarrow> y \<in> set xs"
  by (metis filter_is_subset list.set_intros(1) subsetD)

lemma long_match_entry: "long_match name = Some e \<Longrightarrow> e \<in> set long_options"
  by (auto simp: long_match_def find_Some_iff split: option.split_asm list.split_asm if_split_asm dest: filter_head)

text \<open>A result the loop knows: a letter of the switch, or a setting with the argument it uses.\<close>

definition opt_ok :: "opt \<Rightarrow> bool" where
  "opt_ok r = (case r of
     Letter c \<Rightarrow> c = CHR ''?'' \<or> c \<in> set short_options
   | Setting name arg \<Rightarrow>
       name \<in> {''output'', ''file'', ''file-append'', ''exec'', ''format'', ''indent'', ''indent-char'', ''separator'', ''crumb-separator''} \<and>
       (arg = None \<longleftrightarrow> name \<in> {''exec'', ''file-append''}))"

lemma long_result_ok:
  "e \<in> set long_options \<Longrightarrow> fst (snd e) = (arg \<noteq> None) \<Longrightarrow> opt_ok (long_result e arg)"
  by (cases arg) (auto simp: long_options_def long_result_def opt_ok_def short_options_def)

lemma getopt_ok: "r \<in> set (fst (getopt_long posix args)) \<Longrightarrow> opt_ok r"
proof (induction args rule: length_induct)
  case (1 args)
  show ?case
  proof (cases args)
    case Nil
    with 1(2) show ?thesis by simp
  next
    case (Cons arg rest)
    have q: "opt_ok (Letter CHR ''?'')" "c \<in> set short_options \<Longrightarrow> opt_ok (Letter c)" for c by (simp_all add: opt_ok_def)
    have l: "opt_ok (long_result e a)" if "long_match nm = Some e" "fst (snd e) = (a \<noteq> None)" for nm e a
      using long_result_ok long_match_entry that by blast
    have ih: "opt_ok r" if "r \<in> set (fst (getopt_long posix rest))" using 1(1) Cons that by (metis length_Cons lessI)
    have ih': "opt_ok r" if "rest = v # rest'" "r \<in> set (fst (getopt_long posix rest'))" for v rest'
      using 1(1) Cons that by (metis length_Cons less_Suc_eq)
    show ?thesis
      using 1(2) unfolding Cons getopt_long.simps Let_def case_prod_unfold
      by (auto simp del: getopt_long.simps intro: ih ih' q l split: if_split_asm option.split_asm list.split_asm)
  qed
qed

lemma routine_total:
  assumes "c \<in> set short_options" "c \<noteq> CHR ''h''" "c \<noteq> CHR ''t''"
  shows "routine env w ops st c \<noteq> None"
  using assms by (auto simp: short_options_def routine_def Let_def)

section \<open>The command to execute\<close>

text \<open>Words with a blank between them.\<close>

fun join_words :: "string list \<Rightarrow> string" where
  "join_words [] = []"
| "join_words [x] = x"
| "join_words (x # xs) = x @ '' '' @ join_words xs"

lemma join_words_Cons: "xs \<noteq> [] \<Longrightarrow> join_words (x # xs) = x @ '' '' @ join_words xs"
  by (cases xs) simp_all

definition blanks :: "string \<Rightarrow> nat" where
  "blanks e = length (filter (\<lambda>c. c = CHR '' '') e)"

lemma first_blank:
  "dropWhile (\<lambda>c. c \<noteq> CHR '' '') e = x # r \<Longrightarrow>
   e = takeWhile (\<lambda>c. c \<noteq> CHR '' '') e @ CHR '' '' # r \<and> blanks e = Suc (blanks r)"
proof -
  assume d: "dropWhile (\<lambda>c. c \<noteq> CHR '' '') e = x # r"
  then have x: "x = CHR '' ''" using hd_dropWhile [of "\<lambda>c. c \<noteq> CHR '' ''" e] by auto
  have e: "e = takeWhile (\<lambda>c. c \<noteq> CHR '' '') e @ x # r" using d by (metis takeWhile_dropWhile_id)
  have "filter (\<lambda>c. c = CHR '' '') (takeWhile (\<lambda>c. c \<noteq> CHR '' '') e) = []"
    by (auto simp: filter_empty_conv dest: set_takeWhileD)
  then have "blanks (takeWhile (\<lambda>c. c \<noteq> CHR '' '') e @ x # r) = Suc (blanks r)" using x by (simp add: blanks_def)
  with e x show ?thesis by metis
qed

lemma no_blank: "dropWhile (\<lambda>c. c \<noteq> CHR '' '') e = [] \<Longrightarrow> takeWhile (\<lambda>c. c \<noteq> CHR '' '') e = e \<and> blanks e = 0"
  by (auto simp: dropWhile_eq_Nil_conv blanks_def filter_empty_conv)

lemma count_fields_blanks: "count_fields e n = n + blanks e"
proof (induction e n rule: count_fields.induct)
  case (1 e n)
  show ?case
  proof (cases "dropWhile (\<lambda>c. c \<noteq> CHR '' '') e")
    case Nil
    have "blanks e = 0" using no_blank [OF Nil] by simp
    then show ?thesis unfolding count_fields.simps [of e n] Nil by simp
  next
    case (Cons x r)
    then have "e \<noteq> []" by auto
    with Cons show ?thesis using 1 [of x r] first_blank [OF Cons] by (subst count_fields.simps) simp
  qed
qed

lemma exec_tokens_words:
  assumes "alloc_ok env (length e + 1)"
  shows "\<exists>ws. join_words ws = e \<and> (\<forall>x \<in> set ws. CHR '' '' \<notin> set x) \<and> length ws = Suc (blanks e) \<and>
    (\<forall>i args. i + length ws \<le> length args \<longrightarrow>
       exec_tokens env (Some e) i args = Inr (take i args @ map Some ws @ drop (i + length ws) args))"
  using assms
proof (induction e rule: length_induct)
  case (1 e)
  let ?t = "takeWhile (\<lambda>c. c \<noteq> CHR '' '') e"
  have a: "alloc_ok env (length ?t + 1)" using 1(2) length_takeWhile_le [of "\<lambda>c. c \<noteq> CHR '' ''" e] by (simp add: alloc_ok_def)
  have t: "CHR '' '' \<notin> set ?t" by (auto dest: set_takeWhileD)
  have over: "exec_tokens env None i args = Inr args" for i args by (subst exec_tokens.simps) (simp add: strsep_def)
  show ?case
  proof (cases "dropWhile (\<lambda>c. c \<noteq> CHR '' '') e")
    case Nil
    have "strsep (CHR '' '') (Some e) = (Some e, None)"
      unfolding strsep_def option.case Nil using no_blank [OF Nil] by simp
    then have "exec_tokens env (Some e) i args = Inr (take i args @ map Some [e] @ drop (i + length [e]) args)"
      if "i + length [e] \<le> length args" for i args
      using 1(2) that by (subst exec_tokens.simps) (simp add: wr_def over upd_conv_take_nth_drop)
    then show ?thesis using no_blank [OF Nil] t by (intro exI [of _ "[e]"]) auto
  next
    case (Cons x r)
    note e = first_blank [OF Cons]
    have le: "length r < length e" using arg_cong [OF conjunct1 [OF e], of length] by simp
    then have "alloc_ok env (length r + 1)" using 1(2) by (simp add: alloc_ok_def)
    then obtain ws where ws: "join_words ws = r" "\<forall>x \<in> set ws. CHR '' '' \<notin> set x" "length ws = Suc (blanks r)"
      "\<And>i args. i + length ws \<le> length args \<Longrightarrow>
         exec_tokens env (Some r) i args = Inr (take i args @ map Some ws @ drop (i + length ws) args)"
      using 1(1) le by blast
    have "exec_tokens env (Some e) i args = Inr (take i args @ map Some (?t # ws) @ drop (i + length (?t # ws)) args)"
      if "i + length (?t # ws) \<le> length args" for i args
    proof -
      have "exec_tokens env (Some e) i args = exec_tokens env (Some r) (Suc i) (args[i := Some ?t])"
        using Cons a that by (subst exec_tokens.simps) (simp add: strsep_def wr_def)
      also have "\<dots> = Inr (take (Suc i) (args[i := Some ?t]) @ map Some ws @ drop (Suc i + length ws) (args[i := Some ?t]))"
        using that by (intro ws(4)) simp
      finally show ?thesis using that by (simp add: take_Suc_conv_app_nth)
    qed
    moreover have "join_words (?t # ws) = e" using ws(1,3) e by (subst join_words_Cons) auto
    ultimately show ?thesis using ws(2,3) e t by (intro exI [of _ "?t # ws"]) auto
  qed
qed

section \<open>Settings behind a letter\<close>

lemma displayed_kept:
  "on_out f ms = Inr ms' \<Longrightarrow> displayed ms' = displayed ms"
  "on_glob h ms = Inr ms' \<Longrightarrow> displayed ms' = displayed ms"
  "show_part env r ms = Inr ms' \<Longrightarrow> displayed ms' = displayed ms"
  "show_tty env w ops ms = Inr ms' \<Longrightarrow> displayed ms' = displayed ms"
  by (auto simp: on_out_def on_glob_def set_glob_def show_part_def show_tty_def bindE_Inr_iff split: prod.splits)

lemma display_kept: "display env io w ops c ms = Inr ms' \<Longrightarrow> displayed ms' = displayed ms"
  by (auto simp: display_def bindE_Inr_iff split: if_splits option.splits dest!: displayed_kept)

section \<open>Settings\<close>

text \<open>The settings without an argument, and those whose effect depends on it.\<close>

lemma plain_setting:
  assumes "name \<in> {''exec'', ''file-append''}"
  shows "\<exists>a ms. apply_setting env name a ms \<noteq> Inr ms" "\<forall>a b ms. apply_setting env name a ms = apply_setting env name b ms"
proof -
  fix ms :: mstate
  let ?ms = "ms\<lparr>reexec := False, out := (out ms)\<lparr>output_file_append := False\<rparr>\<rparr>"
  have "reexec ms' \<or> output_file_append (out ms')" if "apply_setting env name [] ?ms = Inr ms'" for ms'
    using that assms by (auto simp: apply_setting_def set_out_def on_out_def set_output_file_append_def)
  then have "apply_setting env name [] ?ms \<noteq> Inr ?ms" by fastforce
  then show "\<exists>a ms. apply_setting env name a ms \<noteq> Inr ms" by blast
  show "\<forall>a b ms. apply_setting env name a ms = apply_setting env name b ms" using assms by (auto simp: apply_setting_def)
qed

definition setting_stored :: "string \<Rightarrow> string \<Rightarrow> ostate \<Rightarrow> bool" where
  "setting_stored name a st \<longleftrightarrow>
     (if name = ''output'' then map_lookup output_map a = Some (output_dest st)
      else if name = ''file'' then output_file st = Some a
      else if name = ''format'' then map_lookup output_format_map a = Some (output_format st)
      else if name = ''indent'' then indent_amount st = atoi a
      else if name = ''indent-char'' then indent_char st = tab_escape a
      else if name = ''separator'' then text_separator st = tab_escape a
      else crumb_separator st = tab_escape a)"

abbreviation argument_settings :: "string set" where
  "argument_settings \<equiv> {''output'', ''file'', ''format'', ''indent'', ''indent-char'', ''separator'', ''crumb-separator''}"

lemmas setting_defs = apply_setting_def set_out_def on_out_def set_output_value_def set_output_value_raw_def
  set_output_file_def set_output_format_def set_indent_amount_def set_indent_char_def handle_indent_char_def
  set_text_separator_def set_crumb_separator_def

lemma argument_setting_stored:
  assumes "name \<in> argument_settings" "apply_setting env name a ms = Inr ms'"
  shows "setting_stored name a (out ms')"
  using assms unfolding setting_stored_def
  by (auto simp: setting_defs bindE_Inr_iff guardE_def split: option.splits list.splits if_splits)

lemma argument_setting_values:
  assumes "name \<in> argument_settings" "mbs env '' '' = Some [32]"
  shows "\<exists>a b ms'. apply_setting env name a ms = Inr ms' \<and> \<not> (\<exists>st. setting_stored name a st \<and> setting_stored name b st)"
proof -
  note eval = setting_defs setting_stored_def tab_escape_def assms(2)
  have "atoi ''1'' = 1" "atoi ''2'' = 2" by (simp_all add: atoi_def scan_int_def is_digit_def is_space_def dec_number_def)
  note eval = eval this
  from assms(1) have "name = ''output'' \<or> name = ''file'' \<or> name = ''format'' \<or> name = ''indent'' \<or> name = ''indent-char'' \<or>
    name = ''separator'' \<or> name = ''crumb-separator''" by simp
  then show ?thesis
  proof (elim disjE)
    assume "name = ''output''"
    then show ?thesis by (intro exI [of _ "''stdout''"] exI [of _ "''stderr''"]) (simp add: eval output_map_def)
  next
    assume "name = ''format''"
    then show ?thesis by (intro exI [of _ "''text''"] exI [of _ "''json''"]) (simp add: eval output_format_map_def)
  next
    assume "name = ''indent''"
    then show ?thesis by (intro exI [of _ "''1''"] exI [of _ "''2''"]) (simp add: eval)
  next
    assume "name = ''indent-char''"
    then show ?thesis by (intro exI [of _ "'' ''"] exI [of _ "''-''"]) (simp add: eval)
  qed (intro exI [of _ "''a''"] exI [of _ "''b''"], simp add: eval)+
qed

lemma argument_setting:
  assumes "name \<in> argument_settings" "mbs env '' '' = Some [32]"
  shows "\<exists>a ms. apply_setting env name a ms \<noteq> Inr ms" "\<not> (\<forall>a b ms. apply_setting env name a ms = apply_setting env name b ms)"
proof -
  fix ms
  obtain a b ms' where a: "apply_setting env name a ms = Inr ms'" "\<not> (\<exists>st. setting_stored name a st \<and> setting_stored name b st)"
    using argument_setting_values [OF assms] by blast
  have "apply_setting env name a ms \<noteq> apply_setting env name b ms"
    using a argument_setting_stored [OF assms(1)] by metis
  then show "\<exists>a ms. apply_setting env name a ms \<noteq> Inr ms" "\<not> (\<forall>a b ms. apply_setting env name a ms = apply_setting env name b ms)"
    by metis+
qed

section \<open>Properties\<close>



lemma find_key: "distinct (map fst xs) \<Longrightarrow> (k, v) \<in> set xs \<Longrightarrow> find (\<lambda>e. fst e = k) xs = Some (k, v)"
  by (induction xs) force+

text \<open>
  C20: the long and the short form of every display option are the same to \<^verbatim>\<open>main\<close>: the program
  does the same for \<^verbatim>\<open>--name\<close> as for the letter of the table, whatever arguments follow.
\<close>

theorem long_short_equivalent:
  assumes "(name, False, Some c) \<in> set long_options"
  shows "getopt_long posix ((''--'' @ name) # args) = getopt_long posix ([CHR ''-'', c] # args)"
proof -
  have "distinct (map fst long_options)" by (simp add: long_options_def)
  then have n: "find (\<lambda>e. fst e = name) long_options = Some (name, False, Some c)"
    using assms by (rule find_key)
  have "list_all (\<lambda>(n, a, v). n \<noteq> [] \<and> CHR ''='' \<notin> set n \<and> (case v of None \<Rightarrow> True | Some l \<Rightarrow> l \<in> set short_options)) long_options"
    by (simp add: long_options_def short_options_def)
  then have c: "name \<noteq> []" "CHR ''='' \<notin> set name" "c \<in> set short_options" using assms by (auto simp: list_all_iff)
  moreover have "CHR ''-'' \<notin> set short_options" by (simp add: short_options_def)
  ultimately have d: "c \<noteq> CHR ''-''" by metis
  have "takeWhile (\<lambda>x. x \<noteq> CHR ''='') name = name" "dropWhile (\<lambda>x. x \<noteq> CHR ''='') name = []" using c(2) by auto
  moreover have "long_match name = Some (name, False, Some c)" by (simp add: long_match_def n)
  ultimately show ?thesis
    using c(1,3) d by (simp add: long_result_def del: dropWhile_eq_Nil_conv takeWhile_eq_all_conv)
qed

theorem long_short_equivalent_witness:
  "\<forall>args. getopt_long False (''--memory'' # args) = getopt_long False (''-Y'' # args)"
  using long_short_equivalent [of "''memory''" "CHR ''Y''" False] by (simp add: long_options_def del: getopt_long.simps)

text \<open>
  C21: the command in \<^verbatim>\<open>PROCENV_EXEC\<close> is split at its blanks without leaving the array that was counted
  for it: the array holds the words, in order, and ends with the null pointer; the words joined by
  blanks are the command again.
\<close>

theorem exec_command_split:
  assumes "e \<noteq> []" "alloc_ok env ((length e + 2) * 8)"
  shows "\<exists>ws. join_words ws = e \<and> (\<forall>x \<in> set ws. CHR '' '' \<notin> set x) \<and>
    set_exec env e ms = Inr (ms\<lparr>exec_args := Some (map Some ws @ [None]), reexec := True\<rparr>)"
proof -
  have "blanks e \<le> length e" by (simp add: blanks_def)
  then have a: "alloc_ok env (length e + 1)" "alloc_ok env ((count_fields e 1 + 1) * 8)"
    using assms(2) by (simp_all add: alloc_ok_def count_fields_blanks)
  obtain ws where ws: "join_words ws = e" "\<forall>x \<in> set ws. CHR '' '' \<notin> set x" "length ws = Suc (blanks e)"
    "\<And>i args. i + length ws \<le> length args \<Longrightarrow>
       exec_tokens env (Some e) i args = Inr (take i args @ map Some ws @ drop (i + length ws) args)"
    using exec_tokens_words [OF a(1)] by blast
  have "exec_tokens env (Some e) 0 (replicate (count_fields e 1 + 1) None) = Inr (map Some ws @ [None])"
    using ws(3) by (subst ws(4)) (simp_all add: count_fields_blanks replicate_Suc [of 0] del: replicate_Suc)
  with ws(1,2) a assms(1) show ?thesis by (intro exI [of _ ws]) (simp add: set_exec_def Let_def)
qed

theorem exec_command_split_witness:
  "\<forall>ms. \<exists>ws. join_words ws = ''ls -l'' \<and> (\<forall>x \<in> set ws. CHR '' '' \<notin> set x) \<and>
    set_exec ascii_env ''ls -l'' ms = Inr (ms\<lparr>exec_args := Some (map Some ws @ [None]), reexec := True\<rparr>)"
  using exec_command_split [of "''ls -l''" ascii_env] by (simp add: alloc_ok_def ascii_env_def)

text \<open>
  C22: a setting other than \<^verbatim>\<open>--exec\<close> that follows a display option stops the program with an error,
  whatever else was given.
\<close>

theorem settings_first:
  assumes "name \<noteq> ''exec''"
    "bindE (on_out (master_header env (w_pkg w)) (ms\<lparr>displayed := True\<rparr>)) (display env io w ops c) = Inr ms1"
  shows "option_loop env io w ops (Letter c # Setting name arg # os) ms =
    Inl (Die ''Must specify non-display options before display options'')"
proof -
  obtain m where m: "on_out (master_header env (w_pkg w)) (ms\<lparr>displayed := True\<rparr>) = Inr m" "display env io w ops c m = Inr ms1"
    using assms(2) by (auto simp: bindE_Inr_iff)
  have "displayed ms1" using displayed_kept(1) [OF m(1)] display_kept [OF m(2)] by simp
  with m assms(1) show ?thesis by (simp add: do_setting_def)
qed

theorem settings_first_witness:
  "\<forall>io w g. option_loop ascii_env io w no_ops [Letter CHR ''q'', Setting ''indent'' (Some ''4'')]
     \<lparr>out = example_state OUTPUT_FORMAT_TEXT, glob = g, reexec = False, exec_args = None, displayed = False\<rparr> =
    Inl (Die ''Must specify non-display options before display options'')"
proof (intro allI)
  fix io w g
  let ?ms = "\<lparr>out = example_state OUTPUT_FORMAT_TEXT, glob = g, reexec = False, exec_args = None, displayed = False\<rparr> :: mstate"
  have "routine ascii_env w no_ops st (CHR ''q'') = Some (\<lambda>_. Inr [])" for st
    by (simp add: routine_def Let_def show_time_def no_ops_def)
  then have "bindE (on_out (master_header ascii_env (w_pkg w)) (?ms\<lparr>displayed := True\<rparr>)) (display ascii_env io w no_ops (CHR ''q''))
      = Inr (set_glob g (?ms\<lparr>displayed := True\<rparr>))"
    by (simp add: on_out_def master_header_def common_assert_def example_state_def ostate0_def display_def on_glob_def
        requery_def show_part_def set_glob_def)
  from settings_first [OF _ this, of "''indent''" "Some ''4''" "[]"]
  show "option_loop ascii_env io w no_ops [Letter CHR ''q'', Setting ''indent'' (Some ''4'')] ?ms =
    Inl (Die ''Must specify non-display options before display options'')" by simp
qed

end
