(* ===== verification/Examples.thy ===== *)
theory Examples
  imports Plain Options
begin

text \<open>
  A small Linux system for the witnesses of whole runs: a build, the answers of the kernel, the state after the
  start, and the report of every part of a dump there, in plain text.
\<close>

section \<open>A small system\<close>

definition example_env :: cenv where
  "example_env = ascii_env\<lparr>mem_limit := 1000000000000\<rparr>"

definition example_build :: build where
  "example_build = \<lparr>defd = (\<lambda>_. False), macro_value = (\<lambda>_. 1), macro_text = (\<lambda>_. ''1''), sizeof = (\<lambda>_. 8),
     one_bytes = [1, 0, 0, 0]\<rparr>"

definition example_line :: string where
  "example_line = ''Thu Jan  1 00:00:00 1970'' @ [CHR 0x0A]"

definition example_stat :: statbuf where
  "example_stat = \<lparr>st_dev = (0, 0), st_ino = 2, st_mode = 0, st_nlink = 1, st_uid = 0, st_gid = 0, st_rdev = (0, 0), st_size = 0, st_blocks = 0,
     st_atim = 0, st_mtim = 0, st_ctim = 0\<rparr>"

definition example_world :: world where
  "example_world = \<lparr>w_pkg = example_pkg, w_url = ''https'', w_build = example_build, w_environ = [''B=2'', ''A=1''],
     w_getenv = (\<lambda>_. None),
     w_proc = \<lparr>q_user_name = (\<lambda>_. Some ''root''), q_group_name = (\<lambda>_. None), q_getgroups = (\<lambda>_. Some []),
       q_strcoll = (\<lambda>a b. 0), q_open_ro = (\<lambda>_. -1), q_vt_getmode = (\<lambda>_. -1)\<rparr>,
     w_file = \<lparr>q_stat = (\<lambda>f. if f = ''/'' \<or> f = ''/procenv'' then Some example_stat else None), q_fopen = (\<lambda>_. None), q_realpath = Some, q_ctime_r = (\<lambda>_. Some example_line), q_getenv = (\<lambda>_. None)\<rparr>,
     w_net = \<lparr>q_getifaddrs = Some [], q_hwaddr = (\<lambda>_. None)\<rparr>,
     w_thread = \<lparr>q_stack_size = 0, q_scope_system = None, q_guard_size = None, q_sched = None, q_inherit = None, q_concurrency = 0\<rparr>,
     w_tcgetattr = (\<lambda>_. None), w_winsize = (\<lambda>_. None), w_rusage = Some (\<lambda>_. 0), w_sigset = Some (\<lambda>_. 0), w_sigaction = (\<lambda>_. None),
     w_strsignal = (\<lambda>_. None), w_sysconf = (\<lambda>_. 0), w_pagesize = 4096,
     w_setlocale = (\<lambda>_. None), w_setlocale_all = None, w_atexit = True, w_localtime = (\<lambda>_. Some \<lparr>tm_year = 70, tm_mon = 0, tm_mday = 1, tm_hour = 0, tm_min = 0\<rparr>), w_asctime_r = (\<lambda>_. Some example_line),
     w_version_code = None, w_personality = 0,
     w_uname = Some \<lparr>sysname = ''Linux'', nodename = ''n'', release = ''6.1.0'', uts_version = ''1'', machine = ''m'', domainname = ''d''\<rparr>,
     w_getpid = 30, w_getppid = 1, w_getresuid = Some (0, 0, 0), w_getresgid = Some (0, 0, 0), w_getsid = 30, w_getlogin = None,
     w_getpgrp = 30, w_ctermid = ''/dev/tty'', w_open_rw = (\<lambda>_. -1), w_tcgetpgrp = (\<lambda>_. 30),
     w_getpwuid = (\<lambda>_. Inr \<lparr>pw_name = ''root'', pw_gid = 0, pw_gecos = [], pw_dir = ''/root'', pw_shell = ''/bin/sh''\<rparr>),
     w_umask = 18, w_getcwd = Some ''/root'', w_getpriority = (\<lambda>_. 0), w_execvp = (\<lambda>_ _. True)\<rparr>"

definition example_io :: oio where
  "example_io = \<lparr>fputs_ret = (\<lambda>_ s. int (length s)), write_ret = (\<lambda>_ s. int (length s)), open_ret = (\<lambda>_ _. 3)\<rparr>"

definition small_queries :: generic_queries where
  "small_queries = example_queries\<lparr>gq_defd := \<lambda>_. False\<rparr>"

definition small_linux :: linux_queries where
  "small_linux = example_linux\<lparr>lx_generic := small_queries, lx_dirs := \<lambda>_. None\<rparr>"

definition small_sys :: sys_queries where
  "small_sys = example_sys\<lparr>sy_linux := small_linux, sy_affinity := \<lambda>_. Some None\<rparr>"

definition example_ops :: procenv_ops where
  "example_ops = linux_ops example_env small_sys ''platform.c''"

text \<open>The globals behind the start, for the arguments behind the name of the program.\<close>

definition example_glob :: "string list \<Rightarrow> globals" where
  "example_glob args = \<lparr>user = \<lparr>u_passwd = \<lparr>pw_name = ''root'', pw_gid = 0, pw_gecos = [], pw_dir = ''/root'', pw_shell = ''/bin/sh''\<rparr>,
       proc_name = ''unknown'', ctrl_terminal = ''/dev/tty'', pid = 30, ppid = 1, sid = 30, login = None, pgroup = 30,
       fg_pgroup = 30, u_tty_fd = 0, uid = 0, u_euid = 0, suid = 0, gid = 0, egid = 0, sgid = 0\<rparr>,
     misc = \<lparr>cwd = ''/root'', root = ''unknown'', umask_value = 18, in_jail = False\<rparr>,
     priority = \<lparr>prio_process = 0, prio_pgrp = 0, prio_user = 0\<rparr>, priority_io = \<lparr>prio_process = 0, prio_pgrp = 0, prio_user = 0\<rparr>,
     uts = \<lparr>sysname = ''Linux'', nodename = ''n'', release = ''6.1.0'', uts_version = ''1'', machine = ''m'', domainname = ''d''\<rparr>,
     program_name = ''/procenv'', argvp = ''/procenv'' # args\<rparr>"

lemma example_env_sel:
  "mbs example_env = ascii_mbs" "wcs example_env = ascii_wcs" "mem_limit example_env = 1000000000000"
  "wprint example_env = (\<lambda>c. 32 \<le> c \<and> c < 127)"
  by (simp_all add: example_env_def ascii_env_def)

lemma sys_eval:
  "sy_linux small_sys = small_linux" "lx_generic small_linux = small_queries" "sy_const small_sys = (\<lambda>_. 0)"
  "sy_ctime small_sys = (\<lambda>_. None)" "sy_msg_info small_sys = None" "sy_sem_info small_sys = None" "sy_shm_info small_sys = None"
  "sy_prctl small_sys = (\<lambda>_. (-1, 0))" "sy_prctl_name small_sys = ''procenv''" "sy_caps small_sys = None" "sy_cap_bound small_sys = (\<lambda>_. -1)"
  "sy_aa_context small_sys = None" "sy_selinux small_sys = (0, 0)" "sy_selinux_context small_sys = None" "sy_ioprio small_sys = (\<lambda>_. 0)"
  "sy_scheduler small_sys = 0" "sy_numa small_sys = None" "sy_getcpu small_sys = 0" "sy_affinity small_sys = (\<lambda>_. Some None)"
  "lx_dirs small_linux = (\<lambda>_. None)" "lx_getpid small_linux = 30" "lx_files small_linux = lx_files example_linux"
  "gq_defd small_queries = (\<lambda>_. False)" "gq_getrlimit small_queries = (\<lambda>_. Some (0, 0))" "gq_sysconf small_queries = (\<lambda>_. Some 6)"
  "gq_clock_gettime small_queries = Some (0, 0)" "gq_sysinfo small_queries = None" "gq_mounts small_queries = None"
  "gq_tz small_queries = (''UTC'', ''UTC'', 0, 0)" "gq_phdrs small_queries = []" "gq_readlink small_queries ''/proc/self/root'' = None"
  "lx_files example_linux ''/proc/cpuinfo'' = None" "lx_files example_linux ''/proc/self/stat'' = None"
  "lx_files example_linux ''/proc/self/cgroup'' = None" "lx_files example_linux ''/proc/self/oom_score'' = None"
  "lx_files example_linux ''/proc/self/oom_adj'' = None" "lx_files example_linux ''/proc/self/oom_score_adj'' = None"
  by (simp_all add: small_sys_def small_linux_def small_queries_def example_sys_def example_linux_def example_queries_def)

lemma example_env_ok: "printable_sane example_env" "locale_ok example_env" "ascii_locale example_env"
  by (simp_all add: printable_sane_def ascii_printable_def locale_ok_def example_env_sel ascii_mbs_def ascii_locale_def)

section \<open>The start\<close>

lemma example_version: "linux_kernel_version ''6.1.0'' 2 6 11 = Inr True"
  by code_simp

lemma example_root: "get_canonical_generic_linux small_queries ''/proc/self/root'' PATH_MAX = Inr (False, UNKNOWN_STR)"
  by (rule conjunct2 [OF get_canonical_answers, rule_format]) (simp_all add: sys_eval UNKNOWN_STR_def PATH_MAX_def)

lemma example_ops_start:
  "get_user_misc example_ops = Some (get_user_misc_linux small_sys)"
  "get_proc_name example_ops = Some (get_proc_name_linux small_sys)"
  "get_io_priorities example_ops = Some (get_io_priorities_linux small_sys)"
  by (simp_all add: example_ops_def linux_ops_def Let_def)

lemma example_start:
  assumes "indent_char (out ms0) = '' ''" "glob ms0 = globals0\<lparr>program_name := ''/procenv'', argvp := ''/procenv'' # args\<rparr>"
  shows "\<exists>ms. init example_env (example_world\<lparr>w_getenv := ge\<rparr>) example_ops ms0 = Inr ms \<and> glob ms = example_glob args"
  using assms
  by (simp add: init_def save_locale_def on_out_def on_glob_def set_glob_def handle_indent_char_def get_uname_def get_user_info_def
      get_misc_def get_priorities_def Let_def example_env_sel ascii_mbs_def example_ops_start get_proc_name_linux_def example_version
      get_user_misc_linux_def sys_eval example_root get_io_priorities_linux_def example_glob_def globals0_def example_world_def
      UNKNOWN_STR_def)

lemma example_init:
  "\<exists>ms. init example_env example_world example_ops (mstate0 new_doc ''/procenv'' args) = Inr ms \<and> glob ms = example_glob args"
  using example_start [of "mstate0 new_doc ''/procenv'' args" args "w_getenv example_world"]
  by (simp add: mstate0_def ostate0_def DEFAULT_INDENT_CHAR_def)

section \<open>The parts of a dump\<close>

definition plain_report :: "nat \<Rightarrow> report \<Rightarrow> bool" where
  "plain_report n r \<longleftrightarrow> (\<exists>cs. r = Inr cs \<and> length cs \<le> n \<and> list_all (plain_call example_env) cs)"

named_theorems part_eval \<open>what evaluates a part of the dump on the small system\<close>

lemmas [part_eval] = plain_report_def plain_text_def wformat_def fmt_eval nat_digits.simps digit_char_def ascii_mbs_def unsigned_of_def
  in_header_def in_section_def in_container_def in_object_def call_hook_def plain_hook_def
  as_int_def UNKNOWN_STR_def NO_STR_def YES_STR_def NA_STR_def yes_no_def str_arg_def maybe_quoted_def quoted_s_def
  example_env_sel sys_eval example_glob_def example_world_def example_build_def alloc_ok_def
  example_ops_def linux_ops_def no_ops_def Let_def

lemma plain_replicate [part_eval]: "list_all P (replicate n x) \<longleftrightarrow> n = 0 \<or> P x"
  by (auto simp: list_all_iff)

lemma appendf_then:
  assumes "format fmt args = Some t" "nul \<notin> set t" "alloc_ok env (length t + 9)"
  shows "bindE (appendf env None fmt args) (\<lambda>b. bindE (buf_str b) f) = f t"
proof -
  obtain b where "appendf env None fmt args = Inr (Some b)" "cbuf b t"
    using appendf_new [OF assms(1,2), of env] assms(3) by auto
  then show ?thesis by (simp add: buf_str_def)
qed

lemma example_argv [part_eval]:
  "bindE (appendf example_env None ''argv[%d]'' [PInt 0]) (\<lambda>b. bindE (buf_str b) f) = f ''argv[0]''"
  "bindE (appendf example_env None ''argv[%d]'' [PInt 1]) (\<lambda>b. bindE (buf_str b) f) = f ''argv[1]''"
proof -
  have "format ''argv[%d]'' [PInt 0] = Some ''argv[0]''" "format ''argv[%d]'' [PInt 1] = Some ''argv[1]''" by code_simp+
  then show "bindE (appendf example_env None ''argv[%d]'' [PInt 0]) (\<lambda>b. bindE (buf_str b) f) = f ''argv[0]''"
    "bindE (appendf example_env None ''argv[%d]'' [PInt 1]) (\<lambda>b. bindE (buf_str b) f) = f ''argv[1]''"
    by (simp_all add: appendf_then alloc_ok_def example_env_sel)
qed

lemma example_cpuset [part_eval]: "get_cpuset_linux small_sys = Inr None"
  by (simp add: get_cpuset_linux_def sys_eval grow_cpuset.simps [of _ 6 0 6])

lemma example_ancestry [part_eval]:
  "handle_proc_branch_linux example_env small_linux = Inr [C_entry ''ancestry'' ''%s''
     [PStr (''30 ('' @ [CHR 0x27] @ ''sh'' @ [CHR 0x27] @ ''), 1 ('' @ [CHR 0x27] @ ''init'' @ [CHR 0x27] @ '')'')]]"
proof -
  let ?q = "small_linux" and ?t = "ancestor_text ''30'' ''sh'' @ '', '' @ ancestor_text ''1'' ''init''"
  have s1: "status_file ?q ''30'' ''sh'' ''1''" and s2: "status_file ?q ''1'' ''init'' ''0''"
    unfolding status_file_def Let_def sys_eval
    by (rule exI [of _ "[]"], rule exI [of _ "[]"],
        simp add: example_linux_def text_lines_def PROCENV_BUFFER_def PROCENV_TASK_COMM_NAME_LEN_def)+
  have "ancestors ?q ''30'' ?t" by (rule ancestors.step [OF _ _ s1 ancestors.init [OF s2]]) simp_all
  then obtain b where "proc_branch example_env ?q ''30'' (None, None) None = Some (Inr (Some b))" "cbuf b ?t"
    using proc_branch_text [of ?q "''30''" ?t None "[]" example_env "(None, None)"]
    by (auto simp: list_holds_def alloc_ok_def example_env_sel ancestor_text_def)
  moreover have "format ''%d'' [PInt 30] = Some ''30''" by code_simp
  ultimately show ?thesis by (simp add: handle_proc_branch_linux_def buf_str_def sys_eval ancestor_text_def)
qed

lemma plain_reports:
  assumes "list_all (plain_report n) rs" "length rs * n \<le> m"
  shows "plain_report m (reports rs)"
  using assms by (induction rs arbitrary: m) (fastforce simp: plain_report_def)+

lemma plain_limit: "l \<noteq> [] \<Longrightarrow> plain_text (L l) \<Longrightarrow> plain_report 10 (show_limit small_queries l)"
  by (simp add: part_eval show_limit_def limit_max_def)

lemma plain_newer: "plain_report n (Inr [])"
  by (simp add: plain_report_def)

lemma plain_capabilities: "plain_report 200 (show_capabilities example_ops (example_glob args))"
  by (simp add: part_eval show_capabilities_def show_capabilities_linux_def)

lemma plain_cgroups: "plain_report 200 (show_cgroups example_ops (example_glob args))"
  by (simp add: part_eval show_cgroups_def show_cgroups_linux_def)

lemma plain_clocks: "plain_report 200 (show_clocks example_ops (example_glob args))"
  by (simp add: part_eval show_clocks_def show_clocks_generic_def)

lemma plain_compiler: "plain_report 200 (show_compiler example_build)"
  by (simp add: part_eval show_compiler_def compiler_name_def compiler_version_def feature_entry_def feature_macros_def stdc_macros_def)

lemma plain_confstrs: "plain_report 200 (show_confstrs example_ops (example_glob args))"
  by (simp add: part_eval show_confstrs_def show_confstrs_generic_def)

lemma plain_cpu: "plain_report 200 (show_cpu example_ops (example_glob args))"
  by (simp add: part_eval show_cpu_def show_cpu_linux_def procenv_getcpu_def show_cpu_affinities_generic_def show_priorities_def
      handle_scheduler_type_linux_def get_scheduler_name_def scheduler_map_def show_io_priorities_linux_def
      get_ioprio_class_name_def io_priorities_class_map_def IOPRIO_PRIO_CLASS_def IOPRIO_PRIO_DATA_def)

lemma plain_env: "plain_report 200 (show_env example_env (q_strcoll (w_proc example_world)) (w_environ example_world))"
  by (simp add: part_eval show_env_def env_entry_def)

lemma plain_fds: "plain_report 200 (show_fds example_ops (example_glob args))"
  by (simp add: part_eval show_fds_def show_fds_linux_def)

lemma plain_libc: "plain_report 200 (show_libc example_build)"
  by (simp add: part_eval show_libc_def libc_name_def libc_version_def libc_minor_def macro_or_def)

lemma plain_libs: "plain_report 200 (show_libs example_ops (example_glob args))"
  by (simp add: part_eval show_libs_def show_libs_generic_def)

lemma plain_rlimits: "plain_report 200 (show_rlimits example_ops (example_glob args))"
proof -
  have "plain_report 160 (show_rlimits_linux small_sys (example_glob args))"
    unfolding show_rlimits_linux_def Let_def sys_eval
    by (rule plain_reports [of 10]) (simp_all add: plain_limit plain_newer plain_text_def fmt_eval)
  then show ?thesis
    by (auto simp: plain_report_def show_rlimits_def example_ops_def linux_ops_def no_ops_def Let_def call_hook_def plain_hook_def in_header_def plain_text_def fmt_eval)
qed

lemma plain_locale: "plain_report 200 (show_locale example_env (w_getenv example_world) (w_setlocale_all example_world) (locale_map example_build) (w_setlocale example_world))"
  by (simp add: part_eval show_locale_def locale_map_def)

lemma plain_memory: "plain_report 200 (show_memory (w_pagesize example_world) example_ops (example_glob args))"
  by (simp add: part_eval show_memory_def show_memory_generic_def handle_numa_memory_linux_def)

lemma plain_msg_queues: "plain_report 200 (show_msg_queues example_ops (example_glob args))"
  by (simp add: part_eval show_msg_queues_def show_msg_queues_linux_def ipc_report_def)

lemma plain_misc: "plain_report 200 (show_misc example_env (w_file example_world) (w_version_code example_world) (w_personality example_world) example_ops (example_glob args))"
  by (simp add: part_eval show_misc_def in_chroot_def container_type_def example_stat_def to_int_def get_personality_flags_def
      show_prctl_linux_def prctl_first_def prctl_second_def prctl_third_def prctl_part_def show_security_module_linux_def in_vm_linux_def
      get_personality_name_def personality_map_linux_def personality_flag_map_linux_def show_security_module_context_linux_def PER_MASK_def const_map_def)

lemma plain_mounts: "plain_report 200 (show_mounts example_ops SHOW_ALL)"
  by (simp add: part_eval show_mounts_def show_mounts_generic_linux_def)

lemma plain_namespaces: "plain_report 200 (show_namespaces example_ops (example_glob args))"
  by (simp add: part_eval show_namespaces_def show_namespaces_linux_def)

lemma plain_network: "plain_report 200 (show_network example_env (w_net example_world) example_ops)"
  by (simp add: part_eval show_network_def show_interfaces.simps sizeof_network_map_def)

lemma plain_oom: "plain_report 200 (show_oom example_ops (example_glob args))"
  by (simp add: part_eval show_oom_def show_oom_linux_def oom_entries_def)

lemma plain_platform: "plain_report 200 (show_platform example_build example_ops)"
  by (simp add: part_eval show_platform_def show_data_model_def get_kernel_bits_generic_def get_arch_def get_os_def)

lemma plain_proc: "plain_report 200 (show_proc example_env (w_proc example_world) example_ops (example_glob args))"
  by (simp add: part_eval show_proc_def show_all_groups_def query_groups.simps)

lemma plain_ranges: "plain_report 200 (show_ranges example_build)"
  by (simp add: part_eval show_ranges_def unsigned_range_def signed_range_def int_range_section_def float_range_section_def size_entry_def)

lemma plain_rusage: "plain_report 200 (show_rusage (w_rusage example_world))"
  by (simp add: part_eval show_rusage_def rusage_names_def)

lemma plain_semaphores: "plain_report 200 (show_semaphores example_ops (example_glob args))"
  by (simp add: part_eval show_semaphores_def show_semaphores_linux_def ipc_report_def)

lemma plain_shared_mem: "plain_report 200 (show_shared_mem example_ops (example_glob args))"
  by (simp add: part_eval show_shared_mem_def show_shared_mem_linux_def ipc_report_def)

lemma plain_signals: "plain_report 200 (show_signals (w_sigset example_world) (w_sigaction example_world) (w_strsignal example_world) example_ops)"
  by (simp add: part_eval show_signals_def show_signal_def signal_map_linux_def const_map_def sigchld_entry_def)

lemma plain_sizeof: "plain_report 200 (show_sizeof example_build)"
  by (simp add: part_eval show_sizeof_def size_entry_def sizeof_types_def)

lemma plain_stat: "plain_report 200 (show_stat example_env (w_file example_world) (w_proc example_world) (example_glob args))"
  by (simp add: part_eval show_stat_def get_path_def strdup_def example_stat_def format_perms_def perm_char_def drop_last_def time_entry_def example_line_def)

lemma plain_sysconf: "plain_report 200 (show_sysconf (sysconf_map example_build) (w_sysconf example_world))"
  by (simp add: part_eval show_sysconf_def sysconf_map_def)

lemma plain_threads: "plain_report 200 (show_threads (w_thread example_world))"
  by (simp add: part_eval show_threads_def)

lemma plain_time: "plain_report 200 (show_time (w_localtime example_world) (w_asctime_r example_world) example_ops)"
  by (simp add: part_eval show_time_def get_time_generic_def example_line_def drop_last_def)

lemma plain_timezone: "plain_report 200 (show_timezone example_ops (example_glob args))"
  by (simp add: part_eval show_timezone_def show_timezone_generic_def)

lemma plain_tty_report: "plain_report 200 (tty_report example_world example_ops (example_glob args))"
  by (simp add: part_eval tty_report_def show_tty_attrs_def)

lemma plain_uname: "plain_report 200 (show_uname (example_glob args))"
  by (simp add: part_eval show_uname_def)

lemma plain_arguments:
  "plain_report 200 (show_arguments example_env (example_glob [''--format=json'']))"
  "plain_report 200 (show_arguments example_env (example_glob []))"
  by (simp_all add: part_eval show_arguments_def show_argument_def)

lemma plain_meta: "output_format st \<noteq> OUTPUT_FORMAT_CRUMB \<Longrightarrow> plain_report 200 (show_meta (w_pkg example_world) r example_ops (example_glob args) st)"
  by (cases "output_format st")
    (simp_all add: part_eval show_meta_def get_output_format_name_def output_format_map_def example_pkg_def non_privileged_def PROCENV_FORMAT_VERSION_def)

section \<open>A whole dump\<close>

lemmas plain_parts = plain_arguments
  plain_capabilities plain_cgroups plain_clocks plain_compiler plain_confstrs plain_cpu
  plain_env plain_fds plain_libc plain_libs plain_rlimits plain_locale
  plain_memory plain_msg_queues plain_misc plain_mounts plain_namespaces plain_network
  plain_oom plain_platform plain_proc plain_ranges plain_rusage plain_semaphores
  plain_shared_mem plain_signals plain_sizeof plain_stat plain_sysconf plain_threads
  plain_time plain_timezone plain_tty_report plain_uname

lemma example_dump:
  assumes "output_format st \<noteq> OUTPUT_FORMAT_CRUMB" "args = [] \<or> args = [''--format=json'']"
  obtains cs where "dump_report example_env example_world example_ops st (example_glob args) = Inr cs" "length cs \<le> 7200"
    "list_all (plain_call example_env) cs"
proof -
  have b: "w_build example_world = example_build" by (simp add: example_world_def)
  have "plain_report 7200 (dump_report example_env example_world example_ops st (example_glob args))"
    unfolding dump_report_def dump_parts_def Let_def b
    by (rule plain_reports [of 200]) (use assms in \<open>auto simp: plain_parts plain_meta\<close>)
  then show ?thesis using that by (auto simp: plain_report_def)
qed

lemma dump_start: "dump_report env w ops st g = Inr cs \<Longrightarrow> \<exists>cs'. cs = C_header ''meta'' # cs'"
  by (auto simp: dump_report_def show_meta_def in_header_def bindE_Inr_iff)

lemma example_tty:
  "\<exists>tcs. show_tty_attrs (w_tcgetattr example_world) (w_winsize example_world) example_ops (example_glob args) =
     Inr (u_tty_fd (user (example_glob args)), tcs)"
  by (simp add: part_eval show_tty_attrs_def)

lemma ascii_written:
  assumes "ascii t"
  obtains str where "wcs example_env t = Some str" "length str = length t"
  using assms that by (auto simp: example_env_sel ascii_wcs_def ascii_def)

text \<open>All that a run of the dump needs, in each of the formats but the crumbs.\<close>

lemma example_ready:
  assumes "fmt \<noteq> OUTPUT_FORMAT_CRUMB" "args = [] \<or> args = [''--format=json'']"
  obtains ms cs tcs where "init example_env example_world example_ops (mstate0 new_doc ''/procenv'' args) = Inr ms"
    "dump_report example_env example_world example_ops ((out ms)\<lparr>output_format := fmt\<rparr>) (glob ms) = Inr cs"
    "show_tty_attrs (w_tcgetattr example_world) (w_winsize example_world) example_ops (glob ms) =
       Inr (u_tty_fd (user (glob ms)), tcs)"
    "members cs" "length cs \<le> 7200" "list_all (plain_call example_env) cs"
proof -
  obtain ms where ms: "init example_env example_world example_ops (mstate0 new_doc ''/procenv'' args) = Inr ms"
    "glob ms = example_glob args" using example_init by blast
  let ?st = "(out ms)\<lparr>output_format := fmt\<rparr>"
  obtain cs where cs: "dump_report example_env example_world example_ops ?st (glob ms) = Inr cs" "length cs \<le> 7200"
    "list_all (plain_call example_env) cs"
    using example_dump [of ?st args] ms(2) assms by auto
  have "members cs"
    by (rule linux_driver.dump_complete [OF cs(1) [unfolded example_ops_def]]) (simp add: example_world_def)
  then show ?thesis using that [OF ms(1) cs(1) _ _ cs(2,3)] example_tty [of args] ms(2) by auto
qed

lemma example_io_ok: "0 \<le> fputs_ret example_io d str"
  by (simp add: example_io_def)

lemma example_plain_world: "plain_environment example_world" "q_getifaddrs (w_net example_world) \<noteq> None"
  by (simp_all add: plain_environment_def example_world_def)

lemma example_memory:
  "n \<le> 2000000000 \<Longrightarrow> fits example_env n" "n \<le> 2000000000 \<Longrightarrow> alloc_ok example_env n"
  by (simp_all add: fits_def alloc_ok_def example_env_sel sizeof_wchar_def)

section \<open>A small document\<close>

definition example_document :: string where
  "example_document = unlines [''{'', ''  \"version\" : {'', ''    \"name\" : \"p\",'',
    ''    \"version\" : \"1\",'', ''    \"author\" : \"James O. D. Hunt <jamesodhunt@gmail.com>\"'', ''  }'', ''}'']"

lemma replicate_4: "replicate 4 x = [x, x, x, x]"
  by (simp add: numeral_eq_Suc)

lemma example_json: "json_text example_env start_layout (C_header ''version'' # [C_entry ''name'' ''%s'' [PStr ''p''],
        C_entry ''version'' ''%s'' [PStr ''1''],
        C_entry ''author'' ''%s'' [PStr ''James O. D. Hunt <jamesodhunt@gmail.com>'']] @ [C_footer]) @ [NL]
  = L example_document"
  apply (simp add: json_text_def tree_of_def)
  apply (simp add: example_simps example_env_sel gap_def pad_def level_def start_layout_def blank_empty_def
      separator_def open_text_def close_text_def entry_text_def translate_char_def escape_char_def L_def example_document_def
   unlines_def replicate_4)
  done

end
