(* ===== verification/Bsd.thy ===== *)
theory Bsd
  imports Drivers
begin

text \<open>
  The drivers for FreeBSD, OpenBSD, NetBSD and Minix (\<^verbatim>\<open>platform/freebsd\<close>, \<^verbatim>\<open>platform/openbsd\<close>,
  \<^verbatim>\<open>platform/netbsd\<close>, \<^verbatim>\<open>platform/minix\<close>). The first three read the table of processes through \<^verbatim>\<open>kvm\<close>; its answers, and those of the other libraries, are the
  fields of \<open>bsd_queries\<close>. What the drivers print of the ancestors of a process is compared with the chain
  of parents in the table, \<open>lineage\<close>.
\<close>

unbundle bit_operations_syntax

section \<open>What the system answers\<close>

text \<open>
  An entry of the table of processes: \<^verbatim>\<open>struct kinfo_proc\<close>, or \<^verbatim>\<open>struct kinfo_proc2\<close> on NetBSD, whose
  members have the prefix \<^verbatim>\<open>p_\<close>.
\<close>

record kinfo_proc =
  ki_pid :: int
  ki_ppid :: int
  ki_comm :: string
  ki_flag :: "64 word"
  ki_oncpu :: nat

text \<open>
  \<open>bq_procs\<close> is the table of all processes, \<open>bq_proc\<close> the entry for one process, \<open>None\<close> for \<^verbatim>\<open>NULL\<close>;
  \<open>bq_cap_rights\<close> the rights of a file descriptor by the name of the right; \<open>bq_version\<close> the value of
  \<^verbatim>\<open>__FreeBSD__\<close>; \<open>bq_swapped\<close> and \<open>bq_swapped_opts\<close> what the compiler makes of the
  entries of the tables for OpenBSD and Minix whose members are in the wrong order.
\<close>

record bsd_queries =
  bq_generic :: generic_queries
  bq_const :: "string \<Rightarrow> int"
  bq_kvm_open :: bool
  bq_procs :: "kinfo_proc list option"
  bq_proc :: "int \<Rightarrow> kinfo_proc option"
  bq_kvm_close :: bool
  bq_getpid :: int
  bq_mounts :: "statfs list"
  bq_cpuset_create :: bool
  bq_affinity :: "(nat \<Rightarrow> bool) option"
  bq_cap_mode :: bool
  bq_cap_rights :: "int \<Rightarrow> (string \<Rightarrow> bool) option"
  bq_version :: nat
  bq_swapped :: "string \<times> 32 word"
  bq_swapped_opts :: procenv_map64

text \<open>Every use of \<^verbatim>\<open>kvm\<close>: open, query, use the result, close.\<close>

definition with_kvm :: "bsd_queries \<Rightarrow> 'a option \<Rightarrow> ('a \<Rightarrow> 'b res) \<Rightarrow> 'b res" where
  "with_kvm q answer f =
     guardE (bq_kvm_open q) (Die ''unable to open kvm'')
     (case answer of
        None \<Rightarrow> Inl (Die ''failed to get process info'')
      | Some x \<Rightarrow> bindE (f x) (\<lambda>y. guardE (bq_kvm_close q) (Die ''failed to close kvm'') (Inr y)))"

definition option_map64 :: "(string \<Rightarrow> int) \<Rightarrow> (string \<times> string) list \<Rightarrow> procenv_map64" where
  "option_map64 cval opts = map (\<lambda>(name, c). (name, word_of_int (cval c))) opts"

definition bsd_if_flags :: "string list" where
  "bsd_if_flags = [''IFF_UP'', ''IFF_BROADCAST'', ''IFF_DEBUG'', ''IFF_LOOPBACK'', ''IFF_POINTOPOINT'', ''IFF_RUNNING'', ''IFF_NOARP'',
     ''IFF_PROMISC'', ''IFF_ALLMULTI'', ''IFF_SIMPLEX'', ''IFF_MULTICAST'']"

section \<open>FreeBSD\<close>

definition signal_map_freebsd :: "(string \<Rightarrow> int) \<Rightarrow> procenv_map" where
  "signal_map_freebsd cval =
     const_map cval [''SIGABRT'', ''SIGALRM'', ''SIGBUS''] @ sigchld_entry cval @
     const_map cval [''SIGCONT'', ''SIGFPE'', ''SIGHUP'', ''SIGILL'', ''SIGINT'', ''SIGKILL'', ''SIGPIPE'', ''SIGQUIT'', ''SIGSEGV'',
       ''SIGSTOP'', ''SIGTERM'', ''SIGTRAP'', ''SIGTSTP'', ''SIGTTIN'', ''SIGTTOU'', ''SIGUSR1'', ''SIGUSR2'', ''SIGIO'',
       ''SIGPROF'', ''SIGSYS'', ''SIGURG'', ''SIGVTALRM'', ''SIGWINCH'', ''SIGXCPU'', ''SIGXFSZ'', ''SIGEMT'', ''SIGINFO'', ''SIGTHR'',
       ''SIGLIBRT'']"

definition mntopt_map_freebsd :: "(string \<Rightarrow> bool) \<Rightarrow> (string \<Rightarrow> int) \<Rightarrow> procenv_map64" where
  "mntopt_map_freebsd defd_macro cval = option_map64 cval
     ([(''acls'', ''MNT_ACLS''), (''asynchronous'', ''MNT_ASYNC''), (''NFS-exported'', ''MNT_EXPORTED''),
       (''gjournal'', ''MNT_GJOURNAL''), (''local'', ''MNT_LOCAL''), (''multilabel'', ''MNT_MULTILABEL''),
       (''nfsv4acls'', ''MNT_NFS4ACLS''), (''noatime'', ''MNT_NOATIME''), (''noclusterr'', ''MNT_NOCLUSTERR''),
       (''noclusterw'', ''MNT_NOCLUSTERW''), (''noexec'', ''MNT_NOEXEC''), (''nosuid'', ''MNT_NOSUID''),
       (''nosymfollow'', ''MNT_NOSYMFOLLOW''), (''with-quotas'', ''MNT_QUOTA''), (''read-only'', ''MNT_RDONLY''),
       (''soft-updates'', ''MNT_SOFTDEP''), (''suiddir'', ''MNT_SUIDDIR'')] @
      (if defd_macro ''MNT_SUJ'' then [(''journaled-soft-updates'', ''MNT_SUJ'')] else []) @
      [(''synchronous'', ''MNT_SYNCHRONOUS''), (''union'', ''MNT_UNION'')])"

definition if_flag_map_freebsd :: "(string \<Rightarrow> int) \<Rightarrow> procenv_map" where
  "if_flag_map_freebsd cval = const_map cval bsd_if_flags"

definition get_user_misc_freebsd :: "bsd_queries \<Rightarrow> procenv_user \<Rightarrow> procenv_misc \<Rightarrow> (string \<times> procenv_misc) res" where
  "get_user_misc_freebsd q u m =
     with_kvm q (bq_proc q (pid u)) (\<lambda>p.
       Inr (ki_comm p, m\<lparr>in_jail := ki_flag p AND word_of_int (bq_const q ''P_JAILED'') \<noteq> 0\<rparr>))"

text \<open>The names of the rights in the order of the code; most are not known before version 10.\<close>

definition capsicum_names :: "nat \<Rightarrow> (string \<Rightarrow> bool) \<Rightarrow> string list" where
  "capsicum_names version defd_macro =
     (let new = (\<lambda>names. if 9 < version then names else []) in
      [''CAP_ACCEPT'', ''CAP_ACL_CHECK'', ''CAP_ACL_DELETE'', ''CAP_ACL_GET'', ''CAP_ACL_SET'', ''CAP_BIND''] @ new
      [''CAP_BINDAT'', ''CAP_CHFLAGSAT''] @ [''CAP_CONNECT''] @ new [''CAP_CONNECTAT''] @ [''CAP_CREATE''] @ new [''CAP_EVENT'']
      @ [''CAP_EXTATTR_DELETE'', ''CAP_EXTATTR_GET'', ''CAP_EXTATTR_LIST'', ''CAP_EXTATTR_SET'', ''CAP_FCHDIR'',
      ''CAP_FCHFLAGS'', ''CAP_FCHMOD''] @ new [''CAP_FCHMODAT''] @ [''CAP_FCHOWN''] @ new [''CAP_FCHOWNAT''] @ [''CAP_FCNTL'',
      ''CAP_FEXECVE'', ''CAP_FLOCK'', ''CAP_FPATHCONF'', ''CAP_FSCK'', ''CAP_FSTAT''] @ new [''CAP_FSTATAT''] @
      [''CAP_FSTATFS'', ''CAP_FSYNC'', ''CAP_FTRUNCATE'', ''CAP_FUTIMES''] @ new [''CAP_FUTIMESAT''] @ [''CAP_GETPEERNAME'',
      ''CAP_GETSOCKNAME'', ''CAP_GETSOCKOPT'', ''CAP_IOCTL''] @ new [''CAP_KQUEUE'', ''CAP_KQUEUE_CHANGE'',
      ''CAP_KQUEUE_EVENT''] @ new (filter defd_macro [''CAP_LINKAT'', ''CAP_LINKAT_SOURCE'', ''CAP_LINKAT_TARGET'']) @
      [''CAP_LISTEN'', ''CAP_LOOKUP'', ''CAP_MAC_GET'', ''CAP_MAC_SET''] @ new [''CAP_MKDIRAT'', ''CAP_MKFIFOAT'',
      ''CAP_MKNODAT'', ''CAP_MMAP'', ''CAP_MMAP_R'', ''CAP_MMAP_RW'', ''CAP_MMAP_RWX'', ''CAP_MMAP_RX'', ''CAP_MMAP_W'',
      ''CAP_MMAP_WX'', ''CAP_MMAP_X''] @ [''CAP_PDGETPID'', ''CAP_PDKILL'', ''CAP_PDWAIT'', ''CAP_PEELOFF'', ''CAP_POLL_EVENT'']
      @ new [''CAP_PREAD'', ''CAP_PWRITE''] @ [''CAP_READ''] @ new [''CAP_RECV''] @ new (filter defd_macro [''CAP_RENAMEAT'',
      ''CAP_RENAMEAT_SOURCE'', ''CAP_RENAMEAT_TARGET'']) @ [''CAP_SEEK''] @ new [''CAP_SEEK_TELL''] @ [''CAP_SEM_GETVALUE'',
      ''CAP_SEM_POST'', ''CAP_SEM_WAIT''] @ new [''CAP_SEND''] @ [''CAP_SETSOCKOPT'', ''CAP_SHUTDOWN''] @ new
      [''CAP_SOCK_CLIENT'', ''CAP_SOCK_SERVER'', ''CAP_SYMLINKAT''] @ [''CAP_TTYHOOK''] @ new [''CAP_UNLINKAT''] @
      [''CAP_WRITE''])"

definition show_fd_capabilities_freebsd :: "bsd_queries \<Rightarrow> int \<Rightarrow> report" where
  "show_fd_capabilities_freebsd q fd =
     (if \<not> bq_cap_mode q then Inr []
      else case bq_cap_rights q fd of
        None \<Rightarrow> Inr []
      | Some rights \<Rightarrow>
          Inr (map (\<lambda>c. C_entry c ''%s'' [yes_no (rights c)]) (capsicum_names (bq_version q) (gq_defd (bq_generic q)))))"

definition show_mounts_freebsd :: "cenv \<Rightarrow> bsd_queries \<Rightarrow> ShowMountType \<Rightarrow> report" where
  "show_mounts_freebsd env q what =
     show_mounts_generic_bsd env (bq_generic q) (bq_mounts q) what
       (mntopt_map_freebsd (gq_defd (bq_generic q)) (bq_const q))"

definition show_cpu_freebsd :: "bsd_queries \<Rightarrow> globals \<Rightarrow> report" where
  "show_cpu_freebsd q g =
     guardE (0 < pid (user g)) AssertFail
     (let max = (case gq_sysconf (bq_generic q) ''_SC_NPROCESSORS_ONLN'' of None \<Rightarrow> -1 | Some v \<Rightarrow> v) in
      with_kvm q (bq_proc q (pid (user g))) (\<lambda>p.
        Inr [C_entry ''number'' ''%u of %lu'' [PInt (1 + int (ki_oncpu p)), PInt max]]))"

text \<open>One pass over the table: it goes on behind an entry it has found, looking for the parent.\<close>

fun scan_freebsd :: "cenv \<Rightarrow> int \<Rightarrow> kinfo_proc list \<Rightarrow> bool \<times> int \<times> string option \<Rightarrow> (bool \<times> int \<times> string option) res" where
  "scan_freebsd env self [] st = Inr st"
| "scan_freebsd env self (p # ps) (found, pid_to_find, str) =
     (if ki_pid p = pid_to_find then
        bindE (appendf env str (''%s%d ('' @ quoted_s @ '')'')
                 [PStr (if pid_to_find = self then [] else '', ''), PInt (ki_pid p), PStr (ki_comm p)]) (\<lambda>str'.
        scan_freebsd env self ps (True, ki_ppid p, str'))
      else scan_freebsd env self ps (found, pid_to_find, str))"

partial_function (option) walk_freebsd ::
  "cenv \<Rightarrow> int \<Rightarrow> kinfo_proc list \<Rightarrow> int \<Rightarrow> string option \<Rightarrow> string option res option"
where
  "walk_freebsd env self procs pid_to_find str =
     (case scan_freebsd env self procs (False, pid_to_find, str) of
        Inl e \<Rightarrow> Some (Inl e)
      | Inr (found, pid', str') \<Rightarrow>
          if \<not> found \<or> pid' = 0 then Some (Inr str') else walk_freebsd env self procs pid' str')"

text \<open>A loop that does not end is an error of its own. The string may still be \<^verbatim>\<open>NULL\<close> when it is printed.\<close>

definition finished :: "'a res option \<Rightarrow> 'a res" where
  "finished r = (case r of None \<Rightarrow> Inl Diverges | Some x \<Rightarrow> x)"

definition ancestry_entry :: "string option \<Rightarrow> report" where
  "ancestry_entry str =
     bindE (case str of None \<Rightarrow> Inr None | Some b \<Rightarrow> map_sum id Some (str_at nul b 0)) (\<lambda>s.
     Inr [C_entry ''ancestry'' ''%s'' [str_arg s]])"

definition handle_proc_branch_freebsd :: "cenv \<Rightarrow> bsd_queries \<Rightarrow> report" where
  "handle_proc_branch_freebsd env q =
     bindE (with_kvm q (bq_procs q) (\<lambda>procs.
       finished (walk_freebsd env (bq_getpid q) procs (bq_getpid q) None))) ancestry_entry"

definition get_cpuset_freebsd :: "bsd_queries \<Rightarrow> (nat \<Rightarrow> bool) option res" where
  "get_cpuset_freebsd q = Inr (bq_affinity q)"

definition cpuset_has_cpu_freebsd :: "(nat \<Rightarrow> bool) \<Rightarrow> nat \<Rightarrow> bool" where
  "cpuset_has_cpu_freebsd cs cpu = cs cpu"

definition clock_names_freebsd :: "(string \<Rightarrow> bool) \<Rightarrow> string list" where
  "clock_names_freebsd defd_macro =
     [''CLOCK_REALTIME''] @ filter defd_macro [''CLOCK_REALTIME_COARSE'', ''CLOCK_REALTIME_HR''] @
     [''CLOCK_REALTIME_PRECISE'', ''CLOCK_REALTIME_FAST'', ''CLOCK_MONOTONIC''] @
     filter defd_macro [''CLOCK_MONOTONIC_COARSE'', ''CLOCK_MONOTONIC_RAW''] @
     [''CLOCK_MONOTONIC_PRECISE'', ''CLOCK_MONOTONIC_FAST'', ''CLOCK_UPTIME'', ''CLOCK_UPTIME_PRECISE'', ''CLOCK_UPTIME_FAST'',
      ''CLOCK_VIRTUAL'', ''CLOCK_PROF'']"

definition show_clocks_freebsd :: "generic_queries \<Rightarrow> report" where
  "show_clocks_freebsd q = reports (map (show_clock_res q) (clock_names_freebsd (gq_defd q)))"

definition freebsd_ops :: "cenv \<Rightarrow> bsd_queries \<Rightarrow> string \<Rightarrow> procenv_ops" where
  "freebsd_ops env q src =
     (let gq = bq_generic q in no_ops\<lparr>
     driver_name := ''freebsd'', driver_file := src,
     get_user_misc := Some (get_user_misc_freebsd q),
     get_kernel_bits := Some (get_kernel_bits_generic gq),
     get_cpuset := Some (get_cpuset_freebsd q),
     get_mtu := Some (get_mtu_generic gq),
     get_time := Some (get_time_generic gq),
     cpuset_has_cpu := Some cpuset_has_cpu_freebsd,
     signal_map := signal_map_freebsd (bq_const q),
     if_flag_map := if_flag_map_freebsd (bq_const q),
     ops_show_confstrs := plain_hook (show_confstrs_generic env gq),
     ops_show_cpu := Some (show_cpu_freebsd q),
     ops_show_clocks := plain_hook (show_clocks_freebsd gq),
     ops_show_cpu_affinities :=
       plain_hook (show_cpu_affinities_generic env gq (Some (get_cpuset_freebsd q)) (Some cpuset_has_cpu_freebsd)),
     show_fd_capabilities := Some (show_fd_capabilities_freebsd q),
     ops_show_fds := plain_hook (show_fds_generic env gq (Some (show_fd_capabilities_freebsd q))),
     ops_show_mounts := Some (show_mounts_freebsd env q),
     ops_show_rlimits := plain_hook (show_rlimits_generic gq),
     ops_show_timezone := plain_hook (show_timezone_generic gq),
     ops_show_libs := plain_hook (show_libs_generic gq),
     handle_memory := plain_hook (show_memory_generic gq),
     ops_handle_proc_branch := plain_hook (handle_proc_branch_freebsd env q)\<rparr>)"

section \<open>OpenBSD\<close>

text \<open>The entry for \<^verbatim>\<open>SIGABRT\<close> has its members in the wrong order.\<close>

definition signal_map_openbsd :: "string \<times> 32 word \<Rightarrow> (string \<Rightarrow> int) \<Rightarrow> procenv_map" where
  "signal_map_openbsd abrt cval =
     [abrt] @ const_map cval [''SIGALRM'', ''SIGBUS''] @ sigchld_entry cval @
     const_map cval [''SIGCONT'', ''SIGFPE'', ''SIGHUP'', ''SIGILL'', ''SIGINT'', ''SIGKILL'', ''SIGPIPE'', ''SIGQUIT'', ''SIGSEGV'',
       ''SIGSTOP'', ''SIGTERM'', ''SIGTRAP'', ''SIGTSTP'', ''SIGTTIN'', ''SIGUSR1'', ''SIGUSR2'', ''SIGIO'', ''SIGPROF'', ''SIGSYS'',
       ''SIGURG'', ''SIGVTALRM'', ''SIGWINCH'', ''SIGXCPU'', ''SIGXFSZ'', ''SIGEMT'', ''SIGINFO'', ''SIGTHR'', ''SIGTTOU'']"

definition mntopt_map_openbsd :: "(string \<Rightarrow> bool) \<Rightarrow> (string \<Rightarrow> int) \<Rightarrow> procenv_map64" where
  "mntopt_map_openbsd defd_macro cval = option_map64 cval
     ([(''asynchronous'', ''MNT_ASYNC''), (''NFS-exported'', ''MNT_EXPORTED''), (''local'', ''MNT_LOCAL''),
       (''noatime'', ''MNT_NOATIME''), (''noexec'', ''MNT_NOEXEC''), (''nosuid'', ''MNT_NOSUID''), (''with-quotas'', ''MNT_QUOTA''),
       (''read-only'', ''MNT_RDONLY''), (''synchronous'', ''MNT_SYNCHRONOUS'')] @
      (if defd_macro ''MNT_SUJ'' then [(''journaled-soft-updates'', ''MNT_SUJ'')] else []) @
      [(''synchronous'', ''MNT_SYNCHRONOUS'')])"

definition if_flag_map_openbsd :: "(string \<Rightarrow> int) \<Rightarrow> procenv_map" where
  "if_flag_map_openbsd cval = const_map cval bsd_if_flags"

definition show_mounts_openbsd :: "cenv \<Rightarrow> bsd_queries \<Rightarrow> ShowMountType \<Rightarrow> report" where
  "show_mounts_openbsd env q what =
     show_mounts_generic_bsd env (bq_generic q) (bq_mounts q) what
       (mntopt_map_openbsd (gq_defd (bq_generic q)) (bq_const q))"

text \<open>
  The loop that OpenBSD, NetBSD and Darwin have: \<open>at_end\<close> tells the process where it ends, \<open>put\<close> appends an
  entry, with a comma behind it unless it is that one. The first component of the result is \<^verbatim>\<open>done\<close>.
\<close>

type_synonym put = "bool \<Rightarrow> kinfo_proc \<Rightarrow> string option \<Rightarrow> string option res"

fun scan_procs :: "(int \<Rightarrow> bool) \<Rightarrow> put \<Rightarrow> kinfo_proc list \<Rightarrow> int \<times> string option \<Rightarrow> (bool \<times> int \<times> string option) res" where
  "scan_procs at_end put [] (current, str) = Inr (False, current, str)"
| "scan_procs at_end put (p # ps) (current, str) =
     (if ki_pid p = current then
        (if at_end current then bindE (put True p str) (\<lambda>str'. Inr (True, current, str'))
         else bindE (put False p str) (\<lambda>str'. scan_procs at_end put ps (ki_ppid p, str')))
      else scan_procs at_end put ps (current, str))"

partial_function (option) proc_walk ::
  "(int \<Rightarrow> bool) \<Rightarrow> put \<Rightarrow> kinfo_proc list \<Rightarrow> int \<Rightarrow> string option \<Rightarrow> string option res option"
where
  "proc_walk at_end put procs current str =
     (case scan_procs at_end put procs (current, str) of
        Inl e \<Rightarrow> Some (Inl e)
      | Inr (dn, current', str') \<Rightarrow> if dn then Some (Inr str') else proc_walk at_end put procs current' str')"

text \<open>The first loop: the lowest number in the table, whose first entry is read in any case.\<close>

fun lowest_pid :: "int \<Rightarrow> kinfo_proc list \<Rightarrow> int" where
  "lowest_pid m [] = m"
| "lowest_pid m (p # ps) = lowest_pid (if ki_pid p < m then ki_pid p else m) ps"

definition ultimate_parent :: "kinfo_proc list \<Rightarrow> int res" where
  "ultimate_parent procs = (case procs of [] \<Rightarrow> Inl OutOfBounds | p # ps \<Rightarrow> Inr (lowest_pid (ki_pid p) ps))"

definition put_openbsd :: "cenv \<Rightarrow> put" where
  "put_openbsd env lst p str =
     appendf env str (''%d ('' @ quoted_s @ (if lst then '')'' else ''), '')) [PInt (ki_pid p), PStr (ki_comm p)]"

definition handle_proc_branch_openbsd :: "cenv \<Rightarrow> bsd_queries \<Rightarrow> report" where
  "handle_proc_branch_openbsd env q =
     bindE (with_kvm q (bq_procs q) (\<lambda>procs.
       bindE (ultimate_parent procs) (\<lambda>ultimate.
       finished (proc_walk (\<lambda>current. ultimate = 1 \<and> current = ultimate) (put_openbsd env) procs (bq_getpid q) None))))
     ancestry_entry"

definition openbsd_ops :: "cenv \<Rightarrow> bsd_queries \<Rightarrow> string \<Rightarrow> procenv_ops" where
  "openbsd_ops env q src =
     (let gq = bq_generic q in no_ops\<lparr>
     driver_name := ''openbsd'', driver_file := src,
     get_kernel_bits := Some (get_kernel_bits_generic gq),
     get_mtu := Some (get_mtu_generic gq),
     get_time := Some (get_time_generic gq),
     signal_map := signal_map_openbsd (bq_swapped q) (bq_const q),
     if_flag_map := if_flag_map_openbsd (bq_const q),
     ops_show_clocks := plain_hook (show_clocks_generic gq),
     ops_show_confstrs := plain_hook (show_confstrs_generic env gq),
     ops_show_cpu_affinities := plain_hook (show_cpu_affinities_generic env gq None None),
     ops_show_fds := plain_hook (show_fds_generic env gq None),
     ops_show_mounts := Some (show_mounts_openbsd env q),
     ops_show_rlimits := plain_hook (show_rlimits_generic gq),
     ops_show_timezone := plain_hook (show_timezone_generic gq),
     ops_show_libs := plain_hook (show_libs_generic gq),
     ops_handle_proc_branch := plain_hook (handle_proc_branch_openbsd env q)\<rparr>)"

section \<open>NetBSD\<close>

definition signal_map_netbsd :: "(string \<Rightarrow> int) \<Rightarrow> procenv_map" where
  "signal_map_netbsd cval =
     const_map cval [''SIGABRT'', ''SIGALRM'', ''SIGBUS''] @ sigchld_entry cval @
     const_map cval [''SIGCONT'', ''SIGFPE'', ''SIGHUP'', ''SIGILL'', ''SIGINT'', ''SIGKILL'', ''SIGPIPE'', ''SIGQUIT'', ''SIGSEGV'',
       ''SIGSTOP'', ''SIGTERM'', ''SIGTRAP'', ''SIGTSTP'', ''SIGTTIN'', ''SIGUSR1'', ''SIGUSR2'', ''SIGIO'', ''SIGPROF'', ''SIGSYS'',
       ''SIGURG'', ''SIGVTALRM'', ''SIGWINCH'', ''SIGXCPU'', ''SIGXFSZ'', ''SIGEMT'', ''SIGINFO'', ''SIGPWR'']"

definition mntopt_map_netbsd :: "(string \<Rightarrow> bool) \<Rightarrow> (string \<Rightarrow> int) \<Rightarrow> procenv_map64" where
  "mntopt_map_netbsd defd_macro cval = option_map64 cval
     ([(''asynchronous'', ''MNT_ASYNC''), (''NFS-exported'', ''MNT_EXPORTED''), (''local'', ''MNT_LOCAL''),
       (''noatime'', ''MNT_NOATIME''), (''noexec'', ''MNT_NOEXEC''), (''nosuid'', ''MNT_NOSUID''), (''with-quotas'', ''MNT_QUOTA''),
       (''read-only'', ''MNT_RDONLY''), (''soft-updates'', ''MNT_SOFTDEP'')] @
      (if defd_macro ''MNT_SUJ'' then [(''journaled-soft-updates'', ''MNT_SUJ'')] else []) @
      [(''synchronous'', ''MNT_SYNCHRONOUS''), (''union'', ''MNT_UNION'')])"

definition if_flag_map_netbsd :: "(string \<Rightarrow> int) \<Rightarrow> procenv_map" where
  "if_flag_map_netbsd cval = const_map cval bsd_if_flags"

definition show_mounts_netbsd :: "cenv \<Rightarrow> bsd_queries \<Rightarrow> ShowMountType \<Rightarrow> report" where
  "show_mounts_netbsd env q what =
     show_mounts_generic_bsd env (bq_generic q) (bq_mounts q) what
       (mntopt_map_netbsd (gq_defd (bq_generic q)) (bq_const q))"

definition put_netbsd :: "cenv \<Rightarrow> int \<Rightarrow> put" where
  "put_netbsd env maxcomlen lst p str =
     appendf env str (''%d ('' @ [CHR 0x27] @ ''%*s'' @ [CHR 0x27] @ (if lst then '')'' else ''), ''))
       [PInt (ki_pid p), PInt maxcomlen, PStr (ki_comm p)]"

definition handle_proc_branch_netbsd :: "cenv \<Rightarrow> bsd_queries \<Rightarrow> report" where
  "handle_proc_branch_netbsd env q =
     bindE (with_kvm q (bq_procs q) (\<lambda>procs.
       bindE (ultimate_parent procs) (\<lambda>ultimate.
       finished (proc_walk (\<lambda>current. ultimate = 0 \<and> current = ultimate) (put_netbsd env (bq_const q ''KI_MAXCOMLEN''))
         procs (bq_getpid q) None))))
     ancestry_entry"

definition get_cpuset_netbsd :: "bsd_queries \<Rightarrow> (nat \<Rightarrow> bool) option res" where
  "get_cpuset_netbsd q = Inr (if bq_cpuset_create q then bq_affinity q else None)"

definition cpuset_has_cpu_netbsd :: "(nat \<Rightarrow> bool) \<Rightarrow> nat \<Rightarrow> bool" where
  "cpuset_has_cpu_netbsd cs cpu = cs cpu"

definition netbsd_ops :: "cenv \<Rightarrow> bsd_queries \<Rightarrow> string \<Rightarrow> procenv_ops" where
  "netbsd_ops env q src =
     (let gq = bq_generic q in no_ops\<lparr>
     driver_name := ''netbsd'', driver_file := src,
     get_kernel_bits := Some (get_kernel_bits_generic gq),
     get_mtu := Some (get_mtu_generic gq),
     get_time := Some (get_time_generic gq),
     get_cpuset := Some (get_cpuset_netbsd q),
     cpuset_has_cpu := Some cpuset_has_cpu_netbsd,
     signal_map := signal_map_netbsd (bq_const q),
     if_flag_map := if_flag_map_netbsd (bq_const q),
     ops_show_clocks := plain_hook (show_clocks_generic gq),
     ops_show_confstrs := plain_hook (show_confstrs_generic env gq),
     ops_show_cpu_affinities :=
       plain_hook (show_cpu_affinities_generic env gq (Some (get_cpuset_netbsd q)) (Some cpuset_has_cpu_netbsd)),
     ops_show_fds := plain_hook (show_fds_generic env gq None),
     ops_show_mounts := Some (show_mounts_netbsd env q),
     ops_show_rlimits := plain_hook (show_rlimits_generic gq),
     ops_show_timezone := plain_hook (show_timezone_generic gq),
     ops_show_libs := plain_hook (show_libs_generic gq),
     ops_handle_proc_branch := plain_hook (handle_proc_branch_netbsd env q)\<rparr>)"

section \<open>Minix\<close>

text \<open>The entry for \<^verbatim>\<open>SIGCHLD\<close> and all the mount options have their members in the wrong order.\<close>

definition signal_map_minix :: "string \<times> 32 word \<Rightarrow> (string \<Rightarrow> int) \<Rightarrow> procenv_map" where
  "signal_map_minix sigchld cval =
     const_map cval [''SIGABRT'', ''SIGALRM'', ''SIGBUS''] @ [sigchld] @
     const_map cval [''SIGCONT'', ''SIGFPE'', ''SIGHUP'', ''SIGILL'', ''SIGINT'', ''SIGKILL'', ''SIGPIPE'', ''SIGQUIT'', ''SIGSEGV'',
       ''SIGSTOP'', ''SIGTERM'', ''SIGTRAP'', ''SIGTSTP'', ''SIGTTIN'', ''SIGTTOU'', ''SIGUSR1'', ''SIGUSR2'', ''SIGIO'', ''SIGPROF'', ''SIGSYS'',
       ''SIGURG'', ''SIGVTALRM'', ''SIGWINCH'', ''SIGXCPU'', ''SIGXFSZ'', ''SIGEMT'', ''SIGINFO'', ''SIGKMEM'', ''SIGKMESS'', ''SIGKSIG'',
       ''SIGKSIGSM'', ''SIGPWR'', ''SIGSNDELAY'']"

definition show_mounts_minix :: "cenv \<Rightarrow> bsd_queries \<Rightarrow> ShowMountType \<Rightarrow> report" where
  "show_mounts_minix env q what =
     show_mounts_generic_bsd env (bq_generic q) (bq_mounts q) what (bq_swapped_opts q)"

definition handle_proc_branch_minix :: report where
  "handle_proc_branch_minix = Inr []"

definition minix_ops :: "cenv \<Rightarrow> bsd_queries \<Rightarrow> string \<Rightarrow> procenv_ops" where
  "minix_ops env q src =
     (let gq = bq_generic q in no_ops\<lparr>
     driver_name := ''minix'', driver_file := src,
     get_kernel_bits := Some (get_kernel_bits_generic gq),
     get_time := Some (get_time_generic gq),
     signal_map := signal_map_minix (bq_swapped q) (bq_const q),
     ops_handle_proc_branch := plain_hook handle_proc_branch_minix,
     ops_show_clocks := plain_hook (show_clocks_generic gq),
     ops_show_fds := plain_hook (show_fds_generic env gq None),
     ops_show_mounts := Some (show_mounts_minix env q),
     ops_show_rlimits := plain_hook (show_rlimits_generic gq)\<rparr>)"

section \<open>The contracts\<close>

lemma with_kvm_complete [complete_intros]:
  "(\<And>x. members_report (f x)) \<Longrightarrow> members_report (with_kvm q answer f)"
  unfolding with_kvm_def by (intro complete_intros) (auto simp: members_report_def)

lemma bsd_members [complete_intros]:
  "members_report (show_fd_capabilities_freebsd q fd)" "members_report (show_cpu_freebsd q g)"
  "members_report (show_clocks_freebsd gq)" "members_report (ancestry_entry str)"
  unfolding show_fd_capabilities_freebsd_def show_cpu_freebsd_def show_clocks_freebsd_def ancestry_entry_def Let_def
  by (intro complete_intros; simp add: flat_calls members_entries [unfolded members_def])+

lemma bsd_mounts_members [complete_intros]:
  "members_report (show_mounts_freebsd env q what)" "members_report (show_mounts_openbsd env q what)"
  "members_report (show_mounts_netbsd env q what)" "members_report (show_mounts_minix env q what)"
  unfolding show_mounts_freebsd_def show_mounts_openbsd_def show_mounts_netbsd_def show_mounts_minix_def
  by (intro complete_intros)+

lemma bsd_ancestry_members [complete_intros]:
  "members_report (handle_proc_branch_freebsd env q)" "members_report (handle_proc_branch_openbsd env q)"
  "members_report (handle_proc_branch_netbsd env q)" "members_report handle_proc_branch_minix"
  unfolding handle_proc_branch_freebsd_def handle_proc_branch_openbsd_def handle_proc_branch_netbsd_def handle_proc_branch_minix_def
  by (intro complete_intros; simp add: flat_calls)+

interpretation freebsd_driver: platform_driver "freebsd_ops env q src" for env q src
  by unfold_locales (auto simp: freebsd_ops_def no_ops_def Let_def intro!: complete_intros)

interpretation openbsd_driver: platform_driver "openbsd_ops env q src" for env q src
  by unfold_locales (auto simp: openbsd_ops_def no_ops_def Let_def intro!: complete_intros)

interpretation netbsd_driver: platform_driver "netbsd_ops env q src" for env q src
  by unfold_locales (auto simp: netbsd_ops_def no_ops_def Let_def intro!: complete_intros)

interpretation minix_driver: platform_driver "minix_ops env q src" for env q src
  by unfold_locales (auto simp: minix_ops_def no_ops_def Let_def intro!: complete_intros)

end
