(* ===== verification/Ancestry.thy ===== *)
theory Ancestry
  imports Bsd
begin

text \<open>
  What the BSD drivers print of the ancestors of a process: the chain of parents in the table of processes,
  and when the loops over the table end.
\<close>

section \<open>The chain of parents\<close>

text \<open>
  \<open>lineage procs at_end num ps b\<close>: \<open>ps\<close> are the entries from \<open>num\<close> upwards, each the parent of the one before,
  up to the one where the loop ends (\<open>b\<close>) or up to one whose parent is not in the table.
\<close>

inductive lineage :: "kinfo_proc list \<Rightarrow> (int \<Rightarrow> bool) \<Rightarrow> int \<Rightarrow> kinfo_proc list \<Rightarrow> bool \<Rightarrow> bool"
  for procs at_end
where
  gone: "num \<notin> ki_pid ` set procs \<Longrightarrow> lineage procs at_end num [] False"
| found: "p \<in> set procs \<Longrightarrow> at_end (ki_pid p) \<Longrightarrow> lineage procs at_end (ki_pid p) [p] True"
| parent: "p \<in> set procs \<Longrightarrow> \<not> at_end (ki_pid p) \<Longrightarrow> lineage procs at_end (ki_ppid p) ps b \<Longrightarrow>
    lineage procs at_end (ki_pid p) (p # ps) b"

inductive_cases lineageE: "lineage procs at_end num ps b"

text \<open>What the loops append for a chain.\<close>

fun put_lineage :: "put \<Rightarrow> bool \<Rightarrow> kinfo_proc list \<Rightarrow> string option \<Rightarrow> string option res" where
  "put_lineage put b [] str = Inr str"
| "put_lineage put b (p # ps) str =
     (if b \<and> ps = [] then put True p str else bindE (put False p str) (put_lineage put b ps))"

lemma lineage_table: "lineage procs at_end num ps b \<Longrightarrow> set ps \<subseteq> set procs"
  by (induction rule: lineage.induct) auto

lemma lineage_Nil: "lineage procs at_end num [] b \<longleftrightarrow> num \<notin> ki_pid ` set procs \<and> \<not> b"
  by (auto elim: lineage.cases intro: lineage.intros)

lemma lineage_True: "lineage procs at_end num ps True \<Longrightarrow> ps \<noteq> []"
  by (auto elim: lineage.cases)

lemma lineage_step:
  assumes "distinct (map ki_pid procs)" "p \<in> set procs" "lineage procs at_end (ki_pid p) ps b"
  shows "if at_end (ki_pid p) then ps = [p] \<and> b else \<exists>qs. ps = p # qs \<and> lineage procs at_end (ki_ppid p) qs b"
  using assms(3)
proof (cases rule: lineage.cases)
  case (found p')
  then have "p' = p" using assms(1,2) by (metis distinct_map inj_onD)
  then show ?thesis using found by auto
next
  case (parent p')
  then have "p' = p" using assms(1,2) by (metis distinct_map inj_onD)
  then show ?thesis using parent by auto
qed (use assms(2) in auto)

text \<open>One pass appends a part of the chain and leaves the rest; a pass that meets the process makes progress.\<close>

lemma scan_lineage:
  assumes "distinct (map ki_pid procs)" "set ps' \<subseteq> set procs" "lineage procs at_end current ps b"
  shows "case scan_procs at_end put ps' (current, str) of
      Inl e \<Rightarrow> put_lineage put b ps str = Inl e
    | Inr (dn, current', str') \<Rightarrow>
        if dn then b \<and> put_lineage put b ps str = Inr str'
        else \<exists>rs. lineage procs at_end current' rs b \<and> put_lineage put b ps str = put_lineage put b rs str' \<and>
          (if current \<in> ki_pid ` set ps' then length rs < length ps else rs = ps \<and> current' = current \<and> str' = str)"
  using assms(2,3)
proof (induction ps' arbitrary: current ps str)
  case (Cons p ps')
  show ?case
  proof (cases "ki_pid p = current")
    case False
    then have e: "scan_procs at_end put (p # ps') (current, str) = scan_procs at_end put ps' (current, str)"
      "current \<in> ki_pid ` set (p # ps') \<longleftrightarrow> current \<in> ki_pid ` set ps'" by auto
    show ?thesis unfolding e by (rule Cons.IH) (use Cons.prems in auto)
  next
    case True
    have p: "p \<in> set procs" "lineage procs at_end (ki_pid p) ps b" using Cons.prems True by auto
    note s = lineage_step [OF assms(1) p]
    show ?thesis
    proof (cases "at_end current")
      case e: True
      then have "ps = [p]" "b" using s True by auto
      then show ?thesis using e True by (cases "put True p str") auto
    next
      case False
      then obtain qs where q: "ps = p # qs" "lineage procs at_end (ki_ppid p) qs b" using s True by auto
      have n: "put_lineage put b ps str = bindE (put False p str) (put_lineage put b qs)"
        using q lineage_True [of procs at_end "ki_ppid p" qs] by (cases b) auto
      show ?thesis
      proof (cases "put False p str")
        case (Inl e)
        then show ?thesis using n False True by simp
      next
        case (Inr str1)
        have "set ps' \<subseteq> set procs" using Cons.prems(1) by simp
        note IH = Cons.IH [OF this q(2), of str1]
        show ?thesis using IH False True Inr n q(1)
          by (auto split: sum.splits prod.splits if_splits)
      qed
    qed
  qed
qed auto

lemma proc_walk_found:
  assumes "distinct (map ki_pid procs)" "lineage procs at_end current ps True"
  shows "proc_walk at_end put procs current str = Some (put_lineage put True ps str)"
  using assms(2)
proof (induction "length ps" arbitrary: current ps str rule: less_induct)
  case less
  have m: "current \<in> ki_pid ` set procs" using less.prems by (auto elim: lineage.cases)
  note s = scan_lineage [OF assms(1) subset_refl less.prems, of put str]
  show ?case
    using s m less.hyps by (subst proc_walk.simps) (auto split: sum.splits prod.splits if_splits)
qed

lemma scan_absent: "current \<notin> ki_pid ` set ps \<Longrightarrow> scan_procs at_end put ps (current, str) = Inr (False, current, str)"
  by (induction ps) auto

lemma proc_walk_stuck:
  assumes "current \<notin> ki_pid ` set procs"
  shows "proc_walk at_end put procs current str = None"
proof -
  have "current \<in> ki_pid ` set procs" if "proc_walk at_end put procs current str = Some y" for y
    using _ that
  proof (rule proc_walk.raw_induct [where P = "\<lambda>at_end put procs current str y. current \<in> ki_pid ` set procs"])
    fix f at_end put procs current str y
    assume IH: "\<And>at_end put procs current str y. f at_end put procs current str = Some y \<Longrightarrow> current \<in> ki_pid ` set procs"
      and y: "(case scan_procs at_end put procs (current, str) of Inl e \<Rightarrow> Some (Inl e)
        | Inr (dn, current', str') \<Rightarrow> if dn then Some (Inr str') else f at_end put procs current' str') = Some y"
    show "current \<in> ki_pid ` set procs"
    proof (rule ccontr)
      assume "current \<notin> ki_pid ` set procs"
      with y IH show False by (simp add: scan_absent)
    qed
  qed
  then show ?thesis using assms by (cases "proc_walk at_end put procs current str") auto
qed

text \<open>The end of the chain decides: the entry where the loop ends, or a parent that is not in the table.\<close>

lemma proc_walk_gone:
  assumes "distinct (map ki_pid procs)" "lineage procs at_end current ps False"
  shows "proc_walk at_end put procs current str =
    (case put_lineage put False ps str of Inl e \<Rightarrow> Some (Inl e) | Inr _ \<Rightarrow> None)"
  using assms(2)
proof (induction "length ps" arbitrary: current ps str rule: less_induct)
  case less
  note s = scan_lineage [OF assms(1) subset_refl less.prems, of put str]
  show ?case
  proof (cases "current \<in> ki_pid ` set procs")
    case True
    then show ?thesis
      using s less.hyps by (subst proc_walk.simps) (auto split: sum.splits prod.splits if_splits)
  next
    case False
    then have "ps = []" using less.prems lineage_table by (auto elim: lineage.cases)
    then show ?thesis using proc_walk_stuck [OF False] by simp
  qed
qed

section \<open>The text of a chain\<close>

definition proc_text :: "kinfo_proc \<Rightarrow> string" where
  "proc_text p = ancestor_text (dec (nat (ki_pid p))) (ki_comm p)"

fun lineage_text :: "kinfo_proc list \<Rightarrow> string" where
  "lineage_text [] = []"
| "lineage_text (p # ps) = proc_text p @ concat (map (\<lambda>q. '', '' @ proc_text q) ps)"

text \<open>Entries of the table that print: no number is negative, no name holds the terminator.\<close>

definition plain_procs :: "kinfo_proc list \<Rightarrow> bool" where
  "plain_procs ps \<longleftrightarrow> (\<forall>p \<in> set ps. 0 \<le> ki_pid p \<and> nul \<notin> set (ki_comm p))"

lemma plain_procs_Cons [simp]:
  "plain_procs (p # ps) \<longleftrightarrow> 0 \<le> ki_pid p \<and> nul \<notin> set (ki_comm p) \<and> plain_procs ps"
  by (auto simp: plain_procs_def)

lemma format_proc:
  assumes "0 \<le> n"
  shows "format (''%d ('' @ quoted_s @ '')'') [PInt n, PStr name] = Some (ancestor_text (dec (nat n)) name)"
    "format (''%d ('' @ quoted_s @ ''), '') [PInt n, PStr name] = Some (ancestor_text (dec (nat n)) name @ '', '')"
    "format (''%s%d ('' @ quoted_s @ '')'') [PStr c, PInt n, PStr name] = Some (c @ ancestor_text (dec (nat n)) name)"
proof -
  have c: "char_of (32 :: nat) = CHR '' ''" "char_of (40 :: nat) = CHR ''(''" "char_of (41 :: nat) = CHR '')''"
    "char_of (39 :: nat) = CHR 0x27" "char_of (44 :: nat) = CHR '',''"
    by (simp_all add: char_of_def bit_iff_odd)
  show "format (''%d ('' @ quoted_s @ '')'') [PInt n, PStr name] = Some (ancestor_text (dec (nat n)) name)"
    "format (''%d ('' @ quoted_s @ ''), '') [PInt n, PStr name] = Some (ancestor_text (dec (nat n)) name @ '', '')"
    "format (''%s%d ('' @ quoted_s @ '')'') [PStr c, PInt n, PStr name] = Some (c @ ancestor_text (dec (nat n)) name)"
    using assms by (simp_all add: format_def quoted_s_def fmt_eval ancestor_text_def dec_def c comp_def)
qed

lemma proc_text_plain: "nul \<notin> set (ki_comm p) \<Longrightarrow> nul \<notin> set (proc_text p)"
  using dec_plain(1) by (simp add: proc_text_def ancestor_text_def)

lemma lineage_text_Cons: "ps \<noteq> [] \<Longrightarrow> lineage_text (p # ps) = proc_text p @ '', '' @ lineage_text ps"
  by (cases ps) simp_all

lemma alloc_ok_mono: "alloc_ok env m \<Longrightarrow> n \<le> m \<Longrightarrow> alloc_ok env n"
  by (simp add: alloc_ok_def)

lemma put_openbsd_one:
  assumes "list_holds l s" "0 \<le> ki_pid p" "nul \<notin> set (ki_comm p)"
    "alloc_ok env (length s + length (proc_text p) + (if lst then 0 else 2) + 9)"
  shows "\<exists>r. put_openbsd env lst p l = Inr (Some r) \<and> cbuf r (s @ proc_text p @ (if lst then [] else '', ''))"
  using assms appendf_list [OF assms(1) format_proc(1) [OF assms(2)], of "ki_comm p" env]
    appendf_list [OF assms(1) format_proc(2) [OF assms(2)], of "ki_comm p" env] proc_text_plain [OF assms(3)]
  by (cases lst) (auto simp: put_openbsd_def proc_text_def [symmetric] add.assoc)

lemma put_openbsd_text:
  assumes "ps \<noteq> []" "plain_procs ps" "list_holds l s"
    "alloc_ok env (length s + length (lineage_text ps) + (if b then 0 else 2) + 9)"
  shows "\<exists>r. put_lineage (put_openbsd env) b ps l = Inr (Some r) \<and>
    cbuf r (s @ lineage_text ps @ (if b then [] else '', ''))"
  using assms
proof (induction ps arbitrary: l s)
  case (Cons p ps)
  show ?case
  proof (cases "ps = []")
    case True
    then show ?thesis using Cons.prems put_openbsd_one [of l s p env b] by (cases b) auto
  next
    case False
    have "alloc_ok env (length s + length (proc_text p) + 2 + 9)"
      by (rule alloc_ok_mono [OF Cons.prems(4)]) (simp add: lineage_text_Cons [OF False] del: lineage_text.simps)
    then obtain r where r: "put_openbsd env False p l = Inr (Some r)" "cbuf r (s @ proc_text p @ '', '')"
      using put_openbsd_one [of l s p env False] Cons.prems by auto
    have "\<exists>r'. put_lineage (put_openbsd env) b ps (Some r) = Inr (Some r') \<and>
        cbuf r' ((s @ proc_text p @ '', '') @ lineage_text ps @ (if b then [] else '', ''))"
      by (rule Cons.IH) (use False r(2) Cons.prems in \<open>auto simp: list_holds_def lineage_text_Cons simp del: lineage_text.simps elim: alloc_ok_mono\<close>)
    then show ?thesis using r(1) False by (simp add: lineage_text_Cons del: lineage_text.simps)
  qed
qed simp

section \<open>FreeBSD\<close>

definition put_freebsd :: "cenv \<Rightarrow> int \<Rightarrow> put" where
  "put_freebsd env self lst p str =
     appendf env str (''%s%d ('' @ quoted_s @ '')'')
       [PStr (if ki_pid p = self then [] else '', ''), PInt (ki_pid p), PStr (ki_comm p)]"

lemma scan_freebsd_procs:
  "scan_freebsd env self ps (found, current, str) =
     (case scan_procs (\<lambda>_. False) (put_freebsd env self) ps (current, str) of
        Inl e \<Rightarrow> Inl e
      | Inr (_, current', str') \<Rightarrow> Inr (found \<or> current \<in> ki_pid ` set ps, current', str'))"
proof (induction ps arbitrary: found current str)
  case (Cons p ps)
  show ?case
  proof (cases "ki_pid p = current")
    case True
    then show ?thesis using Cons.IH
      by (cases "put_freebsd env self False p str") (auto simp: put_freebsd_def split: sum.split)
  next
    case False
    then have "current \<in> ki_pid ` set (p # ps) \<longleftrightarrow> current \<in> ki_pid ` set ps" by auto
    then show ?thesis using Cons.IH False by (simp split: sum.split prod.split)
  qed
qed simp

lemma walk_freebsd_lineage:
  assumes "distinct (map ki_pid procs)" "0 \<notin> ki_pid ` set procs" "lineage procs (\<lambda>_. False) current ps False"
  shows "walk_freebsd env self procs current str = Some (put_lineage (put_freebsd env self) False ps str)"
  using assms(3)
proof (induction "length ps" arbitrary: current ps str rule: less_induct)
  case less
  let ?put = "put_freebsd env self"
  have nd: "\<not> dn" if "scan_procs (\<lambda>_. False) ?put qs (c, s) = Inr (dn, c', s')" for qs c s dn c' s'
    using that by (induction qs arbitrary: c s) (auto simp: bindE_Inr_iff split: if_splits)
  note s = scan_lineage [OF assms(1) subset_refl less.prems, of ?put str]
  show ?case
  proof (cases "scan_procs (\<lambda>_. False) ?put procs (current, str)")
    case (Inl e)
    then show ?thesis using s by (subst walk_freebsd.simps) (simp add: scan_freebsd_procs)
  next
    case (Inr x)
    then obtain c' s' where x: "x = (False, c', s')" by (cases x) (use nd in blast)
    obtain rs where rs: "lineage procs (\<lambda>_. False) c' rs False" "put_lineage ?put False ps str = put_lineage ?put False rs s'"
        "current \<in> ki_pid ` set procs \<Longrightarrow> length rs < length ps" "current \<notin> ki_pid ` set procs \<Longrightarrow> rs = ps \<and> c' = current"
      using s Inr x by (auto split: if_splits)
    have z: "rs = []" if "c' \<notin> ki_pid ` set procs" using rs(1) that by (auto elim: lineage.cases)
    show ?thesis
    proof (cases "current \<in> ki_pid ` set procs \<and> c' \<noteq> 0")
      case True
      then show ?thesis using Inr x rs less.hyps [OF rs(3) rs(1)]
        by (subst walk_freebsd.simps) (simp add: scan_freebsd_procs)
    next
      case False
      then have "rs = []" using z rs(4) assms(2) by (cases "current \<in> ki_pid ` set procs") auto
      then show ?thesis using False Inr x rs(2) by (subst walk_freebsd.simps) (auto simp: scan_freebsd_procs)
    qed
  qed
qed

text \<open>A chain that ends does not come back to a process.\<close>

lemma lineage_suffix:
  "lineage procs at_end num ps b \<Longrightarrow> q \<in> set ps \<Longrightarrow> \<exists>qs. lineage procs at_end (ki_pid q) qs b \<and> length qs \<le> length ps"
  by (induction rule: lineage.induct) (auto intro: lineage.intros le_SucI)

lemma lineage_det:
  assumes "distinct (map ki_pid procs)"
  shows "lineage procs at_end num ps b \<Longrightarrow> lineage procs at_end num ps' b' \<Longrightarrow> ps' = ps"
proof (induction arbitrary: ps' rule: lineage.induct)
  case (gone num)
  then show ?case by (auto elim: lineage.cases)
next
  case (found p)
  then show ?case using lineage_step [OF assms, of p at_end ps' b'] by auto
next
  case (parent p ps b)
  then show ?case using lineage_step [OF assms, of p at_end ps' b'] by auto
qed

lemma lineage_first:
  assumes "distinct (map ki_pid procs)" "lineage procs at_end num (p # ps) b"
  shows "ki_pid p = num \<and> num \<notin> ki_pid ` set ps"
proof
  show p: "ki_pid p = num" using assms(2) by (auto elim: lineage.cases)
  show "num \<notin> ki_pid ` set ps"
  proof
    assume "num \<in> ki_pid ` set ps"
    then obtain q where q: "q \<in> set ps" "ki_pid q = num" by auto
    have "ps = [] \<or> lineage procs at_end (ki_ppid p) ps b" using assms(2) by (auto elim: lineage.cases)
    then obtain qs where "lineage procs at_end num qs b" "length qs \<le> length ps"
      using q lineage_suffix [of procs at_end "ki_ppid p" ps b q] by auto
    then show False using lineage_det [OF assms(1) assms(2)] by fastforce
  qed
qed

lemma put_freebsd_rest:
  assumes "plain_procs ps" "self \<notin> ki_pid ` set ps" "list_holds l s"
    "alloc_ok env (length s + length (concat (map (\<lambda>q. '', '' @ proc_text q) ps)) + 9)"
  shows "\<exists>r. put_lineage (put_freebsd env self) False ps l = Inr r \<and>
    list_holds r (s @ concat (map (\<lambda>q. '', '' @ proc_text q) ps)) \<and> (l \<noteq> None \<longrightarrow> r \<noteq> None)"
  using assms
proof (induction ps arbitrary: l s)
  case (Cons p ps)
  let ?t = "'', '' @ proc_text p"
  have "alloc_ok env (length s + length ?t + 9)" by (rule alloc_ok_mono [OF Cons.prems(4)]) simp
  then obtain r where r: "put_freebsd env self False p l = Inr (Some r)" "cbuf r (s @ ?t)"
    using appendf_list [OF Cons.prems(3) format_proc(3), of "ki_pid p" "'', ''" "ki_comm p" env] Cons.prems(1,2)
      proc_text_plain [of p] by (auto simp: put_freebsd_def proc_text_def)
  have "\<exists>r'. put_lineage (put_freebsd env self) False ps (Some r) = Inr r' \<and>
      list_holds r' ((s @ ?t) @ concat (map (\<lambda>q. '', '' @ proc_text q) ps)) \<and> (Some r \<noteq> None \<longrightarrow> r' \<noteq> None)"
    by (rule Cons.IH) (use r(2) Cons.prems in \<open>auto simp: list_holds_def add.assoc\<close>)
  then show ?case using r(1) by auto
qed simp

lemma put_freebsd_text:
  assumes "plain_procs (p # ps)" "self = ki_pid p" "self \<notin> ki_pid ` set ps" "alloc_ok env (length (lineage_text (p # ps)) + 9)"
  shows "\<exists>r. put_lineage (put_freebsd env self) False (p # ps) None = Inr (Some r) \<and> cbuf r (lineage_text (p # ps))"
proof -
  have "alloc_ok env (length (proc_text p) + 9)" by (rule alloc_ok_mono [OF assms(4)]) simp
  then obtain r where r: "put_freebsd env self False p None = Inr (Some r)" "cbuf r (proc_text p)"
    using appendf_list [of None "[]", OF _ format_proc(3), of "ki_pid p" "[]" "ki_comm p" env] assms(1,2)
      proc_text_plain [of p] by (auto simp: put_freebsd_def proc_text_def list_holds_def)
  then show ?thesis using put_freebsd_rest [of ps self "Some r" "proc_text p" env] assms
    by (auto simp: list_holds_def add.assoc)
qed

section \<open>Properties\<close>

lemma lowest_pid_Min: "lowest_pid m ps = Min (insert m (ki_pid ` set ps))"
proof (induction ps arbitrary: m)
  case (Cons p ps)
  have "insert m (ki_pid ` set (p # ps)) = insert m (insert (ki_pid p) (ki_pid ` set ps))" by auto
  then show ?case using Cons.IH by (cases "ki_pid ` set ps = {}") (auto simp: min_def)
qed simp

lemma ultimate_parent_Min: "procs \<noteq> [] \<Longrightarrow> ultimate_parent procs = Inr (Min (ki_pid ` set procs))"
  by (cases procs) (simp_all add: ultimate_parent_def lowest_pid_Min)

text \<open>
  C17: on FreeBSD the ancestors of the process are found: whatever the order of the table, when it holds a chain
  of parents from the process up to one whose parent is not in it, the loop ends and prints the whole chain, the
  process first.
\<close>

theorem freebsd_ancestry:
  assumes "bq_kvm_open q" "bq_kvm_close q" "bq_procs q = Some procs" "distinct (map ki_pid procs)" "0 \<notin> ki_pid ` set procs"
    "lineage procs (\<lambda>_. False) (bq_getpid q) ps False" "ps \<noteq> []" "plain_procs ps" "alloc_ok env (length (lineage_text ps) + 9)"
  shows "handle_proc_branch_freebsd env q = Inr [C_entry ''ancestry'' ''%s'' [PStr (lineage_text ps)]]"
proof -
  obtain p rest where p: "ps = p # rest" using assms(7) by (cases ps) auto
  have "bq_getpid q = ki_pid p" "bq_getpid q \<notin> ki_pid ` set rest" using lineage_first [OF assms(4)] assms(6) p by metis+
  then obtain r where "put_lineage (put_freebsd env (bq_getpid q)) False ps None = Inr (Some r)" "cbuf r (lineage_text ps)"
    using put_freebsd_text [of p rest "bq_getpid q" env] assms(8,9) p by auto
  then show ?thesis using assms(1-3) walk_freebsd_lineage [OF assms(4-6), of env "bq_getpid q" None]
    by (simp add: handle_proc_branch_freebsd_def with_kvm_def finished_def ancestry_entry_def str_arg_def)
qed

definition example_bsd :: "kinfo_proc list \<Rightarrow> bsd_queries" where
  "example_bsd procs = \<lparr>bq_generic = example_queries, bq_const = (\<lambda>_. 0), bq_kvm_open = True, bq_procs = Some procs,
     bq_proc = (\<lambda>_. None), bq_kvm_close = True, bq_getpid = 30, bq_mounts = [], bq_cpuset_create = True, bq_affinity = None,
     bq_cap_mode = False, bq_cap_rights = (\<lambda>_. None), bq_version = 13, bq_swapped = ([], 0), bq_swapped_opts = []\<rparr>"

definition example_proc :: "int \<Rightarrow> int \<Rightarrow> string \<Rightarrow> kinfo_proc" where
  "example_proc n pp name = \<lparr>ki_pid = n, ki_ppid = pp, ki_comm = name, ki_flag = 0, ki_oncpu = 0\<rparr>"

lemma example_proc_sel [simp]:
  "ki_pid (example_proc n pp name) = n" "ki_ppid (example_proc n pp name) = pp" "ki_comm (example_proc n pp name) = name"
  by (simp_all add: example_proc_def)

theorem freebsd_ancestry_witness:
  "handle_proc_branch_freebsd ascii_env (example_bsd [example_proc 1 0 ''init'', example_proc 30 1 ''sh'']) =
     Inr [C_entry ''ancestry'' ''%s'' [PStr (ancestor_text ''30'' ''sh'' @ '', '' @ ancestor_text ''1'' ''init'')]]"
proof -
  let ?procs = "[example_proc 1 0 ''init'', example_proc 30 1 ''sh'']"
  let ?ps = "[example_proc 30 1 ''sh'', example_proc 1 0 ''init'']"
  have "lineage ?procs (\<lambda>_. False) (ki_pid (example_proc 30 1 ''sh'')) ?ps False"
    by (rule lineage.parent) (simp_all, rule lineage.parent [of "example_proc 1 0 ''init''", simplified], simp_all add: lineage_Nil)
  moreover have "lineage_text ?ps = ancestor_text ''30'' ''sh'' @ '', '' @ ancestor_text ''1'' ''init''"
    by (simp add: proc_text_def dec_def nat_digits.simps digit_char_def char_of_def bit_iff_odd)
  ultimately show ?thesis
    using freebsd_ancestry [of "example_bsd ?procs" ?procs ?ps ascii_env]
    by (simp add: example_bsd_def plain_procs_def alloc_ok_def ascii_env_def ancestor_text_def)
qed

text \<open>
  C18: on OpenBSD, where the lowest number of the table is that of the first process, the same loop prints the chain
  of parents up to the first process when the table holds all of it. When a parent is missing from the table the
  loop does not end.
\<close>

theorem openbsd_ancestry:
  assumes "bq_kvm_open q" "bq_kvm_close q" "bq_procs q = Some procs" "distinct (map ki_pid procs)"
    "1 \<in> ki_pid ` set procs" "\<forall>p \<in> set procs. 1 \<le> ki_pid p" "lineage procs (\<lambda>n. n = 1) (bq_getpid q) ps b"
    "plain_procs ps" "alloc_ok env (length (lineage_text ps) + 11)"
  shows "handle_proc_branch_openbsd env q =
    (if b then Inr [C_entry ''ancestry'' ''%s'' [PStr (lineage_text ps)]] else Inl Diverges)"
proof -
  have n: "procs \<noteq> []" using assms(5) by auto
  have "Min (ki_pid ` set procs) = 1" using assms(5,6) by (auto intro!: Min_eqI)
  then have u: "ultimate_parent procs = Inr 1" using ultimate_parent_Min [OF n] by simp
  have a: "alloc_ok env (length (lineage_text ps) + (if b then 0 else 2) + 9)" by (rule alloc_ok_mono [OF assms(9)]) simp
  let ?walk = "proc_walk (\<lambda>n. n = 1) (put_openbsd env) procs (bq_getpid q) None"
  have w: "if b then \<exists>r. ?walk = Some (Inr (Some r)) \<and> cbuf r (lineage_text ps) else ?walk = None"
  proof (cases "ps = []")
    case True
    then show ?thesis using assms(7) proc_walk_stuck by (auto simp: lineage_Nil)
  next
    case False
    then obtain r where "put_lineage (put_openbsd env) b ps None = Inr (Some r)"
        "cbuf r (lineage_text ps @ (if b then [] else '', ''))"
      using put_openbsd_text [of ps None "[]" env b] assms(8) a by (auto simp: list_holds_def)
    then show ?thesis using assms(7) proc_walk_found [OF assms(4)] proc_walk_gone [OF assms(4)] by (cases b) auto
  qed
  show ?thesis using w assms(1-3) u
    by (auto simp: handle_proc_branch_openbsd_def with_kvm_def finished_def ancestry_entry_def str_arg_def split: if_splits)
qed

theorem openbsd_ancestry_witness:
  "handle_proc_branch_openbsd ascii_env (example_bsd [example_proc 1 0 ''init'', example_proc 30 1 ''sh'']) =
     Inr [C_entry ''ancestry'' ''%s'' [PStr (ancestor_text ''30'' ''sh'' @ '', '' @ ancestor_text ''1'' ''init'')]] \<and>
   handle_proc_branch_openbsd ascii_env (example_bsd [example_proc 1 0 ''init'', example_proc 30 7 ''sh'']) = Inl Diverges"
proof
  let ?procs = "[example_proc 1 0 ''init'', example_proc 30 1 ''sh'']"
  let ?ps = "[example_proc 30 1 ''sh'', example_proc 1 0 ''init'']"
  have "lineage ?procs (\<lambda>n. n = 1) (ki_pid (example_proc 30 1 ''sh'')) ?ps True"
    by (rule lineage.parent) (simp_all, rule lineage.found [of "example_proc 1 0 ''init''", simplified], auto)
  moreover have "lineage_text ?ps = ancestor_text ''30'' ''sh'' @ '', '' @ ancestor_text ''1'' ''init''"
    by (simp add: proc_text_def dec_def nat_digits.simps digit_char_def char_of_def bit_iff_odd)
  ultimately show "handle_proc_branch_openbsd ascii_env (example_bsd ?procs) =
     Inr [C_entry ''ancestry'' ''%s'' [PStr (ancestor_text ''30'' ''sh'' @ '', '' @ ancestor_text ''1'' ''init'')]]"
    using openbsd_ancestry [of "example_bsd ?procs" ?procs ?ps True ascii_env]
    by (simp add: example_bsd_def plain_procs_def alloc_ok_def ascii_env_def ancestor_text_def)
  let ?procs = "[example_proc 1 0 ''init'', example_proc 30 7 ''sh'']"
  let ?ps = "[example_proc 30 7 ''sh'']"
  have "lineage ?procs (\<lambda>n. n = 1) (ki_pid (example_proc 30 7 ''sh'')) ?ps False"
    by (rule lineage.parent) (simp_all add: lineage_Nil)
  moreover have "lineage_text ?ps = ancestor_text ''30'' ''sh''"
    by (simp add: proc_text_def dec_def nat_digits.simps digit_char_def char_of_def bit_iff_odd)
  ultimately show "handle_proc_branch_openbsd ascii_env (example_bsd ?procs) = Inl Diverges"
    using openbsd_ancestry [of "example_bsd ?procs" ?procs ?ps False ascii_env]
    by (simp add: example_bsd_def plain_procs_def alloc_ok_def ascii_env_def ancestor_text_def)
qed

end
