(* ===== verification/Darwin.thy ===== *)
theory Darwin
  imports Bsd
begin

text \<open>
  The driver for Darwin (\<^verbatim>\<open>platform/darwin\<close>). The table of processes comes from two calls of \<^verbatim>\<open>sysctl\<close>, the first
  for its size; the libraries come from the load commands of the program's image. The answers of the system are
  the fields of \<open>darwin_queries\<close>.
\<close>

unbundle bit_operations_syntax

section \<open>What the system answers\<close>

record load_command =
  lc_cmd :: string
  lc_path :: string
  lc_current_version :: "32 word"
  lc_compatibility_version :: "32 word"

record vm_statistics =
  vm_free_count :: "32 word"
  vm_active_count :: "32 word"
  vm_inactive_count :: "32 word"
  vm_wire_count :: "32 word"

text \<open>
  \<open>dq_sysctl_size\<close> and \<open>dq_sysctl_procs\<close> are the two calls, by the number of attempts left; the second returns the
  processes, or whether \<^verbatim>\<open>errno\<close> is \<^verbatim>\<open>ENOMEM\<close>. \<open>dq_images\<close> are the names and the load commands of the images,
  \<open>None\<close> for \<^verbatim>\<open>NULL\<close>; a load command is known by the name of its kind.
\<close>

record darwin_queries =
  dq_generic :: generic_queries
  dq_const :: "string \<Rightarrow> int"
  dq_getpid :: int
  dq_sizeof_kinfo :: nat
  dq_sysctl_size :: "nat \<Rightarrow> nat option"
  dq_sysctl_procs :: "nat \<Rightarrow> bool + kinfo_proc list"
  dq_clock_service :: bool
  dq_clock_time :: "(int \<times> int) option"
  dq_mounts :: "statfs list"
  dq_sysctlbyname :: "string \<Rightarrow> 64 word option"
  dq_vm_statistics :: "vm_statistics option"
  dq_executable :: "string option"
  dq_images :: "(string option \<times> load_command list option) list"
  dq_dlopen :: "string \<Rightarrow> nat option"

section \<open>Tables\<close>

definition signal_map_darwin :: "(string \<Rightarrow> bool) \<Rightarrow> (string \<Rightarrow> int) \<Rightarrow> procenv_map" where
  "signal_map_darwin defd_macro cval =
     const_map cval ([''SIGALRM'', ''SIGBUS'', ''SIGCONT'', ''SIGFPE'', ''SIGHUP'', ''SIGILL'', ''SIGINT'', ''SIGKILL'', ''SIGPIPE'',
       ''SIGQUIT'', ''SIGSEGV'', ''SIGSTOP'', ''SIGTERM'', ''SIGTRAP'', ''SIGTSTP'', ''SIGTTIN'', ''SIGTTOU'', ''SIGUSR1'', ''SIGUSR2'',
       ''SIGXCPU'', ''SIGXFSZ'', ''SIGIOT'', ''SIGPROF'', ''SIGSYS'', ''SIGURG'', ''SIGVTALRM''] @
       filter defd_macro [''SIGIO'', ''SIGWINCH'', ''SIGINFO'']) @
     (if defd_macro ''SIGPOLL'' then [(''SIGPOLL|SIGEMT'', word_of_int (cval ''SIGPOLL''))]
      else if defd_macro ''SIGEMT'' then [(''SIGPOLL|SIGEMT'', word_of_int (cval ''SIGEMT''))] else []) @
     sigchld_entry cval @ [(''SIGABRT|SIGIOT'', word_of_int (cval ''SIGABRT''))]"

definition mntopt_map_darwin :: "(string \<Rightarrow> int) \<Rightarrow> procenv_map64" where
  "mntopt_map_darwin cval = option_map64 cval
     [(''asynchronous'', ''MNT_ASYNC''), (''NFS-exported'', ''MNT_EXPORTED''), (''local'', ''MNT_LOCAL''),
      (''multilabel'', ''MNT_MULTILABEL''), (''noatime'', ''MNT_NOATIME''), (''noexec'', ''MNT_NOEXEC''), (''nosuid'', ''MNT_NOSUID''),
      (''with-quotas'', ''MNT_QUOTA''), (''read-only'', ''MNT_RDONLY''), (''synchronous'', ''MNT_SYNCHRONOUS''), (''union'', ''MNT_UNION'')]"

definition if_flag_map_darwin :: "(string \<Rightarrow> int) \<Rightarrow> procenv_map" where
  "if_flag_map_darwin cval = const_map cval bsd_if_flags"

section \<open>CPU, time, mounts, memory\<close>

definition show_cpu_darwin :: "generic_queries \<Rightarrow> report" where
  "show_cpu_darwin q =
     (let max = (case gq_sysconf q ''_SC_NPROCESSORS_ONLN'' of None \<Rightarrow> -1 | Some v \<Rightarrow> v) in
      Inr [C_entry ''number'' ''%s of %lu'' [PStr UNKNOWN_STR, PInt max]])"

definition get_time_darwin :: "darwin_queries \<Rightarrow> (int \<times> int) option" where
  "get_time_darwin q = (if dq_clock_service q then dq_clock_time q else None)"

definition show_mounts_darwin :: "cenv \<Rightarrow> darwin_queries \<Rightarrow> ShowMountType \<Rightarrow> report" where
  "show_mounts_darwin env q what =
     show_mounts_generic_bsd env (dq_generic q) (dq_mounts q) what (mntopt_map_darwin (dq_const q))"

text \<open>The calls are made in turn and the first that fails ends the routine. The sums wrap.\<close>

definition show_memory_darwin :: "darwin_queries \<Rightarrow> report" where
  "show_memory_darwin q =
     (case dq_sysctlbyname q ''hw.memsize'' of None \<Rightarrow> Inr [] | Some total_ram \<Rightarrow>
     (case dq_sysctlbyname q ''vm.pagesize'' of None \<Rightarrow> Inr [] | Some vm_page_size \<Rightarrow>
     (case dq_sysctlbyname q ''vm.page_free_count'' of None \<Rightarrow> Inr [] | Some bytes \<Rightarrow>
      let used_ram = bytes * vm_page_size; free_ram = total_ram - used_ram in
     (case dq_vm_statistics q of None \<Rightarrow> Inr [] | Some stats \<Rightarrow>
      let sec = mk_mem_section (gq_human (dq_generic q)); pages = (\<lambda>f. ucast (f stats) * vm_page_size) in
      in_section ''ram'' (reports
        [sec ''total'' total_ram, sec ''free'' free_ram, sec ''wired'' (pages vm_wire_count),
         sec ''unused'' (pages vm_free_count), sec ''active'' (pages vm_active_count),
         sec ''inactive'' (pages vm_inactive_count)])))))"

section \<open>Ancestry\<close>

text \<open>
  The table has room for as many entries as the first call asks for; the second may fill fewer, and the rest is
  zero. At most nineteen attempts are made. \<open>None\<close>: the routine returns without an entry.
\<close>

definition zero_proc :: kinfo_proc where
  "zero_proc = \<lparr>ki_pid = 0, ki_ppid = 0, ki_comm = [], ki_flag = 0, ki_oncpu = 0\<rparr>"

fun query_procs :: "cenv \<Rightarrow> darwin_queries \<Rightarrow> nat \<Rightarrow> kinfo_proc list option" where
  "query_procs env q 0 = None"
| "query_procs env q (Suc attempts) =
     (if attempts = 0 then None
      else case dq_sysctl_size q attempts of
        None \<Rightarrow> None
      | Some bytes \<Rightarrow>
          let count = bytes div dq_sizeof_kinfo q in
          if \<not> alloc_ok env (count * dq_sizeof_kinfo q) then None
          else case dq_sysctl_procs q attempts of
            Inl enomem \<Rightarrow> if enomem then query_procs env q attempts else None
          | Inr procs \<Rightarrow> Some (take count procs @ replicate (count - length procs) zero_proc))"

definition handle_proc_branch_darwin :: "cenv \<Rightarrow> darwin_queries \<Rightarrow> report" where
  "handle_proc_branch_darwin env q =
     (case query_procs env q 20 of
        None \<Rightarrow> Inr []
      | Some procs \<Rightarrow>
          bindE (ultimate_parent procs) (\<lambda>ultimate.
          bindE (finished (proc_walk (\<lambda>current. ultimate = 0 \<and> current = ultimate) (put_openbsd env) procs (dq_getpid q) None))
          ancestry_entry))"

section \<open>Libraries\<close>

definition get_macho_version :: "cenv \<Rightarrow> 32 word \<Rightarrow> string option res" where
  "get_macho_version env version =
     (if version = -1 then appendf env None ''(%s)'' [PStr UNKNOWN_STR]
      else let major = drop_bit 16 version; minor = drop_bit 8 version AND 0xff; patch = version AND 0xff in
        appendf env None ''%u.%u.%u'' [PInt (uint major), PInt (uint minor), PInt (uint patch)])"

text \<open>\<^verbatim>\<open>basename\<close> of \<^verbatim>\<open>libgen.h\<close>: slashes at the end do not count.\<close>

definition posix_basename :: "string \<Rightarrow> string" where
  "posix_basename p =
     (if p = [] then ''.''
      else let trimmed = rev (dropWhile (\<lambda>c. c = CHR ''/'') (rev p)) in
        if trimmed = [] then ''/'' else base_name trimmed)"

definition considered_cmds :: "string list" where
  "considered_cmds = [''LC_ID_DYLIB'', ''LC_LOAD_DYLIB'', ''LC_LOAD_WEAK_DYLIB'', ''LC_REEXPORT_DYLIB'', ''LC_LOAD_UPWARD_DYLIB'',
     ''LC_LAZY_LOAD_DYLIB'']"

definition version_entry :: "string \<Rightarrow> string option \<Rightarrow> report" where
  "version_entry name v =
     (case v of None \<Rightarrow> Inr [] | Some b \<Rightarrow> bindE (str_at nul b 0) (\<lambda>s. Inr [C_entry name ''%s'' [PStr s]]))"

definition handle_load_cmd :: "cenv \<Rightarrow> (string \<Rightarrow> nat option) \<Rightarrow> load_command \<Rightarrow> report" where
  "handle_load_cmd env dlopen lc =
     (if lc_cmd lc \<notin> set considered_cmds then Inr []
      else in_object (in_section (posix_basename (lc_path lc)) (reports
        [(case dlopen (lc_path lc) of None \<Rightarrow> Inr [] | Some addr \<Rightarrow> Inr [C_entry ''address'' ''%p'' [PInt (int addr)]]),
         Inr [C_entry ''path'' ''%s'' [PStr (lc_path lc)]],
         in_section ''versions''
           (bindE (get_macho_version env (lc_current_version lc)) (\<lambda>current.
            bindE (get_macho_version env (lc_compatibility_version lc)) (\<lambda>compat.
            reports [version_entry ''current'' current, version_entry ''compatibility'' compat])))])))"

definition handle_load_cmds :: "cenv \<Rightarrow> (string \<Rightarrow> nat option) \<Rightarrow> load_command list option \<Rightarrow> report" where
  "handle_load_cmds env dlopen hdr =
     (case hdr of None \<Rightarrow> Inr [] | Some cmds \<Rightarrow> reports (map (handle_load_cmd env dlopen) cmds))"

fun find_image :: "string \<Rightarrow> (string option \<times> 'a option) list \<Rightarrow> 'a option" where
  "find_image p [] = None"
| "find_image p ((name, hdr) # images) = (if name = Some p then hdr else find_image p images)"

definition show_libs_darwin :: "cenv \<Rightarrow> darwin_queries \<Rightarrow> report" where
  "show_libs_darwin env q =
     (case dq_executable q of
        None \<Rightarrow> Inr []
      | Some p \<Rightarrow> handle_load_cmds env (dq_dlopen q) (find_image p (dq_images q)))"

section \<open>The driver\<close>

definition darwin_ops :: "cenv \<Rightarrow> darwin_queries \<Rightarrow> string \<Rightarrow> procenv_ops" where
  "darwin_ops env q src =
     (let gq = dq_generic q in no_ops\<lparr>
     driver_name := ''darwin'', driver_file := src,
     signal_map := signal_map_darwin (gq_defd gq) (dq_const q),
     if_flag_map := if_flag_map_darwin (dq_const q),
     get_time := Some (get_time_darwin q),
     get_kernel_bits := Some (get_kernel_bits_generic gq),
     get_mtu := Some (get_mtu_generic gq),
     ops_handle_proc_branch := plain_hook (handle_proc_branch_darwin env q),
     ops_show_confstrs := plain_hook (show_confstrs_generic env gq),
     ops_show_cpu := plain_hook (show_cpu_darwin gq),
     ops_show_clocks := plain_hook (show_clocks_generic gq),
     ops_show_fds := plain_hook (show_fds_generic env gq None),
     ops_show_mounts := Some (show_mounts_darwin env q),
     ops_show_rlimits := plain_hook (show_rlimits_generic gq),
     ops_show_timezone := plain_hook (show_timezone_generic gq),
     ops_show_libs := plain_hook (show_libs_darwin env q),
     handle_memory := plain_hook (show_memory_darwin q)\<rparr>)"

lemma version_entry_complete [complete_intros]: "members_report (version_entry name v)"
  unfolding version_entry_def by (intro complete_intros; simp add: flat_calls)+

lemma handle_load_cmd_complete [complete_intros]: "objects_report (handle_load_cmd env dlopen lc)"
  unfolding handle_load_cmd_def by (intro complete_intros; simp add: flat_calls)+

lemma darwin_members [complete_intros]:
  "members_report (show_cpu_darwin gq)" "members_report (show_mounts_darwin env q what)"
  "members_report (show_memory_darwin q)" "members_report (handle_proc_branch_darwin env q)"
  unfolding show_cpu_darwin_def show_mounts_darwin_def show_memory_darwin_def handle_proc_branch_darwin_def Let_def
  by (intro complete_intros; simp add: flat_calls)+

lemma darwin_objects [complete_intros]: "objects_report (show_libs_darwin env q)"
  unfolding show_libs_darwin_def handle_load_cmds_def by (intro complete_intros; simp add: flat_calls)+

interpretation darwin_driver: platform_driver "darwin_ops env q src" for env q src
  by unfold_locales (auto simp: darwin_ops_def no_ops_def Let_def intro!: complete_intros)

end
