(* ===== verification/Spec2Isabelle.thy ===== *)
theory Spec2Isabelle
  imports Examples Ancestry Darwin
begin

text \<open>
  A verification library for \<^emph>\<open>procenv\<close>, a C program that prints every detail of its process and of the
  system around it as text, XML, JSON or in the flat crumb format. The theories model the C sources under
  \<^verbatim>\<open>src/src/\<close>; this theory imports them all and holds the properties of whole runs.

  \<^bold>\<open>The program.\<close> \<^verbatim>\<open>main\<close> (\<^verbatim>\<open>procenv.c\<close>) reads environment variables and options, queries the system, and calls
  either the \<^verbatim>\<open>show_*\<close> routines of the display options or, without one, all of them (\<^verbatim>\<open>dump\<close>). A routine asks the
  system, partly through the hooks of a platform driver (\<^verbatim>\<open>struct procenv_ops\<close>, \<^verbatim>\<open>platform/*/platform.c\<close>), and
  calls \<^verbatim>\<open>header\<close>, \<^verbatim>\<open>section_open\<close>, \<^verbatim>\<open>container_open\<close>, \<^verbatim>\<open>object_open\<close>, \<^verbatim>\<open>entry\<close> and the closing operations
  (\<^verbatim>\<open>output.c\<close>), which append to one wide-character document (\<^verbatim>\<open>pstring.c\<close>, \<^verbatim>\<open>string-util.c\<close>) after encoding
  names and values. At the end the document is cleaned up, converted and written.

  \<^bold>\<open>How code becomes definitions.\<close> A fallible operation returns a value of type \<open>'a res\<close>, a sum of an error (\<open>cerror\<close>:
  \<^verbatim>\<open>die\<close>, a failed assertion, an access outside a buffer, a null pointer) and a result. Buffers are lists with
  checked accesses (\<open>rd\<close>, \<open>wr\<close>), so that an overrun is a value and its absence a theorem. Linked lists live in an
  explicit heap (\<open>PrList\<close>). Globals are records passed along. The answers of the system and of the C library that
  the program cannot know (files, system calls, the locale, the memory limit) are fields of records
  (\<open>cenv\<close>, \<open>oio\<close>, \<open>world\<close>, \<open>generic_queries\<close>, \<open>linux_queries\<close>, \<open>sys_queries\<close>, \<open>bsd_queries\<close>, \<open>darwin_queries\<close>,
  \<open>build\<close>) and every theorem is about all of them.
  Conditional code of \<^verbatim>\<open>procenv.c\<close> is that of a Linux build, so the properties of whole runs are about Linux; macros whose definedness the code tests are asked through
  \<open>defd\<close> and \<open>gq_defd\<close>.

  \<^bold>\<open>The theories.\<close>
  \<^item> \<open>Prelude\<close>: results and their bind, buffers, named collections of simplification rules.
  \<^item> \<open>CPrintf\<close>: the environment record \<open>cenv\<close> and the \<^verbatim>\<open>printf\<close> family as far as the program uses it.
  \<^item> \<open>PrList\<close> (\<^verbatim>\<open>pr_list.c\<close>): circular lists on a heap; a ring stays a ring, sorted insertion is insertion into the
    list of strings, visitors end.
  \<^item> \<open>PString\<close> (\<^verbatim>\<open>pstring.c\<close>), \<open>StringUtil\<close> (\<^verbatim>\<open>string-util.c\<close>): conversion, appending and the two clean-up
    passes, which together remove the blank lines of a document, with their bounds and the inputs on which they fail.
  \<^item> \<open>Encode\<close>, \<open>Output\<close> (\<^verbatim>\<open>output.c\<close>): the two encoding passes, whose result in XML and JSON can be
    decoded and holds no markup, and the element state machine with one transition table per format. \<open>DocPrinter\<close> is the simulation of the state machine by a stack of open elements; \<open>DocTree\<close>
    the refinement of a tree of items by the calls that print it; \<open>JsonDoc\<close>, \<open>JsonTidy\<close> relate the JSON text
    to a grammar and to the clean-up; \<open>Crumbs\<close> the crumb format and the breadcrumb stack.
  \<^item> \<open>Report\<close>: what a routine prints as a list of calls; well-nested calls are the trees of \<open>DocTree\<close>. The locale
    \<open>doc_invariant\<close> gives the parts of the state that no call changes.
  \<^item> \<open>Util\<close> (\<^verbatim>\<open>util.c\<close>), \<open>Lookup\<close>, \<open>Network\<close>, \<open>Show\<close>, \<open>ShowSys\<close>, \<open>ShowTables\<close>, \<open>Sysconf\<close> (\<^verbatim>\<open>procenv.c\<close>): the helpers,
    tables and display routines. \<open>Platform\<close>: the globals and the hooks (\<^verbatim>\<open>platform.h\<close>); the locale
    \<open>platform_driver\<close> is the contract of a driver, that its hooks report complete elements.
  \<^item> \<open>Generic\<close>, \<open>Affinity\<close> (\<^verbatim>\<open>platform-generic.c\<close>), \<open>LinuxProc\<close>, \<open>LinuxSys\<close> (\<^verbatim>\<open>platform/linux\<close>), \<open>Bsd\<close>
    (\<^verbatim>\<open>platform/freebsd\<close>, \<^verbatim>\<open>openbsd\<close>, \<^verbatim>\<open>netbsd\<close>, \<^verbatim>\<open>minix\<close>), \<open>Darwin\<close> (\<^verbatim>\<open>platform/darwin\<close>), \<open>Drivers\<close> (the hook
    tables of Linux, Hurd, Android and of unknown platforms): the drivers, each table an interpretation of
    \<open>platform_driver\<close>. \<open>Ancestry\<close> shows when the two loops over a process table find the ancestors.
  \<^item> \<open>Dump\<close>, \<open>ProcMain\<close>, \<open>Program\<close>, \<open>Options\<close> (\<^verbatim>\<open>procenv.c\<close>): completeness of every routine over the contract of
    the driver, \<^verbatim>\<open>main\<close> with its options, environment variables and clean-up, lemmas on whole runs, and the
    properties of the option handling. \<open>Plain\<close> bounds the document of a report in printable ASCII; \<open>Examples\<close> is
    a small Linux system, with the report of every part of the dump there, on which the properties of whole runs
    are instantiated.

  \<^bold>\<open>Loops, bounds and fuel.\<close> Loops over data are structural or have a termination proof; loops that may not end
  (the search for the ancestors of a process) are partial functions into \<open>option\<close>, and the
  properties say when they return. \<open>alloc_ok\<close> bounds every allocation by the memory limit of \<open>cenv\<close>, which makes the
  loops that grow a buffer terminate. Sizes are natural numbers with the wrap-around of \<^verbatim>\<open>size_t\<close> written out
  where the code subtracts; machine words are used where bits matter.

  \<^bold>\<open>Not modelled.\<close> The code of \<^verbatim>\<open>procenv.c\<close> that only other builds than Linux have; the
  hooks \<^verbatim>\<open>init\<close>, \<^verbatim>\<open>cleanup\<close> and \<^verbatim>\<open>free_cpuset\<close>, which only manage memory; opening, closing and freeing
  of system resources; the pointers of the cache in \<^verbatim>\<open>show_network\<close>, which is the list of its nodes; the assertion
  \<^verbatim>\<open>common_assert\<close> at the start of a reporting routine, which every document call repeats;
  the reordering of \<^verbatim>\<open>argv\<close> by \<^verbatim>\<open>getopt_long\<close>; floating-point arithmetic, whose texts are parameters; the
  unit tests and the build files.
\<close>

section \<open>Whole runs\<close>

text \<open>
  C1: the dump of procenv on Linux with JSON output, from the environment variables and options to the last
  clean-up: all parts of the dump are run in order, and what is written to the standard output is one text
  in the JSON grammar, the rendering of the tree of the whole report, and nothing else. The hypotheses are that the start succeeds, that every part gives a report, whose strings can be
  encoded, that the network interfaces can be listed, that the terminal descriptor stays the one that was
  opened, and that memory and the standard output suffice.
\<close>

theorem main_dump_json:
  assumes "printable_sane env" "locale_ok env" "plain_environment w"
    "init env w (linux_ops env q src) (mstate0 new_doc prog [''--format=json'']) = Inr ms"
    "dump_report env w (linux_ops env q src) ((out ms)\<lparr>output_format := OUTPUT_FORMAT_JSON\<rparr>) (glob ms) = Inr cs"
    "q_getifaddrs (w_net w) \<noteq> None"
    "show_tty_attrs (w_tcgetattr w) (w_winsize w) (linux_ops env q src) (glob ms) = Inr (u_tty_fd (user (glob ms)), tcs)"
    "calls_ok env OUTPUT_FORMAT_JSON cs" "level_ok start_layout (Suc (length cs))"
    "fits env (length (json_text env start_layout cs) + 1)"
    "wcs env (json_text env start_layout cs @ [NL]) = Some str" "str \<noteq> []" "alloc_ok env (length str + 1)"
    "0 \<le> fputs_ret io OUTPUT_STDOUT str"
  shows "(\<exists>ms'. main env io w (linux_ops env q src) prog [''--format=json''] = Inr (ms', Exit) \<and>
      sink (out ms') = [(OUTPUT_STDOUT, str)]) \<and>
    jvalue (json_text env start_layout cs)"
  by (rule linux_driver.run_dump_json [OF assms])

theorem main_dump_json_witness:
  "\<exists>ms' cs str. main example_env example_io example_world example_ops ''/procenv'' [''--format=json''] = Inr (ms', Exit) \<and>
     sink (out ms') = [(OUTPUT_STDOUT, str)] \<and> wcs example_env (json_text example_env start_layout cs @ [NL]) = Some str \<and>
     jvalue (json_text example_env start_layout cs)"
proof -
  obtain ms cs tcs where ms: "init example_env example_world example_ops (mstate0 new_doc ''/procenv'' [''--format=json'']) = Inr ms"
    and cs: "dump_report example_env example_world example_ops ((out ms)\<lparr>output_format := OUTPUT_FORMAT_JSON\<rparr>) (glob ms) = Inr cs"
    and tty: "show_tty_attrs (w_tcgetattr example_world) (w_winsize example_world) example_ops (glob ms) =
      Inr (u_tty_fd (user (glob ms)), tcs)"
    and plain: "members cs" "length cs \<le> 7200" "list_all (plain_call example_env) cs"
    by (rule example_ready [of OUTPUT_FORMAT_JSON "[''--format=json'']"]) simp_all
  let ?t = "json_text example_env start_layout cs"
  note t = json_text_room [OF example_env_ok(3) plain(1,3)]
  have "(length cs + 2) * item_room (length cs + 1) \<le> 7202 * item_room 7201"
    using plain(2) by (intro mult_le_mono) (simp_all add: item_room_def)
  then have l: "length ?t \<le> 1000000000" using t(1) by (simp add: item_room_def)
  obtain str where str: "wcs example_env (?t @ [NL]) = Some str" "length str = length (?t @ [NL])"
    using ascii_written [of "?t @ [NL]"] t(2) by auto
  have "level_ok start_layout (Suc (length cs))" using plain(2) by (simp add: level_ok_def level_def start_layout_def int_range_def)
  moreover have "fits example_env (length ?t + 1)" "alloc_ok example_env (length str + 1)" "str \<noteq> []"
    using l str(2) by (auto simp: example_memory)
  ultimately show ?thesis
    using main_dump_json [OF example_env_ok(1,2) example_plain_world(1) ms [unfolded example_ops_def] cs [unfolded example_ops_def]
        example_plain_world(2) tty [unfolded example_ops_def] plain_calls_ok [OF example_env_ok(3) plain(3)] _ _ str(1) _ _ example_io_ok]
      str(1)
    unfolding example_ops_def by blast
qed

text \<open>
  C2: procenv without options on Linux: the dump in the text format, which is cleaned at its end and of its
  empty lines before it is written: what reaches the standard output is exactly the rendering of the whole
  report by lines, behind those two passes.
\<close>

theorem main_dump_text:
  assumes "locale_ok env" "plain_environment w" "init env w (linux_ops env q src) (mstate0 new_doc prog []) = Inr ms"
    "dump_report env w (linux_ops env q src) (out ms) (glob ms) = Inr cs" "q_getifaddrs (w_net w) \<noteq> None"
    "show_tty_attrs (w_tcgetattr w) (w_winsize w) (linux_ops env q src) (glob ms) = Inr (u_tty_fd (user (glob ms)), tcs)"
    "calls_ok env OUTPUT_FORMAT_TEXT cs" "level_ok start_layout (length cs)"
    "fits env (length (text_text env start_layout cs))"
    "\<exists>c \<in> set (text_text env start_layout cs). c \<noteq> NL \<and> c \<noteq> 32"
    "wcs env (compress_list 32 (chomp_list 32 (text_text env start_layout cs))) = Some str" "str \<noteq> []"
    "alloc_ok env (length str + 1)" "0 \<le> fputs_ret io OUTPUT_STDOUT str"
  shows "\<exists>ms'. main env io w (linux_ops env q src) prog [] = Inr (ms', Exit) \<and> sink (out ms') = [(OUTPUT_STDOUT, str)]"
  by (rule linux_driver.run_dump_text [OF assms])

theorem main_dump_text_witness:
  "\<exists>ms' cs str. main example_env example_io example_world example_ops ''/procenv'' [] = Inr (ms', Exit) \<and>
     sink (out ms') = [(OUTPUT_STDOUT, str)] \<and>
     wcs example_env (compress_list 32 (chomp_list 32 (text_text example_env start_layout cs))) = Some str"
proof -
  obtain ms cs tcs where ms: "init example_env example_world example_ops (mstate0 new_doc ''/procenv'' []) = Inr ms"
    and cs: "dump_report example_env example_world example_ops ((out ms)\<lparr>output_format := OUTPUT_FORMAT_TEXT\<rparr>) (glob ms) = Inr cs"
    and tty: "show_tty_attrs (w_tcgetattr example_world) (w_winsize example_world) example_ops (glob ms) =
      Inr (u_tty_fd (user (glob ms)), tcs)"
    and plain: "members cs" "length cs \<le> 7200" "list_all (plain_call example_env) cs"
    by (rule example_ready [of OUTPUT_FORMAT_TEXT "[]"]) simp_all
  have "output_format (out ms) = OUTPUT_FORMAT_TEXT"
    using settings_fields(2) [OF init_started(1) [OF ms, unfolded started_def]] by (simp add: ostate0_def)
  then have f: "(out ms)\<lparr>output_format := OUTPUT_FORMAT_TEXT\<rparr> = out ms" by (cases "out ms") simp
  obtain cs' where h: "cs = C_header ''meta'' # cs'" using dump_start [OF cs] by blast
  let ?t = "text_text example_env start_layout cs" and ?u = "compress_list 32 (chomp_list 32 (text_text example_env start_layout cs))"
  note t = text_text_room [OF example_env_ok(3) plain(1,3)]
  obtain t' where t': "?t = 109 # 101 # t'"
    using text_text_start [OF example_env_ok(3) plain(1) [unfolded h]] plain(3) h by auto
  have u: "?u \<noteq> []" "set ?u \<subseteq> insert NL (set ?t)" "length ?u \<le> length ?t" by (rule tidied_text [OF t'], simp_all)+
  have "length cs * item_room (length cs) \<le> 7200 * item_room 7200"
    using plain(2) by (intro mult_le_mono) (simp_all add: item_room_def)
  then have l: "length ?t \<le> 1000000000" using t(1) by (simp add: item_room_def)
  have "\<forall>c \<in> insert NL (set ?t). c < 128" using t(2) by (simp add: ascii_def)
  then have "ascii ?u" unfolding ascii_def using u(2) by (meson subsetD)
  then obtain str where str: "wcs example_env ?u = Some str" "length str = length ?u" using ascii_written by blast
  have "level_ok start_layout (length cs)" using plain(2) by (simp add: level_ok_def level_def start_layout_def int_range_def)
  moreover have "fits example_env (length ?t)" "alloc_ok example_env (length str + 1)" "str \<noteq> []"
    using l str(2) u(1,3) by (auto simp: example_memory)
  moreover have "\<exists>c \<in> set ?t. c \<noteq> NL \<and> c \<noteq> 32" by (rule bexI [of _ 109]) (simp_all add: t')
  ultimately show ?thesis
    using main_dump_text [OF example_env_ok(2) example_plain_world(1) ms [unfolded example_ops_def] cs [unfolded f example_ops_def]
        example_plain_world(2) tty [unfolded example_ops_def] plain_calls_ok [OF example_env_ok(3) plain(3)] _ _ _ str(1) _ _ example_io_ok]
      str(1)
    unfolding example_ops_def by blast
qed

text \<open>
  C3: a run of procenv on Linux with a display option other than \<^verbatim>\<open>--tty\<close> and \<^verbatim>\<open>--help\<close> and with JSON output,
  from the environment variables and options to the last clean-up: the report of the routine goes through the document, and what is written to the
  standard output is one text in the JSON grammar, the rendering of the report's tree, and nothing else.
  The hypotheses are that the start succeeds, that the routine gives a report whose strings can be
  encoded and that memory and the standard output suffice.
\<close>

theorem main_json_letter:
  assumes "printable_sane env" "locale_ok env" "plain_environment w"
    "init env w (linux_ops env q src) (mstate0 new_doc prog (letter_args ''json'' c)) = Inr ms"
    "letter_report env w (linux_ops env q src) ((out ms)\<lparr>output_format := OUTPUT_FORMAT_JSON\<rparr>) c (glob ms) = Inr cs"
    "c = CHR ''N'' \<longrightarrow> q_getifaddrs (w_net w) \<noteq> None"
    "calls_ok env OUTPUT_FORMAT_JSON cs" "level_ok start_layout (Suc (length cs))"
    "fits env (length (json_text env start_layout cs) + 1)"
    "wcs env (json_text env start_layout cs @ [NL]) = Some str" "str \<noteq> []" "alloc_ok env (length str + 1)"
    "0 \<le> fputs_ret io OUTPUT_STDOUT str"
  shows "(\<exists>ms'. main env io w (linux_ops env q src) prog (letter_args ''json'' c) = Inr (ms', Exit) \<and>
      sink (out ms') = [(OUTPUT_STDOUT, str)]) \<and>
    jvalue (json_text env start_layout cs)"
  by (rule linux_driver.main_json [OF assms])

theorem main_json_letter_witness:
  "\<exists>ms'. main example_env example_io example_world example_ops ''/procenv'' [''--format=json'', ''-v''] = Inr (ms', Exit) \<and>
     sink (out ms') = [(OUTPUT_STDOUT, example_document)]"
proof -
  have args: "letter_args ''json'' (CHR ''v'') = [''--format=json'', ''-v'']" by (simp add: letter_args_def)
  obtain ms where ms: "init example_env example_world example_ops (mstate0 new_doc ''/procenv'' (letter_args ''json'' (CHR ''v''))) = Inr ms"
    using example_init by blast
  let ?cs = "C_header ''version'' # [C_entry ''name'' ''%s'' [PStr ''p''], C_entry ''version'' ''%s'' [PStr ''1''],
        C_entry ''author'' ''%s'' [PStr ''James O. D. Hunt <jamesodhunt@gmail.com>'']] @ [C_footer]"
  let ?t = "json_text example_env start_layout ?cs"
  have r: "letter_report example_env example_world example_ops st (CHR ''v'') g = Inr ?cs" for st g
    by (simp add: letter_report_def requery_def routine_def Let_def show_version_def in_header_def example_world_def example_pkg_def)
  have "\<forall>c \<in> set example_document. (of_char c :: nat) < 128" by (simp add: example_document_def unlines_def)
  then have w: "wcs example_env (?t @ [NL]) = Some example_document"
    unfolding example_json by (simp add: example_env_sel ascii_wcs_def L_def comp_def)
  have l: "length ?t + 1 = length example_document" using arg_cong [OF example_json, of length] by (simp add: L_def)
  have d: "length example_document \<le> 200" "example_document \<noteq> []" by (simp_all add: example_document_def unlines_def)
  have "level_ok start_layout (Suc (length ?cs))"
    by (simp add: level_ok_def level_def start_layout_def int_range_def)
  moreover have "list_all (plain_call example_env) ?cs" by (simp add: part_eval)
  moreover have "fits example_env (length ?t + 1)" "alloc_ok example_env (length example_document + 1)"
    using d(1) l by (simp_all add: example_memory del: append.simps)
  ultimately show ?thesis
    using main_json_letter [OF example_env_ok(1,2) example_plain_world(1) ms [unfolded example_ops_def] r [unfolded example_ops_def] _
        plain_calls_ok [OF example_env_ok(3)] _ _ w d(2) _ example_io_ok] example_plain_world(2)
    unfolding example_ops_def args by blast
qed

text \<open>
  C4: the calls of a dump are properly nested exactly when the network interfaces can be listed: then no
  element stays open and objects stand in containers only, whatever else the system answers; otherwise one
  section stays open, that of the network, and everything else is properly nested.
\<close>

theorem dump_well_nested:
  assumes "dump_report env w (linux_ops env q src) st g = Inr cs"
  shows "(members cs \<longleftrightarrow> q_getifaddrs (w_net w) \<noteq> None) \<and> (q_getifaddrs (w_net w) = None \<longrightarrow> shape cs [] = Some [Sec])"
proof (cases "q_getifaddrs (w_net w) = None")
  case True
  then have "shape cs [] = Some [Sec]" using linux_driver.dump_open_network [OF assms] by simp
  then show ?thesis using True by (auto simp: members_def intro!: exI [of _ "[]"])
next
  case False
  then show ?thesis using linux_driver.dump_complete [OF assms] by (auto simp: False)
qed

theorem dump_well_nested_witness:
  "\<exists>ms cs. init example_env example_world example_ops (mstate0 new_doc ''/procenv'' []) = Inr ms \<and>
     dump_report example_env example_world example_ops ((out ms)\<lparr>output_format := OUTPUT_FORMAT_XML\<rparr>) (glob ms) = Inr cs \<and> members cs"
proof -
  obtain ms cs where ms: "init example_env example_world example_ops (mstate0 new_doc ''/procenv'' []) = Inr ms"
    and cs: "dump_report example_env example_world example_ops ((out ms)\<lparr>output_format := OUTPUT_FORMAT_XML\<rparr>) (glob ms) = Inr cs"
    by (rule example_ready [of OUTPUT_FORMAT_XML "[]"]) simp_all
  then show ?thesis using dump_well_nested [OF cs [unfolded example_ops_def]] example_plain_world(2) by blast
qed

text \<open>
  C23: \<^verbatim>\<open>PROCENV_INDENT\<close> is not checked: a negative value makes a dump stop at the first assertion
  of the output routines.
\<close>

theorem negative_indent_aborts:
  assumes "\<And>name. w_getenv w name = (if name = ''PROCENV_INDENT'' then Some e else None)" "e \<noteq> []" "atoi e < 0"
    "pstring_new env = Some d" "init env w ops ((mstate0 d prog [])\<lparr>out := (out (mstate0 d prog []))\<lparr>indent_amount := atoi e\<rparr>\<rparr>) = Inr ms"
  shows "main env io w ops prog [] = Inl AssertFail"
proof -
  let ?m = "(mstate0 d prog [])\<lparr>out := (out (mstate0 d prog []))\<lparr>indent_amount := atoi e\<rparr>\<rparr>"
  have "check_envvars env w (mstate0 d prog []) = Inr ?m"
    using assms(1,2) by (simp add: check_envvars_def when_set_def set_indent_amount_def)
  moreover have s: "indent_amount (out ms) = atoi e" "\<not> displayed ms" "\<not> reexec ms"
    using init_settings(1,2) [OF assms(5)] settings_fields(3) [of "out ms" "out ?m"] by (auto simp: flow_def mstate0_def)
  moreover have "dump env w ops (ms\<lparr>out := output_init (out ms)\<rparr>) = Inl AssertFail"
    using s(1) assms(3) by (simp add: dump_def on_out_def master_header_def common_assert_def output_init_def guardE_def)
  ultimately show ?thesis using assms(1,4,5) by (simp add: main_def main_rest_def Let_def)
qed

definition indent_world :: world where
  "indent_world = example_world\<lparr>w_getenv := (\<lambda>name. if name = ''PROCENV_INDENT'' then Some ''-1'' else None)\<rparr>"

theorem negative_indent_aborts_witness:
  "main example_env example_io indent_world example_ops ''/procenv'' [] = Inl AssertFail"
proof -
  have a: "atoi ''-1'' = -1" by code_simp
  have p: "pstring_new example_env = Some new_doc" by (rule new_doc_alloc [of _ 1]) (simp add: example_memory)
  let ?m = "(mstate0 new_doc ''/procenv'' [])\<lparr>out := (out (mstate0 new_doc ''/procenv'' []))\<lparr>indent_amount := atoi ''-1''\<rparr>\<rparr>"
  obtain ms where "init example_env indent_world example_ops ?m = Inr ms"
    using example_start [of ?m "[]"] unfolding indent_world_def by (fastforce simp: mstate0_def ostate0_def DEFAULT_INDENT_CHAR_def)
  from negative_indent_aborts [OF _ _ _ p this] show ?thesis by (simp add: indent_world_def a)
qed

end
